(* ===== verification/Prelude.thy ===== *)
theory Prelude
  imports Main
begin

text \<open>
  What every theory of the development shares: the collections its proofs draw on and the
  generic lemmas on lists, options and maps that the library does not have in the form the
  component proofs use.

  \<^item> \<open>go_defs\<close> collects the definitions of the modelled standard library
    (bytes, strings), so that \<open>simp add: go_defs\<close> unfolds them.
  \<^item> \<open>len_simps\<close> collects the length bounds the termination proofs of the scanners need.
\<close>

named_theorems go_defs "definitions of the modelled Go standard library"
named_theorems len_simps "length bounds for termination proofs"

section \<open>Lists\<close>

lemma list_all_takeWhile [simp]: "list_all p (takeWhile p xs)"
  by (induction xs) auto

lemma takeWhile_list_all: "list_all p xs \<Longrightarrow> takeWhile p (xs @ ys) = xs @ takeWhile p ys"
  by (induction xs) auto

lemma dropWhile_list_all: "list_all p xs \<Longrightarrow> dropWhile p (xs @ ys) = dropWhile p ys"
  by (induction xs) auto

lemma dropWhile_Nil_iff: "dropWhile p xs = [] \<longleftrightarrow> list_all p xs"
  by (induction xs) auto

lemma dropWhile_hd_not: "dropWhile p xs = y # ys \<Longrightarrow> \<not> p y"
  by (induction xs) (auto split: if_splits)

lemma length_dropWhile_less [len_simps]: "length (dropWhile p xs) \<le> length xs"
  by (rule length_dropWhile_le)

lemma take_drop_split: "i \<le> j \<Longrightarrow> take i xs @ take (j - i) (drop i xs) = take j xs"
  by (metis le_add_diff_inverse take_add)

lemma filter_False_append: "filter (\<lambda>_. False) xs @ ys = ys"
  by simp

lemma list_all_concat: "list_all p (concat xss) \<longleftrightarrow> list_all (list_all p) xss"
  by (induction xss) auto

lemma map_idI: "(\<And>x. x \<in> set xs \<Longrightarrow> f x = x) \<Longrightarrow> map f xs = xs"
  by (induction xs) auto

lemma sum_list_zero_map: "sum_list (map f xs) = (0::nat) \<longleftrightarrow> (\<forall>x\<in>set xs. f x = 0)"
  by (induction xs) auto

lemma set_map_filter_ex: "set (List.map_filter f xs) = {y. \<exists>x\<in>set xs. f x = Some y}"
  by (induction xs) (auto simp: map_filter_simps split: option.splits)

section \<open>The first success of a list of attempts\<close>

text \<open>
  \<open>first_some f xs\<close> is the result of the first element of \<open>xs\<close> on which \<open>f\<close> succeeds:
  the shape of every loop of the code that returns from inside its body.
\<close>

fun first_some :: "('a \<Rightarrow> 'b option) \<Rightarrow> 'a list \<Rightarrow> 'b option" where
  "first_some f [] = None"
| "first_some f (x # xs) = (case f x of None \<Rightarrow> first_some f xs | Some y \<Rightarrow> Some y)"

lemma first_some_append:
  "first_some f (xs @ ys) = (case first_some f xs of None \<Rightarrow> first_some f ys | Some y \<Rightarrow> Some y)"
  by (induction xs) (auto split: option.splits)

lemma first_some_concat_map:
  "first_some f (concat (map g xs)) = first_some (\<lambda>x. first_some f (g x)) xs"
  by (induction xs) (auto simp: first_some_append split: option.splits)

lemma first_some_map: "first_some f (map g xs) = first_some (\<lambda>x. f (g x)) xs"
  by (induction xs) (auto split: option.splits)

lemma first_some_None: "first_some f xs = None \<longleftrightarrow> (\<forall>x\<in>set xs. f x = None)"
  by (induction xs) (auto split: option.splits)

lemma first_some_Some: "first_some f xs = Some y \<Longrightarrow> \<exists>x\<in>set xs. f x = Some y"
  by (induction xs) (auto split: option.splits)

lemma first_some_Some_head: "first_some Some xs = (case xs of [] \<Rightarrow> None | x # _ \<Rightarrow> Some x)"
  by (cases xs) auto

lemma first_some_cong [fundef_cong]:
  "xs = ys \<Longrightarrow> (\<And>x. x \<in> set ys \<Longrightarrow> f x = g x) \<Longrightarrow> first_some f xs = first_some g ys"
  by (induction xs arbitrary: ys) (auto split: option.splits)

section \<open>Stable insertion of the first occurrence\<close>

text \<open>\<open>dedup\<close> keeps the first occurrence of each element: the \<open>seen\<close> map of several loops.\<close>

fun dedup_seen :: "'a list \<Rightarrow> 'a list \<Rightarrow> 'a list" where
  "dedup_seen seen [] = []"
| "dedup_seen seen (x # xs) =
     (if x \<in> set seen then dedup_seen seen xs else x # dedup_seen (x # seen) xs)"

abbreviation dedup :: "'a list \<Rightarrow> 'a list" where
  "dedup \<equiv> dedup_seen []"

lemma set_dedup_seen: "set (dedup_seen seen xs) = set xs - set seen"
  by (induction seen xs rule: dedup_seen.induct) auto

lemma distinct_dedup_seen: "distinct (dedup_seen seen xs)"
  by (induction seen xs rule: dedup_seen.induct) (auto simp: set_dedup_seen)

lemma dedup_Nil_iff: "dedup xs = [] \<longleftrightarrow> xs = []"
  by (cases xs) auto

lemma dedup_seen_distinct:
  "distinct xs \<Longrightarrow> set xs \<inter> set seen = {} \<Longrightarrow> dedup_seen seen xs = xs"
  by (induction seen xs rule: dedup_seen.induct) auto

end
