(* ===== verification/GoStrings.thy ===== *)
theory GoStrings
  imports Prelude
begin

text \<open>
  The part of Go's \<open>strings\<close>, \<open>strconv\<close> and \<open>unicode\<close> packages that the source uses.

  A Go string is a sequence of bytes, and so is a HOL \<open>string\<close> (a list of 8-bit \<open>char\<close>s):
  lengths and indices are byte counts in both. Case mapping and white space are modelled on the
  ASCII bytes; a byte of \<open>0x80\<close> or above (part of a multi-byte UTF-8 rune) is never a letter,
  a digit or white space here. This differs from Go on the few runes outside ASCII whose case
  folding reaches an ASCII letter and on the white space runes outside ASCII; every
  comparison in the modelled code is against ASCII text.
\<close>

section \<open>Bytes\<close>

definition code :: "char \<Rightarrow> nat" where
  [go_defs]: "code c = of_char c"

definition in_range :: "nat \<Rightarrow> nat \<Rightarrow> char \<Rightarrow> bool" where
  [go_defs]: "in_range lo hi c \<longleftrightarrow> lo \<le> code c \<and> code c \<le> hi"

definition is_digit :: "char \<Rightarrow> bool" where
  [go_defs]: "is_digit c \<longleftrightarrow> in_range 48 57 c"

definition is_upper :: "char \<Rightarrow> bool" where
  [go_defs]: "is_upper c \<longleftrightarrow> in_range 65 90 c"

definition is_lower :: "char \<Rightarrow> bool" where
  [go_defs]: "is_lower c \<longleftrightarrow> in_range 97 122 c"

definition is_alpha :: "char \<Rightarrow> bool" where
  [go_defs]: "is_alpha c \<longleftrightarrow> is_upper c \<or> is_lower c"

definition is_alnum :: "char \<Rightarrow> bool" where
  [go_defs]: "is_alnum c \<longleftrightarrow> is_alpha c \<or> is_digit c"

text \<open>The bytes \<open>unicode.IsSpace\<close> accepts below \<open>0x80\<close>: \<open>\t \n \v \f \r\<close> and blank.\<close>

definition is_space :: "char \<Rightarrow> bool" where
  [go_defs]: "is_space c \<longleftrightarrow> in_range 9 13 c \<or> code c = 32"

definition NL :: char where [go_defs]: "NL = CHR 10"
definition TAB :: char where [go_defs]: "TAB = CHR 9"
definition CR :: char where [go_defs]: "CR = CHR 13"
definition QUOTE :: char where [go_defs]: "QUOTE = CHR 39"
definition DQUOTE :: char where [go_defs]: "DQUOTE = CHR 34"
definition BSLASH :: char where [go_defs]: "BSLASH = CHR 92"
definition BTICK :: char where [go_defs]: "BTICK = CHR 96"

definition lower_char :: "char \<Rightarrow> char" where
  [go_defs]: "lower_char c = (if is_upper c then char_of (code c + 32) else c)"

definition upper_char :: "char \<Rightarrow> char" where
  [go_defs]: "upper_char c = (if is_lower c then char_of (code c - 32) else c)"

text \<open>\<open>strings.ToLower\<close>, \<open>strings.ToUpper\<close> and \<open>strings.EqualFold\<close>.\<close>

definition to_lower :: "string \<Rightarrow> string" where
  [go_defs]: "to_lower s = map lower_char s"

definition to_upper :: "string \<Rightarrow> string" where
  [go_defs]: "to_upper s = map upper_char s"

definition equal_fold :: "string \<Rightarrow> string \<Rightarrow> bool" where
  [go_defs]: "equal_fold a b \<longleftrightarrow> to_lower a = to_lower b"

lemma code_less: "code c < 256"
  by (simp add: code_def)

lemma code_char_of: "n < 256 \<Longrightarrow> code (char_of n) = n"
  by (simp add: code_def)

lemma char_of_code [simp]: "char_of (code c) = c"
  by (simp add: code_def)

lemma code_inject: "code a = code b \<longleftrightarrow> a = b"
  by (metis char_of_code)

lemma lower_lower [simp]: "lower_char (lower_char c) = lower_char c"
  by (auto simp: lower_char_def is_upper_def in_range_def code_char_of)

lemma to_lower_lower [simp]: "to_lower (to_lower s) = to_lower s"
  by (simp add: to_lower_def)

lemma lower_eq_iff_upper: "is_upper c \<Longrightarrow> lower_char x = lower_char c \<longleftrightarrow> upper_char x = c"
  unfolding code_inject [symmetric]
  using code_less [of x] code_less [of c]
  by (auto simp: lower_char_def upper_char_def is_upper_def is_lower_def in_range_def code_char_of)

lemma length_to_upper [simp]: "length (to_upper s) = length s"
  by (simp add: to_upper_def)

lemma length_to_lower [simp]: "length (to_lower s) = length s"
  by (simp add: to_lower_def)

lemma to_lower_append [simp]: "to_lower (a @ b) = to_lower a @ to_lower b"
  by (simp add: to_lower_def)

lemma to_lower_Nil [simp]: "to_lower [] = []"
  by (simp add: to_lower_def)

lemma equal_fold_refl [simp]: "equal_fold s s"
  by (simp add: equal_fold_def)

text \<open>
  The same tests on the bits of a byte: what evaluation uses, since it never leaves the booleans.
\<close>

lemma is_upper_Char [simp, code]: "is_upper (Char b0 b1 b2 b3 b4 b5 b6 b7) \<longleftrightarrow>
   \<not> b7 \<and> b6 \<and> \<not> b5 \<and> (b0 \<or> b1 \<or> b2 \<or> b3 \<or> b4) \<and> \<not> (b4 \<and> b3 \<and> (b2 \<or> b1 \<and> b0))"
  by (cases b0; cases b1; cases b2; cases b3; cases b4; cases b5; cases b6; cases b7)
    (simp_all add: is_upper_def in_range_def code_def)

lemma is_lower_Char [simp, code]: "is_lower (Char b0 b1 b2 b3 b4 b5 b6 b7) \<longleftrightarrow>
   \<not> b7 \<and> b6 \<and> b5 \<and> (b0 \<or> b1 \<or> b2 \<or> b3 \<or> b4) \<and> \<not> (b4 \<and> b3 \<and> (b2 \<or> b1 \<and> b0))"
  by (cases b0; cases b1; cases b2; cases b3; cases b4; cases b5; cases b6; cases b7)
    (simp_all add: is_lower_def in_range_def code_def)

lemma is_digit_Char [simp, code]: "is_digit (Char b0 b1 b2 b3 b4 b5 b6 b7) \<longleftrightarrow>
   \<not> b7 \<and> \<not> b6 \<and> b5 \<and> b4 \<and> \<not> (b3 \<and> (b2 \<or> b1))"
  by (cases b0; cases b1; cases b2; cases b3; cases b4; cases b5; cases b6; cases b7)
    (simp_all add: is_digit_def in_range_def code_def)

lemma is_space_Char [simp, code]: "is_space (Char b0 b1 b2 b3 b4 b5 b6 b7) \<longleftrightarrow>
   \<not> b7 \<and> \<not> b6 \<and> \<not> b4 \<and>
   (if b5 then \<not> b3 \<and> \<not> b2 \<and> \<not> b1 \<and> \<not> b0 else b3 \<and> (if b2 then \<not> b1 else b1 \<or> b0))"
  by (cases b0; cases b1; cases b2; cases b3; cases b4; cases b5; cases b6; cases b7)
    (simp_all add: is_space_def in_range_def code_def)

lemma lower_Char [simp, code]: "lower_char (Char b0 b1 b2 b3 b4 b5 b6 b7) =
   (if is_upper (Char b0 b1 b2 b3 b4 b5 b6 b7) then Char b0 b1 b2 b3 b4 True True False
    else Char b0 b1 b2 b3 b4 b5 b6 b7)"
proof (cases "is_upper (Char b0 b1 b2 b3 b4 b5 b6 b7)")
  case True
  have "code (lower_char (Char b0 b1 b2 b3 b4 b5 b6 b7)) = code (Char b0 b1 b2 b3 b4 True True False)"
    using True by (simp add: lower_char_def code_char_of code_def)
  with True show ?thesis by (simp only: code_inject) simp
qed (simp only: lower_char_def if_False)

lemma upper_Char [simp, code]: "upper_char (Char b0 b1 b2 b3 b4 b5 b6 b7) =
   (if is_lower (Char b0 b1 b2 b3 b4 b5 b6 b7) then Char b0 b1 b2 b3 b4 False True False
    else Char b0 b1 b2 b3 b4 b5 b6 b7)"
proof (cases "is_lower (Char b0 b1 b2 b3 b4 b5 b6 b7)")
  case True
  have "code (upper_char (Char b0 b1 b2 b3 b4 b5 b6 b7)) = code (Char b0 b1 b2 b3 b4 False True False)"
    using True by (simp add: upper_char_def code_char_of code_def)
  with True show ?thesis by (simp only: code_inject) simp
qed (simp only: upper_char_def if_False)

section \<open>Prefixes, suffixes, searching\<close>

text \<open>\<open>strings.HasPrefix\<close>, \<open>strings.HasSuffix\<close>, \<open>strings.Index\<close> (\<open>None\<close> is \<open>-1\<close>),
  \<open>strings.IndexByte\<close>, \<open>strings.Contains\<close> and \<open>strings.ContainsRune\<close> of an ASCII rune.\<close>

definition has_prefix :: "string \<Rightarrow> string \<Rightarrow> bool" where
  "has_prefix s p \<longleftrightarrow> take (length p) s = p"

definition has_suffix :: "string \<Rightarrow> string \<Rightarrow> bool" where
  "has_suffix s p \<longleftrightarrow> has_prefix (rev s) (rev p)"

primrec str_index :: "string \<Rightarrow> string \<Rightarrow> nat option" where
  "str_index [] sub = (if sub = [] then Some 0 else None)"
| "str_index (c # cs) sub =
     (if has_prefix (c # cs) sub then Some 0 else map_option Suc (str_index cs sub))"

primrec index_byte :: "string \<Rightarrow> char \<Rightarrow> nat option" where
  "index_byte [] b = None"
| "index_byte (c # cs) b = (if c = b then Some 0 else map_option Suc (index_byte cs b))"

definition contains :: "string \<Rightarrow> string \<Rightarrow> bool" where
  "contains s sub \<longleftrightarrow> str_index s sub \<noteq> None"

definition contains_byte :: "string \<Rightarrow> char \<Rightarrow> bool" where
  "contains_byte s b \<longleftrightarrow> b \<in> set s"

lemma has_prefix_iff: "has_prefix s p \<longleftrightarrow> (\<exists>r. s = p @ r)"
  unfolding has_prefix_def by (metis append_eq_conv_conj append_take_drop_id)

lemma has_prefix_append [simp]: "has_prefix (p @ r) p"
  by (simp add: has_prefix_def)

lemma has_prefix_Nil [simp]: "has_prefix s []"
  by (simp add: has_prefix_def)

lemma has_suffix_iff: "has_suffix s p \<longleftrightarrow> (\<exists>r. s = r @ p)"
  unfolding has_suffix_def has_prefix_iff by (metis rev_append rev_rev_ident)

lemma str_index_Some:
  "str_index s sub = Some i \<Longrightarrow> i + length sub \<le> length s \<and> take (length sub) (drop i s) = sub"
proof (induction s arbitrary: i)
  case Nil
  then show ?case by (auto split: if_splits)
next
  case (Cons c cs)
  show ?case
  proof (cases "has_prefix (c # cs) sub")
    case True
    with Cons.prems have "i = 0" by simp
    moreover from True obtain r where "c # cs = sub @ r" by (auto simp: has_prefix_iff)
    ultimately show ?thesis by simp
  next
    case False
    with Cons show ?thesis by auto
  qed
qed

lemma str_index_first:
  "str_index s sub = Some i \<Longrightarrow> j < i \<Longrightarrow> \<not> has_prefix (drop j s) sub"
proof (induction s arbitrary: i j)
  case Nil
  then show ?case by (auto split: if_splits)
next
  case (Cons c cs)
  then show ?case by (cases j) (auto split: if_splits)
qed

lemma str_index_None_iff: "str_index s sub = None \<longleftrightarrow> (\<forall>j\<le>length s. \<not> has_prefix (drop j s) sub)"
proof (induction s)
  case Nil
  then show ?case by (auto simp: has_prefix_def)
next
  case (Cons c cs)
  have "(\<forall>j\<le>length (c # cs). \<not> has_prefix (drop j (c # cs)) sub) \<longleftrightarrow>
    \<not> has_prefix (c # cs) sub \<and> (\<forall>j\<le>length cs. \<not> has_prefix (drop j cs) sub)"
    using All_less_Suc2 [of "Suc (length cs)" "\<lambda>j. \<not> has_prefix (drop j (c # cs)) sub"]
    by (simp add: less_Suc_eq_le)
  with Cons show ?case by auto
qed

lemma contains_iff: "contains s sub \<longleftrightarrow> (\<exists>a b. s = a @ sub @ b)"
proof
  assume "contains s sub"
  then obtain i where "str_index s sub = Some i" by (auto simp: contains_def)
  then have "take (length sub) (drop i s) = sub" by (simp add: str_index_Some)
  then show "\<exists>a b. s = a @ sub @ b" by (metis append_take_drop_id)
next
  assume "\<exists>a b. s = a @ sub @ b"
  then obtain a b where s: "s = a @ sub @ b" by blast
  then have "has_prefix (drop (length a) s) sub" by simp
  moreover have "length a \<le> length s" by (simp add: s)
  ultimately have "str_index s sub \<noteq> None" by (auto simp: str_index_None_iff)
  then show "contains s sub" by (simp add: contains_def)
qed

lemma index_byte_Some: "index_byte s b = Some i \<Longrightarrow> i < length s \<and> s ! i = b \<and> b \<notin> set (take i s)"
  by (induction s arbitrary: i) (auto split: if_splits)

lemma index_byte_None [simp]: "index_byte s b = None \<longleftrightarrow> b \<notin> set s"
  by (induction s) auto

text \<open>\<open>strings.LastIndex\<close>\<close>

definition last_index :: "string \<Rightarrow> string \<Rightarrow> nat option" where
  "last_index s sub = (case filter (\<lambda>i. has_prefix (drop i s) sub) (rev [0..<Suc (length s)]) of
     [] \<Rightarrow> None | i # _ \<Rightarrow> Some i)"

section \<open>Splitting, joining, replacing\<close>

text \<open>
  \<open>strings.Split\<close> with a one-byte separator, \<open>strings.Join\<close>, \<open>strings.ReplaceAll\<close> with a
  non-empty old string, \<open>strings.Count\<close> of one byte, and \<open>strings.Fields\<close>.
\<close>

fun split_byte :: "char \<Rightarrow> string \<Rightarrow> string list" where
  "split_byte b [] = [[]]"
| "split_byte b (c # cs) =
     (if c = b then [] # split_byte b cs
      else (case split_byte b cs of [] \<Rightarrow> [[c]] | p # ps \<Rightarrow> (c # p) # ps))"

fun str_join :: "string \<Rightarrow> string list \<Rightarrow> string" where
  "str_join sep [] = []"
| "str_join sep [x] = x"
| "str_join sep (x # y # ys) = x @ sep @ str_join sep (y # ys)"

function str_replace :: "string \<Rightarrow> string \<Rightarrow> string \<Rightarrow> string" where
  "str_replace old new [] = []"
| "str_replace old new (c # cs) =
     (if old \<noteq> [] \<and> has_prefix (c # cs) old then new @ str_replace old new (drop (length old) (c # cs))
      else c # str_replace old new cs)"
  by pat_completeness auto
termination
proof (relation "measure (\<lambda>(old, new, s). length s)", goal_cases)
  case (2 old new c cs)
  then show ?case by (cases old) auto
qed auto

definition count_byte :: "string \<Rightarrow> char \<Rightarrow> nat" where
  "count_byte s b = count_list s b"

function str_fields :: "string \<Rightarrow> string list" where
  "str_fields [] = []"
| "str_fields (c # cs) =
     (if is_space c then str_fields cs
      else (c # takeWhile (\<lambda>x. \<not> is_space x) cs) # str_fields (dropWhile (\<lambda>x. \<not> is_space x) cs))"
  by pat_completeness auto
termination
  by (relation "measure length") (auto simp: le_imp_less_Suc length_dropWhile_le)

lemma split_byte_not_Nil [simp]: "split_byte b s \<noteq> []"
  by (induction s) (auto split: list.splits)

lemma join_split_byte [simp]: "str_join [b] (split_byte b s) = s"
proof (induction s)
  case Nil
  then show ?case by simp
next
  case (Cons c cs)
  obtain p ps where ps: "split_byte b cs = p # ps" by (cases "split_byte b cs") auto
  then show ?case using Cons by (cases ps) auto
qed

lemma split_byte_parts: "p \<in> set (split_byte b s) \<Longrightarrow> b \<notin> set p"
  by (induction s arbitrary: p) (auto split: list.splits if_splits)

lemma split_byte_noB: "b \<notin> set s \<Longrightarrow> split_byte b s = [s]"
  by (induction s) auto

lemma split_byte_append: "b \<notin> set s \<Longrightarrow> split_byte b (s @ b # t) = s # split_byte b t"
  by (induction s) auto

lemma split_join_byte:
  "xs \<noteq> [] \<Longrightarrow> \<forall>x\<in>set xs. b \<notin> set x \<Longrightarrow> split_byte b (str_join [b] xs) = xs"
  by (induction "[b]" xs rule: str_join.induct) (auto simp: split_byte_noB split_byte_append)

lemma length_split_byte: "length (split_byte b s) = Suc (count_byte s b)"
  by (induction s) (auto simp: count_byte_def split: list.splits)

lemma str_join_Cons: "xs \<noteq> [] \<Longrightarrow> str_join sep (x # xs) = x @ sep @ str_join sep xs"
  by (cases xs) auto

lemma str_join_append:
  "xs \<noteq> [] \<Longrightarrow> ys \<noteq> [] \<Longrightarrow> str_join sep (xs @ ys) = str_join sep xs @ sep @ str_join sep ys"
proof (induction xs)
  case (Cons x xs)
  then show ?case by (cases "xs = []") (auto simp: str_join_Cons)
qed simp

lemma str_fields_nonempty: "f \<in> set (str_fields s) \<Longrightarrow> f \<noteq> []"
  by (induction s rule: str_fields.induct) (auto split: if_splits)

lemma str_fields_Nil_iff: "str_fields s = [] \<longleftrightarrow> list_all is_space s"
  by (induction s rule: str_fields.induct) auto

section \<open>Trimming\<close>

text \<open>\<open>strings.TrimLeft\<close> and \<open>strings.TrimRight\<close> with their cutset as a predicate,
  \<open>strings.Trim\<close>, \<open>strings.TrimSpace\<close> and \<open>strings.TrimSuffix\<close>.\<close>

definition trim_left :: "(char \<Rightarrow> bool) \<Rightarrow> string \<Rightarrow> string" where
  "trim_left p s = dropWhile p s"

definition trim_right :: "(char \<Rightarrow> bool) \<Rightarrow> string \<Rightarrow> string" where
  "trim_right p s = rev (dropWhile p (rev s))"

definition trim_both :: "(char \<Rightarrow> bool) \<Rightarrow> string \<Rightarrow> string" where
  "trim_both p s = trim_right p (trim_left p s)"

definition trim_space :: "string \<Rightarrow> string" where
  "trim_space s = trim_both is_space s"

definition trim_suffix :: "string \<Rightarrow> string \<Rightarrow> string" where
  "trim_suffix s suf = (if has_suffix s suf then take (length s - length suf) s else s)"

text \<open>The cutset \<open>" \t\r\n"\<close> the source passes to several calls.\<close>

definition is_cut_ws :: "char \<Rightarrow> bool" where
  [go_defs]: "is_cut_ws c \<longleftrightarrow> c = CHR '' '' \<or> c = TAB \<or> c = CR \<or> c = NL"

lemma trim_right_Nil [simp]: "trim_right p [] = []"
  by (simp add: trim_right_def)

lemma trim_right_snoc: "trim_right p (s @ [c]) = (if p c then trim_right p s else s @ [c])"
  by (simp add: trim_right_def)

lemma trim_right_split: "\<exists>t. s = trim_right p s @ t \<and> list_all p t"
proof (intro exI conjI)
  show "s = trim_right p s @ rev (takeWhile p (rev s))"
    by (metis rev_append rev_rev_ident takeWhile_dropWhile_id trim_right_def)
  show "list_all p (rev (takeWhile p (rev s)))"
    by (auto simp: list_all_iff dest: set_takeWhileD)
qed

lemma trim_right_append_all: "list_all p t \<Longrightarrow> trim_right p (s @ t) = trim_right p s"
  by (simp add: trim_right_def dropWhile_list_all list_all_iff)

lemma trim_right_idem [simp]: "trim_right p (trim_right p s) = trim_right p s"
  by (induction s rule: rev_induct) (auto simp: trim_right_snoc)

lemma trim_left_idem [simp]: "trim_left p (trim_left p s) = trim_left p s"
  by (simp add: trim_left_def)

lemma trim_right_last: "trim_right p s \<noteq> [] \<Longrightarrow> \<not> p (last (trim_right p s))"
  by (induction s rule: rev_induct) (auto simp: trim_right_snoc)

lemma trim_right_keep: "s \<noteq> [] \<Longrightarrow> \<not> p (last s) \<Longrightarrow> trim_right p (s @ t) = s @ trim_right p t"
proof (induction t rule: rev_induct)
  case Nil
  then show ?case by (cases s rule: rev_cases) (simp_all add: trim_right_snoc)
next
  case (snoc c t)
  then show ?case using trim_right_snoc [of p "s @ t" c] by (simp add: trim_right_snoc)
qed

lemma trim_both_Nil_iff: "trim_both p s = [] \<longleftrightarrow> list_all p s"
proof -
  have "trim_right p t = [] \<longleftrightarrow> list_all p t" for t
    by (simp add: trim_right_def dropWhile_Nil_iff list_all_iff)
  then show ?thesis
    by (induction s) (auto simp: trim_both_def trim_left_def)
qed

lemma set_trim_both: "set (trim_both p s) \<subseteq> set s"
  unfolding trim_both_def trim_left_def trim_right_def
  by (metis set_dropWhileD set_rev subsetI)

lemma dropWhile_rev_dropWhile: "dropWhile p (rev (dropWhile p (rev (dropWhile p s)))) = rev (dropWhile p (rev (dropWhile p s)))"
proof (cases "dropWhile p s")
  case Nil
  show ?thesis unfolding Nil by simp
next
  case (Cons c cs)
  then have "\<not> p c" by (rule dropWhile_hd_not)
  then show ?thesis unfolding Cons by (simp add: dropWhile_append)
qed

lemma trim_both_idem [simp]: "trim_both p (trim_both p s) = trim_both p s"
  unfolding trim_both_def trim_left_def
  using dropWhile_rev_dropWhile [of p s] by (simp add: trim_right_def)

section \<open>Decimal numbers\<close>

text \<open>
  \<open>nat_str\<close> is \<open>strconv.Itoa\<close> (and \<open>%d\<close>) on a non-negative number, \<open>int_str\<close> on any.
  \<open>parse_int64\<close> is \<open>strconv.Atoi\<close> and \<open>strconv.ParseInt(s, 10, 64)\<close> on a 64-bit platform: an
  optional sign and at least one digit; a value out of range is clamped and reported. (On a
  string that is both too long and malformed Go reports the range error first; no caller
  distinguishes the two.)
\<close>

fun nat_str :: "nat \<Rightarrow> string" where
  "nat_str n = (if n < 10 then [char_of (48 + n)] else nat_str (n div 10) @ [char_of (48 + n mod 10)])"

declare nat_str.simps [simp del]

definition int_str :: "int \<Rightarrow> string" where
  "int_str i = (if i < 0 then CHR ''-'' # nat_str (nat (- i)) else nat_str (nat i))"

fun digits_val :: "nat \<Rightarrow> string \<Rightarrow> nat" where
  "digits_val a [] = a"
| "digits_val a (c # cs) = digits_val (10 * a + (code c - 48)) cs"

datatype num_error = ErrSyntax | ErrRange

definition max_int64 :: int where "max_int64 = 9223372036854775807"
definition min_int64 :: int where "min_int64 = - 9223372036854775808"

definition split_sign :: "string \<Rightarrow> bool \<times> string" where
  "split_sign s = (case s of [] \<Rightarrow> (False, [])
     | c # cs \<Rightarrow> if c = CHR ''-'' then (True, cs) else if c = CHR ''+'' then (False, cs) else (False, s))"

definition parse_int64 :: "string \<Rightarrow> int \<times> num_error option" where
  "parse_int64 s =
     (let (neg, ds) = split_sign s in
      if ds = [] \<or> \<not> list_all is_digit ds then (0, Some ErrSyntax)
      else let n = int (digits_val 0 ds); v = (if neg then - n else n) in
        if v > max_int64 then (max_int64, Some ErrRange)
        else if v < min_int64 then (min_int64, Some ErrRange)
        else (v, None))"

lemma digits_val_append: "digits_val a (xs @ ys) = digits_val (digits_val a xs) ys"
  by (induction a xs rule: digits_val.induct) auto

lemma digit_chars:
  "char_of (48::nat) = CHR ''0''" "char_of (49::nat) = CHR ''1''" "char_of (50::nat) = CHR ''2''"
  "char_of (51::nat) = CHR ''3''" "char_of (52::nat) = CHR ''4''" "char_of (53::nat) = CHR ''5''"
  "char_of (54::nat) = CHR ''6''" "char_of (55::nat) = CHR ''7''" "char_of (56::nat) = CHR ''8''"
  "char_of (57::nat) = CHR ''9''"
  by (simp_all add: char_of_def bit_0)

lemma nat_str_less: "n < 10 \<Longrightarrow> nat_str n = [char_of (48 + n)]"
  by (subst nat_str.simps) simp

lemma nat_str_ge: "\<not> n < 10 \<Longrightarrow> nat_str n = nat_str (n div 10) @ [char_of (48 + n mod 10)]"
  by (subst nat_str.simps) simp

lemmas nat_str_eval = nat_str_less nat_str_ge digit_chars

lemma digits_val_zero: "\<forall>c\<in>set s. c = CHR ''0'' \<Longrightarrow> digits_val 0 s = 0"
  by (induction s) (auto simp: code_def)

lemma digits_nat_str: "list_all is_digit (nat_str n)"
proof (induction n rule: nat_str.induct)
  case (1 n)
  have d: "is_digit (char_of (48 + m))" if "m < 10" for m :: nat
    using that by (simp add: is_digit_def in_range_def code_char_of)
  show ?case
    using "1" by (subst nat_str.simps) (auto simp: d)
qed

lemma nat_str_not_Nil [simp]: "nat_str n \<noteq> []"
  by (subst nat_str.simps) simp

lemma digits_val_nat_str: "digits_val 0 (nat_str n) = n"
proof (induction n rule: nat_str.induct)
  case (1 n)
  then show ?case
    by (subst nat_str.simps) (auto simp: digits_val_append code_char_of)
qed

lemma is_digit_not: "is_digit c \<Longrightarrow> c \<noteq> CHR ''-'' \<and> c \<noteq> CHR ''+'' \<and> c \<noteq> CHR ''.''"
  by (auto simp: is_digit_def in_range_def code_def)

lemma split_sign_digits: "list_all is_digit s \<Longrightarrow> split_sign s = (False, s)"
  by (cases s) (auto simp: split_sign_def dest: is_digit_not)

lemma parse_int64_nat_str: "int n \<le> max_int64 \<Longrightarrow> parse_int64 (nat_str n) = (int n, None)"
  by (simp add: parse_int64_def split_sign_digits digits_nat_str digits_val_nat_str min_int64_def)

lemma parse_int64_int_str:
  assumes "min_int64 \<le> i" "i \<le> max_int64"
  shows "parse_int64 (int_str i) = (i, None)"
proof (cases "i < 0")
  case True
  then show ?thesis using assms
    by (simp add: int_str_def parse_int64_def split_sign_def digits_nat_str digits_val_nat_str max_int64_def)
next
  case False
  then show ?thesis using assms by (simp add: int_str_def parse_int64_nat_str)
qed

lemma parse_int64_bounds: "parse_int64 s = (v, e) \<Longrightarrow> min_int64 \<le> v \<and> v \<le> max_int64"
  by (auto simp: parse_int64_def max_int64_def min_int64_def Let_def split: prod.splits if_splits)

section \<open>Quoting\<close>

definition hex_digits :: "nat \<Rightarrow> char" where
  "hex_digits n = (if n < 10 then char_of (48 + n) else char_of (87 + n))"

text \<open>\<open>%q\<close> on text; bytes of 0x80 and above (parts of printable runes) stand for themselves.\<close>

definition go_quote_char :: "char \<Rightarrow> string" where
  "go_quote_char c =
     (if c = DQUOTE \<or> c = BSLASH then [BSLASH, c]
      else if c = CHR 7 then BSLASH # ''a'' else if c = CHR 8 then BSLASH # ''b'' else if c = CHR 12 then BSLASH # ''f''
      else if c = NL then BSLASH # ''n'' else if c = CR then BSLASH # ''r'' else if c = TAB then BSLASH # ''t''
      else if c = CHR 11 then BSLASH # ''v''
      else if code c < 32 \<or> code c = 127 then BSLASH # ''x'' @ [hex_digits (code c div 16), hex_digits (code c mod 16)]
      else [c])"

definition go_quote :: "string \<Rightarrow> string" where
  "go_quote s = DQUOTE # concat (map go_quote_char s) @ [DQUOTE]"

end
