(* ===== verification/GoRegexp.thy ===== *)
theory GoRegexp
  imports GoStrings
begin

text \<open>
  The part of Go's \<open>regexp\<close> package that the source uses: a pattern is a value of the datatype
  \<open>re\<close>, and a match is found with the package's leftmost-first rule (the earliest start, and from
  there the alternative that a backtracking search tries first; greedy repetitions try the longest
  continuation first, lazy ones the shortest).

  \<open>matches\<close> lists every way a pattern matches at a position, in order of preference; it is what the
  proofs use. \<open>match_k\<close> is the backtracking search itself, which stops at the first success; it is
  what evaluation uses, and \<open>match_k_matches\<close> proves that the two agree.

  No pattern that the source passes to \<open>ReplaceAll\<close> or \<open>FindAll\<close> can match the empty string, so
  \<open>replace_from\<close> and \<open>find_all_from\<close> step over an empty match without reporting it.
\<close>

section \<open>Patterns and match states\<close>

datatype re =
    Cls "char \<Rightarrow> bool"
  | Eps
  | Seq re re
  | Alt re re
  | Star bool re
  | Grp nat re
  | Bot
  | Bol
  | Eol
  | Eot
  | WordB

type_synonym caps = "(nat \<times> nat \<times> nat) list"

datatype mst = M (mpos: nat) (mprev: "char option") (mrest: string) (mcaps: caps)

text \<open>Byte classes: \<open>\w\<close>, \<open>\d\<close>, \<open>\s\<close> (which, unlike \<open>unicode.IsSpace\<close>, leaves \<open>\v\<close> out).\<close>

definition re_word :: "char \<Rightarrow> bool" where
  "re_word c \<longleftrightarrow> is_alnum c \<or> c = CHR ''_''"

definition re_space :: "char \<Rightarrow> bool" where
  "re_space c \<longleftrightarrow> c = CHR '' '' \<or> c = TAB \<or> c = NL \<or> c = CR \<or> c = CHR 12"

definition opt_word :: "char option \<Rightarrow> bool" where
  "opt_word oc = (case oc of None \<Rightarrow> False | Some c \<Rightarrow> re_word c)"

definition next_char :: "string \<Rightarrow> char option" where
  "next_char s = (case s of [] \<Rightarrow> None | c # _ \<Rightarrow> Some c)"

text \<open>Derived patterns.\<close>

fun lit :: "string \<Rightarrow> re" where
  "lit [] = Eps"
| "lit [c] = Cls (\<lambda>x. x = c)"
| "lit (c # cs) = Seq (Cls (\<lambda>x. x = c)) (lit cs)"

fun ilit :: "string \<Rightarrow> re" where
  "ilit [] = Eps"
| "ilit [c] = Cls (\<lambda>x. lower_char x = lower_char c)"
| "ilit (c # cs) = Seq (Cls (\<lambda>x. lower_char x = lower_char c)) (ilit cs)"

fun alts :: "re list \<Rightarrow> re" where
  "alts [] = Cls (\<lambda>_. False)"
| "alts [r] = r"
| "alts (r # rs) = Alt r (alts rs)"

fun seqs :: "re list \<Rightarrow> re" where
  "seqs [] = Eps"
| "seqs [r] = r"
| "seqs (r # rs) = Seq r (seqs rs)"

primrec times :: "nat \<Rightarrow> re \<Rightarrow> re" where
  "times 0 r = Eps"
| "times (Suc n) r = Seq r (times n r)"

text \<open>\<open>r{m,n}\<close>, greedy: \<open>m\<close> copies and then up to \<open>n - m\<close> optional ones.\<close>

primrec upto_n :: "nat \<Rightarrow> re \<Rightarrow> re" where
  "upto_n 0 r = Eps"
| "upto_n (Suc n) r = Alt (Seq r (upto_n n r)) Eps"

abbreviation any_star :: "re \<Rightarrow> re" where "any_star r \<equiv> Star True r"
abbreviation lazy_star :: "re \<Rightarrow> re" where "lazy_star r \<equiv> Star False r"
abbreviation plus_of :: "re \<Rightarrow> re" where "plus_of r \<equiv> Seq r (Star True r)"
abbreviation opt_of :: "re \<Rightarrow> re" where "opt_of r \<equiv> Alt r Eps"

section \<open>All matches, in order of preference\<close>

primrec star_list :: "bool \<Rightarrow> (mst \<Rightarrow> mst list) \<Rightarrow> nat \<Rightarrow> mst \<Rightarrow> mst list" where
  "star_list g f 0 st = [st]"
| "star_list g f (Suc n) st =
     (let more = concat (map (star_list g f n) (filter (\<lambda>t. mpos st < mpos t) (f st)))
      in if g then more @ [st] else st # more)"

primrec matches :: "re \<Rightarrow> mst \<Rightarrow> mst list" where
  "matches (Cls p) st = (case mrest st of [] \<Rightarrow> []
     | c # cs \<Rightarrow> if p c then [M (Suc (mpos st)) (Some c) cs (mcaps st)] else [])"
| "matches Eps st = [st]"
| "matches (Seq a b) st = concat (map (matches b) (matches a st))"
| "matches (Alt a b) st = matches a st @ matches b st"
| "matches (Star g r) st = star_list g (matches r) (length (mrest st)) st"
| "matches (Grp n r) st =
     map (\<lambda>t. M (mpos t) (mprev t) (mrest t) ((n, mpos st, mpos t) # mcaps t)) (matches r st)"
| "matches Bot st = (if mprev st = None then [st] else [])"
| "matches Bol st = (if mprev st = None \<or> mprev st = Some NL then [st] else [])"
| "matches Eol st = (if mrest st = [] \<or> next_char (mrest st) = Some NL then [st] else [])"
| "matches Eot st = (if mrest st = [] then [st] else [])"
| "matches WordB st = (if opt_word (mprev st) \<noteq> opt_word (next_char (mrest st)) then [st] else [])"

section \<open>The backtracking search\<close>

primrec star_k :: "bool \<Rightarrow> (mst \<Rightarrow> (mst \<Rightarrow> mst option) \<Rightarrow> mst option) \<Rightarrow> nat \<Rightarrow> mst
    \<Rightarrow> (mst \<Rightarrow> mst option) \<Rightarrow> mst option" where
  "star_k g f 0 st k = k st"
| "star_k g f (Suc n) st k =
     (if g then (case f st (\<lambda>t. if mpos st < mpos t then star_k g f n t k else None) of
                   None \<Rightarrow> k st | Some x \<Rightarrow> Some x)
      else (case k st of
              None \<Rightarrow> f st (\<lambda>t. if mpos st < mpos t then star_k g f n t k else None)
            | Some x \<Rightarrow> Some x))"

primrec match_k :: "re \<Rightarrow> mst \<Rightarrow> (mst \<Rightarrow> mst option) \<Rightarrow> mst option" where
  "match_k (Cls p) st k = (case mrest st of [] \<Rightarrow> None
     | c # cs \<Rightarrow> if p c then k (M (Suc (mpos st)) (Some c) cs (mcaps st)) else None)"
| "match_k Eps st k = k st"
| "match_k (Seq a b) st k = match_k a st (\<lambda>t. match_k b t k)"
| "match_k (Alt a b) st k = (case match_k a st k of None \<Rightarrow> match_k b st k | Some x \<Rightarrow> Some x)"
| "match_k (Star g r) st k = star_k g (match_k r) (length (mrest st)) st k"
| "match_k (Grp n r) st k =
     match_k r st (\<lambda>t. k (M (mpos t) (mprev t) (mrest t) ((n, mpos st, mpos t) # mcaps t)))"
| "match_k Bot st k = (if mprev st = None then k st else None)"
| "match_k Bol st k = (if mprev st = None \<or> mprev st = Some NL then k st else None)"
| "match_k Eol st k = (if mrest st = [] \<or> next_char (mrest st) = Some NL then k st else None)"
| "match_k Eot st k = (if mrest st = [] then k st else None)"
| "match_k WordB st k =
     (if opt_word (mprev st) \<noteq> opt_word (next_char (mrest st)) then k st else None)"

lemma first_some_filter:
  "first_some k (filter p xs) = first_some (\<lambda>x. if p x then k x else None) xs"
  by (induction xs) (auto split: option.splits)

lemma star_k_list:
  assumes "\<And>st k. f st k = first_some k (h st)"
  shows "star_k g f n st k = first_some k (star_list g h n st)"
proof (induction n arbitrary: st)
  case 0
  then show ?case by (auto split: option.splits)
next
  case (Suc n)
  have eq: "(\<lambda>t. if mpos st < mpos t then star_k g f n t k else None)
      = (\<lambda>t. if mpos st < mpos t then first_some k (star_list g h n t) else None)"
    by (simp add: Suc.IH fun_eq_iff)
  have step: "star_k g f (Suc n) st k =
      (let m = first_some (\<lambda>t. if mpos st < mpos t then first_some k (star_list g h n t) else None) (h st)
       in if g then (case m of None \<Rightarrow> k st | Some x \<Rightarrow> Some x)
          else (case k st of None \<Rightarrow> m | Some x \<Rightarrow> Some x))"
    unfolding star_k.simps eq assms [of st] Let_def ..
  show ?case
    unfolding step
    by (induct g) (simp_all add: first_some_append first_some_concat_map first_some_filter split: option.split)
qed

theorem match_k_matches: "match_k r st k = first_some k (matches r st)"
proof (induction r arbitrary: st k)
  case (Star g r)
  then show ?case by (simp add: star_k_list [where h = "matches r"])
next
  case (Grp n r)
  have "first_some k (map h xs) = first_some (\<lambda>t. k (h t)) xs" for h and xs :: "mst list"
    by (induction xs) (auto split: option.splits)
  then show ?case by (simp add: Grp)
qed (auto simp: first_some_concat_map first_some_append split: list.splits option.splits)

definition first_match :: "re \<Rightarrow> mst \<Rightarrow> mst option" where
  [code]: "first_match r st = match_k r st Some"

lemma first_match_matches: "first_match r st = (case matches r st of [] \<Rightarrow> None | t # _ \<Rightarrow> Some t)"
  by (simp add: first_match_def match_k_matches first_some_Some_head)

lemma first_match_None: "first_match r st = None \<longleftrightarrow> matches r st = []"
  by (simp add: first_match_matches split: list.splits)

lemma first_match_in: "first_match r st = Some t \<Longrightarrow> t \<in> set (matches r st)"
  by (auto simp: first_match_matches split: list.splits)

section \<open>A match consumes a stretch of the text\<close>

text \<open>\<open>consumed k st t\<close>: from \<open>st\<close> to \<open>t\<close>, exactly the next \<open>k\<close> bytes were read.\<close>

definition consumed :: "nat \<Rightarrow> mst \<Rightarrow> mst \<Rightarrow> bool" where
  "consumed k st t \<longleftrightarrow> k \<le> length (mrest st) \<and> mpos t = mpos st + k \<and> mrest t = drop k (mrest st)
     \<and> mprev t = (if k = 0 then mprev st else Some (mrest st ! (k - 1)))"

lemma consumed_refl [simp]: "consumed 0 st st"
  by (simp add: consumed_def)

lemma consumed_trans: "consumed j st t \<Longrightarrow> consumed k t u \<Longrightarrow> consumed (j + k) st u"
  by (auto simp: consumed_def add.commute add_diff_eq)

lemma star_list_consumed:
  assumes "\<And>st t. t \<in> set (f st) \<Longrightarrow> \<exists>k. consumed k st t"
  shows "t \<in> set (star_list g f n st) \<Longrightarrow> \<exists>k. consumed k st t"
proof (induction n arbitrary: st)
  case 0
  then show ?case by (auto intro: consumed_refl)
next
  case (Suc n)
  then show ?case
    by (auto simp: Let_def split: if_splits intro: consumed_refl)
      (meson assms consumed_trans)+
qed

lemma matches_consumed: "t \<in> set (matches r st) \<Longrightarrow> \<exists>k. consumed k st t"
proof (induction r arbitrary: st t)
  case (Cls p)
  then show ?case
    by (cases st) (intro exI [of _ 1], auto simp: consumed_def split: list.splits if_splits)
next
  case (Seq a b)
  then show ?case by (auto) (meson consumed_trans)
next
  case (Star g r)
  then show ?case by (auto dest: star_list_consumed [rotated])
next
  case (Grp n r)
  then show ?case by (fastforce simp: consumed_def)
qed (auto intro: consumed_refl split: if_splits)

lemma first_match_consumed: "first_match r st = Some t \<Longrightarrow> \<exists>k. consumed k st t"
  by (rule matches_consumed) (rule first_match_in)

section \<open>Searching, replacing, listing\<close>

text \<open>
  \<open>re_find r s\<close> is \<open>FindStringSubmatchIndex\<close>: start, end and groups of the leftmost match.
  \<open>match_string\<close> is \<open>MatchString\<close>, \<open>find_string\<close> is \<open>FindString\<close> (\<open>None\<close> for no match),
  \<open>group\<close> reads one group of a match as text.
\<close>

fun find_from :: "re \<Rightarrow> nat \<Rightarrow> char option \<Rightarrow> string \<Rightarrow> (nat \<times> nat \<times> caps) option" where
  "find_from r i pv [] = (case first_match r (M i pv [] []) of None \<Rightarrow> None
     | Some t \<Rightarrow> Some (i, mpos t, mcaps t))"
| "find_from r i pv (c # cs) = (case first_match r (M i pv (c # cs) []) of
       Some t \<Rightarrow> Some (i, mpos t, mcaps t)
     | None \<Rightarrow> find_from r (Suc i) (Some c) cs)"

definition re_find :: "re \<Rightarrow> string \<Rightarrow> (nat \<times> nat \<times> caps) option" where
  "re_find r s = find_from r 0 None s"

definition match_string :: "re \<Rightarrow> string \<Rightarrow> bool" where
  "match_string r s \<longleftrightarrow> re_find r s \<noteq> None"

definition slice :: "string \<Rightarrow> nat \<Rightarrow> nat \<Rightarrow> string" where
  "slice s a b = take (b - a) (drop a s)"

lemma slice_mid: "i = length a \<Longrightarrow> j = length a + length m \<Longrightarrow> slice (a @ m @ b) i j = m"
  by (simp add: slice_def)

definition find_string :: "re \<Rightarrow> string \<Rightarrow> string option" where
  "find_string r s = map_option (\<lambda>(a, b, _). slice s a b) (re_find r s)"

definition group :: "string \<Rightarrow> caps \<Rightarrow> nat \<Rightarrow> string" where
  "group s cs n = (case map_of cs n of None \<Rightarrow> [] | Some (a, b) \<Rightarrow> slice s a b)"

text \<open>The length of the match that starts at a position, 0 for none.\<close>

definition match_len :: "re \<Rightarrow> nat \<Rightarrow> char option \<Rightarrow> string \<Rightarrow> nat" where
  "match_len r i pv s = (case first_match r (M i pv s []) of None \<Rightarrow> 0 | Some t \<Rightarrow> mpos t - i)"

text \<open>
  \<open>replace_count r f s\<close> is \<open>ReplaceAllStringFunc\<close> with a function that also counts: each match
  \<open>m\<close> becomes the text of \<open>f m\<close>, and the counts are added.
\<close>

function replace_from :: "re \<Rightarrow> (string \<Rightarrow> string \<times> nat) \<Rightarrow> nat \<Rightarrow> char option \<Rightarrow> string \<Rightarrow> string \<times> nat" where
  "replace_from r f i pv [] = ([], 0)"
| "replace_from r f i pv (c # cs) =
     (let k = match_len r i pv (c # cs) in
      if k = 0 then (case replace_from r f (Suc i) (Some c) cs of (out, n) \<Rightarrow> (c # out, n))
      else let m = take k (c # cs) in
        case replace_from r f (i + k) (Some (last m)) (drop k (c # cs)) of
          (out, n) \<Rightarrow> (fst (f m) @ out, snd (f m) + n))"
  by pat_completeness auto
termination
  by (relation "measure (\<lambda>(r, f, i, pv, s). length s)") auto

declare replace_from.simps [simp del]
lemmas replace_from_Nil [simp] = replace_from.simps(1)

definition replace_count :: "re \<Rightarrow> (string \<Rightarrow> string \<times> nat) \<Rightarrow> string \<Rightarrow> string \<times> nat" where
  "replace_count r f s = replace_from r f 0 None s"

definition replace_func :: "re \<Rightarrow> (string \<Rightarrow> string) \<Rightarrow> string \<Rightarrow> string" where
  "replace_func r f s = fst (replace_count r (\<lambda>m. (f m, 0)) s)"

definition replace_all :: "re \<Rightarrow> string \<Rightarrow> string \<Rightarrow> string" where
  "replace_all r new s = replace_func r (\<lambda>_. new) s"

function find_all_from :: "re \<Rightarrow> nat \<Rightarrow> char option \<Rightarrow> string \<Rightarrow> string list" where
  "find_all_from r i pv [] = []"
| "find_all_from r i pv (c # cs) =
     (let k = match_len r i pv (c # cs) in
      if k = 0 then find_all_from r (Suc i) (Some c) cs
      else take k (c # cs) # find_all_from r (i + k) (Some (last (take k (c # cs)))) (drop k (c # cs)))"
  by pat_completeness auto
termination
  by (relation "measure (\<lambda>(r, i, pv, s). length s)") auto

declare find_all_from.simps [simp del]
lemmas find_all_from_Nil [simp] = find_all_from.simps(1)

definition find_all :: "re \<Rightarrow> string \<Rightarrow> string list" where
  "find_all r s = find_all_from r 0 None s"

text \<open>\<open>FindAllStringSubmatchIndex\<close>: start, end and groups of every match.\<close>

function find_sub_from :: "re \<Rightarrow> nat \<Rightarrow> char option \<Rightarrow> string \<Rightarrow> (nat \<times> nat \<times> caps) list" where
  "find_sub_from r i pv [] = []"
| "find_sub_from r i pv (c # cs) =
     (case first_match r (M i pv (c # cs) []) of
        None \<Rightarrow> find_sub_from r (Suc i) (Some c) cs
      | Some t \<Rightarrow>
          (let k = mpos t - i in
           if k = 0 then find_sub_from r (Suc i) (Some c) cs
           else (i, mpos t, mcaps t) # find_sub_from r (i + k) (Some (last (take k (c # cs)))) (drop k (c # cs))))"
  by pat_completeness auto
termination
  by (relation "measure (\<lambda>(r, i, pv, s). length s)") auto

definition find_all_sub :: "re \<Rightarrow> string \<Rightarrow> (nat \<times> nat \<times> caps) list" where
  "find_all_sub r s = find_sub_from r 0 None s"

section \<open>Facts about searching and replacing\<close>

lemma match_len_le: "match_len r i pv s \<le> length s"
proof (cases "first_match r (M i pv s [])")
  case (Some t)
  then obtain k where "consumed k (M i pv s []) t" using first_match_consumed by blast
  with Some show ?thesis by (simp add: match_len_def consumed_def)
qed (simp add: match_len_def)

lemma replace_skip:
  "match_len r i pv (c # cs) = 0 \<Longrightarrow> replace_from r f i pv (c # cs) =
     (c # fst (replace_from r f (Suc i) (Some c) cs), snd (replace_from r f (Suc i) (Some c) cs))"
  by (simp add: replace_from.simps(2) split: prod.splits)

lemma replace_hit:
  assumes "match_len r i pv (c # cs) = k" "k \<noteq> 0"
  shows "replace_from r f i pv (c # cs) =
    (let m = take k (c # cs); rest = replace_from r f (i + k) (Some (last m)) (drop k (c # cs)) in
       (fst (f m) @ fst rest, snd (f m) + snd rest))"
  using assms by (simp add: replace_from.simps(2) Let_def split: prod.splits)

lemma find_all_skip:
  "match_len r i pv (c # cs) = 0 \<Longrightarrow> find_all_from r i pv (c # cs) = find_all_from r (Suc i) (Some c) cs"
  by (simp add: find_all_from.simps(2))

lemma find_all_hit:
  assumes "match_len r i pv (c # cs) = k" "k \<noteq> 0"
  shows "find_all_from r i pv (c # cs) =
    take k (c # cs) # find_all_from r (i + k) (Some (last (take k (c # cs)))) (drop k (c # cs))"
  using assms by (simp add: find_all_from.simps(2) Let_def)

text \<open>A replacement that counts nothing leaves the text as it was.\<close>

lemma replace_from_count0:
  "(\<And>m. snd (f m) = 0 \<Longrightarrow> fst (f m) = m) \<Longrightarrow>
    snd (replace_from r f i pv s) = 0 \<Longrightarrow> fst (replace_from r f i pv s) = s"
proof (induction r f i pv s rule: replace_from.induct)
  case (1 r f i pv)
  then show ?case by simp
next
  case (2 r f i pv c cs)
  show ?case
  proof (cases "match_len r i pv (c # cs) = 0")
    case True
    with "2.prems" "2.IH"(1) [OF refl True] show ?thesis by (auto simp: replace_skip)
  next
    case False
    note hit = replace_hit [OF refl False, of f, unfolded Let_def]
    from "2.prems"(2) have z: "snd (f (take (match_len r i pv (c # cs)) (c # cs))) = 0"
      and z': "snd (replace_from r f (i + match_len r i pv (c # cs))
        (Some (last (take (match_len r i pv (c # cs)) (c # cs)))) (drop (match_len r i pv (c # cs)) (c # cs))) = 0"
      by (simp_all add: hit)
    from "2.IH"(2) [OF refl False refl "2.prems"(1) z'] "2.prems"(1) [OF z] show ?thesis
      by (simp add: hit)
  qed
qed

lemma replace_count0:
  assumes "\<And>m. snd (f m) = 0 \<Longrightarrow> fst (f m) = m" and "snd (replace_count r f s) = 0"
  shows "fst (replace_count r f s) = s"
  using assms replace_from_count0 [of f r 0 None s] by (simp add: replace_count_def)

text \<open>If the pattern matches nowhere, searching fails and replacing changes nothing.\<close>

lemma find_from_None:
  "find_from r i pv s = None \<longleftrightarrow>
     (\<forall>k\<le>length s. matches r (M (i + k) (if k = 0 then pv else Some (s ! (k - 1))) (drop k s) []) = [])"
proof (induction r i pv s rule: find_from.induct)
  case (1 r i pv)
  show ?case
    by (cases "first_match r (M i pv [] [])") (use first_match_None [of r "M i pv [] []"] in auto)
next
  case (2 r i pv c cs)
  let ?P = "\<lambda>k. matches r (M (i + k) (if k = 0 then pv else Some ((c # cs) ! (k - 1))) (drop k (c # cs)) []) = []"
  have tail: "?P (Suc k) \<longleftrightarrow> matches r (M (Suc i + k) (if k = 0 then Some c else Some (cs ! (k - 1))) (drop k cs) []) = []" for k
    by (cases k) auto
  have sp: "(\<forall>k\<le>length (c # cs). ?P k) \<longleftrightarrow> ?P 0 \<and> (\<forall>k\<le>length cs. ?P (Suc k))"
    using All_less_Suc2 [of "Suc (length cs)" ?P] by (simp add: less_Suc_eq_le)
  show ?case
    unfolding sp tail
    using "2" first_match_None [of r "M i pv (c # cs) []"]
    by (cases "first_match r (M i pv (c # cs) [])") simp_all
qed

lemma match_string_iff:
  "match_string r s \<longleftrightarrow>
     (\<exists>k\<le>length s. matches r (M k (if k = 0 then None else Some (s ! (k - 1))) (drop k s) []) \<noteq> [])"
  unfolding match_string_def re_find_def using find_from_None [of r 0 None s] by auto

section \<open>Matches of the simple patterns in closed form\<close>

text \<open>\<open>adv k st\<close>: the state after reading the next \<open>k\<close> bytes.\<close>

definition adv :: "nat \<Rightarrow> mst \<Rightarrow> mst" where
  "adv k st = M (mpos st + k) (if k = 0 then mprev st else Some (mrest st ! (k - 1)))
     (drop k (mrest st)) (mcaps st)"

lemma adv_0 [simp]: "adv 0 st = st"
  by (cases st) (simp add: adv_def)

lemma adv_simps [simp]:
  "mpos (adv k st) = mpos st + k" "mrest (adv k st) = drop k (mrest st)" "mcaps (adv k st) = mcaps st"
  by (simp_all add: adv_def)

lemma mprev_adv: "mprev (adv k st) = (if k = 0 then mprev st else Some (mrest st ! (k - 1)))"
  by (simp add: adv_def)

lemma adv_adv [simp]: "k + j \<le> length (mrest st) \<Longrightarrow> adv j (adv k st) = adv (k + j) st"
  by (auto simp: adv_def add_diff_eq add.assoc add.commute [of j])

lemma adv_Suc_Cons: "mrest st = c # cs \<Longrightarrow> adv (Suc 0) st = M (Suc (mpos st)) (Some c) cs (mcaps st)"
  by (simp add: adv_def)

lemma adv_Suc: "mrest st = c # cs \<Longrightarrow> k \<le> length cs \<Longrightarrow>
    adv k (M (Suc (mpos st)) (Some c) cs (mcaps st)) = adv (Suc k) st"
  by (cases k) (auto simp: adv_def)

lemma matches_Cls: "matches (Cls p) st =
    (case mrest st of [] \<Rightarrow> [] | c # _ \<Rightarrow> if p c then [adv 1 st] else [])"
  by (auto simp: adv_Suc_Cons split: list.splits)

lemma matches_lit: "matches (lit s) st = (if has_prefix (mrest st) s then [adv (length s) st] else [])"
proof (induction s arbitrary: st rule: lit.induct)
  case (3 c d s)
  have len: "Suc (length s) \<le> length cs" if "take (Suc (length s)) cs = d # s" for cs
    using arg_cong [OF that, of length] by simp
  from 3 show ?case
    by (cases "mrest st") (auto simp: has_prefix_def adv_Suc len)
qed (auto simp: has_prefix_def adv_Suc_Cons split: list.splits)

lemma matches_times:
  "matches (times n (Cls p)) st =
    (if n \<le> length (mrest st) \<and> list_all p (take n (mrest st)) then [adv n st] else [])"
proof (induction n arbitrary: st)
  case (Suc n)
  then show ?case by (cases "mrest st") (auto simp: adv_Suc)
qed simp

lemma matches_upto:
  "matches (upto_n n (Cls p)) st =
    map (\<lambda>k. adv k st) (rev [0..<Suc (min n (length (takeWhile p (mrest st))))])"
proof (induction n arbitrary: st)
  case (Suc n)
  show ?case
  proof (cases "mrest st")
    case (Cons c cs)
    have "map (\<lambda>k. adv k (M (Suc (mpos st)) (Some c) cs (mcaps st))) (rev [0..<Suc m])
        = map (\<lambda>k. adv k st) (rev [1..<Suc (Suc m)])" if "m \<le> length cs" for m
      using that Cons by (auto simp: adv_Suc map_Suc_upt [symmetric] rev_map simp del: upt_Suc)
    moreover have "min n (length (takeWhile p cs)) \<le> length cs"
      by (meson length_takeWhile_le min.coboundedI2)
    ultimately show ?thesis using Cons Suc
      by (cases "p c") (simp_all add: upt_conv_Cons [of 0 "Suc (Suc _)"] upt_conv_Cons [of 0 "Suc 0"] del: upt_Suc)
  qed simp
qed simp

lemma matches_star_Cls:
  "matches (Star True (Cls p)) st =
    map (\<lambda>k. adv k st) (rev [0..<Suc (length (takeWhile p (mrest st)))])"
proof -
  have "star_list True (matches (Cls p)) n st =
      map (\<lambda>k. adv k st) (rev [0..<Suc (length (takeWhile p (mrest st)))])"
    if "n = length (mrest st)" for n
    using that
  proof (induction n arbitrary: st)
    case (Suc n)
    then obtain c cs where s: "mrest st = c # cs" by (metis length_Suc_conv)
    let ?st = "M (Suc (mpos st)) (Some c) cs (mcaps st)"
    let ?m = "length (takeWhile p cs)"
    have "map (\<lambda>k. adv k ?st) (rev [0..<Suc ?m]) = map (\<lambda>k. adv k st) (rev [1..<Suc (Suc ?m)])"
      using s length_takeWhile_le [of p cs]
      by (auto simp: adv_Suc map_Suc_upt [symmetric] rev_map simp del: upt_Suc)
    moreover have "star_list True (matches (Cls p)) n ?st =
        map (\<lambda>k. adv k ?st) (rev [0..<Suc (length (takeWhile p (mrest ?st)))])"
      using Suc.prems s by (intro Suc.IH) simp
    ultimately show ?case
      using s by (cases "p c") (simp_all add: upt_conv_Cons [of 0 "Suc (Suc _)"]
        upt_conv_Cons [of 0 "Suc 0"] del: upt_Suc matches.simps(1) add: matches.simps(1) [of p st])
  qed simp
  then show ?thesis by simp
qed

text \<open>The longest run first: what a greedy class repetition does when the rest of the pattern follows.\<close>

lemma star_Cls_longest:
  "k (adv (length (takeWhile p (mrest st))) st) = Some t \<Longrightarrow>
    match_k (Star True (Cls p)) st k = Some t"
  unfolding match_k_matches matches_star_Cls by (simp del: upt_Suc add: upt_Suc_append)

lemma matches_ilit:
  "matches (ilit s) st = (if to_lower (take (length s) (mrest st)) = to_lower s then [adv (length s) st] else [])"
proof (induction s arbitrary: st rule: ilit.induct)
  case (3 c d s)
  have len: "Suc (length s) \<le> length cs" if "map lower_char (take (Suc (length s)) cs) = lower_char d # map lower_char s" for cs
    using arg_cong [OF that, of length] by simp
  from 3 show ?case
    by (cases "mrest st") (auto simp: to_lower_def adv_Suc len)
qed (auto simp: to_lower_def adv_Suc_Cons split: list.splits)

lemma matches_alts: "matches (alts rs) st = concat (map (\<lambda>r. matches r st) rs)"
  by (induction rs rule: alts.induct) (auto split: list.splits)

lemma find_from_Some:
  "find_from r i pv s = Some (a, b, cs) \<Longrightarrow> \<exists>k t. k \<le> length s \<and> a = i + k \<and> b = mpos t \<and> cs = mcaps t \<and>
     first_match r (M a (if k = 0 then pv else Some (s ! (k - 1))) (drop k s) []) = Some t"
proof (induction r i pv s rule: find_from.induct)
  case (1 r i pv)
  then show ?case by (auto split: option.splits)
next
  case (2 r i pv c cs')
  show ?case
  proof (cases "first_match r (M i pv (c # cs') [])")
    case None
    with 2 obtain k t where "k \<le> length cs'" "a = Suc i + k" "b = mpos t" "cs = mcaps t"
      "first_match r (M a (if k = 0 then Some c else Some (cs' ! (k - 1))) (drop k cs') []) = Some t"
      by auto
    then show ?thesis by (intro exI [of _ "Suc k"] exI [of _ t]) (auto simp: nth_Cons')
  next
    case (Some t)
    with 2(2) show ?thesis by (intro exI [of _ 0] exI [of _ t]) auto
  qed
qed

lemma match_k_Seq: "match_k (Seq a b) st k = first_some (\<lambda>t. match_k b t k) (matches a st)"
  by (simp add: match_k_matches first_some_concat_map)

text \<open>Patterns that never match the empty string: \<open>FindAll\<close> finds nothing exactly when nothing matches.\<close>

definition nonempty_re :: "re \<Rightarrow> bool" where
  "nonempty_re r \<longleftrightarrow> (\<forall>st. \<forall>t\<in>set (matches r st). mpos st < mpos t)"

lemma match_len_zero: "nonempty_re r \<Longrightarrow> match_len r i pv s = 0 \<longleftrightarrow> first_match r (M i pv s []) = None"
  using first_match_in [of r "M i pv s []"]
  by (fastforce simp: match_len_def nonempty_re_def split: option.splits)

lemma find_all_from_Nil_iff:
  "nonempty_re r \<Longrightarrow> find_all_from r i pv s = [] \<longleftrightarrow> find_from r i pv s = None"
proof (induction r i pv s rule: find_all_from.induct)
  case (1 r i pv)
  have "match_len r i pv [] = 0" using match_len_le [of r i pv "[]"] by simp
  with 1 show ?case by (simp add: match_len_zero)
next
  case (2 r i pv c cs)
  show ?case
  proof (cases "match_len r i pv (c # cs) = 0")
    case True
    with 2 show ?thesis by (simp add: find_all_skip match_len_zero)
  next
    case False
    with 2 show ?thesis by (auto simp: find_all_hit [OF refl False] match_len_zero)
  qed
qed

lemma find_all_Nil_iff: "nonempty_re r \<Longrightarrow> find_all r s = [] \<longleftrightarrow> \<not> match_string r s"
  unfolding find_all_def match_string_def re_find_def by (simp only: find_all_from_Nil_iff not_not)

lemma matches_Seq_assoc: "matches (Seq (Seq a b) c) st = matches (Seq a (Seq b c)) st"
proof -
  have "concat (map f (concat (map g xs))) = concat (map (\<lambda>x. concat (map f (g x))) xs)"
    for f :: "mst \<Rightarrow> mst list" and g xs
    by (induction xs) auto
  moreover have "matches (Seq b c) = (\<lambda>x. concat (map (matches c) (matches b x)))"
    by (simp add: fun_eq_iff)
  ultimately show ?thesis by simp
qed

lemma matches_Seq_ex: "matches (Seq a b) st \<noteq> [] \<longleftrightarrow> (\<exists>t\<in>set (matches a st). matches b t \<noteq> [])"
  by auto

lemma matches_lit_Seq: "matches (Seq (lit p) r) st \<noteq> [] \<longleftrightarrow>
    has_prefix (mrest st) p \<and> matches r (adv (length p) st) \<noteq> []"
  by (simp add: matches_lit)

lemma nonempty_lit_Seq: "p \<noteq> [] \<Longrightarrow> nonempty_re (Seq (lit p) r)"
proof -
  assume "p \<noteq> []"
  have "mpos st + length p \<le> mpos t" if "t \<in> set (matches (Seq (lit p) r) st)" for st t
    using that matches_consumed [of t r "adv (length p) st"]
    by (auto simp: matches_lit consumed_def split: if_splits)
  with \<open>p \<noteq> []\<close> show ?thesis by (force simp: nonempty_re_def neq_Nil_conv)
qed

text \<open>A run of bytes of a class and then a literal.\<close>

lemma matches_run_lit:
  "matches (Seq (any_star (Cls p)) (lit q)) st \<noteq> [] \<longleftrightarrow> (\<exists>w b. mrest st = w @ q @ b \<and> list_all p w)"
proof -
  have "matches (Seq (any_star (Cls p)) (lit q)) st \<noteq> [] \<longleftrightarrow>
      (\<exists>k\<le>length (takeWhile p (mrest st)). has_prefix (drop k (mrest st)) q)"
    unfolding matches_Seq_ex matches_star_Cls matches_lit
    by (auto simp: less_Suc_eq_le simp del: upt_Suc)
  also have "\<dots> \<longleftrightarrow> (\<exists>w b. mrest st = w @ q @ b \<and> list_all p w)"
  proof
    assume "\<exists>k\<le>length (takeWhile p (mrest st)). has_prefix (drop k (mrest st)) q"
    then obtain k b where k: "k \<le> length (takeWhile p (mrest st))" "drop k (mrest st) = q @ b"
      by (auto simp: has_prefix_iff)
    have "take k (mrest st) = take k (takeWhile p (mrest st))"
      using k(1) by (metis append_take_drop_id append_eq_append_conv2 takeWhile_eq_take take_take min.absorb1)
    then have "list_all p (take k (mrest st))"
      by (metis in_set_takeD list_all_iff set_takeWhileD)
    with k(2) show "\<exists>w b. mrest st = w @ q @ b \<and> list_all p w" by (metis append_take_drop_id)
  next
    assume "\<exists>w b. mrest st = w @ q @ b \<and> list_all p w"
    then obtain w b where "mrest st = w @ q @ b" "list_all p w" by blast
    then show "\<exists>k\<le>length (takeWhile p (mrest st)). has_prefix (drop k (mrest st)) q"
      by (intro exI [of _ "length w"]) (simp add: takeWhile_list_all)
  qed
  finally show ?thesis .
qed

text \<open>A literal start, then a match of the rest somewhere in the text.\<close>

lemma match_string_lit_Seq:
  assumes "\<And>st. matches r st \<noteq> [] \<longleftrightarrow> Q (mrest st)"
  shows "match_string (Seq (lit p) r) s \<longleftrightarrow> (\<exists>a b. s = a @ p @ b \<and> Q b)"
proof -
  have "match_string (Seq (lit p) r) s \<longleftrightarrow> (\<exists>k\<le>length s. has_prefix (drop k s) p \<and> Q (drop (length p) (drop k s)))"
    unfolding match_string_iff matches_lit_Seq assms by simp
  also have "\<dots> \<longleftrightarrow> (\<exists>a b. s = a @ p @ b \<and> Q b)"
  proof
    assume "\<exists>k\<le>length s. has_prefix (drop k s) p \<and> Q (drop (length p) (drop k s))"
    then obtain k r where "drop k s = p @ r" "Q r" by (auto simp: has_prefix_iff simp del: drop_drop)
    then show "\<exists>a b. s = a @ p @ b \<and> Q b" by (metis append_take_drop_id)
  next
    assume "\<exists>a b. s = a @ p @ b \<and> Q b"
    then obtain a b where "s = a @ p @ b" "Q b" by blast
    then show "\<exists>k\<le>length s. has_prefix (drop k s) p \<and> Q (drop (length p) (drop k s))"
      by (intro exI [of _ "length a"]) auto
  qed
  finally show ?thesis .
qed

lemma find_all_lit_Seq:
  assumes "p \<noteq> []" "\<And>st. matches r st \<noteq> [] \<longleftrightarrow> Q (mrest st)"
  shows "find_all (Seq (lit p) r) s = [] \<longleftrightarrow> \<not> (\<exists>a b. s = a @ p @ b \<and> Q b)"
  unfolding find_all_Nil_iff [OF nonempty_lit_Seq [OF assms(1)]]
  using match_string_lit_Seq [OF assms(2), of p s] by simp

text \<open>The least length of a match: a shorter text is never matched, and replacing leaves it as it is.\<close>

primrec min_len :: "re \<Rightarrow> nat" where
  "min_len (Cls p) = 1"
| "min_len Eps = 0"
| "min_len (Seq a b) = min_len a + min_len b"
| "min_len (Alt a b) = min (min_len a) (min_len b)"
| "min_len (Star g r) = 0"
| "min_len (Grp n r) = min_len r"
| "min_len Bot = 0"
| "min_len Bol = 0"
| "min_len Eol = 0"
| "min_len Eot = 0"
| "min_len WordB = 0"

lemma matches_min_len: "t \<in> set (matches r st) \<Longrightarrow> mpos st + min_len r \<le> mpos t"
proof (induction r arbitrary: st t)
  case (Cls p)
  then show ?case by (auto split: list.splits if_splits)
next
  case (Seq a b)
  then show ?case by fastforce
next
  case (Star g r)
  from matches_consumed [OF Star(2)] show ?case by (auto simp: consumed_def)
next
  case (Alt a b)
  then show ?case by (force simp: min_def)
qed (auto split: if_splits)

lemma matches_short: "length (mrest st) < min_len r \<Longrightarrow> matches r st = []"
proof (rule ccontr)
  assume "length (mrest st) < min_len r" "matches r st \<noteq> []"
  then obtain t where t: "t \<in> set (matches r st)" by (cases "matches r st") auto
  from matches_min_len [OF t] matches_consumed [OF t] \<open>length (mrest st) < min_len r\<close> show False
    by (auto simp: consumed_def)
qed

lemma find_short: "length s < min_len r \<Longrightarrow> re_find r s = None"
  unfolding re_find_def find_from_None by (auto intro: matches_short)

lemma replace_short: "length s < min_len r \<Longrightarrow> replace_from r f i pv s = (s, 0)"
proof (induction r f i pv s rule: replace_from.induct)
  case (2 r f i pv c cs)
  have "match_len r i pv (c # cs) = 0" using matches_short [of "M i pv (c # cs) []" r] 2(3)
    by (simp add: match_len_def first_match_matches)
  with 2 show ?case by (simp add: replace_skip)
qed simp

lemmas matches_closed = matches_lit matches_times matches_upto matches_star_Cls

end
