(* ===== verification/QueryValidate.thy ===== *)
theory QueryValidate
  imports GoRegexp
begin

text \<open>
  The read-only check every query text passes before it is sent
  (\<open>internal/query/validator.go\<close>), the output formats and their \<open>FORMAT\<close> clause
  (\<open>internal/query/outputformat.go\<close>), and the header comments a query file declares
  (\<open>internal/query/tier.go\<close>).

  The comment patterns are shown to be plain scanners (\<open>strip_block\<close>, \<open>strip_line\<close>) and the keyword
  pattern to be a whole-word search, so that the check is characterised without regular expressions.
\<close>

section \<open>The patterns\<close>

text \<open>\<open>(?s)/\*.*?\*/\<close>, \<open>(?m)--[^\n]*$\<close> and \<open>(?is)\s+FORMAT\s+\w+\s*$\<close>\<close>

definition re_block_comment :: re where
  "re_block_comment = seqs [lit ''/*'', lazy_star (Cls (\<lambda>_. True)), lit ''*/'']"

definition re_line_comment :: re where
  "re_line_comment = seqs [lit ''--'', any_star (Cls (\<lambda>c. c \<noteq> NL)), Eol]"

definition re_format_clause :: re where
  "re_format_clause = seqs [plus_of (Cls re_space), ilit ''FORMAT'', plus_of (Cls re_space),
     plus_of (Cls re_word), any_star (Cls re_space), Eot]"

definition forbidden_keywords :: "string list" where
  "forbidden_keywords = [''INSERT'', ''UPDATE'', ''DELETE'', ''DROP'', ''TRUNCATE'', ''ALTER'', ''CREATE'',
     ''RENAME'', ''ATTACH'', ''DETACH'', ''REPLACE'', ''KILL'']"

definition re_forbidden :: re where
  "re_forbidden = seqs [WordB, Grp 1 (alts (map ilit forbidden_keywords)), WordB]"

section \<open>The check\<close>

text \<open>The errors of \<open>ValidateQueryContent\<close>; \<open>IndexPanic\<close> would be the panic of \<open>strings.Fields(clean)[0]\<close>
  on a text without words.\<close>

datatype validation_error =
    EmptyQuery
  | HasSemicolon
  | NotSelect string
  | ForbiddenKeyword string
  | IndexPanic

definition clean_query :: "string \<Rightarrow> string" where
  "clean_query sql =
     trim_space (replace_all re_format_clause [] (replace_all re_line_comment '' ''
       (replace_all re_block_comment '' '' sql)))"

definition validate_query_content :: "string \<Rightarrow> validation_error option" where
  "validate_query_content sql =
     (let clean = clean_query sql in
      if clean = [] then Some EmptyQuery
      else if contains_byte clean CHR '';'' then Some HasSemicolon
      else case str_fields clean of
        [] \<Rightarrow> Some IndexPanic
      | w # _ \<Rightarrow>
          let firstWord = to_upper w in
          if firstWord \<noteq> ''SELECT'' \<and> firstWord \<noteq> ''WITH'' then Some (NotSelect firstWord)
          else case find_string re_forbidden clean of
            None \<Rightarrow> None
          | Some m \<Rightarrow> if m \<noteq> [] then Some (ForbiddenKeyword (to_upper m)) else None)"

section \<open>Comment stripping as a scan\<close>

function strip_line :: "string \<Rightarrow> string" where
  "strip_line [] = []"
| "strip_line (c # cs) =
     (if has_prefix (c # cs) ''--'' then CHR '' '' # strip_line (dropWhile (\<lambda>c. c \<noteq> NL) cs)
      else c # strip_line cs)"
  by pat_completeness auto
termination
  by (relation "measure length") (auto simp: le_imp_less_Suc length_dropWhile_le)

function strip_block :: "string \<Rightarrow> string" where
  "strip_block [] = []"
| "strip_block (c # cs) =
     (case (if has_prefix (c # cs) ''/*'' then str_index (drop 1 cs) ''*/'' else None) of
        Some j \<Rightarrow> CHR '' '' # strip_block (drop (j + 3) cs)
      | None \<Rightarrow> c # strip_block cs)"
  by pat_completeness auto
termination
  by (relation "measure length") auto

lemma match_len_first:
  "match_k r (M i pv s []) Some = Some t \<Longrightarrow> match_len r i pv s = mpos t - i"
  "match_k r (M i pv s []) Some = None \<Longrightarrow> match_len r i pv s = 0"
  by (simp_all add: match_len_def first_match_def)

lemma match_lit_seq:
  "match_k (Seq (lit p) r) st k = (if has_prefix (mrest st) p then match_k r (adv (length p) st) k else None)"
  unfolding match_k_Seq matches_lit by (auto split: option.splits)

lemma match_line:
  "match_k re_line_comment (M i pv s []) Some =
    (if has_prefix s ''--'' then Some (adv (2 + length (takeWhile (\<lambda>c. c \<noteq> NL) (drop 2 s))) (M i pv s [])) else None)"
proof -
  let ?st = "adv 2 (M i pv s [])"
  let ?n = "length (takeWhile (\<lambda>c. c \<noteq> NL) (drop 2 s))"
  have "dropWhile (\<lambda>c. c \<noteq> NL) (drop 2 s) = drop ?n (drop 2 s)"
    by (simp only: dropWhile_eq_drop)
  then have "drop ?n (drop 2 s) = [] \<or> next_char (drop ?n (drop 2 s)) = Some NL"
    by (cases "drop ?n (drop 2 s)") (auto simp: next_char_def dest: dropWhile_hd_not)
  then have run: "match_k (Seq (any_star (Cls (\<lambda>c. c \<noteq> NL))) Eol) ?st Some = Some (adv ?n ?st)"
    unfolding match_k.simps(3) by (intro star_Cls_longest) (auto simp: add.commute)
  have two: "length ''--'' = 2" by simp
  have "2 + ?n \<le> length s" if "has_prefix s ''--''"
    using that length_takeWhile_le [of "\<lambda>c. c \<noteq> NL" "drop 2 s"] by (auto simp: has_prefix_iff)
  then have "adv ?n ?st = adv (2 + ?n) (M i pv s [])" if "has_prefix s ''--''"
    using that by (intro adv_adv) simp
  then show ?thesis
    unfolding re_line_comment_def seqs.simps match_lit_seq two run by simp
qed

lemma match_len_line:
  "match_len re_line_comment i pv s =
    (if has_prefix s ''--'' then 2 + length (takeWhile (\<lambda>c. c \<noteq> NL) (drop 2 s)) else 0)"
  using match_len_first [of re_line_comment i pv s, unfolded match_line] by (auto split: if_splits)

lemma replace_from_line: "fst (replace_from re_line_comment (\<lambda>m. ('' '', 0)) i pv s) = strip_line s"
proof (induction s arbitrary: i pv rule: strip_line.induct)
  case (2 c cs)
  show ?case
  proof (cases "has_prefix (c # cs) ''--''")
    case True
    then obtain ds where cs: "cs = CHR ''-'' # ds" and c: "c = CHR ''-''"
      by (auto simp: has_prefix_iff)
    define k where "k = Suc (Suc (length (takeWhile (\<lambda>c. c \<noteq> NL) ds)))"
    have k: "match_len re_line_comment i pv (c # cs) = k" "k \<noteq> 0"
      using True by (simp_all add: match_len_line cs k_def)
    have "drop k (c # cs) = dropWhile (\<lambda>c. c \<noteq> NL) cs"
      by (simp add: k_def cs dropWhile_eq_drop NL_def)
    then show ?thesis unfolding replace_hit [OF k] using 2(1) [OF True] True
      by (simp add: Let_def)
  next
    case False
    then have "match_len re_line_comment i pv (c # cs) = 0" by (simp add: match_len_line)
    with False 2(2) [OF False] show ?thesis by (simp add: replace_skip)
  qed
qed simp

lemma replace_line: "replace_all re_line_comment '' '' s = strip_line s"
  by (simp add: replace_all_def replace_func_def replace_count_def replace_from_line)

text \<open>A lazy repetition of any byte followed by a literal stops at the literal's first occurrence.\<close>

lemma matches_lazy_any:
  "matches (Star False (Cls (\<lambda>_. True))) st = map (\<lambda>k. adv k st) [0..<Suc (length (mrest st))]"
proof -
  have "star_list False (matches (Cls (\<lambda>_. True))) n st = map (\<lambda>k. adv k st) [0..<Suc n]"
    if "n = length (mrest st)" for n
    using that
  proof (induction n arbitrary: st)
    case (Suc n)
    then obtain c cs where s: "mrest st = c # cs" by (metis length_Suc_conv)
    let ?st = "M (Suc (mpos st)) (Some c) cs (mcaps st)"
    have "map (\<lambda>k. adv k ?st) [0..<Suc n] = map (\<lambda>k. adv k st) [1..<Suc (Suc n)]"
      using s Suc.prems by (auto simp: adv_Suc map_Suc_upt [symmetric] simp del: upt_Suc)
    moreover have "star_list False (matches (Cls (\<lambda>_. True))) n ?st = map (\<lambda>k. adv k ?st) [0..<Suc n]"
      using Suc.prems s by (intro Suc.IH) simp
    ultimately show ?case
      using s by (simp add: upt_conv_Cons [of 0 "Suc (Suc _)"] del: upt_Suc matches.simps(1)
          add: matches.simps(1) [of _ st])
  qed simp
  then show ?thesis by simp
qed

lemma first_some_upt:
  "first_some f (map g [i..<n]) = None \<longleftrightarrow> (\<forall>k\<in>{i..<n}. f (g k) = None)"
  by (simp add: first_some_None)

lemma first_some_least:
  assumes "j < n" "\<And>k. k < j \<Longrightarrow> f k = None" "f j = Some y"
  shows "first_some f [0..<n] = Some y"
proof -
  have "[0..<n] = [0..<j] @ j # [Suc j..<n]"
    using assms(1) upt_add_eq_append [of 0 j "n - j"] by (simp add: upt_conv_Cons)
  moreover have "first_some f [0..<j] = None" using assms(2) by (simp add: first_some_None)
  ultimately show ?thesis using assms(3) by (simp add: first_some_append)
qed

lemma match_lazy_lit:
  assumes "p \<noteq> []"
  shows "match_k (Seq (lazy_star (Cls (\<lambda>_. True))) (lit p)) st Some =
    map_option (\<lambda>j. adv (j + length p) st) (str_index (mrest st) p)"
proof -
  have step: "match_k (lit p) (adv k st) Some =
      (if has_prefix (drop k (mrest st)) p then Some (adv (k + length p) st) else None)"
    if "k \<le> length (mrest st)" for k
  proof (cases "has_prefix (drop k (mrest st)) p")
    case True
    then have "length p \<le> length (drop k (mrest st))"
      by (metis has_prefix_def length_take min.cobounded1)
    then have "k + length p \<le> length (mrest st)" using that by simp
    with True show ?thesis by (simp add: match_k_matches matches_lit)
  qed (simp add: match_k_matches matches_lit)
  have m: "match_k (Seq (lazy_star (Cls (\<lambda>_. True))) (lit p)) st Some =
      first_some (\<lambda>k. match_k (lit p) (adv k st) Some) [0..<Suc (length (mrest st))]"
    unfolding match_k_Seq matches_lazy_any
    by (simp only: first_some_map)
  show ?thesis
  proof (cases "str_index (mrest st) p")
    case None
    then have "\<forall>j\<le>length (mrest st). \<not> has_prefix (drop j (mrest st)) p"
      by (simp only: str_index_None_iff)
    then have "first_some (\<lambda>k. match_k (lit p) (adv k st) Some) [0..<Suc (length (mrest st))] = None"
      unfolding first_some_None by (simp add: step less_Suc_eq_le del: upt_Suc)
    with None m show ?thesis by simp
  next
    case (Some j)
    then have "j + length p \<le> length (mrest st)" "has_prefix (drop j (mrest st)) p"
      by (auto dest!: str_index_Some simp: has_prefix_def)
    then show ?thesis unfolding m using Some assms
      by (intro first_some_least [of j, THEN trans]) (auto simp: step dest: str_index_first)
  qed
qed

lemma match_block:
  "match_k re_block_comment (M i pv s []) Some =
    (if has_prefix s ''/*'' then map_option (\<lambda>j. adv (j + 4) (M i pv s [])) (str_index (drop 2 s) ''*/'') else None)"
proof -
  have two: "length ''/*'' = 2" by simp
  have "adv (j + length ''*/'') (adv 2 (M i pv s [])) = adv (j + 4) (M i pv s [])"
    if "has_prefix s ''/*''" "str_index (drop 2 s) ''*/'' = Some j" for j
    using str_index_Some [OF that(2)] that(1)
    by (subst adv_adv) (auto simp: has_prefix_iff eval_nat_numeral)
  then show ?thesis
    unfolding re_block_comment_def seqs.simps match_lit_seq two
    by (subst match_lazy_lit) (auto split: option.splits simp: map_option_case)
qed

lemma match_len_block:
  "match_len re_block_comment i pv s =
    (if has_prefix s ''/*'' then (case str_index (drop 2 s) ''*/'' of None \<Rightarrow> 0 | Some j \<Rightarrow> j + 4) else 0)"
  using match_len_first [of re_block_comment i pv s, unfolded match_block]
  by (auto split: if_splits option.splits)

lemma replace_from_block: "fst (replace_from re_block_comment (\<lambda>m. ('' '', 0)) i pv s) = strip_block s"
proof (induction s arbitrary: i pv rule: strip_block.induct)
  case (2 c cs)
  show ?case
  proof (cases "if has_prefix (c # cs) ''/*'' then str_index (drop 1 cs) ''*/'' else None")
    case None
    then have "match_len re_block_comment i pv (c # cs) = 0"
      by (auto simp: match_len_block split: if_splits)
    with None 2(1) [OF None] show ?thesis by (simp add: replace_skip)
  next
    case (Some j)
    have k: "match_len re_block_comment i pv (c # cs) = j + 4" "j + 4 \<noteq> 0"
      using Some by (auto simp: match_len_block split: if_splits)
    have "drop (j + 4) (c # cs) = drop (j + 3) cs" by (simp add: drop_Cons' eval_nat_numeral)
    then show ?thesis unfolding replace_hit [OF k] Let_def fst_conv using 2(2) [OF Some] Some
      by simp
  qed
qed simp

lemma replace_block: "replace_all re_block_comment '' '' s = strip_block s"
  by (simp add: replace_all_def replace_func_def replace_count_def replace_from_block)

section \<open>The keyword search\<close>

text \<open>A keyword stands in the text as a whole word: no letter, digit or underscore touches it.\<close>

definition has_keyword :: "string \<Rightarrow> bool" where
  "has_keyword s \<longleftrightarrow> (\<exists>a w b. s = a @ w @ b \<and> to_upper w \<in> set forbidden_keywords \<and>
     (a = [] \<or> \<not> re_word (last a)) \<and> (b = [] \<or> \<not> re_word (hd b)))"

lemma ilit_upper: "list_all is_upper w \<Longrightarrow> to_lower v = to_lower w \<longleftrightarrow> to_upper v = w"
proof (induction w arbitrary: v)
  case (Cons c w)
  then show ?case by (cases v) (auto simp: to_lower_def to_upper_def lower_eq_iff_upper)
qed (simp add: to_lower_def to_upper_def)

lemma keywords_upper: "w \<in> set forbidden_keywords \<Longrightarrow> list_all is_upper w \<and> w \<noteq> []"
  by (auto simp: forbidden_keywords_def)

lemma re_word_upper: "is_upper (upper_char c) \<Longrightarrow> re_word c"
  by (auto simp: re_word_def is_alnum_def is_alpha_def upper_char_def)

lemma matches_forbidden:
  "matches re_forbidden st \<noteq> [] \<longleftrightarrow>
     (\<exists>w\<in>set forbidden_keywords. to_upper (take (length w) (mrest st)) = w \<and>
        \<not> opt_word (mprev st) \<and> \<not> opt_word (next_char (drop (length w) (mrest st))))"
proof -
  have edge: "opt_word (next_char (mrest st)) \<and>
      opt_word (Some (mrest st ! (length w - 1)))"
    if "to_upper (take (length w) (mrest st)) = w" "w \<in> set forbidden_keywords" for w
  proof -
    let ?v = "take (length w) (mrest st)"
    have up: "is_upper (upper_char c)" if "c \<in> set ?v" for c
      using keywords_upper [OF \<open>w \<in> _\<close>] \<open>to_upper ?v = w\<close> that
      by (metis (no_types, lifting) image_eqI list.set_map list_all_iff to_upper_def)
    have len: "length ?v = length w" using that(1) length_to_upper by metis
    have "length w \<noteq> 0" using keywords_upper [OF that(2)] by simp
    with len obtain c cs where c: "mrest st = c # cs" "c \<in> set ?v"
      by (cases "mrest st"; cases w) auto
    have "mrest st ! (length w - 1) = ?v ! (length w - 1)" using \<open>length w \<noteq> 0\<close> by simp
    then have "mrest st ! (length w - 1) \<in> set ?v"
      using len \<open>length w \<noteq> 0\<close> by (metis One_nat_def diff_Suc_less gr0I nth_mem)
    with c up show ?thesis by (auto simp: opt_word_def next_char_def re_word_upper)
  qed
  have one: "matches (Seq (ilit w) WordB) st \<noteq> [] \<longleftrightarrow> to_upper (take (length w) (mrest st)) = w \<and>
        \<not> opt_word (next_char (drop (length w) (mrest st)))" if "w \<in> set forbidden_keywords" for w
    using edge [OF _ that] keywords_upper [OF that]
    by (auto simp: matches_ilit ilit_upper mprev_adv)
  have grp: "matches (Seq (Grp 1 r) WordB) st \<noteq> [] \<longleftrightarrow> matches (Seq r WordB) st \<noteq> []" for r
    by (auto split: if_splits)
  have "matches (Seq (alts (map ilit forbidden_keywords)) WordB) st \<noteq> [] \<longleftrightarrow>
      (\<exists>w\<in>set forbidden_keywords. matches (Seq (ilit w) WordB) st \<noteq> [])"
    by (auto simp: matches_alts)
  with one edge show ?thesis
    unfolding re_forbidden_def seqs.simps matches.simps(3) [of WordB] using grp by auto
qed

lemma match_forbidden: "match_string re_forbidden s \<longleftrightarrow> has_keyword s"
proof
  assume "match_string re_forbidden s"
  then obtain k w where k: "k \<le> length s" "w \<in> set forbidden_keywords"
      "to_upper (take (length w) (drop k s)) = w"
      "\<not> opt_word (if k = 0 then None else Some (s ! (k - 1)))"
      "\<not> opt_word (next_char (drop (length w) (drop k s)))"
    by (auto simp: match_string_iff matches_forbidden)
  let ?b = "drop (length w) (drop k s)"
  have "s = take k s @ take (length w) (drop k s) @ ?b" by (metis append_take_drop_id)
  moreover have "take k s = [] \<or> \<not> re_word (last (take k s))"
    using k(1,4) by (cases k) (auto simp: opt_word_def last_conv_nth min_def split: if_splits)
  moreover have "?b = [] \<or> \<not> re_word (hd ?b)"
    using k(5) by (cases ?b) (auto simp: opt_word_def next_char_def)
  ultimately show "has_keyword s" unfolding has_keyword_def using k(2,3) by metis
next
  assume "has_keyword s"
  then obtain a w b where s: "s = a @ w @ b" "to_upper w \<in> set forbidden_keywords"
    "a = [] \<or> \<not> re_word (last a)" "b = [] \<or> \<not> re_word (hd b)"
    by (auto simp: has_keyword_def)
  have "\<not> opt_word (if length a = 0 then None else Some (s ! (length a - 1)))"
    using s(1,3) by (auto simp: opt_word_def nth_append last_conv_nth)
  moreover have "\<not> opt_word (next_char b)"
    using s(4) by (cases b) (auto simp: opt_word_def next_char_def)
  ultimately have "matches re_forbidden (M (length a) (if length a = 0 then None else Some (s ! (length a - 1)))
      (drop (length a) s) []) \<noteq> []"
    using s(1,2) by (auto simp: matches_forbidden intro!: bexI [of _ "to_upper w"])
  then show "match_string re_forbidden s"
    unfolding match_string_iff using s(1) by (intro exI [of _ "length a"]) auto
qed

lemma forbidden_nonempty:
  assumes "find_string re_forbidden s = Some m"
  shows "m \<noteq> []"
proof -
  from assms obtain a b cs where ab: "re_find re_forbidden s = Some (a, b, cs)" "m = slice s a b"
    by (auto simp: find_string_def)
  from find_from_Some [OF ab(1) [unfolded re_find_def]] obtain k t where
    k: "k \<le> length s" "a = k" "b = mpos t" and
    t: "t \<in> set (matches re_forbidden (M k (if k = 0 then None else Some (s ! (k - 1))) (drop k s) []))"
      (is "_ \<in> set (matches _ ?st)")
    by (auto dest: first_match_in)
  from t obtain w where w: "w \<in> set forbidden_keywords" "to_upper (take (length w) (mrest ?st)) = w" "mpos t = k + length w"
    by (auto simp: re_forbidden_def matches_alts matches_ilit ilit_upper keywords_upper split: if_splits) blast+
  have "w \<noteq> []" using keywords_upper [OF w(1)] by blast
  moreover have "length m = min (length w) (length s - k)" using ab k w(3) by (simp add: slice_def min.commute)
  moreover have "length (take (length w) (drop k s)) = length w"
    using w(2) length_to_upper [of "take (length w) (drop k s)"] by simp
  ultimately show ?thesis by auto
qed

lemma clean_has_word: "clean_query sql \<noteq> [] \<Longrightarrow> str_fields (clean_query sql) \<noteq> []"
  unfolding str_fields_Nil_iff clean_query_def trim_space_def trim_both_Nil_iff [symmetric] trim_both_idem .

lemma clean_scan:
  "clean_query sql = trim_space (replace_all re_format_clause [] (strip_line (strip_block sql)))"
  by (simp add: clean_query_def replace_block replace_line)

text \<open>C1: A query text is accepted exactly when what is left of it after the comments and the \<open>FORMAT\<close>
  clause are removed is not empty, holds no semicolon, starts with \<open>SELECT\<close> or \<open>WITH\<close> and holds none of the
  forbidden keywords as a whole word, in any case. Comments are what two plain scanners remove, first the
  block comments and then the line comments.\<close>

theorem validate_accepts_iff:
  "validate_query_content sql = None \<longleftrightarrow>
     (let clean = trim_space (replace_all re_format_clause [] (strip_line (strip_block sql))) in
      clean \<noteq> [] \<and> CHR '';'' \<notin> set clean \<and>
      to_upper (hd (str_fields clean)) \<in> {''SELECT'', ''WITH''} \<and> \<not> has_keyword clean)"
proof -
  have find: "find_string re_forbidden t = None \<longleftrightarrow> \<not> has_keyword t" for t
    unfolding match_forbidden [symmetric] match_string_def find_string_def
    by (cases "re_find re_forbidden t") simp_all
  show ?thesis
    unfolding validate_query_content_def clean_scan [symmetric] Let_def
    using clean_has_word [of sql] forbidden_nonempty find [of "clean_query sql"]
    by (auto simp: contains_byte_def split: list.splits option.splits)
qed

text \<open>C0: The check never panics: a text that is not empty after trimming has a first word.\<close>

theorem validate_no_panic: "validate_query_content sql \<noteq> Some IndexPanic"
proof (cases "clean_query sql = []")
  case False
  with clean_has_word obtain w ws where "str_fields (clean_query sql) = w # ws"
    by (cases "str_fields (clean_query sql)") auto
  then show ?thesis by (simp add: validate_query_content_def Let_def split: option.splits)
qed (simp add: validate_query_content_def)

text \<open>Comment markers inside a string literal are taken for comments: the check accepts a text that
  ClickHouse reads as two statements, the second of which drops a table.\<close>

lemma comment_in_literal_hides_statement:
  "validate_query_content (''SELECT 1, '' @ QUOTE # ''/*'' @ QUOTE # ''; DROP TABLE t -- */'' @ [QUOTE]) = None"
  by code_simp

section \<open>Output formats\<close>

record OutputFormat =
  of_Name :: string
  of_Clause :: string
  of_Ext :: string

definition FormatJSONL :: OutputFormat where
  "FormatJSONL = \<lparr>of_Name = ''jsonl'', of_Clause = ''JSONEachRow'', of_Ext = ''.jsonl''\<rparr>"

definition FormatNative :: OutputFormat where
  "FormatNative = \<lparr>of_Name = ''native'', of_Clause = ''Native'', of_Ext = ''.native''\<rparr>"

definition FormatTSV :: OutputFormat where
  "FormatTSV = \<lparr>of_Name = ''tsv'', of_Clause = ''TSVWithNamesAndTypes'', of_Ext = ''.tsv''\<rparr>"

definition output_formats :: "OutputFormat list" where
  "output_formats = [FormatJSONL, FormatNative, FormatTSV]"

definition parse_output_format :: "string \<Rightarrow> string + OutputFormat" where
  "parse_output_format s =
     (let want = to_lower (trim_space s) in
      if want = [] then Inr FormatJSONL
      else case filter (\<lambda>f. of_Name f = want) output_formats of
        f # _ \<Rightarrow> Inr f
      | [] \<Rightarrow> Inl s)"

definition output_format_names :: string where
  "output_format_names = str_join ''|'' (map of_Name output_formats)"

definition is_json :: "OutputFormat \<Rightarrow> bool" where
  "is_json f \<longleftrightarrow> has_prefix (of_Clause f) ''JSON''"

definition strip_trailing_format :: "string \<Rightarrow> string" where
  "strip_trailing_format sql = replace_all re_format_clause [] (trim_right is_cut_ws sql)"

definition apply_format :: "OutputFormat \<Rightarrow> string \<Rightarrow> string" where
  "apply_format f sql =
     trim_right is_cut_ws (strip_trailing_format sql) @ NL # ''FORMAT '' @ of_Clause f"

section \<open>Header comments\<close>

text \<open>\<open>(?m)^\s*--\s*tier:\s*([A-Za-z]+)\s*$\<close> and \<open>(?m)^\s*--\s*needs:\s*keeper\s*$\<close>\<close>

definition re_tier :: re where
  "re_tier = seqs [Bol, any_star (Cls re_space), lit ''--'', any_star (Cls re_space), lit ''tier:'',
     any_star (Cls re_space), Grp 1 (plus_of (Cls is_alpha)), any_star (Cls re_space), Eol]"

definition re_needs_keeper :: re where
  "re_needs_keeper = seqs [Bol, any_star (Cls re_space), lit ''--'', any_star (Cls re_space), lit ''needs:'',
     any_star (Cls re_space), lit ''keeper'', any_star (Cls re_space), Eol]"

definition TierEssential :: string where "TierEssential = ''essential''"
definition TierFull :: string where "TierFull = ''full''"

text \<open>The error carries the unknown word.\<close>

definition parse_tier :: "string \<Rightarrow> string + string" where
  "parse_tier sql =
     (case re_find re_tier sql of
        None \<Rightarrow> Inr TierFull
      | Some (_, _, cs) \<Rightarrow>
          let m = group sql cs 1 in
          if m = TierEssential \<or> m = TierFull then Inr m else Inl m)"

definition needs_keeper :: "string \<Rightarrow> bool" where
  "needs_keeper sql = match_string re_needs_keeper sql"

end
