(* ===== verification/GoTime.thy ===== *)
theory GoTime
  imports GoStrings
begin

text \<open>
  The part of Go's \<open>time\<close> package that the source uses. An instant is the number of nanoseconds since
  1970-01-01 00:00:00 UTC, as a HOL integer; the zero \<open>time.Time\<close> is the first instant of year 1.
  A \<open>time.Duration\<close> is an \<open>int64\<close> of nanoseconds: \<open>wrap64\<close> writes its wrap-around out and
  \<open>go_div\<close> its division, which truncates towards zero.

  Every time the source formats is in UTC, and so is the clock the model is given:
  \<open>AddDate(0, 0, n)\<close> is \<open>n\<close> times 24 hours.
\<close>

type_synonym time = int
type_synonym duration = int

section \<open>64-bit arithmetic\<close>

definition wrap64 :: "int \<Rightarrow> int" where
  "wrap64 i = (i + 9223372036854775808) mod 18446744073709551616 - 9223372036854775808"

definition go_div :: "int \<Rightarrow> int \<Rightarrow> int" where
  "go_div a b = sgn a * sgn b * (\<bar>a\<bar> div \<bar>b\<bar>)"

lemma wrap64_id: "min_int64 \<le> i \<Longrightarrow> i \<le> max_int64 \<Longrightarrow> wrap64 i = i"
  by (simp add: wrap64_def min_int64_def max_int64_def)

lemma wrap64_bounds: "min_int64 \<le> wrap64 i \<and> wrap64 i \<le> max_int64"
  using pos_mod_bound [of 18446744073709551616 "i + 9223372036854775808"]
  by (simp add: wrap64_def min_int64_def max_int64_def)

lemma go_div_pos: "0 \<le> a \<Longrightarrow> 0 < b \<Longrightarrow> go_div a b = a div b"
  by (cases "a = 0") (auto simp: go_div_def)

section \<open>Durations and instants\<close>

definition Nanosecond :: duration where "Nanosecond = 1"
definition Millisecond :: duration where "Millisecond = 1000000"
definition Second :: duration where "Second = 1000000000"
definition Minute :: duration where "Minute = 60000000000"
definition Hour :: duration where "Hour = 3600000000000"

lemmas duration_defs = Nanosecond_def Millisecond_def Second_def Minute_def Hour_def

definition zero_time :: time where "zero_time = - 62135596800000000000"

definition is_zero :: "time \<Rightarrow> bool" where
  "is_zero t \<longleftrightarrow> t = zero_time"

text \<open>\<open>t.AddDate(0, 0, n)\<close>\<close>

definition add_days :: "time \<Rightarrow> int \<Rightarrow> time" where
  "add_days t n = t + n * 24 * Hour"

section \<open>The calendar\<close>

text \<open>Year, month and day of a day number (0 is 1970-01-01), in the proleptic Gregorian calendar: the
  400-year eras start on 1 March.\<close>

definition civil :: "int \<Rightarrow> int \<times> int \<times> int" where
  "civil days =
     (let z = days + 719468;
          era = z div 146097;
          doe = z mod 146097;
          yoe = (doe - doe div 1460 + doe div 36524 - doe div 146096) div 365;
          doy = doe - (365 * yoe + yoe div 4 - yoe div 100);
          mp = (5 * doy + 2) div 153;
          d = doy - (153 * mp + 2) div 5 + 1;
          m = (if mp < 10 then mp + 3 else mp - 9);
          y = yoe + era * 400 + (if m \<le> 2 then 1 else 0)
      in (y, m, d))"

definition unix_seconds :: "time \<Rightarrow> int" where
  "unix_seconds t = t div 1000000000"

text \<open>\<open>%0wd\<close>: zero padding to a width, the sign first.\<close>

definition pad_nat :: "nat \<Rightarrow> nat \<Rightarrow> string" where
  "pad_nat w n = replicate (w - length (nat_str n)) (CHR ''0'') @ nat_str n"

definition pad_int :: "nat \<Rightarrow> int \<Rightarrow> string" where
  "pad_int w i = (if i < 0 then CHR ''-'' # pad_nat w (nat (- i)) else pad_nat w (nat i))"

definition fmt_date :: "time \<Rightarrow> string" where
  "fmt_date t = (case civil (unix_seconds t div 86400) of
     (y, m, d) \<Rightarrow> pad_int 4 y @ ''-'' @ pad_int 2 m @ ''-'' @ pad_int 2 d)"

definition fmt_clock :: "time \<Rightarrow> string" where
  "fmt_clock t = (let s = unix_seconds t mod 86400 in
     pad_int 2 (s div 3600) @ '':'' @ pad_int 2 (s mod 3600 div 60) @ '':'' @ pad_int 2 (s mod 60))"

text \<open>The layouts \<open>2006-01-02 15:04:05\<close>, \<open>RFC3339\<close> and \<open>20060102_150405\<close>, in UTC.\<close>

definition fmt_datetime :: "time \<Rightarrow> string" where
  "fmt_datetime t = fmt_date t @ '' '' @ fmt_clock t"

definition fmt_rfc3339 :: "time \<Rightarrow> string" where
  "fmt_rfc3339 t = fmt_date t @ ''T'' @ fmt_clock t @ ''Z''"

definition fmt_stamp :: "time \<Rightarrow> string" where
  "fmt_stamp t = filter (\<lambda>c. c \<noteq> CHR ''-'') (fmt_date t) @ ''_'' @ filter (\<lambda>c. c \<noteq> CHR '':'') (fmt_clock t)"

section \<open>What a formatted time is made of\<close>

definition is_stamp_char :: "char \<Rightarrow> bool" where
  "is_stamp_char c \<longleftrightarrow> is_digit c \<or> c = CHR ''-'' \<or> c = CHR '':'' \<or> c = CHR '' ''"

lemma stamp_pad_nat: "list_all is_stamp_char (pad_nat w n)"
  using digits_nat_str [of n] by (auto simp: pad_nat_def list_all_iff is_stamp_char_def)

lemma stamp_pad_int: "list_all is_stamp_char (pad_int w i)"
  by (simp add: pad_int_def stamp_pad_nat is_stamp_char_def)

lemma stamp_date: "list_all is_stamp_char (fmt_date t)"
  by (simp add: fmt_date_def stamp_pad_int split: prod.split) (simp add: is_stamp_char_def)

lemma stamp_clock: "list_all is_stamp_char (fmt_clock t)"
  by (simp add: fmt_clock_def stamp_pad_int Let_def) (simp add: is_stamp_char_def)

lemma stamp_datetime: "list_all is_stamp_char (fmt_datetime t)"
  by (simp add: fmt_datetime_def stamp_date stamp_clock) (simp add: is_stamp_char_def)

lemma stamp_not_quote: "is_stamp_char c \<Longrightarrow> c \<noteq> QUOTE \<and> c \<noteq> BSLASH \<and> c \<noteq> CHR ''{'' \<and> c \<noteq> CHR ''}''"
  by (auto simp: is_stamp_char_def is_digit_def in_range_def code_def QUOTE_def BSLASH_def)

section \<open>Reading times\<close>

text \<open>The day number of a date: the inverse of \<open>civil\<close>; the length of a month.\<close>

definition days_from_civil :: "int \<Rightarrow> int \<Rightarrow> int \<Rightarrow> int" where
  "days_from_civil y m d =
     (let y' = (if m \<le> 2 then y - 1 else y);
          era = y' div 400;
          yoe = y' mod 400;
          doy = (153 * (if m > 2 then m - 3 else m + 9) + 2) div 5 + d - 1;
          doe = yoe * 365 + yoe div 4 - yoe div 100 + doy
      in era * 146097 + doe - 719468)"

definition days_in :: "int \<Rightarrow> int \<Rightarrow> int" where
  "days_in y m =
     (if m = 2 then (if y mod 4 = 0 \<and> (y mod 100 \<noteq> 0 \<or> y mod 400 = 0) then 29 else 28)
      else if m \<in> {4, 6, 9, 11} then 30 else 31)"

text \<open>Exactly \<open>n\<close> digits; an hour, of one digit or two; the literal bytes of a layout.\<close>

definition take_digits :: "nat \<Rightarrow> string \<Rightarrow> (int \<times> string) option" where
  "take_digits n s =
     (let ds = take n s in
      if length ds = n \<and> list_all is_digit ds then Some (int (digits_val 0 ds), drop n s) else None)"

definition take_hour :: "string \<Rightarrow> (int \<times> string) option" where
  "take_hour s = (case take_digits 2 s of Some r \<Rightarrow> Some r | None \<Rightarrow> take_digits 1 s)"

definition take_lit :: "string \<Rightarrow> string \<Rightarrow> string option" where
  "take_lit p s = (if has_prefix s p then Some (drop (length p) s) else None)"

text \<open>A blank of a layout stands for any number of blanks, and for none at the end of the text.\<close>

definition take_blank :: "string \<Rightarrow> string option" where
  "take_blank s = (if s \<noteq> [] \<and> hd s \<noteq> CHR '' '' then None else Some (dropWhile (\<lambda>c. c = CHR '' '') s))"

text \<open>\<open>2006-01-02\<close>: the day number. The day is checked last, as the layout's end is reached.\<close>

definition take_date :: "string \<Rightarrow> ((int \<times> int \<times> int) \<times> string) option" where
  "take_date s =
     Option.bind (take_digits 4 s) (\<lambda>(y, s).
     Option.bind (take_lit ''-'' s) (\<lambda>s.
     Option.bind (take_digits 2 s) (\<lambda>(m, s).
     if m < 1 \<or> 12 < m then None else
     Option.bind (take_lit ''-'' s) (\<lambda>s.
     Option.bind (take_digits 2 s) (\<lambda>(d, s). Some ((y, m, d), s))))))"

text \<open>\<open>15:04:05\<close>: the nanoseconds since midnight. A fraction of a second is read although the layout has
  none; digits beyond the ninth are dropped.\<close>

definition take_fraction :: "string \<Rightarrow> int \<times> string" where
  "take_fraction s = (case s of
     c # d # cs \<Rightarrow>
       if (c = CHR ''.'' \<or> c = CHR '','') \<and> is_digit d
       then let ds = takeWhile is_digit (d # cs); k = take 9 ds
         in (int (digits_val 0 k) * 10 ^ (9 - length k), dropWhile is_digit (d # cs))
       else (0, s)
   | _ \<Rightarrow> (0, s))"

definition take_clock :: "string \<Rightarrow> (int \<times> string) option" where
  "take_clock s =
     Option.bind (take_hour s) (\<lambda>(h, s).
     if 24 \<le> h then None else
     Option.bind (take_lit '':'' s) (\<lambda>s.
     Option.bind (take_digits 2 s) (\<lambda>(m, s).
     if 60 \<le> m then None else
     Option.bind (take_lit '':'' s) (\<lambda>s.
     Option.bind (take_digits 2 s) (\<lambda>(sec, s).
     if 60 \<le> sec then None else
     (case take_fraction s of (ns, s) \<Rightarrow> Some ((h * 3600 + m * 60 + sec) * 1000000000 + ns, s)))))))"

text \<open>\<open>Z07:00\<close>: the offset from UTC in seconds.\<close>

definition take_zone :: "string \<Rightarrow> (int \<times> string) option" where
  "take_zone s = (case s of
     [] \<Rightarrow> None
   | c # cs \<Rightarrow>
       if c = CHR ''Z'' then Some (0, cs)
       else if c \<noteq> CHR ''+'' \<and> c \<noteq> CHR ''-'' then None
       else
         Option.bind (take_digits 2 cs) (\<lambda>(h, r).
         Option.bind (take_lit '':'' r) (\<lambda>r.
         Option.bind (take_digits 2 r) (\<lambda>(m, r).
         if h > 24 \<or> m > 60 then None
         else Some ((if c = CHR ''+'' then 1 else - 1) * ((h * 60 + m) * 60), r)))))"

definition day_ok :: "int \<times> int \<times> int \<Rightarrow> bool" where
  "day_ok ymd = (case ymd of (y, m, d) \<Rightarrow> 1 \<le> d \<and> d \<le> days_in y m)"

definition instant :: "int \<times> int \<times> int \<Rightarrow> int \<Rightarrow> int \<Rightarrow> time" where
  "instant ymd ns off = (case ymd of (y, m, d) \<Rightarrow>
     days_from_civil y m d * 86400000000000 + ns - off * 1000000000)"

definition parse_date :: "string \<Rightarrow> time option" where
  "parse_date s = Option.bind (take_date s) (\<lambda>(ymd, r).
     if r = [] \<and> day_ok ymd then Some (instant ymd 0 0) else None)"

text \<open>A date, a separator and a time of day: the date and the nanoseconds since midnight.\<close>

definition parse_wall :: "(string \<Rightarrow> string option) \<Rightarrow> string \<Rightarrow> ((int \<times> int \<times> int) \<times> int) option" where
  "parse_wall sep s =
     Option.bind (take_date s) (\<lambda>(ymd, r).
     Option.bind (sep r) (\<lambda>r.
     Option.bind (take_clock r) (\<lambda>(ns, r).
     if r = [] \<and> day_ok ymd then Some (ymd, ns) else None)))"

definition parse_rfc3339 :: "string \<Rightarrow> time option" where
  "parse_rfc3339 s =
     Option.bind (take_date s) (\<lambda>(ymd, r).
     Option.bind (take_lit ''T'' r) (\<lambda>r.
     Option.bind (take_clock r) (\<lambda>(ns, r).
     Option.bind (take_zone r) (\<lambda>(off, r).
     if r = [] \<and> day_ok ymd then Some (instant ymd ns off) else None))))"

text \<open>What the padded numbers of a date are read as.\<close>

lemma length_nat_str: "n < 10 ^ Suc w \<Longrightarrow> length (nat_str n) \<le> Suc w"
proof (induction n arbitrary: w rule: nat_str.induct)
  case (1 n)
  show ?case
  proof (cases "n < 10")
    case True
    then show ?thesis by (subst nat_str.simps) simp
  next
    case False
    then obtain v where w: "w = Suc v" using 1(2) by (cases w) auto
    have "n div 10 < 10 ^ Suc v" using 1(2) w by auto
    with 1(1) [OF False] have "length (nat_str (n div 10)) \<le> Suc v" by blast
    then show ?thesis using False w by (subst nat_str.simps) simp
  qed
qed

lemma digits_val_replicate: "digits_val 0 (replicate k (CHR ''0'') @ s) = digits_val 0 s"
  by (simp add: digits_val_append digits_val_zero)

lemma take_digits_pad:
  assumes "0 \<le> i" "i < 10 ^ Suc w"
  shows "take_digits (Suc w) (pad_int (Suc w) i @ r) = Some (i, r)"
proof -
  have "nat i < 10 ^ Suc w" using assms by (metis nat_less_numeral_power_cancel_iff)
  then have "length (pad_nat (Suc w) (nat i)) = Suc w"
    using length_nat_str [of "nat i" w] by (simp add: pad_nat_def)
  moreover have "list_all is_digit (pad_nat (Suc w) (nat i))"
    using digits_nat_str [of "nat i"] by (auto simp: pad_nat_def list_all_iff)
  moreover have "digits_val 0 (pad_nat (Suc w) (nat i)) = nat i"
    by (simp add: pad_nat_def digits_val_replicate digits_val_nat_str)
  ultimately show ?thesis using assms(1) by (simp add: take_digits_def pad_int_def)
qed

lemma take_date_pad:
  assumes "0 \<le> y" "y \<le> 9999" "1 \<le> m" "m \<le> 12" "0 \<le> d" "d \<le> 99"
  shows "take_date (pad_int 4 y @ ''-'' @ pad_int 2 m @ ''-'' @ pad_int 2 d @ r) = Some ((y, m, d), r)"
proof -
  have y: "take_digits 4 (pad_int 4 y @ r) = Some (y, r)" for r
    using take_digits_pad [of y 3] assms by (simp add: eval_nat_numeral)
  have two: "take_digits 2 (pad_int 2 i @ r) = Some (i, r)" if "0 \<le> i" "i \<le> 99" for i r
    using take_digits_pad [of i 1] that by (simp add: eval_nat_numeral)
  show ?thesis using assms by (simp add: take_date_def y two take_lit_def has_prefix_def)
qed

end
