(* ===== verification/QueryTemplate.thy ===== *)
theory QueryTemplate
  imports QueryValidate GoTime
begin

text \<open>
  The query templates (\<open>internal/query/template.go\<close>): the placeholders of a query file
  (\<open>{sys.<table>}\<close>, \<open>{query_id}\<close>, \<open>{from:7d}\<close>, \<open>'%salt%'\<close>, ...) are replaced by the values of
  a run, and a text that still holds one is refused.
\<close>

section \<open>System tables\<close>

definition SharedSystemTables :: "string list" where
  "SharedSystemTables = [''columns'', ''databases'', ''detached_parts'', ''mutations'', ''parts'', ''replicas'',
     ''replication_queue'', ''tables'']"

definition SysTable :: "string \<Rightarrow> string \<Rightarrow> string" where
  "SysTable mode table =
     (if to_lower mode = ''cloud'' \<and> table \<notin> set SharedSystemTables
      then ''clusterAllReplicas(default, system.'' @ table @ '')''
      else ''system.'' @ table)"

definition sys_open :: string where "sys_open = ''{sys.''"

lemma count_byte_append [simp]: "count_byte (a @ b) c = count_byte a c + count_byte b c"
  by (simp add: count_byte_def)

lemma count_byte_Cons [simp]: "count_byte (x # b) c = (if x = c then 1 else 0) + count_byte b c"
  by (simp add: count_byte_def)

lemma count_byte_Nil [simp]: "count_byte [] c = 0"
  by (simp add: count_byte_def)

lemma count_byte_zero: "count_byte s c = 0 \<longleftrightarrow> c \<notin> set s"
  by (simp add: count_byte_def count_list_0_iff)

lemma count_SysTable [simp]: "count_byte (SysTable mode table) (CHR ''}'') = count_byte table (CHR ''}'')"
  by (simp add: SysTable_def)

text \<open>Replacing a text by one with fewer \<open>}\<close> lowers their number.\<close>

lemma str_replace_count:
  assumes "count_byte new b \<le> count_byte old b"
  shows "count_byte (str_replace old new s) b \<le> count_byte s b"
  using assms
proof (induction old new s rule: str_replace.induct)
  case (2 old new c cs)
  show ?case
  proof (cases "old \<noteq> [] \<and> has_prefix (c # cs) old")
    case True
    then obtain r where r: "c # cs = old @ r" by (auto simp: has_prefix_iff)
    have "count_byte (c # cs) b = count_byte old b + count_byte r b" by (simp only: r count_byte_append)
    moreover have "drop (length old) (c # cs) = r" by (simp add: r)
    ultimately show ?thesis using 2(1) [OF True 2(3)] 2(3) True by (simp only: str_replace.simps) simp
  next
    case False
    then show ?thesis using 2 by auto
  qed
qed simp

lemma str_replace_count_less:
  assumes "count_byte new b < count_byte old b" "contains s old"
  shows "count_byte (str_replace old new s) b < count_byte s b"
  using assms
proof (induction old new s rule: str_replace.induct)
  case (1 old new)
  then show ?case by (auto simp: contains_def split: if_splits)
next
  case (2 old new c cs)
  have ne: "old \<noteq> []" using 2(3) by auto
  show ?case
  proof (cases "has_prefix (c # cs) old")
    case True
    then obtain r where r: "c # cs = old @ r" by (auto simp: has_prefix_iff)
    have "count_byte (c # cs) b = count_byte old b + count_byte r b" by (simp only: r count_byte_append)
    moreover have "drop (length old) (c # cs) = r" by (simp add: r)
    moreover have "count_byte (str_replace old new r) b \<le> count_byte r b"
      using 2(3) by (intro str_replace_count) simp
    ultimately show ?thesis using 2(3) True ne by (simp only: str_replace.simps) simp
  next
    case False
    then have "contains cs old" using 2(4) by (auto simp: contains_def)
    then show ?thesis using 2(2) [OF _ 2(3)] False by auto
  qed
qed

section \<open>\<open>{sys.<table>}\<close>\<close>

text \<open>The first complete placeholder: where it starts, and how far its \<open>}\<close> is.\<close>

definition next_sys :: "string \<Rightarrow> (nat \<times> nat) option" where
  "next_sys out = (case str_index out sys_open of
     None \<Rightarrow> None
   | Some start \<Rightarrow> map_option (\<lambda>e. (start, e)) (index_byte (drop start out) (CHR ''}'')))"

lemma next_sys_Some:
  assumes "next_sys out = Some (start, e)"
  shows "\<exists>a t b. out = a @ (''{sys.'' @ t @ ''}'') @ b \<and> CHR ''}'' \<notin> set t \<and> length a = start
    \<and> e = length t + 5 \<and> slice out (start + 5) (start + e) = t \<and> slice out start (start + e + 1) = ''{sys.'' @ t @ ''}''"
proof -
  from assms have start: "str_index out sys_open = Some start" and e: "index_byte (drop start out) (CHR ''}'') = Some e"
    by (auto simp: next_sys_def split: option.splits)
  let ?d = "drop start out"
  from str_index_Some [OF start] have le: "start \<le> length out" and p: "take 5 ?d = ''{sys.''"
    by (auto simp: sys_open_def eval_nat_numeral)
  from index_byte_Some [OF e] have e': "e < length ?d" "?d ! e = CHR ''}''" "CHR ''}'' \<notin> set (take e ?d)" by auto
  have "5 \<le> e"
  proof (rule ccontr)
    assume "\<not> 5 \<le> e"
    then have "e < 5" by simp
    then have "?d ! e = take 5 ?d ! e" by simp
    moreover have "take 5 ?d ! e \<in> set (take 5 ?d)" using \<open>e < 5\<close> e'(1) by (intro nth_mem) simp
    ultimately show False using e'(2) p by auto
  qed
  define t where "t = take (e - 5) (drop 5 ?d)"
  have dt: "take e ?d = ''{sys.'' @ t"
    using p \<open>5 \<le> e\<close> take_add [of 5 "e - 5" ?d] by (simp add: t_def)
  have "?d = take e ?d @ ?d ! e # drop (Suc e) ?d" by (rule id_take_nth_drop [OF e'(1)])
  also have "\<dots> = (''{sys.'' @ t @ ''}'') @ drop (Suc e) ?d" unfolding dt e'(2) by simp
  finally have d: "?d = (''{sys.'' @ t @ ''}'') @ drop (Suc e) ?d" .
  have len: "length t = e - 5" using \<open>5 \<le> e\<close> e'(1) by (simp add: t_def)
  have out: "out = take start out @ (''{sys.'' @ t @ ''}'') @ drop (Suc e) ?d"
    using d by (metis append_take_drop_id)
  let ?a = "take start out" and ?b = "drop (Suc e) ?d"
  have la: "length ?a = start" using le by simp
  have "slice ((?a @ ''{sys.'') @ t @ (''}'' @ ?b)) (start + 5) (start + e) = t"
    using len \<open>5 \<le> e\<close> la by (intro slice_mid) auto
  moreover have "slice (?a @ (''{sys.'' @ t @ ''}'') @ ?b) start (start + e + 1) = ''{sys.'' @ t @ ''}''"
    using len \<open>5 \<le> e\<close> la by (intro slice_mid) auto
  moreover have "(?a @ ''{sys.'') @ t @ (''}'' @ ?b) = out" using out by simp
  ultimately have "slice out (start + 5) (start + e) = t" "slice out start (start + e + 1) = ''{sys.'' @ t @ ''}''"
    using out by metis+
  moreover have "CHR ''}'' \<notin> set t" using dt e'(3) by simp
  moreover have "e = length t + 5" using len \<open>5 \<le> e\<close> by simp
  ultimately show ?thesis using out la by blast
qed


function expand_sys_loop :: "string \<Rightarrow> string \<Rightarrow> string" where
  "expand_sys_loop mode out =
     (case next_sys out of
        None \<Rightarrow> out
      | Some (start, e) \<Rightarrow>
          expand_sys_loop mode (str_replace (slice out start (start + e + 1))
            (SysTable mode (slice out (start + 5) (start + e))) out))"
  by pat_completeness auto
termination
proof (relation "measure (\<lambda>(mode, out). count_byte out (CHR ''}''))", goal_cases)
  case (2 mode out p start e)
  then have "next_sys out = Some (start, e)" by simp
  from next_sys_Some [OF this] obtain a t b where out: "out = a @ (''{sys.'' @ t @ ''}'') @ b" "CHR ''}'' \<notin> set t"
    and sl: "slice out (start + 5) (start + e) = t" "slice out start (start + e + 1) = ''{sys.'' @ t @ ''}''"
    by blast
  have "contains out (''{sys.'' @ t @ ''}'')" unfolding contains_iff using out(1) by blast
  then show ?case unfolding sl in_measure prod.case
    by (intro str_replace_count_less) (auto simp: out(2) count_byte_zero)
qed simp

declare expand_sys_loop.simps [simp del]

definition expandSysPlaceholders :: "string \<Rightarrow> string \<Rightarrow> string" where
  "expandSysPlaceholders sql mode = (if trim_space mode = [] then sql else expand_sys_loop mode sql)"

text \<open>The reference: one pass from left to right, each complete placeholder replaced where it stands.
  \<open>sys_clean\<close>: no placeholder's table name holds a brace.\<close>

function sys_pass :: "string \<Rightarrow> string \<Rightarrow> string" where
  "sys_pass mode [] = []"
| "sys_pass mode (c # cs) =
     (if has_prefix (c # cs) ''{sys.'' then
        (case index_byte (drop 4 cs) (CHR ''}'') of
           None \<Rightarrow> c # cs
         | Some e \<Rightarrow> SysTable mode (take e (drop 4 cs)) @ sys_pass mode (drop (e + 5) cs))
      else c # sys_pass mode cs)"
  by pat_completeness auto
termination
  by (relation "measure (\<lambda>(mode, s). length s)") auto

function sys_clean :: "string \<Rightarrow> bool" where
  "sys_clean [] = True"
| "sys_clean (c # cs) =
     (if has_prefix (c # cs) ''{sys.'' then
        (case index_byte (drop 4 cs) (CHR ''}'') of
           None \<Rightarrow> True
         | Some e \<Rightarrow> CHR ''{'' \<notin> set (take e (drop 4 cs)) \<and> sys_clean (drop (e + 5) cs))
      else sys_clean cs)"
  by pat_completeness auto
termination
  by (relation "measure length") auto

lemma index_byte_append: "b \<notin> set t \<Longrightarrow> index_byte (t @ b # r) b = Some (length t)"
  by (induction t) auto

lemma index_byte_split: "index_byte s b = Some e \<Longrightarrow> \<exists>t r. s = t @ b # r \<and> b \<notin> set t \<and> length t = e"
  using index_byte_Some [of s b e] id_take_nth_drop [of e s]
  by (intro exI [of _ "take e s"] exI [of _ "drop (Suc e) s"]) auto

lemma sys_pass_token:
  "CHR ''}'' \<notin> set t \<Longrightarrow> sys_pass mode (''{sys.'' @ t @ CHR ''}'' # r) = SysTable mode t @ sys_pass mode r"
  "CHR ''}'' \<notin> set t \<Longrightarrow> sys_clean (''{sys.'' @ t @ CHR ''}'' # r) \<longleftrightarrow> CHR ''{'' \<notin> set t \<and> sys_clean r"
  by (simp_all add: index_byte_append has_prefix_def eval_nat_numeral)

lemma sys_pass_open:
  "CHR ''}'' \<notin> set t \<Longrightarrow> sys_pass mode (''{sys.'' @ t) = ''{sys.'' @ t"
  by (simp add: has_prefix_def eval_nat_numeral index_byte_None [THEN iffD2])

lemma sys_pass_other:
  "c \<noteq> CHR ''{'' \<Longrightarrow> sys_pass mode (c # cs) = c # sys_pass mode cs"
  "c \<noteq> CHR ''{'' \<Longrightarrow> sys_clean (c # cs) = sys_clean cs"
  by (simp_all add: has_prefix_def)

lemma sys_pass_plain:
  "CHR ''{'' \<notin> set t \<Longrightarrow> sys_pass mode (t @ s) = t @ sys_pass mode s"
  "CHR ''{'' \<notin> set t \<Longrightarrow> sys_clean (t @ s) = sys_clean s"
  by (induction t) (auto simp: sys_pass_other simp del: sys_pass.simps(2) sys_clean.simps(2))

text \<open>What a text with \<open>{sys.\<close> in front looks like.\<close>

lemma sys_cases:
  obtains (Nil) "s = []"
  | (Token) t r where "s = ''{sys.'' @ t @ CHR ''}'' # r" "CHR ''}'' \<notin> set t"
  | (Open) t where "s = ''{sys.'' @ t" "CHR ''}'' \<notin> set t"
  | (Other) c cs where "s = c # cs" "\<not> has_prefix s ''{sys.''"
proof (cases "has_prefix s ''{sys.''")
  case True
  then obtain u where u: "s = ''{sys.'' @ u" by (auto simp: has_prefix_iff)
  show ?thesis
  proof (cases "index_byte u (CHR ''}'')")
    case None
    with u Open show ?thesis by simp
  next
    case (Some e)
    with u Token index_byte_split [OF Some] show ?thesis by auto
  qed
next
  case False
  with Nil Other show ?thesis by (cases s) auto
qed

lemma str_replace_hit: "old \<noteq> [] \<Longrightarrow> str_replace old new (old @ r) = new @ str_replace old new r"
  by (cases old) (auto simp: has_prefix_def)

lemma str_replace_plain:
  "hd old \<notin> set t \<Longrightarrow> old \<noteq> [] \<Longrightarrow> str_replace old new (t @ r) = t @ str_replace old new r"
  by (induction t) (auto simp: has_prefix_def neq_Nil_conv)

lemma str_replace_miss: "\<not> contains s old \<Longrightarrow> str_replace old new s = s"
  by (induction old new s rule: str_replace.induct) (auto simp: contains_def split: if_splits)

text \<open>A replacement never creates the start of a placeholder.\<close>

lemma SysTable_head: "\<exists>r. SysTable mode t = ''syst'' @ r \<or> SysTable mode t = ''clus'' @ r"
  by (auto simp: SysTable_def)

lemma replace_no_open:
  assumes "tok = ''{sys.'' @ t @ ''}''" "\<not> has_prefix cs ''sys.''"
  shows "\<not> has_prefix (str_replace tok (SysTable mode t) cs) ''sys.''"
proof
  let ?R = "str_replace tok (SysTable mode t)"
  have new: "\<not> has_prefix (SysTable mode t @ r) ''sys.''" "\<not> has_prefix (SysTable mode t @ r) ''ys.''"
    "\<not> has_prefix (SysTable mode t @ r) ''s.''" "\<not> has_prefix (SysTable mode t @ r) ''.''" for r
    using SysTable_head [of mode t] by (auto simp: has_prefix_def)
  have step: "\<exists>ds. xs = p # ds \<and> has_prefix (?R ds) ps"
    if "has_prefix (?R xs) (p # ps)" "\<not> has_prefix (SysTable mode t @ ?R (drop (length tok) xs)) (p # ps)" for xs p ps
    using that by (cases xs) (auto simp: has_prefix_def split: if_splits)
  assume "has_prefix (?R cs) ''sys.''"
  from step [OF this new(1)] obtain d1 where 1: "cs = CHR ''s'' # d1" "has_prefix (?R d1) ''ys.''" by blast
  from step [OF 1(2) new(2)] obtain d2 where 2: "d1 = CHR ''y'' # d2" "has_prefix (?R d2) ''s.''" by blast
  from step [OF 2(2) new(3)] obtain d3 where 3: "d2 = CHR ''s'' # d3" "has_prefix (?R d3) ''.''" by blast
  from step [OF 3(2) new(4)] obtain d4 where "d3 = CHR ''.'' # d4" by blast
  with 1(1) 2(1) 3(1) assms(2) show False by (simp add: has_prefix_def)
qed

lemma sys_pass_replace:
  assumes tok: "tok = ''{sys.'' @ t @ ''}''" and t: "CHR ''{'' \<notin> set t" "CHR ''}'' \<notin> set t"
    and clean: "sys_clean s"
  shows "sys_pass mode (str_replace tok (SysTable mode t) s) = sys_pass mode s
    \<and> sys_clean (str_replace tok (SysTable mode t) s)"
  using clean
proof (induction s rule: length_induct)
  case (1 s)
  let ?R = "str_replace tok (SysTable mode t)"
  have hd: "tok \<noteq> []" "hd tok = CHR ''{''" by (simp_all add: tok)
  have noo: "CHR ''{'' \<notin> set (SysTable mode t)" using t by (auto simp: SysTable_def)
  show ?case
  proof (cases s rule: sys_cases)
    case Nil
    then show ?thesis by simp
  next
    case (Token u r)
    have u: "CHR ''{'' \<notin> set u" "sys_clean r"
      using "1.prems" unfolding Token(1) sys_pass_token(2) [OF Token(2)] by auto
    with 1 Token have IH: "sys_pass mode (?R r) = sys_pass mode r" "sys_clean (?R r)" by auto
    show ?thesis
    proof (cases "u = t")
      case True
      have "?R s = SysTable mode t @ ?R r"
        using str_replace_hit [OF hd(1), of _ r] by (simp add: Token True tok)
      with IH noo Token True show ?thesis
        by (simp add: sys_pass_plain sys_pass_token [OF t(2)] del: append_Cons sys_pass.simps sys_clean.simps)
    next
      case False
      have np: "\<not> has_prefix s tok"
      proof
        assume "has_prefix s tok"
        then obtain x where "u @ CHR ''}'' # r = t @ CHR ''}'' # x" using Token by (auto simp: has_prefix_iff tok)
        then have eq: "u @ CHR ''}'' # r = t @ CHR ''}'' # x" .
        have "length u = length t"
          using arg_cong [OF eq, of "\<lambda>s. index_byte s (CHR ''}'')"] Token(2) t(2)
          by (simp add: index_byte_append)
        with eq False show False by simp
      qed
      have "?R s = CHR ''{'' # ?R ((''sys.'' @ u @ ''}'') @ r)" using np Token by simp
      also have "?R ((''sys.'' @ u @ ''}'') @ r) = (''sys.'' @ u @ ''}'') @ ?R r"
        using u(1) hd by (intro str_replace_plain) auto
      finally have "?R s = ''{sys.'' @ u @ CHR ''}'' # ?R r" by simp
      with IH u(1) Token show ?thesis
        by (simp add: sys_pass_token [OF Token(2)] del: append_Cons sys_pass.simps sys_clean.simps)
    qed
  next
    case (Open u)
    have "\<not> contains s tok"
    proof
      assume "contains s tok"
      then have "CHR ''}'' \<in> set s" by (auto simp: contains_iff tok)
      with Open show False by simp
    qed
    with "1.prems" show ?thesis by (simp add: str_replace_miss)
  next
    case (Other c cs)
    have np: "\<not> has_prefix (c # cs) tok" using Other by (auto simp: has_prefix_iff tok)
    have eq: "?R s = c # ?R cs" using np Other by simp
    have "\<not> has_prefix (c # ?R cs) ''{sys.''"
    proof (cases "c = CHR ''{''")
      case True
      then have "\<not> has_prefix cs ''sys.''" using Other by (auto simp: has_prefix_def)
      from replace_no_open [OF tok this, of mode] True show ?thesis by (simp add: has_prefix_def)
    qed (simp add: has_prefix_def)
    with 1 Other eq show ?thesis by auto
  qed
qed

lemma next_sys_None: "next_sys s = None \<Longrightarrow> sys_pass mode s = s"
proof (induction s rule: length_induct)
  case (1 s)
  show ?case
  proof (cases s rule: sys_cases)
    case (Token t r)
    then have "str_index s sys_open = Some 0" by (simp add: sys_open_def has_prefix_def)
    with 1(2) Token show ?thesis by (simp add: next_sys_def)
  next
    case (Other c cs)
    then have "next_sys cs = None"
      using 1(2) by (auto simp: next_sys_def sys_open_def split: option.splits)
    with 1(1) Other show ?thesis by auto
  qed (auto simp: sys_pass_open simp del: sys_pass.simps(2) append_Cons)
qed

lemma sys_clean_table:
  "next_sys s = Some (i, e) \<Longrightarrow> sys_clean s \<Longrightarrow> CHR ''{'' \<notin> set (slice s (i + 5) (i + e))"
proof (induction s arbitrary: i rule: length_induct)
  case (1 s)
  show ?case
  proof (cases s rule: sys_cases)
    case (Token t r)
    then have "str_index s sys_open = Some 0" by (simp add: sys_open_def has_prefix_def)
    with 1 Token have "i = 0" "e = length t + 5"
      using index_byte_append [OF Token(2), of r] by (auto simp: next_sys_def)
    then have "slice s (i + 5) (i + e) = t"
      using slice_mid [of 5 "''{sys.''" "length t + 5" t "CHR ''}'' # r"] Token by (simp add: add.commute)
    with 1 Token show ?thesis by (simp add: sys_pass_token(2) [OF Token(2)] del: append_Cons sys_clean.simps)
  next
    case (Open t)
    then have "str_index s sys_open = Some 0" by (simp add: sys_open_def has_prefix_def)
    moreover have "CHR ''}'' \<notin> set s" using Open by simp
    ultimately show ?thesis using "1.prems"(1)
      by (auto simp: next_sys_def simp del: index_byte_None simp: index_byte_None [THEN iffD2])
  next
    case (Other c cs)
    then obtain j where j: "str_index cs sys_open = Some j" "i = Suc j"
      using 1(2) by (auto simp: next_sys_def sys_open_def split: option.splits)
    then have "next_sys cs = Some (j, e)" using 1(2) Other by (auto simp: next_sys_def split: option.splits)
    moreover have "sys_clean cs" using 1(3) Other by auto
    ultimately have "CHR ''{'' \<notin> set (slice cs (j + 5) (j + e))" using 1(1) Other by simp
    moreover have "drop (i + 5) s = drop (j + 5) cs" using j Other by (simp add: drop_Cons' add.commute)
    ultimately show ?thesis using j by (simp add: slice_def)
  qed (use 1 in \<open>simp add: next_sys_def sys_open_def has_prefix_def\<close>)
qed

lemma expand_sys_loop_pass: "sys_clean sql \<Longrightarrow> expand_sys_loop mode sql = sys_pass mode sql"
proof (induction mode sql rule: expand_sys_loop.induct)
  case (1 mode sql)
  show ?case
  proof (cases "next_sys sql")
    case None
    then show ?thesis by (simp add: expand_sys_loop.simps next_sys_None)
  next
    case (Some p)
    obtain start e where p: "p = (start, e)" by (cases p)
    from next_sys_Some Some p obtain t where
      sl: "slice sql (start + 5) (start + e) = t" "slice sql start (start + e + 1) = ''{sys.'' @ t @ ''}''"
        "CHR ''}'' \<notin> set t" by metis
    have t: "CHR ''{'' \<notin> set t" using sys_clean_table [of sql start e] Some p "1.prems" sl(1) by simp
    from sys_pass_replace [OF refl t sl(3) "1.prems", of mode] "1.IH" [OF Some p [symmetric]] sl Some p
    show ?thesis by (subst expand_sys_loop.simps) simp
  qed
qed



section \<open>Time windows\<close>

text \<open>\<open>\{(from|to):([A-Za-z0-9]+)\}\<close>, \<open>\{(?:from|to):[^{}]*\}\<close> and \<open>\{[A-Za-z0-9_.]+\}\<close>\<close>

definition re_window_placeholder :: re where
  "re_window_placeholder = seqs [lit ''{'', Grp 1 (Alt (lit ''from'') (lit ''to'')), lit '':'',
     Grp 2 (plus_of (Cls is_alnum)), lit ''}'']"

definition re_window_leftover :: re where
  "re_window_leftover = seqs [lit ''{'', Alt (lit ''from'') (lit ''to''), lit '':'',
     any_star (Cls (\<lambda>c. c \<noteq> CHR ''{'' \<and> c \<noteq> CHR ''}'')), lit ''}'']"

definition placeholder_char :: "char \<Rightarrow> bool" where
  "placeholder_char c \<longleftrightarrow> re_word c \<or> c = CHR ''.''"

definition re_placeholder :: re where
  "re_placeholder = seqs [lit ''{'', plus_of (Cls placeholder_char), lit ''}'']"

definition unit_name :: "char \<Rightarrow> string option" where
  "unit_name u = (if u = CHR ''d'' then Some ''DAY'' else if u = CHR ''h'' then Some ''HOUR''
     else if u = CHR ''m'' then Some ''MINUTE'' else None)"

definition windowDefaultSQL :: "string \<Rightarrow> string option" where
  "windowDefaultSQL spec =
     (if spec = ''now'' then Some ''now()''
      else if length spec < 2 then None
      else let n = butlast spec; u = last spec in
        if \<not> list_all is_digit n then None
        else if n = [] \<or> trim_left (\<lambda>c. c = CHR ''0'') n = [] then None
        else map_option (\<lambda>interval. ''now() - INTERVAL '' @ n @ '' '' @ interval) (unit_name u))"

definition windowSpecDuration :: "string \<Rightarrow> duration option" where
  "windowSpecDuration spec =
     (if windowDefaultSQL spec = None \<or> spec = ''now'' then None
      else case parse_int64 (butlast spec) of
        (_, Some _) \<Rightarrow> None
      | (n, None) \<Rightarrow>
          let u = last spec in
          if u = CHR ''d'' then Some (wrap64 (wrap64 (n * 24) * Hour))
          else if u = CHR ''h'' then Some (wrap64 (n * Hour))
          else if u = CHR ''m'' then Some (wrap64 (n * Minute))
          else None)"

definition utcLiteral :: "time \<Rightarrow> string" where
  "utcLiteral t = ''toDateTime('' @ QUOTE # fmt_datetime t @ QUOTE # '', '' @ QUOTE # ''UTC'' @ QUOTE # '')''"

text \<open>The replacement of one placeholder, whose groups are the bound's name and its default.\<close>

definition window_value :: "time \<Rightarrow> time \<Rightarrow> duration \<Rightarrow> string \<Rightarrow> string \<Rightarrow> string option" where
  "window_value from_t to_t maxLookback name spec =
     (let bound = (if name = ''to'' then to_t else from_t) in
      if \<not> is_zero bound then Some (utcLiteral bound)
      else case (if name = ''from'' \<and> maxLookback > 0 then windowSpecDuration spec else None) of
        Some d \<Rightarrow>
          if d > maxLookback
          then Some (''now() - INTERVAL '' @ int_str (go_div (wrap64 (wrap64 (maxLookback + Hour) - 1)) Hour) @ '' HOUR'')
          else windowDefaultSQL spec
      | None \<Rightarrow> windowDefaultSQL spec)"

definition window_repl :: "time \<Rightarrow> time \<Rightarrow> duration \<Rightarrow> string \<Rightarrow> string" where
  "window_repl from_t to_t maxLookback m =
     (case re_find re_window_placeholder m of
        None \<Rightarrow> m
      | Some (_, _, cs) \<Rightarrow>
          (case window_value from_t to_t maxLookback (group m cs 1) (group m cs 2) of
             Some v \<Rightarrow> v | None \<Rightarrow> m))"

definition expandWindowPlaceholders :: "string \<Rightarrow> time \<Rightarrow> time \<Rightarrow> duration \<Rightarrow> string" where
  "expandWindowPlaceholders sql from_t to_t maxLookback =
     replace_func re_window_placeholder (window_repl from_t to_t maxLookback) sql"

text \<open>The nanoseconds of one unit of a default.\<close>

definition unit_ns :: "char \<Rightarrow> duration" where
  "unit_ns u = (if u = CHR ''d'' then 24 * Hour else if u = CHR ''h'' then Hour else Minute)"

lemma trim_zeros_nat_str: "0 < n \<Longrightarrow> trim_left (\<lambda>c. c = CHR ''0'') (nat_str n) \<noteq> []"
proof
  assume "0 < n" and "trim_left (\<lambda>c. c = CHR ''0'') (nat_str n) = []"
  then have "\<forall>c\<in>set (nat_str n). c = CHR ''0''" by (simp add: trim_left_def dropWhile_eq_Nil_conv)
  then have "digits_val 0 (nat_str n) = 0" by (rule digits_val_zero)
  with \<open>0 < n\<close> show False by (simp add: digits_val_nat_str)
qed

lemma default_not_now: "u \<noteq> CHR ''w'' \<Longrightarrow> s @ [u] \<noteq> ''now''"
  by (auto simp: snoc_eq_iff_butlast)

lemma window_default_nat:
  assumes "0 < n" "u \<in> {CHR ''d'', CHR ''h'', CHR ''m''}"
  shows "windowDefaultSQL (nat_str n @ [u]) = Some (''now() - INTERVAL '' @ nat_str n @ '' '' @ the (unit_name u))"
proof -
  have "nat_str n @ [u] \<noteq> ''now''" using assms(2) by (intro default_not_now) auto
  moreover have "\<not> length (nat_str n @ [u]) < 2" by (cases "nat_str n") auto
  moreover have "unit_name u \<noteq> None" using assms(2) by (auto simp: unit_name_def)
  ultimately show ?thesis
    using trim_zeros_nat_str [OF assms(1)] by (auto simp: windowDefaultSQL_def digits_nat_str Let_def)
qed

lemma window_duration_nat:
  assumes "0 < n" "u \<in> {CHR ''d'', CHR ''h'', CHR ''m''}" "int n * unit_ns u \<le> max_int64"
  shows "windowSpecDuration (nat_str n @ [u]) = Some (int n * unit_ns u)"
proof -
  have now: "nat_str n @ [u] \<noteq> ''now''" using assms(2) by (intro default_not_now) auto
  have small: "int n * 24 \<le> max_int64" "int n \<le> max_int64" "int n * Hour \<le> max_int64 \<or> u = CHR ''m''"
    using assms(2,3) by (auto simp: unit_ns_def duration_defs max_int64_def)
  have "wrap64 (int n * 24) = int n * 24" "u \<noteq> CHR ''d'' \<or> wrap64 (int n * 24 * Hour) = int n * 24 * Hour"
    "u \<noteq> CHR ''h'' \<or> wrap64 (int n * Hour) = int n * Hour"
    "u \<noteq> CHR ''m'' \<or> wrap64 (int n * Minute) = int n * Minute"
    using small assms(3) by (auto intro!: wrap64_id simp: min_int64_def unit_ns_def duration_defs)
  then show ?thesis
    using now small(2) assms(2) window_default_nat [OF assms(1,2)]
    by (auto simp: windowSpecDuration_def parse_int64_nat_str unit_ns_def)
qed

text \<open>The lookback cap: a \<open>{from:<n><unit>}\<close> default for which no \<open>--from\<close> is given becomes its own interval
  when that is not longer than the cap, and the cap rounded up to whole hours otherwise; so the window never
  reaches further back than the cap's last started hour. (The hypotheses: the default is positive, its unit is
  d, h or m, and its length in nanoseconds fits \<open>int64\<close>; the cap is positive and one hour below the largest
  \<open>Duration\<close>.)\<close>

theorem window_cap:
  assumes "0 < n" "u \<in> {CHR ''d'', CHR ''h'', CHR ''m''}" "int n * unit_ns u \<le> max_int64"
    and "0 < lookback" "lookback + Hour \<le> max_int64"
  shows "window_value zero_time to_t lookback ''from'' (nat_str n @ [u]) =
    Some (if int n * unit_ns u > lookback
      then ''now() - INTERVAL '' @ nat_str (nat ((lookback + Hour - 1) div Hour)) @ '' HOUR''
      else ''now() - INTERVAL '' @ nat_str n @ '' '' @ the (unit_name u))"
proof -
  have w: "wrap64 (wrap64 (lookback + Hour) - 1) = lookback + Hour - 1"
    using assms(4,5) by (simp add: wrap64_id min_int64_def duration_defs)
  have "0 \<le> (lookback + Hour - 1) div Hour"
    using assms(4) by (simp add: duration_defs pos_imp_zdiv_nonneg_iff)
  then have "int_str (go_div (lookback + Hour - 1) Hour) = nat_str (nat ((lookback + Hour - 1) div Hour))"
    using assms(4) by (simp add: go_div_pos int_str_def duration_defs)
  then show ?thesis
    using assms(4) w window_duration_nat [OF assms(1,2,3)] window_default_nat [OF assms(1,2)]
    by (simp add: window_value_def is_zero_def)
qed

theorem window_cap_witness:
  "window_value zero_time 5 (24 * Hour) ''from'' (nat_str 7 @ ''d'') = Some ''now() - INTERVAL 24 HOUR'' \<and>
   window_value zero_time 5 (24 * Hour) ''from'' (nat_str 12 @ ''h'') = Some ''now() - INTERVAL 12 HOUR''"
  using window_cap [of 7 "CHR ''d''" "24 * Hour" 5] window_cap [of 12 "CHR ''h''" "24 * Hour" 5]
  by (simp add: unit_ns_def unit_name_def duration_defs max_int64_def nat_str_eval)

text \<open>Beyond \<open>int64\<close> the length wraps, and the cap does not apply: a default of 106752 days counts as negative.\<close>

lemma window_cap_overflow:
  "windowSpecDuration ''106752d'' = Some (- 9223371273709551616)"
  "window_value zero_time 5 (24 * Hour) ''from'' ''106752d'' = Some ''now() - INTERVAL 106752 DAY''"
proof -
  have parse: "parse_int64 (butlast ''106752d'') = (106752, None)"
    by (simp add: parse_int64_def split_sign_def code_def max_int64_def min_int64_def)
  have default: "windowDefaultSQL ''106752d'' = Some ''now() - INTERVAL 106752 DAY''" by code_simp
  show dur: "windowSpecDuration ''106752d'' = Some (- 9223371273709551616)"
    unfolding windowSpecDuration_def default parse by (simp add: wrap64_def Hour_def)
  show "window_value zero_time 5 (24 * Hour) ''from'' ''106752d'' = Some ''now() - INTERVAL 106752 DAY''"
    unfolding window_value_def dur default by (simp add: is_zero_def Hour_def)
qed

section \<open>Binding a template\<close>

record Vars =
  v_Mode :: string
  v_QueryID :: string
  v_NormalizedQueryHash :: string
  v_From :: time
  v_To :: time
  v_GovSalt :: string
  v_MaxLookback :: duration
  v_DetachedScope :: string
  v_DetachedScopeP :: string

definition scopeOr1 :: "string \<Rightarrow> string" where
  "scopeOr1 s = (if s = [] \<or> s = ''1'' then ''1'' else ''('' @ s @ '')'')"

definition quoted :: "string \<Rightarrow> string" where
  "quoted s = QUOTE # s @ [QUOTE]"

definition bind_if :: "bool \<Rightarrow> string \<Rightarrow> string \<Rightarrow> string \<Rightarrow> string" where
  "bind_if b old new sql = (if b then str_replace old new sql else sql)"

definition ApplyVars :: "string \<Rightarrow> Vars \<Rightarrow> string" where
  "ApplyVars sql vars =
     (let sql = expandSysPlaceholders sql (v_Mode vars);
          sql = expandWindowPlaceholders sql (v_From vars) (v_To vars) (v_MaxLookback vars);
          sql = str_replace ''{detached_scope_p}'' (scopeOr1 (v_DetachedScopeP vars)) sql;
          sql = str_replace ''{detached_scope}'' (scopeOr1 (v_DetachedScope vars)) sql;
          sql = bind_if (v_QueryID vars \<noteq> []) ''{query_id}'' (quoted (v_QueryID vars)) sql;
          sql = bind_if (v_NormalizedQueryHash vars \<noteq> []) ''{normalized_query_hash}'' (v_NormalizedQueryHash vars) sql;
          sql = bind_if (\<not> is_zero (v_From vars)) ''{from}'' (utcLiteral (v_From vars)) sql;
          sql = bind_if (\<not> is_zero (v_To vars)) ''{to}'' (utcLiteral (v_To vars)) sql
      in bind_if (v_GovSalt vars \<noteq> []) (quoted ''%salt%'') (quoted (v_GovSalt vars)) sql)"

definition UnboundPlaceholders :: "string \<Rightarrow> string list" where
  "UnboundPlaceholders sql =
     (let scan = replace_all re_line_comment '' '' (replace_all re_block_comment '' '' sql)
      in dedup (find_all re_placeholder scan @ find_all re_window_leftover scan))"

section \<open>The check for what is left\<close>

lemma matches_placeholder_tail:
  "matches (Seq (plus_of (Cls placeholder_char)) (lit ''}'')) st \<noteq> [] \<longleftrightarrow>
     (\<exists>w b. mrest st = w @ ''}'' @ b \<and> w \<noteq> [] \<and> list_all placeholder_char w)"
proof (cases "mrest st")
  case Nil
  then show ?thesis unfolding matches_Seq_assoc by simp
next
  case (Cons c cs)
  have first: "matches (Seq (Cls p) r) st \<noteq> [] \<longleftrightarrow> p c \<and> matches r (adv 1 st) \<noteq> []" for p r
    by (simp add: Cons adv_Suc_Cons)
  have "matches (Seq (plus_of (Cls placeholder_char)) (lit ''}'')) st \<noteq> [] \<longleftrightarrow>
      placeholder_char c \<and> (\<exists>w b. cs = w @ ''}'' @ b \<and> list_all placeholder_char w)"
    unfolding matches_Seq_assoc first matches_run_lit adv_simps Cons by simp
  also have "\<dots> \<longleftrightarrow> (\<exists>w b. mrest st = w @ ''}'' @ b \<and> w \<noteq> [] \<and> list_all placeholder_char w)"
  proof
    assume "placeholder_char c \<and> (\<exists>w b. cs = w @ ''}'' @ b \<and> list_all placeholder_char w)"
    then obtain w b where "placeholder_char c" "cs = w @ ''}'' @ b" "list_all placeholder_char w" by blast
    then show "\<exists>w b. mrest st = w @ ''}'' @ b \<and> w \<noteq> [] \<and> list_all placeholder_char w"
      by (intro exI [of _ "c # w"] exI [of _ b]) (simp add: Cons)
  next
    assume "\<exists>w b. mrest st = w @ ''}'' @ b \<and> w \<noteq> [] \<and> list_all placeholder_char w"
    then obtain w b where w: "mrest st = w @ ''}'' @ b" "w \<noteq> []" "list_all placeholder_char w" by blast
    then obtain w' where "w = c # w'" by (cases w) (auto simp: Cons)
    with w Cons show "placeholder_char c \<and> (\<exists>w b. cs = w @ ''}'' @ b \<and> list_all placeholder_char w)" by auto
  qed
  finally show ?thesis .
qed

definition no_brace :: "char \<Rightarrow> bool" where
  "no_brace c \<longleftrightarrow> c \<noteq> CHR ''{'' \<and> c \<noteq> CHR ''}''"

lemma matches_leftover_tail:
  "matches (Seq (Alt (lit ''from'') (lit ''to'')) (Seq (lit '':'') (Seq (any_star (Cls no_brace)) (lit ''}'')))) st \<noteq> []
   \<longleftrightarrow> (\<exists>w b. (mrest st = ''from:'' @ w @ ''}'' @ b \<or> mrest st = ''to:'' @ w @ ''}'' @ b) \<and> list_all no_brace w)"
proof -
  let ?r = "Seq (lit '':'') (Seq (any_star (Cls no_brace)) (lit ''}''))"
  have "matches (Seq (Alt (lit ''from'') (lit ''to'')) ?r) st \<noteq> [] \<longleftrightarrow>
      matches (Seq (lit ''from'') ?r) st \<noteq> [] \<or> matches (Seq (lit ''to'') ?r) st \<noteq> []"
    unfolding matches.simps(3) [of "Alt _ _"] matches.simps(3) [of "lit _"] matches.simps(4) by simp
  also have "\<dots> \<longleftrightarrow> (\<exists>w b. (mrest st = ''from:'' @ w @ ''}'' @ b \<or> mrest st = ''to:'' @ w @ ''}'' @ b) \<and> list_all no_brace w)"
    unfolding matches_lit_Seq matches_run_lit adv_simps conj_assoc by (auto simp: has_prefix_iff) metis+
  finally show ?thesis .
qed

text \<open>A query passes the check for unbound placeholders exactly when its text without comments holds no
  name in braces and no \<open>{from:...}\<close> or \<open>{to:...}\<close>; otherwise every reported placeholder is reported once.\<close>

theorem unbound_placeholders_iff:
  "(UnboundPlaceholders sql = [] \<longleftrightarrow>
     (let scan = strip_line (strip_block sql) in
      (\<nexists>a w b. scan = a @ ''{'' @ w @ ''}'' @ b \<and> w \<noteq> [] \<and> list_all placeholder_char w) \<and>
      (\<nexists>a w b. (scan = a @ ''{from:'' @ w @ ''}'' @ b \<or> scan = a @ ''{to:'' @ w @ ''}'' @ b) \<and> list_all no_brace w)))
   \<and> distinct (UnboundPlaceholders sql)"
proof -
  let ?scan = "strip_line (strip_block sql)"
  have nb: "(\<lambda>c. c \<noteq> CHR ''{'' \<and> c \<noteq> CHR ''}'') = no_brace" by (simp add: no_brace_def fun_eq_iff)
  have p: "find_all re_placeholder ?scan = [] \<longleftrightarrow>
      (\<nexists>a w b. ?scan = a @ ''{'' @ w @ ''}'' @ b \<and> w \<noteq> [] \<and> list_all placeholder_char w)"
    unfolding re_placeholder_def seqs.simps
    by (subst find_all_lit_Seq [OF _ matches_placeholder_tail]) auto
  have w: "find_all re_window_leftover ?scan = [] \<longleftrightarrow>
      (\<nexists>a w b. (?scan = a @ ''{from:'' @ w @ ''}'' @ b \<or> ?scan = a @ ''{to:'' @ w @ ''}'' @ b) \<and> list_all no_brace w)"
    unfolding re_window_leftover_def seqs.simps nb
    by (subst find_all_lit_Seq [OF _ matches_leftover_tail]) auto
  show ?thesis
    unfolding UnboundPlaceholders_def Let_def replace_block replace_line dedup_Nil_iff
    using p w by (simp add: distinct_dedup_seen)
qed

end
