(* ===== verification/Versions.thy ===== *)
theory Versions
  imports GoRegexp "HOL-Library.Product_Lexorder"
begin

text \<open>
  ClickHouse versions: \<open>Version\<close> of \<open>internal/types.go\<close>, \<open>Comparer\<close> of
  \<open>internal/version/compare.go\<close> and \<open>Parser\<close> of \<open>internal/version/parser.go\<close>.

  The comparison is shown to be the strict part of a linear order (the \<open>linorder\<close> instance of
  \<open>Version\<close>), and both parsers are shown to read back what a version prints as.
\<close>

section \<open>The type and its comparison\<close>

datatype Version = Version (Major: int) (Minor: int) (Patch: int) (Build: int)

definition is_greater :: "Version \<Rightarrow> Version \<Rightarrow> bool" where
  "is_greater a b =
     (if Major a \<noteq> Major b then Major a > Major b
      else if Minor a \<noteq> Minor b then Minor a > Minor b
      else if Patch a \<noteq> Patch b then Patch a > Patch b
      else Build a > Build b)"

definition is_equal :: "Version \<Rightarrow> Version \<Rightarrow> bool" where
  "is_equal a b \<longleftrightarrow> Major a = Major b \<and> Minor a = Minor b \<and> Patch a = Patch b \<and> Build a = Build b"

definition is_greater_or_equal :: "Version \<Rightarrow> Version \<Rightarrow> bool" where
  "is_greater_or_equal a b \<longleftrightarrow> is_greater a b \<or> is_equal a b"

definition is_less :: "Version \<Rightarrow> Version \<Rightarrow> bool" where
  "is_less a b \<longleftrightarrow> is_greater b a"

definition is_less_or_equal :: "Version \<Rightarrow> Version \<Rightarrow> bool" where
  "is_less_or_equal a b \<longleftrightarrow> is_less a b \<or> is_equal a b"

lemma is_equal_iff [simp]: "is_equal a b \<longleftrightarrow> a = b"
  by (cases a; cases b) (simp add: is_equal_def)

text \<open>The components as a tuple, compared lexicographically.\<close>

definition version_key :: "Version \<Rightarrow> int \<times> int \<times> int \<times> int" where
  "version_key v = (Major v, Minor v, Patch v, Build v)"

lemma version_key_inject: "version_key a = version_key b \<longleftrightarrow> a = b"
  by (cases a; cases b) (simp add: version_key_def)

lemma is_greater_key: "is_greater a b \<longleftrightarrow> version_key b < version_key a"
  by (auto simp: is_greater_def version_key_def less_prod_def)

instantiation Version :: linorder
begin

definition less_Version :: "Version \<Rightarrow> Version \<Rightarrow> bool" where
  "less_Version a b \<longleftrightarrow> is_less a b"

definition less_eq_Version :: "Version \<Rightarrow> Version \<Rightarrow> bool" where
  "less_eq_Version a b \<longleftrightarrow> is_less_or_equal a b"

instance
  by standard
    (auto simp: less_Version_def less_eq_Version_def is_less_def is_less_or_equal_def is_greater_key
      version_key_inject not_less order.order_iff_strict)

end

lemma is_greater_less [simp]: "is_greater a b \<longleftrightarrow> b < a"
  by (simp add: less_Version_def is_less_def)

lemma is_greater_or_equal_le [simp]: "is_greater_or_equal a b \<longleftrightarrow> b \<le> a"
  by (auto simp: is_greater_or_equal_def)

lemma version_le_key: "a \<le> b \<longleftrightarrow> version_key a \<le> version_key b"
  by (auto simp: le_less is_greater_key [symmetric] version_key_inject)

section \<open>Parsing\<close>

datatype version_error =
    InvalidVersionFormat string
  | InvalidDirFormat string
  | InvalidMajor string
  | InvalidMinor string
  | InvalidPatch string
  | InvalidBuild string

abbreviation re_digits :: re where "re_digits \<equiv> plus_of (Cls is_digit)"
abbreviation re_dot :: re where "re_dot \<equiv> Cls (\<lambda>c. c = CHR ''.'')"

text \<open>\<open>(\d+)\.(\d+)\.(\d+)\.(\d+)\<close>\<close>

definition re_version :: re where
  "re_version = Seq (Grp 1 re_digits) (Seq re_dot (Seq (Grp 2 re_digits) (Seq re_dot
     (Seq (Grp 3 re_digits) (Seq re_dot (Grp 4 re_digits))))))"

definition parse_clickhouse_version :: "string \<Rightarrow> version_error + Version" where
  "parse_clickhouse_version versionStr =
     (let s = trim_space versionStr in
      case re_find re_version s of
        None \<Rightarrow> Inl (InvalidVersionFormat s)
      | Some (_, _, cs) \<Rightarrow>
          Inr (Version (fst (parse_int64 (group s cs 1))) (fst (parse_int64 (group s cs 2)))
                       (fst (parse_int64 (group s cs 3))) (fst (parse_int64 (group s cs 4)))))"

definition parse_version_from_dir_name :: "string \<Rightarrow> version_error + Version" where
  "parse_version_from_dir_name dirName =
     (case split_byte (CHR ''.'') dirName of
        [p0, p1, p2, p3] \<Rightarrow>
          (case parse_int64 p0 of (_, Some _) \<Rightarrow> Inl (InvalidMajor p0) | (major, None) \<Rightarrow>
          (case parse_int64 p1 of (_, Some _) \<Rightarrow> Inl (InvalidMinor p1) | (minor, None) \<Rightarrow>
          (case parse_int64 p2 of (_, Some _) \<Rightarrow> Inl (InvalidPatch p2) | (patch, None) \<Rightarrow>
          (case parse_int64 p3 of (_, Some _) \<Rightarrow> Inl (InvalidBuild p3) | (build, None) \<Rightarrow>
             Inr (Version major minor patch build)))))
      | _ \<Rightarrow> Inl (InvalidDirFormat dirName))"

section \<open>What a version prints as, and reading it back\<close>

definition show_version :: "Version \<Rightarrow> string" where
  "show_version v = str_join ''.'' [int_str (Major v), int_str (Minor v), int_str (Patch v), int_str (Build v)]"

text \<open>The components of a version are Go \<open>int\<close>s.\<close>

definition in_int64 :: "Version \<Rightarrow> bool" where
  "in_int64 v \<longleftrightarrow> (\<forall>i \<in> {Major v, Minor v, Patch v, Build v}. min_int64 \<le> i \<and> i \<le> max_int64)"

definition non_negative :: "Version \<Rightarrow> bool" where
  "non_negative v \<longleftrightarrow> 0 \<le> Major v \<and> 0 \<le> Minor v \<and> 0 \<le> Patch v \<and> 0 \<le> Build v"

lemma dot_notin_int_str: "CHR ''.'' \<notin> set (int_str i)"
proof -
  have "CHR ''.'' \<notin> set (nat_str n)" for n
    using digits_nat_str [of n] by (auto simp: list_all_iff dest: is_digit_not)
  then show ?thesis by (simp add: int_str_def)
qed

lemma parse_dir_show:
  assumes "in_int64 v"
  shows "parse_version_from_dir_name (show_version v) = Inr v"
proof -
  have "split_byte (CHR ''.'') (show_version v) =
      [int_str (Major v), int_str (Minor v), int_str (Patch v), int_str (Build v)]"
    unfolding show_version_def by (rule split_join_byte) (auto simp: dot_notin_int_str)
  with assms show ?thesis
    by (simp add: parse_version_from_dir_name_def parse_int64_int_str in_int64_def)
qed

lemma parse_dir_accepts:
  "parse_version_from_dir_name d = Inr v \<longleftrightarrow>
     (\<exists>p0 p1 p2 p3. split_byte (CHR ''.'') d = [p0, p1, p2, p3] \<and>
        parse_int64 p0 = (Major v, None) \<and> parse_int64 p1 = (Minor v, None) \<and>
        parse_int64 p2 = (Patch v, None) \<and> parse_int64 p3 = (Build v, None))"
  by (cases v) (auto simp: parse_version_from_dir_name_def split: list.splits prod.splits option.splits)

text \<open>A run of a class, then something outside the class: the repetition takes exactly the run.\<close>

lemma plus_run:
  assumes "list_all p ds" "ds \<noteq> []" "rest = [] \<or> \<not> p (hd rest)"
    and "k (M (i + length ds) (Some (last ds)) rest g) = Some t"
  shows "match_k (plus_of (Cls p)) (M i pv (ds @ rest) g) k = Some t"
proof -
  obtain d ds' where ds: "ds = d # ds'" using assms(2) by (cases ds) auto
  have tw: "takeWhile p (ds' @ rest) = ds'"
    using assms(1,3) ds by (cases rest) (simp_all add: takeWhile_list_all takeWhile_eq_all_conv list_all_iff)
  have "adv (length ds') (M (Suc i) (Some d) (ds' @ rest) g) = M (i + length ds) (Some (last ds)) rest g"
    using ds by (cases ds' rule: rev_cases) (auto simp: adv_def nth_append)
  then have "k (adv (length (takeWhile p (ds' @ rest))) (M (Suc i) (Some d) (ds' @ rest) g)) = Some t"
    using assms(4) tw by simp
  then have "match_k (Star True (Cls p)) (M (Suc i) (Some d) (ds' @ rest) g) k = Some t"
    by (intro star_Cls_longest) simp
  then show ?thesis using ds assms(1) by simp
qed

lemma group_run:
  assumes "list_all is_digit ds" "ds \<noteq> []" "rest = [] \<or> \<not> is_digit (hd rest)"
    and "k (M (i + length ds) (Some (last ds)) rest ((n, i, i + length ds) # g)) = Some t"
  shows "match_k (Grp n re_digits) (M i pv (ds @ rest) g) k = Some t"
  using assms unfolding match_k.simps(6) by (intro plus_run) simp_all

lemma group_run_seq:
  assumes "list_all is_digit ds" "ds \<noteq> []" "rest = [] \<or> \<not> is_digit (hd rest)"
    and "match_k r (M (i + length ds) (Some (last ds)) rest ((n, i, i + length ds) # g)) k = Some t"
  shows "match_k (Seq (Grp n re_digits) r) (M i pv (ds @ rest) g) k = Some t"
  unfolding match_k.simps(3) [of "Grp n re_digits"] by (rule group_run) (fact assms)+

lemma dot_seq:
  assumes "match_k r (M (Suc i) (Some CHR ''.'') rest g) k = Some t"
  shows "match_k (Seq re_dot r) (M i pv (CHR ''.'' # rest) g) k = Some t"
  using assms by simp

lemma int_str_nonneg: "0 \<le> i \<Longrightarrow> int_str i = nat_str (nat i)"
  by (simp add: int_str_def)

text \<open>The leftmost match of the version pattern in a printed version is the whole of it.\<close>

lemma find_version:
  fixes a b c d rest
  defines "A \<equiv> nat_str a" and "B \<equiv> nat_str b" and "C \<equiv> nat_str c" and "D \<equiv> nat_str d"
  assumes "rest = [] \<or> \<not> is_digit (hd rest)"
  shows "\<exists>e cs. re_find re_version (A @ ''.'' @ B @ ''.'' @ C @ ''.'' @ D @ rest) = Some (0, e, cs) \<and>
    group (A @ ''.'' @ B @ ''.'' @ C @ ''.'' @ D @ rest) cs 1 = A \<and>
    group (A @ ''.'' @ B @ ''.'' @ C @ ''.'' @ D @ rest) cs 2 = B \<and>
    group (A @ ''.'' @ B @ ''.'' @ C @ ''.'' @ D @ rest) cs 3 = C \<and>
    group (A @ ''.'' @ B @ ''.'' @ C @ ''.'' @ D @ rest) cs 4 = D"
proof -
  let ?s = "A @ CHR ''.'' # B @ CHR ''.'' # C @ CHR ''.'' # D @ rest"
  let ?i2 = "Suc (length A)" let ?i3 = "Suc (?i2 + length B)" let ?i4 = "Suc (?i3 + length C)"
  let ?e = "?i4 + length D"
  let ?cs = "[(4, ?i4, ?e), (3, ?i3, ?i3 + length C), (2, ?i2, ?i2 + length B), (1, 0, length A)]"
  have ds: "list_all is_digit A" "list_all is_digit B" "list_all is_digit C" "list_all is_digit D"
    "A \<noteq> []" "B \<noteq> []" "C \<noteq> []" "D \<noteq> []"
    by (simp_all add: A_def B_def C_def D_def digits_nat_str)
  have nd: "\<not> is_digit CHR ''.''" by simp
  have "match_k re_version (M 0 None ?s []) Some = Some (M ?e (Some (last D)) rest ?cs)"
    unfolding re_version_def
    by (intro group_run_seq group_run dot_seq ds) (simp_all add: nd assms(5))
  moreover obtain x xs where "?s = x # xs" using ds(5) by (cases A) auto
  ultimately have "re_find re_version ?s = Some (0, ?e, ?cs)"
    by (simp add: re_find_def first_match_def)
  moreover have "slice ?s 0 (length A) = A" "slice ?s ?i2 (?i2 + length B) = B"
    "slice ?s ?i3 (?i3 + length C) = C" "slice ?s ?i4 ?e = D"
    using slice_mid [of 0 "[]" _ A] slice_mid [of ?i2 "A @ ''.''" _ B]
      slice_mid [of ?i3 "A @ ''.'' @ B @ ''.''" _ C]
      slice_mid [of ?i4 "A @ ''.'' @ B @ ''.'' @ C @ ''.''" _ D rest]
    by (simp_all add: add.assoc)
  ultimately show ?thesis
    by (intro exI [of _ ?e] exI [of _ ?cs]) (simp add: group_def)
qed

text \<open>
  The server's answer to \<open>SELECT version()\<close>: a version, possibly between white space and with a
  suffix that is not a digit (a build name, a line break).
\<close>

lemma parse_server_version:
  assumes "in_int64 v" "non_negative v" "suffix = [] \<or> \<not> is_digit (hd suffix)" "list_all is_space ws"
  shows "parse_clickhouse_version (ws @ show_version v @ suffix) = Inr v"
proof -
  obtain a b c d where v: "v = Version a b c d" by (cases v)
  let ?A = "nat_str (nat a)" let ?B = "nat_str (nat b)" let ?C = "nat_str (nat c)" let ?D = "nat_str (nat d)"
  let ?v = "?A @ ''.'' @ ?B @ ''.'' @ ?C @ ''.'' @ ?D"
  have sv: "show_version v = ?v"
    using assms(2) by (simp add: show_version_def v non_negative_def int_str_nonneg)
  have dig: "\<not> is_space x" if "x \<in> set (nat_str n)" for x n
    using that digits_nat_str [of n]
    by (auto simp: list_all_iff is_digit_def is_space_def in_range_def)
  obtain x xs where A: "?A = x # xs" by (meson nat_str_not_Nil neq_Nil_conv)
  then have "\<not> is_space x" using dig [of x "nat a"] by simp
  then have "trim_left is_space (ws @ ?v @ suffix) = ?v @ suffix"
    using assms(4) A by (simp add: trim_left_def dropWhile_list_all)
  moreover have "trim_right is_space (?v @ suffix) = ?v @ trim_right is_space suffix"
  proof -
    have "\<not> is_space (last ?v)" using dig [of "last ?D" "nat d"] by simp
    then show ?thesis by (intro trim_right_keep) simp_all
  qed
  moreover have "trim_right is_space suffix = [] \<or> \<not> is_digit (hd (trim_right is_space suffix))"
    using assms(3) trim_right_split [of suffix is_space] by (cases "trim_right is_space suffix") auto
  ultimately obtain rest where trim: "trim_space (ws @ ?v @ suffix) = ?v @ rest"
    and rest: "rest = [] \<or> \<not> is_digit (hd rest)"
    by (auto simp: trim_space_def trim_both_def)
  from find_version [OF rest, of "nat a" "nat b" "nat c" "nat d"] obtain e cs where
    "re_find re_version (?v @ rest) = Some (0, e, cs)"
    "group (?v @ rest) cs 1 = ?A" "group (?v @ rest) cs 2 = ?B"
    "group (?v @ rest) cs 3 = ?C" "group (?v @ rest) cs 4 = ?D"
    by auto
  moreover have "trim_space (ws @ show_version v @ suffix) = ?v @ rest"
    using sv trim by simp
  ultimately show ?thesis
    using assms(1,2) unfolding parse_clickhouse_version_def
    by (simp add: parse_int64_nat_str in_int64_def non_negative_def v)
qed

section \<open>Properties\<close>

text \<open>The comparison methods of \<open>Comparer\<close> are exactly the lexicographic order on
  (major, minor, patch, build): the hand-written cascade in \<open>IsGreater\<close> and the four methods
  derived from it agree with that order, so any two versions are comparable and the order is total.\<close>

theorem comparer_lexicographic:
  "is_greater a b = (version_key b < version_key a) \<and>
   is_equal a b = (version_key a = version_key b) \<and>
   is_greater_or_equal a b = (version_key b \<le> version_key a) \<and>
   is_less a b = (version_key a < version_key b) \<and>
   is_less_or_equal a b = (version_key a \<le> version_key b)"
  by (auto simp: is_greater_key is_equal_def is_greater_or_equal_def is_less_def is_less_or_equal_def
      version_key_inject le_less simp del: is_greater_less is_greater_or_equal_le)

text \<open>A version directory named after any version whose components are Go ints parses back to
  that version, and nothing else does: \<open>ParseVersionFromDirName\<close> accepts a name only when it has
  four dot-separated parts that \<open>strconv.Atoi\<close> reads as the components.\<close>

theorem dir_name_roundtrip:
  assumes "in_int64 v"
  shows "parse_version_from_dir_name (show_version v) = Inr v \<and>
    (parse_version_from_dir_name d = Inr v \<longleftrightarrow>
      map parse_int64 (split_byte (CHR ''.'') d) =
        [(Major v, None), (Minor v, None), (Patch v, None), (Build v, None)])"
  using parse_dir_show [OF assms] by (auto simp: parse_dir_accepts map_eq_Cons_conv)

theorem dir_name_roundtrip_witness:
  "in_int64 (Version 24 8 4 13) \<and>
   parse_version_from_dir_name (show_version (Version 24 8 4 13)) = Inr (Version 24 8 4 13)"
proof -
  have h: "in_int64 (Version 24 8 4 13)"
    by (simp add: in_int64_def max_int64_def min_int64_def)
  then show ?thesis using dir_name_roundtrip [OF h, of "[]"] by simp
qed

text \<open>The answer of the server to the version probe, the printed version between white space
  and any suffix that does not start with a digit, is read as exactly that version.\<close>

theorem server_version_read:
  assumes "in_int64 v" "non_negative v" "list_all is_space ws" "suffix = [] \<or> \<not> is_digit (hd suffix)"
  shows "parse_clickhouse_version (ws @ show_version v @ suffix) = Inr v"
  by (rule parse_server_version) (use assms in auto)

theorem server_version_read_witness:
  "parse_clickhouse_version (''  '' @ show_version (Version 24 8 4 13) @ ''-lts'') = Inr (Version 24 8 4 13)"
  by (rule server_version_read)
    (simp_all add: in_int64_def non_negative_def max_int64_def min_int64_def)

end
