(* ===== verification/QuerySelect.thy ===== *)
theory QuerySelect
  imports Versions "HOL-Library.Multiset" "HOL-Library.Option_ord" "HOL-Library.Char_ord" "HOL-Library.List_Lexorder"
begin

text \<open>
  Which query files run on a server: \<open>Finder\<close> (\<open>internal/query/finder.go\<close>), \<open>Selector\<close>
  (\<open>internal/query/selector.go\<close>) and \<open>FindVersionedFiles\<close> (\<open>internal/query/versioned.go\<close>).

  The directory \<open>filepath.Walk\<close> visits is a tree \<open>fsnode\<close> whose children are listed in the order of
  the walk; \<open>FErr\<close> is an entry the operating system refuses to read. A path below the root is the
  list of its component names. \<open>file_at\<close> says, independently of the walk, which paths hold files.
\<close>

section \<open>Query files and directory trees\<close>

record QueryFile =
  Path :: string
  Name :: string
  DirName :: string
  FullPath :: string

datatype fsnode = FFile (node_name: string) | FDir (node_name: string) "fsnode list" | FErr (node_name: string)

definition dot_name :: "string \<Rightarrow> bool" where
  "dot_name n \<longleftrightarrow> has_prefix n ''.''"

definition rel_path :: "string list \<Rightarrow> string" where
  "rel_path comps = (if comps = [] then ''.'' else str_join ''/'' comps)"

section \<open>Finding the compatible files\<close>

text \<open>The walk's callback on a file: \<open>acc\<close> is (root queries, versioned queries).\<close>

definition visit_file ::
  "Version \<Rightarrow> string \<Rightarrow> string list \<Rightarrow> string \<Rightarrow> QueryFile list \<times> QueryFile list \<Rightarrow> QueryFile list \<times> QueryFile list" where
  "visit_file server root comps filename acc =
     (if comps \<noteq> [] \<and> dot_name filename then acc
      else let full = (if comps = [] then root else root @ ''/'' @ str_join ''/'' comps) in
        if length comps \<le> 1
        then (fst acc @ [\<lparr>Path = rel_path comps, Name = filename, DirName = [], FullPath = full\<rparr>], snd acc)
        else let dirName = last (butlast comps) in
          (case parse_version_from_dir_name dirName of
             Inl _ \<Rightarrow> acc
           | Inr dirVersion \<Rightarrow>
               if is_greater_or_equal server dirVersion
               then (fst acc, snd acc @ [\<lparr>Path = rel_path comps, Name = filename, DirName = dirName, FullPath = full\<rparr>])
               else acc))"

text \<open>\<open>filepath.Walk\<close> with that callback: a dot directory below the root is skipped, an unreadable
  entry ends the walk with its error.\<close>

fun walk :: "Version \<Rightarrow> string \<Rightarrow> string list \<Rightarrow> fsnode \<Rightarrow> QueryFile list \<times> QueryFile list
    \<Rightarrow> string + (QueryFile list \<times> QueryFile list)"
  and walk_list :: "Version \<Rightarrow> string \<Rightarrow> string list \<Rightarrow> fsnode list \<Rightarrow> QueryFile list \<times> QueryFile list
    \<Rightarrow> string + (QueryFile list \<times> QueryFile list)" where
  "walk server root comps (FErr n) acc = Inl n"
| "walk server root comps (FFile n) acc = Inr (visit_file server root comps n acc)"
| "walk server root comps (FDir n ts) acc =
     (if comps \<noteq> [] \<and> dot_name n then Inr acc else walk_list server root comps ts acc)"
| "walk_list server root comps [] acc = Inr acc"
| "walk_list server root comps (t # ts) acc =
     (case walk server root (comps @ [node_name t]) t acc of
        Inl e \<Rightarrow> Inl e
      | Inr acc' \<Rightarrow> walk_list server root comps ts acc')"

definition find_compatible_queries :: "string \<Rightarrow> fsnode \<Rightarrow> Version \<Rightarrow> string + QueryFile list" where
  "find_compatible_queries root t server =
     (case walk server root [] t ([], []) of Inl e \<Rightarrow> Inl e | Inr (rootQ, versionedQ) \<Rightarrow> Inr (rootQ @ versionedQ))"

subsection \<open>Specification of the walk\<close>

inductive file_at :: "fsnode \<Rightarrow> string list \<Rightarrow> bool" where
  here: "file_at (FFile n) []"
| below: "t \<in> set ts \<Longrightarrow> file_at t p \<Longrightarrow> file_at (FDir n ts) (node_name t # p)"

inductive_simps file_at_simps [simp]:
  "file_at (FFile n) p"
  "file_at (FErr n) p"
  "file_at (FDir n ts) p"

text \<open>A path is visible when no component below the root starts with a dot.\<close>

definition visible :: "string list \<Rightarrow> bool" where
  "visible p \<longleftrightarrow> list_all (\<lambda>c. \<not> dot_name c) p"

definition compatible :: "Version \<Rightarrow> string list \<Rightarrow> bool" where
  "compatible server p \<longleftrightarrow> length p \<le> 1 \<or>
     (\<exists>v. parse_version_from_dir_name (last (butlast p)) = Inr v \<and> v \<le> server)"

text \<open>The record the finder builds for the file at a path (\<open>n\<close>: the name of the root node).\<close>

definition query_file :: "string \<Rightarrow> string \<Rightarrow> string list \<Rightarrow> QueryFile" where
  "query_file root n p =
     \<lparr>Path = rel_path p, Name = (if p = [] then n else last p),
      DirName = (if length p \<le> 1 then [] else last (butlast p)),
      FullPath = (if p = [] then root else root @ ''/'' @ str_join ''/'' p)\<rparr>"

lemma visit_file_set:
  assumes "comps = [] \<or> filename = last comps"
  shows "set (fst (visit_file server root comps filename acc)) \<union> set (snd (visit_file server root comps filename acc)) =
    set (fst acc) \<union> set (snd acc) \<union>
    (if (comps = [] \<or> \<not> dot_name filename) \<and> compatible server comps
     then {query_file root filename comps} else {})"
  using assms
  by (auto simp: visit_file_def compatible_def query_file_def Let_def split: sum.splits)

lemma walk_set:
  "walk server root comps t acc = Inr acc' \<Longrightarrow> comps = [] \<or> node_name t = last comps \<Longrightarrow>
     set (fst acc') \<union> set (snd acc') = set (fst acc) \<union> set (snd acc) \<union>
       {query_file root (node_name t) (comps @ p) | p.
          file_at t p \<and> (comps = [] \<or> \<not> dot_name (node_name t)) \<and> visible p \<and> compatible server (comps @ p)}"
  "walk_list server root comps ts acc = Inr acc' \<Longrightarrow>
     set (fst acc') \<union> set (snd acc') = set (fst acc) \<union> set (snd acc) \<union>
       {query_file root (node_name t) (comps @ node_name t # p) | t p.
          t \<in> set ts \<and> file_at t p \<and> \<not> dot_name (node_name t) \<and> visible p \<and> compatible server (comps @ node_name t # p)}"
proof (induction server root comps t acc and server root comps ts acc
    arbitrary: acc' and acc' rule: walk_walk_list.induct)
  case (2 server root comps n acc)
  then show ?case
    using visit_file_set [of comps n server root acc] by (auto simp: visible_def split: if_splits)
next
  case (3 server root comps n ts acc)
  show ?case
  proof (cases "comps \<noteq> [] \<and> dot_name n")
    case False
    have ren: "query_file root n (comps @ m # p) = query_file root m (comps @ m # p)" for m p
      by (simp add: query_file_def)
    have "{query_file root n (comps @ p) | p. file_at (FDir n ts) p \<and> visible p \<and> compatible server (comps @ p)}
        = {query_file root (node_name t) (comps @ node_name t # p) | t p. t \<in> set ts \<and> file_at t p \<and>
            \<not> dot_name (node_name t) \<and> visible p \<and> compatible server (comps @ node_name t # p)}"
      by (simp add: visible_def) (metis (no_types, lifting) ren list.pred_inject(2))
    with 3 False show ?thesis by auto
  qed (use 3 in auto)
next
  case (5 server root comps t ts acc)
  then obtain acc1 where 1: "walk server root (comps @ [node_name t]) t acc = Inr acc1"
    and 2: "walk_list server root comps ts acc1 = Inr acc'"
    by (auto split: sum.splits)
  from "5.IH"(1) [OF 1] "5.IH"(2) [OF 1 2] show ?case
    by (simp add: Un_assoc) blast
qed auto

definition readable :: "fsnode \<Rightarrow> bool" where
  "readable t \<longleftrightarrow> (\<nexists>n. t = FErr n)"

fun all_readable :: "fsnode \<Rightarrow> bool" where
  "all_readable (FErr n) = False"
| "all_readable (FFile n) = True"
| "all_readable (FDir n ts) = (\<forall>t\<in>set ts. all_readable t)"

lemma walk_readable:
  "all_readable t \<Longrightarrow> \<exists>acc'. walk server root comps t acc = Inr acc'"
  "\<forall>t\<in>set ts. all_readable t \<Longrightarrow> \<exists>acc'. walk_list server root comps ts acc = Inr acc'"
  by (induction server root comps t acc and server root comps ts acc rule: walk_walk_list.induct)
    (auto split: sum.splits)

section \<open>Choosing among files of the same name\<close>

definition has_higher_priority :: "QueryFile \<Rightarrow> QueryFile \<Rightarrow> bool" where
  "has_higher_priority query1 query2 =
     (if DirName query2 = [] \<and> DirName query1 \<noteq> [] then True
      else if DirName query1 = [] \<and> DirName query2 \<noteq> [] then False
      else if DirName query1 = [] \<and> DirName query2 = [] then False
      else (case (parse_version_from_dir_name (DirName query1), parse_version_from_dir_name (DirName query2)) of
              (Inr version1, Inr version2) \<Rightarrow> is_greater version1 version2
            | _ \<Rightarrow> False))"

definition select_step :: "(string \<rightharpoonup> QueryFile) \<Rightarrow> QueryFile \<Rightarrow> (string \<rightharpoonup> QueryFile)" where
  "select_step bestQueries query =
     (case bestQueries (Name query) of
        None \<Rightarrow> bestQueries(Name query \<mapsto> query)
      | Some existing \<Rightarrow>
          if has_higher_priority query existing then bestQueries(Name query \<mapsto> query) else bestQueries)"

definition select_highest_priority_queries :: "QueryFile list \<Rightarrow> (string \<rightharpoonup> QueryFile)" where
  "select_highest_priority_queries allQueries = foldl select_step Map.empty allQueries"

text \<open>
  The interface the selection relies on: on the files it is given, \<open>higher\<close> compares a rank in some
  linear order. What a fold over such a comparison keeps is then a file of greatest rank.
\<close>

definition pick_best :: "('q \<Rightarrow> 'q \<Rightarrow> bool) \<Rightarrow> 'q option \<Rightarrow> 'q \<Rightarrow> 'q option" where
  "pick_best higher best q =
     (case best of None \<Rightarrow> Some q | Some b \<Rightarrow> if higher q b then Some q else Some b)"

locale ranked_choice =
  fixes higher :: "'q \<Rightarrow> 'q \<Rightarrow> bool"
    and rank :: "'q \<Rightarrow> 'r::linorder"
    and ok :: "'q \<Rightarrow> bool"
  assumes higher_rank: "ok a \<Longrightarrow> ok b \<Longrightarrow> higher a b \<longleftrightarrow> rank b < rank a"
begin

lemma pick_fold:
  "list_all ok qs \<Longrightarrow> ok b \<Longrightarrow>
    \<exists>c. foldl (pick_best higher) (Some b) qs = Some c \<and> c \<in> insert b (set qs) \<and> ok c \<and>
      rank b \<le> rank c \<and> (\<forall>q\<in>set qs. rank q \<le> rank c)"
proof (induction qs arbitrary: b)
  case (Cons q qs)
  define b' where "b' = (if higher q b then q else b)"
  have b': "ok b'" "rank b \<le> rank b'" "rank q \<le> rank b'" "b' = q \<or> b' = b"
    using Cons.prems higher_rank [of q b] by (auto simp: b'_def)
  obtain c where "foldl (pick_best higher) (Some b') qs = Some c" "c \<in> insert b' (set qs)" "ok c"
      "rank b' \<le> rank c" "\<forall>q\<in>set qs. rank q \<le> rank c"
    using Cons.IH [of b'] Cons.prems b'(1) by auto
  moreover have "pick_best higher (Some b) q = Some b'"
    by (simp add: pick_best_def b'_def)
  ultimately show ?case using b' by auto
qed simp

lemma pick_greatest:
  assumes "list_all ok qs" "qs \<noteq> []"
  shows "\<exists>c. foldl (pick_best higher) None qs = Some c \<and> c \<in> set qs \<and> (\<forall>q\<in>set qs. rank q \<le> rank c)"
proof -
  obtain q qs' where "qs = q # qs'" using assms(2) by (cases qs) auto
  with assms(1) pick_fold [of qs' q] show ?thesis by (auto simp: pick_best_def)
qed

end

text \<open>A root file ranks below every versioned one; versioned files rank by version.\<close>

definition file_rank :: "QueryFile \<Rightarrow> Version option" where
  "file_rank q = (if DirName q = [] then None
     else case parse_version_from_dir_name (DirName q) of Inr v \<Rightarrow> Some v | Inl _ \<Rightarrow> None)"

definition file_ok :: "QueryFile \<Rightarrow> bool" where
  "file_ok q \<longleftrightarrow> DirName q = [] \<or> (\<exists>v. parse_version_from_dir_name (DirName q) = Inr v)"

interpretation sel: ranked_choice has_higher_priority file_rank file_ok
  by unfold_locales (auto simp: has_higher_priority_def file_rank_def file_ok_def split: sum.splits)

lemma select_step_pick:
  "select_step m q = m(Name q := pick_best has_higher_priority (m (Name q)) q)"
  by (auto simp: select_step_def pick_best_def fun_upd_idem split: option.splits)

lemma select_fold_at:
  "foldl select_step m qs n = foldl (pick_best has_higher_priority) (m n) (filter (\<lambda>q. Name q = n) qs)"
  by (induction qs arbitrary: m) (auto simp: select_step_pick)

lemma select_at:
  "select_highest_priority_queries qs n =
     foldl (pick_best has_higher_priority) None (filter (\<lambda>q. Name q = n) qs)"
  by (simp add: select_highest_priority_queries_def select_fold_at)

lemma select_some:
  assumes "list_all file_ok qs" "q \<in> set qs"
  shows "\<exists>c. select_highest_priority_queries qs (Name q) = Some c \<and> c \<in> set qs \<and> Name c = Name q \<and>
    (\<forall>d\<in>set qs. Name d = Name q \<longrightarrow> file_rank d \<le> file_rank c)"
  using sel.pick_greatest [of "filter (\<lambda>x. Name x = Name q) qs"] assms
  by (auto simp: select_at list_all_iff filter_empty_conv)

lemma select_none: "n \<notin> Name ` set qs \<Longrightarrow> select_highest_priority_queries qs n = None"
proof -
  assume "n \<notin> Name ` set qs"
  then have "filter (\<lambda>q. Name q = n) qs = []" by (auto simp: filter_empty_conv)
  then show ?thesis by (simp add: select_at)
qed

text \<open>\<open>GroupQueriesByType\<close>: the selected files by directory (\<open>ks\<close>: the keys in iteration order).\<close>

definition group_of :: "QueryFile \<Rightarrow> string" where
  "group_of q = (if DirName q = [] then ''root'' else DirName q)"

definition group_queries_by_type :: "(string \<rightharpoonup> QueryFile) \<Rightarrow> string list \<Rightarrow> string \<rightharpoonup> QueryFile list" where
  "group_queries_by_type queries ks =
     foldl (\<lambda>groups q. groups(group_of q \<mapsto> (case groups (group_of q) of None \<Rightarrow> [] | Some l \<Rightarrow> l) @ [q]))
       Map.empty (List.map_filter queries ks)"

section \<open>Versioned files in name order\<close>

text \<open>\<open>FindVersionedFiles\<close>: the compatible files with an extension, one per name, sorted by name.\<close>

definition with_ext :: "string \<Rightarrow> QueryFile list \<Rightarrow> QueryFile list" where
  "with_ext ext qs = filter (\<lambda>f. has_suffix (to_lower (Name f)) (to_lower ext)) qs"

definition in_name_order :: "(string \<rightharpoonup> QueryFile) \<Rightarrow> string list \<Rightarrow> QueryFile list" where
  "in_name_order selected ks = sort_key Name (List.map_filter selected ks)"

definition find_versioned_files :: "string \<Rightarrow> fsnode \<Rightarrow> Version \<Rightarrow> string \<Rightarrow> string + QueryFile list" where
  "find_versioned_files root t server ext =
     (case find_compatible_queries root t server of
        Inl e \<Rightarrow> Inl e
      | Inr allQ \<Rightarrow> let filtered = with_ext ext allQ in
          Inr (in_name_order (select_highest_priority_queries filtered) (dedup (map Name filtered))))"

lemma set_map_filter: "set (List.map_filter f xs) = {y. \<exists>x\<in>set xs. f x = Some y}"
  by (force simp: List.map_filter_def)

lemma select_name: "select_highest_priority_queries qs n = Some c \<Longrightarrow> list_all file_ok qs \<Longrightarrow> Name c = n \<and> c \<in> set qs"
  by (metis (no_types, lifting) imageE option.distinct(1) option.inject select_none select_some)

lemma names_map_filter:
  assumes "\<And>k c. k \<in> set ks \<Longrightarrow> m k = Some c \<Longrightarrow> Name c = k" "\<forall>k\<in>set ks. m k \<noteq> None"
  shows "map Name (List.map_filter m ks) = ks"
  using assms by (induction ks) (auto simp: List.map_filter_def)

lemma in_name_order_sorted:
  assumes "distinct ks" "\<And>k c. k \<in> set ks \<Longrightarrow> m k = Some c \<Longrightarrow> Name c = k" "\<forall>k\<in>set ks. m k \<noteq> None"
  shows "sorted_wrt (<) (map Name (in_name_order m ks))"
proof -
  have "mset (map Name (in_name_order m ks)) = mset (map Name (List.map_filter m ks))"
    unfolding in_name_order_def mset_map mset_sort ..
  also have "\<dots> = mset ks" by (simp add: names_map_filter assms(2,3))
  finally have "distinct (map Name (in_name_order m ks))"
    using assms(1) by (metis mset_eq_imp_distinct_iff)
  then show ?thesis
    by (simp add: in_name_order_def strict_sorted_iff)
qed

text \<open>The result does not depend on the order in which the map of selected files is iterated.\<close>

lemma in_name_order_unique:
  assumes "distinct ks" "distinct ks'" "set ks = set ks'"
    and "\<And>k c. k \<in> set ks \<Longrightarrow> m k = Some c \<Longrightarrow> Name c = k" "\<forall>k\<in>set ks. m k \<noteq> None"
  shows "in_name_order m ks = in_name_order m ks'"
proof -
  have sel: "m (Name x) = Some x" "Name x \<in> set ks" if "x \<in> set (in_name_order m ks) \<union> set (in_name_order m ks')" for x
    using that assms(3,4) by (auto simp: in_name_order_def set_map_filter)
  have set_names: "Name ` set (in_name_order m ls) = set ks" if "set ls = set ks" for ls
    using that assms(4,5) by (force simp: in_name_order_def set_map_filter image_iff)
  have "map Name (in_name_order m ks) = map Name (in_name_order m ks')"
  proof (rule strict_sorted_equal)
    show "sorted_wrt (<) (map Name (in_name_order m ks))"
      by (rule in_name_order_sorted) (use assms in auto)
    show "sorted_wrt (<) (map Name (in_name_order m ks'))"
      by (rule in_name_order_sorted) (use assms in auto)
  qed (use assms(3) in \<open>simp add: set_names\<close>)
  then have "map (the \<circ> m) (map Name (in_name_order m ks)) = map (the \<circ> m) (map Name (in_name_order m ks'))"
    by simp
  moreover have "map (the \<circ> m) (map Name (in_name_order m ls)) = in_name_order m ls" if "ls = ks \<or> ls = ks'" for ls
    using that sel(1) by (auto intro!: map_idI simp: o_def)
  ultimately show ?thesis by simp
qed

section \<open>Properties\<close>

lemma find_compatible_set:
  assumes "find_compatible_queries root t server = Inr qs"
  shows "set qs = {query_file root (node_name t) p | p. file_at t p \<and> visible p \<and> compatible server p}"
proof -
  obtain rq vq where w: "walk server root [] t ([], []) = Inr (rq, vq)" and qs: "qs = rq @ vq"
    using assms by (auto simp: find_compatible_queries_def split: sum.splits prod.splits)
  from walk_set(1) [OF w] show ?thesis by (simp add: qs)
qed

lemma find_compatible_ok:
  assumes "find_compatible_queries root t server = Inr qs"
  shows "list_all file_ok qs"
  using find_compatible_set [OF assms]
  by (force simp: list_all_iff file_ok_def query_file_def compatible_def)

text \<open>On a readable tree the finder returns, whatever the tree, exactly the files whose path has no
  dot component and whose parent directory, when there is one, is named after a version that is at
  most the server's.\<close>

theorem finder_finds_compatible:
  assumes "all_readable t"
  shows "\<exists>qs. find_compatible_queries root t server = Inr qs \<and>
    set qs = {query_file root (node_name t) p | p. file_at t p \<and> visible p \<and> compatible server p}"
proof -
  obtain acc where "walk server root [] t ([], []) = Inr acc"
    using walk_readable(1) [OF assms] by blast
  then obtain qs where "find_compatible_queries root t server = Inr qs"
    by (cases acc) (simp add: find_compatible_queries_def)
  with find_compatible_set show ?thesis by blast
qed

theorem finder_finds_compatible_witness:
  "\<exists>qs. find_compatible_queries ''q'' (FDir ''q'' [FFile ''a.sql'', FDir ''24.8.1.0'' [FFile ''a.sql'']])
      (Version 25 1 1 1) = Inr qs"
proof -
  have h: "all_readable (FDir ''q'' [FFile ''a.sql'', FDir ''24.8.1.0'' [FFile ''a.sql'']])" by simp
  from finder_finds_compatible [OF h] show ?thesis by blast
qed

text \<open>\<open>FindVersionedFiles\<close> returns the files strictly ordered by name, one for every name that has
  a compatible file with the extension, and of each name a file of the highest compatible version
  directory (a root file only when there is no versioned one).\<close>

theorem versioned_files_highest:
  assumes "all_readable t"
  shows "\<exists>all out. find_compatible_queries root t server = Inr all \<and>
    find_versioned_files root t server ext = Inr out \<and>
    sorted_wrt (<) (map Name out) \<and>
    set out \<subseteq> set (with_ext ext all) \<and>
    Name ` set out = Name ` set (with_ext ext all) \<and>
    list_all (\<lambda>q. list_all (\<lambda>c. Name c = Name q \<longrightarrow> file_rank c \<le> file_rank q) (with_ext ext all)) out"
proof -
  obtain all where all: "find_compatible_queries root t server = Inr all"
    using walk_readable(1) [OF assms, of server root "[]" "([], [])"]
    by (auto simp: find_compatible_queries_def split: prod.splits)
  define fs where "fs = with_ext ext all"
  define m where "m = select_highest_priority_queries fs"
  define out where "out = in_name_order m (dedup (map Name fs))"
  have ok: "list_all file_ok fs"
    using find_compatible_ok [OF all] by (auto simp: fs_def with_ext_def list_all_iff)
  have keys: "Name c = k \<and> c \<in> set fs" if "m k = Some c" for k c
    using select_name [OF _ ok] that by (simp add: m_def)
  have best: "m (Name q) \<noteq> None" "m (Name q) = Some c \<Longrightarrow> d \<in> set fs \<Longrightarrow> Name d = Name q \<Longrightarrow> file_rank d \<le> file_rank c"
    if "q \<in> set fs" for q c d
    using select_some [OF ok that] by (auto simp: m_def)
  have set_out: "set out = {c. \<exists>q\<in>set fs. m (Name q) = Some c}"
    by (auto simp: out_def in_name_order_def set_map_filter set_dedup_seen)
  have "sorted_wrt (<) (map Name out)"
    unfolding out_def by (rule in_name_order_sorted) (use keys best(1) in \<open>auto simp: distinct_dedup_seen set_dedup_seen\<close>)
  moreover have "set out \<subseteq> set fs" using keys by (auto simp: set_out)
  moreover have "Name ` set fs \<subseteq> Name ` set out"
  proof
    fix n assume "n \<in> Name ` set fs"
    then obtain q where q: "q \<in> set fs" "n = Name q" by blast
    then obtain c where "m (Name q) = Some c" using best(1) by blast
    then have "c \<in> set out" "Name c = n" using keys q by (auto simp: set_out)
    then show "n \<in> Name ` set out" by blast
  qed
  moreover have "list_all (\<lambda>q. list_all (\<lambda>c. Name c = Name q \<longrightarrow> file_rank c \<le> file_rank q) fs) out"
    using best(2) keys by (fastforce simp: list_all_iff set_out)
  moreover have "find_versioned_files root t server ext = Inr out"
    by (simp add: find_versioned_files_def all fs_def m_def out_def Let_def)
  ultimately show ?thesis using all by (auto simp: fs_def)
qed

theorem versioned_files_highest_witness:
  "\<exists>out. find_versioned_files ''q'' (FDir ''q'' [FFile ''a.sql'', FDir ''24.8.1.0'' [FFile ''a.sql'']])
      (Version 25 1 1 1) ''.sql'' = Inr out \<and> map DirName out = [''24.8.1.0'']"
proof -
  have h: "all_readable (FDir ''q'' [FFile ''a.sql'', FDir ''24.8.1.0'' [FFile ''a.sql'']])" by simp
  obtain out where "find_versioned_files ''q'' (FDir ''q'' [FFile ''a.sql'', FDir ''24.8.1.0'' [FFile ''a.sql'']])
      (Version 25 1 1 1) ''.sql'' = Inr out"
    using versioned_files_highest [OF h] by blast
  moreover have "map_sum id (map DirName) (find_versioned_files ''q'' (FDir ''q'' [FFile ''a.sql'', FDir ''24.8.1.0'' [FFile ''a.sql'']])
      (Version 25 1 1 1) ''.sql'') = Inr [''24.8.1.0'']"
    by code_simp
  ultimately show ?thesis by simp
qed

end
