(* ===== verification/GoFloat.thy ===== *)
theory GoFloat
  imports GoTime Complex_Main
begin

text \<open>
  Go's \<open>float64\<close> as the source uses it: an exact rational that IEEE 754 double precision can hold, an
  infinity, or not a number. Every operation rounds its exact result to nearest, ties to even
  (\<open>round64\<close>). The sign of zero is not modelled; no operation of the source depends on it.

  The text formats \<open>%.1f\<close> and \<open>%.0f\<close>, \<open>time.Duration\<close>'s \<open>Seconds\<close> and \<open>String\<close>, and
  \<open>strconv.ParseFloat\<close> on decimal numbers (the value it returns; its hexadecimal form is not modelled and
  reads as 0, the value of a syntax error).
\<close>

section \<open>Rounding\<close>

datatype float64 = Fin rat | PInf | MInf | NaN

definition round_half_even :: "rat \<Rightarrow> int" where
  "round_half_even r =
     (let f = \<lfloor>r\<rfloor>; d = r - of_int f in
      if d < 1 / 2 then f else if d > 1 / 2 then f + 1 else if even f then f else f + 1)"

fun log2_nat :: "nat \<Rightarrow> nat" where
  "log2_nat n = (if n < 2 then 0 else Suc (log2_nat (n div 2)))"

declare log2_nat.simps [simp del]

definition pow2 :: "int \<Rightarrow> rat" where
  "pow2 e = (if 0 \<le> e then 2 ^ nat e else 1 / 2 ^ nat (- e))"

text \<open>The largest \<open>e\<close> with \<open>2\<^sup>e\<close> at most a positive rational.\<close>

definition log2_rat :: "rat \<Rightarrow> int" where
  "log2_rat r = (case quotient_of r of (n, d) \<Rightarrow>
     let e = int (log2_nat (nat n)) - int (log2_nat (nat d)) in if pow2 e \<le> r then e else e - 1)"

definition round64 :: "rat \<Rightarrow> float64" where
  "round64 r =
     (if r = 0 then Fin 0
      else let a = \<bar>r\<bar>; q = max (log2_rat a - 52) (- 1074); v = of_int (round_half_even (a / pow2 q)) * pow2 q in
        if v \<ge> pow2 1024 then (if r < 0 then MInf else PInf)
        else Fin (if r < 0 then - v else v))"

definition f_of_int :: "int \<Rightarrow> float64" where
  "f_of_int i = round64 (of_int i)"

definition f_neg :: "float64 \<Rightarrow> bool" where
  "f_neg x = (case x of Fin r \<Rightarrow> r < 0 | PInf \<Rightarrow> False | MInf \<Rightarrow> True | NaN \<Rightarrow> False)"

definition f_inf :: "bool \<Rightarrow> float64" where
  "f_inf neg = (if neg then MInf else PInf)"

fun f_mul :: "float64 \<Rightarrow> float64 \<Rightarrow> float64" where
  "f_mul NaN y = NaN"
| "f_mul x NaN = NaN"
| "f_mul (Fin a) (Fin b) = round64 (a * b)"
| "f_mul x y = (if x = Fin 0 \<or> y = Fin 0 then NaN else f_inf (f_neg x \<noteq> f_neg y))"

fun f_add :: "float64 \<Rightarrow> float64 \<Rightarrow> float64" where
  "f_add NaN y = NaN"
| "f_add x NaN = NaN"
| "f_add (Fin a) (Fin b) = round64 (a + b)"
| "f_add (Fin a) y = y"
| "f_add x (Fin b) = x"
| "f_add x y = (if x = y then x else NaN)"

text \<open>Division by zero keeps the sign of the dividend (the source divides only by positive zero or numbers).\<close>

fun f_div :: "float64 \<Rightarrow> float64 \<Rightarrow> float64" where
  "f_div NaN y = NaN"
| "f_div x NaN = NaN"
| "f_div (Fin a) (Fin b) = (if b = 0 then (if a = 0 then NaN else f_inf (a < 0)) else round64 (a / b))"
| "f_div (Fin a) y = Fin 0"
| "f_div x (Fin b) = f_inf (f_neg x \<noteq> (b < 0))"
| "f_div x y = NaN"

fun f_ge :: "float64 \<Rightarrow> float64 \<Rightarrow> bool" where
  "f_ge NaN y = False"
| "f_ge x NaN = False"
| "f_ge (Fin a) (Fin b) = (a \<ge> b)"
| "f_ge PInf y = True"
| "f_ge x MInf = True"
| "f_ge x y = False"

definition f_gt :: "float64 \<Rightarrow> float64 \<Rightarrow> bool" where
  "f_gt x y \<longleftrightarrow> f_ge x y \<and> x \<noteq> y"

definition f_le :: "float64 \<Rightarrow> float64 \<Rightarrow> bool" where
  "f_le x y = f_ge y x"

text \<open>\<open>int64(x)\<close>: towards zero; out of range the result is the smallest \<open>int64\<close>, as on amd64.\<close>

definition f_to_int64 :: "float64 \<Rightarrow> int" where
  "f_to_int64 x = (case x of
     Fin r \<Rightarrow>
       let i = (if r < 0 then - \<lfloor>- r\<rfloor> else \<lfloor>r\<rfloor>) in
       if min_int64 \<le> i \<and> i \<le> max_int64 then i else min_int64
   | _ \<Rightarrow> min_int64)"

section \<open>Formatting\<close>

text \<open>\<open>%.<prec>f\<close>\<close>

definition fmt_fixed :: "nat \<Rightarrow> float64 \<Rightarrow> string" where
  "fmt_fixed prec x = (case x of
     NaN \<Rightarrow> ''NaN'' | PInf \<Rightarrow> ''+Inf'' | MInf \<Rightarrow> ''-Inf''
   | Fin r \<Rightarrow>
       let k = nat (round_half_even (\<bar>r\<bar> * 10 ^ prec)); s = pad_nat (Suc prec) k; n = length s - prec
       in (if r < 0 then ''-'' else []) @ take n s @ (if prec = 0 then [] else ''.'' @ drop n s))"

definition dur_seconds :: "duration \<Rightarrow> float64" where
  "dur_seconds d = f_add (f_of_int (go_div d Second)) (f_div (f_of_int (d - go_div d Second * Second)) (f_of_int 1000000000))"

text \<open>A fraction of \<open>prec\<close> digits without its trailing zeros, and the whole part before it.\<close>

definition fmt_frac :: "nat \<Rightarrow> nat \<Rightarrow> string" where
  "fmt_frac v prec =
     (let f = trim_right (\<lambda>c. c = CHR ''0'') (pad_nat prec (v mod 10 ^ prec))
      in nat_str (v div 10 ^ prec) @ (if f = [] then [] else ''.'' @ f))"

text \<open>\<open>Duration.String\<close>; the micro sign is its two UTF-8 bytes.\<close>

definition dur_string :: "duration \<Rightarrow> string" where
  "dur_string d =
     (let u = nat \<bar>d\<bar>; sign = (if d < 0 then ''-'' else []) in
      if u = 0 then ''0s''
      else if u < 1000 then sign @ nat_str u @ ''ns''
      else if u < 1000000 then sign @ fmt_frac u 3 @ [CHR 0xC2, CHR 0xB5, CHR ''s'']
      else if u < 1000000000 then sign @ fmt_frac u 6 @ ''ms''
      else
        let secs = u div 1000000000; s = secs mod 60; m = secs div 60 mod 60; h = secs div 3600;
            sec = fmt_frac (s * 1000000000 + u mod 1000000000) 9 @ ''s''
        in sign @ (if h > 0 then nat_str h @ ''h'' else []) @ (if secs \<ge> 60 then nat_str m @ ''m'' else []) @ sec)"

section \<open>Parsing\<close>

definition read_digits :: "string \<Rightarrow> string \<times> string" where
  "read_digits s = (takeWhile is_digit s, dropWhile is_digit s)"

text \<open>The exponent: none, or \<open>e\<close> with an optional sign and at least one digit, to the end of the text.\<close>

definition read_exp :: "string \<Rightarrow> int option" where
  "read_exp s = (case s of
     [] \<Rightarrow> Some 0
   | c # cs \<Rightarrow>
       if lower_char c \<noteq> CHR ''e'' then None
       else case split_sign cs of (neg, ds) \<Rightarrow>
         if ds = [] \<or> \<not> list_all is_digit ds then None
         else let n = min (int (digits_val 0 ds)) 10000 in Some (if neg then - n else n))"

definition parse_float :: "string \<Rightarrow> float64" where
  "parse_float s =
     (if to_lower s = ''nan'' then NaN
      else case split_sign s of (neg, body) \<Rightarrow>
        if to_lower body = ''inf'' \<or> to_lower body = ''infinity'' then f_inf neg
        else
          let (ip, r1) = read_digits body;
              (fp, r2) = (case r1 of c # cs \<Rightarrow> if c = CHR ''.'' then read_digits cs else ([], r1) | [] \<Rightarrow> ([], []))
          in if ip @ fp = [] then Fin 0
             else case read_exp r2 of
               None \<Rightarrow> Fin 0
             | Some e \<Rightarrow>
                 let m = of_nat (digits_val 0 (ip @ fp)); k = e - int (length fp);
                     v = (if 0 \<le> k then m * 10 ^ nat k else m / 10 ^ nat (- k))
                 in round64 (if neg then - v else v))"

end
