(* ===== verification/Client.thy ===== *)
theory Client
  imports GoRegexp GoTime "HOL-Library.Char_ord" "HOL-Library.List_Lexorder"
begin

text \<open>
  The HTTP client (\<open>pkg/clickhouse.go\<close>) and the table extraction of its dry run
  (\<open>pkg/tables.go\<close>). The HTTP round trip itself is a parameter: a function from the request's URL,
  credentials, timeout and body to the outcome. What a call does is its result, the client it leaves, and
  the list of its effects: requests sent and text printed.
\<close>

section \<open>The client's state\<close>

definition DefaultQueryTimeout :: duration where "DefaultQueryTimeout = 240 * Second"
definition clientTimeoutMargin :: duration where "clientTimeoutMargin = 60 * Second"
definition probeTimeout :: duration where "probeTimeout = 30 * Second"

record ClickHouseClient =
  c_protocol :: string
  c_host :: string
  c_port :: string
  c_username :: string
  c_password :: string
  c_httpTimeout :: duration
  c_queryTimeout :: duration
  c_margin :: duration
  c_dryRun :: bool
  c_dryEstimate :: bool
  c_dryCounter :: nat
  c_settings :: "(string \<times> string) list"

definition NewClickHouseClient :: "string \<Rightarrow> string \<Rightarrow> string \<Rightarrow> string \<Rightarrow> string \<Rightarrow> ClickHouseClient" where
  "NewClickHouseClient protocol host port username password =
     \<lparr>c_protocol = protocol, c_host = host, c_port = port, c_username = username, c_password = password,
      c_httpTimeout = DefaultQueryTimeout + clientTimeoutMargin, c_queryTimeout = DefaultQueryTimeout,
      c_margin = clientTimeoutMargin, c_dryRun = False, c_dryEstimate = False, c_dryCounter = 0, c_settings = []\<rparr>"

primrec remove_setting :: "string \<Rightarrow> (string \<times> string) list \<Rightarrow> (string \<times> string) list" where
  "remove_setting name [] = []"
| "remove_setting name (st # sts) = (if fst st = name then sts else st # remove_setting name sts)"

primrec set_setting :: "string \<Rightarrow> string \<Rightarrow> (string \<times> string) list \<Rightarrow> (string \<times> string) list" where
  "set_setting name v [] = [(name, v)]"
| "set_setting name v (st # sts) = (if fst st = name then (name, v) # sts else st # set_setting name v sts)"

definition RemoveSetting :: "string \<Rightarrow> ClickHouseClient \<Rightarrow> ClickHouseClient" where
  "RemoveSetting name c = c\<lparr>c_settings := remove_setting name (c_settings c)\<rparr>"

definition SetSetting :: "string \<Rightarrow> string \<Rightarrow> ClickHouseClient \<Rightarrow> ClickHouseClient" where
  "SetSetting name v c = c\<lparr>c_settings := set_setting name v (c_settings c)\<rparr>"

definition SetQueryTimeout :: "duration \<Rightarrow> ClickHouseClient \<Rightarrow> ClickHouseClient" where
  "SetQueryTimeout d c =
     (if d \<le> 0 then c\<lparr>c_queryTimeout := 0, c_httpTimeout := 0\<rparr>
      else c\<lparr>c_queryTimeout := d, c_httpTimeout := wrap64 (d + c_margin c)\<rparr>)"

definition SetClientMargin :: "duration \<Rightarrow> ClickHouseClient \<Rightarrow> ClickHouseClient" where
  "SetClientMargin d c = (let c = c\<lparr>c_margin := d\<rparr> in SetQueryTimeout (c_queryTimeout c) c)"

definition SetDryRun :: "bool \<Rightarrow> ClickHouseClient \<Rightarrow> ClickHouseClient" where
  "SetDryRun explainEstimate c = c\<lparr>c_dryRun := True, c_dryEstimate := explainEstimate, c_dryCounter := 0\<rparr>"

section \<open>Tables a query names\<close>

text \<open>\<open>(?i)\bsystem\.[a-z_][a-z0-9_]*\b\<close> and \<open>(?i)merge\(\s*([A-Za-z_][A-Za-z0-9_]*)\s*,\s*'([^']+)'\s*\)\<close>\<close>

definition ident_start :: "char \<Rightarrow> bool" where
  "ident_start c \<longleftrightarrow> is_alpha c \<or> c = CHR ''_''"

definition re_system_table :: re where
  "re_system_table = seqs [WordB, ilit ''system'', lit ''.'', Cls ident_start, any_star (Cls re_word), WordB]"

definition re_merge_table :: re where
  "re_merge_table = seqs [ilit ''merge'', lit ''('', any_star (Cls re_space),
     Grp 1 (Seq (Cls ident_start) (any_star (Cls re_word))), any_star (Cls re_space), lit '','', any_star (Cls re_space),
     lit [QUOTE], Grp 2 (plus_of (Cls (\<lambda>c. c \<noteq> QUOTE))), lit [QUOTE], any_star (Cls re_space), lit '')'']"

definition ExtractTables :: "string \<Rightarrow> string list" where
  "ExtractTables sql =
     sort (remdups
       (map to_lower (find_all re_system_table sql) @
        map (\<lambda>(_, _, cs). to_lower (group sql cs 1) @ ''.* matching '' @ QUOTE # group sql cs 2 @ [QUOTE])
          (find_all_sub re_merge_table sql)))"

section \<open>Requests\<close>

text \<open>\<open>url.QueryEscape\<close>: letters, digits and \<open>- _ . ~\<close> stand for themselves, a blank is a plus sign, any other
  byte is a percent sign and two upper-case hex digits.\<close>

definition unreserved :: "char \<Rightarrow> bool" where
  "unreserved c \<longleftrightarrow> is_alnum c \<or> c = CHR ''-'' \<or> c = CHR ''_'' \<or> c = CHR ''.'' \<or> c = CHR ''~''"

definition hex_digit :: "nat \<Rightarrow> char" where
  "hex_digit n = (if n < 10 then char_of (48 + n) else char_of (55 + n))"

definition escape_char :: "char \<Rightarrow> string" where
  "escape_char c =
     (if unreserved c then [c] else if c = CHR '' '' then ''+''
      else [CHR ''%'', hex_digit (code c div 16), hex_digit (code c mod 16)])"

definition QueryEscape :: "string \<Rightarrow> string" where
  "QueryEscape s = concat (map escape_char s)"

definition max_exec_seconds :: "ClickHouseClient \<Rightarrow> int" where
  "max_exec_seconds c = go_div (wrap64 (wrap64 (c_queryTimeout c + Second) - 1)) Second"

definition setting_param :: "string \<times> string \<Rightarrow> string" where
  "setting_param st = ''&'' @ QueryEscape (fst st) @ ''='' @ QueryEscape (snd st)"

definition request_url :: "ClickHouseClient \<Rightarrow> string" where
  "request_url c =
     c_protocol c @ ''://'' @ c_host c @ '':'' @ c_port c @
     ''/?readonly=1&output_format_json_quote_64bit_integers=1&max_execution_time='' @ int_str (max_exec_seconds c) @
     ''&cancel_http_readonly_queries_on_client_close=1&enable_http_compression=1'' @
     concat (map setting_param (c_settings c))"

definition credentials :: "ClickHouseClient \<Rightarrow> (string \<times> string) option" where
  "credentials c = (if c_username c \<noteq> [] then Some (c_username c, c_password c) else None)"

text \<open>The outcome of a round trip: the request could not be built or sent, the answer's status and body, or
  a body that could not be read.\<close>

datatype http_result =
    HBadRequest string
  | HFailed string
  | HAnswer int string
  | HReadError string

record http_request =
  q_url :: string
  q_auth :: "(string \<times> string) option"
  q_timeout :: duration
  q_fresh :: bool
  q_body :: string

type_synonym transport = "http_request \<Rightarrow> http_result"

datatype 'r effect = Sent 'r | Printed string

definition interpret_result :: "http_result \<Rightarrow> string + string" where
  "interpret_result r = (case r of
     HBadRequest e \<Rightarrow> Inl (''error creating request: '' @ e)
   | HFailed e \<Rightarrow> Inl (''error executing request: '' @ e)
   | HAnswer status body \<Rightarrow>
       if status \<noteq> 200 then Inl (''non-OK status: '' @ int_str status @ '', body: '' @ body) else Inr body
   | HReadError e \<Rightarrow> Inl (''error reading response: '' @ e))"

definition executeWith :: "transport \<Rightarrow> duration \<Rightarrow> bool \<Rightarrow> ClickHouseClient \<Rightarrow> string
    \<Rightarrow> (string + string) \<times> http_request effect list" where
  "executeWith http timeout fresh c query =
     (let req = \<lparr>q_url = request_url c, q_auth = credentials c, q_timeout = timeout, q_fresh = fresh, q_body = query\<rparr>
      in (interpret_result (http req), [Sent req]))"

definition executeReal :: "transport \<Rightarrow> ClickHouseClient \<Rightarrow> string \<Rightarrow> (string + string) \<times> http_request effect list" where
  "executeReal http c query = executeWith http (c_httpTimeout c) False c query"

section \<open>Dry run\<close>

function stripLeadingSQLComments :: "string \<Rightarrow> string" where
  "stripLeadingSQLComments s0 =
     (let s = trim_left is_cut_ws s0 in
      if has_prefix s ''--'' then
        (case index_byte s NL of Some i \<Rightarrow> stripLeadingSQLComments (drop (i + 1) s) | None \<Rightarrow> [])
      else if has_prefix s ''/*'' then
        (case str_index s ''*/'' of Some i \<Rightarrow> stripLeadingSQLComments (drop (i + 2) s) | None \<Rightarrow> [])
      else s)"
  by pat_completeness auto
termination
proof (relation "measure length", goal_cases)
  case (2 s0 s i)
  then have "s \<noteq> []" by auto
  then have "length (drop (i + 1) s) < length s" by simp
  also have "length s \<le> length s0" using 2 by (simp add: trim_left_def length_dropWhile_le)
  finally show ?case by simp
next
  case (3 s0 s i)
  then have "s \<noteq> []" by (auto simp: has_prefix_def)
  then have "length (drop (i + 2) s) < length s" by simp
  also have "length s \<le> length s0" using 3 by (simp add: trim_left_def length_dropWhile_le)
  finally show ?case by simp
qed simp

declare stripLeadingSQLComments.simps [simp del]

definition isExplainable :: "string \<Rightarrow> bool" where
  "isExplainable query =
     (let trimmed = trim_left (\<lambda>c. c = CHR ''('') (trim_space (stripLeadingSQLComments query));
          up = to_upper trimmed
      in has_prefix up ''SELECT'' \<or> has_prefix up ''WITH'')"

definition stripTrailingFormatClause :: "string \<Rightarrow> string" where
  "stripTrailingFormatClause query =
     (let t = trim_right (\<lambda>c. is_cut_ws c \<or> c = CHR '';'') query in
      case last_index (to_upper t) ''FORMAT'' of
        None \<Rightarrow> t
      | Some idx \<Rightarrow>
          let parts = str_fields (trim_space (drop idx t)) in
          if length parts = 2 \<and> equal_fold (parts ! 0) ''FORMAT'' then trim_right is_cut_ws (take idx t)
          else t)"

definition indentBlock :: "string \<Rightarrow> string \<Rightarrow> string" where
  "indentBlock s prefix =
     str_join [NL] (map (\<lambda>l. prefix @ l) (split_byte NL (trim_right (\<lambda>c. c = NL) s)))"

text \<open>The box character that starts a data row, as its UTF-8 bytes.\<close>

definition box_bar :: string where
  "box_bar = [CHR 0xE2, CHR 0x94, CHR 0x82]"

definition isEmptyEstimate :: "string \<Rightarrow> bool" where
  "isEmptyEstimate out =
     list_all (\<lambda>line. \<not> has_prefix (trim_left (\<lambda>c. is_cut_ws c \<or> is_digit c \<or> c = CHR ''.'') line) box_bar)
       (split_byte NL out)"

definition emptyResponseFor :: "string \<Rightarrow> string" where
  "emptyResponseFor query =
     (if contains (to_upper query) ''FORMAT JSONCOMPACT''
      then ''{'' @ DQUOTE # ''meta'' @ DQUOTE # '':[],'' @ DQUOTE # ''data'' @ DQUOTE # '':[],'' @ DQUOTE # ''rows'' @ DQUOTE # '':0}''
      else [])"

definition dryRunIntercept :: "transport \<Rightarrow> ClickHouseClient \<Rightarrow> string
    \<Rightarrow> (string + string) \<times> ClickHouseClient \<times> http_request effect list" where
  "dryRunIntercept http c0 query =
     (let c = c0\<lparr>c_dryCounter := Suc (c_dryCounter c0)\<rparr>;
          tables = ExtractTables query;
          tablesStr = (if tables \<noteq> [] then str_join '', '' tables
            else ''(no system.* references '' @ [CHR 0xE2, CHR 0x80, CHR 0x94] @ '' function-only)'');
          header = [Printed (NL # ''['' @ nat_str (c_dryCounter c) @ '']'' @ [NL]),
            Printed (''    Tables: '' @ tablesStr @ [NL]),
            Printed (''    SQL:'' @ NL # indentBlock query ''      '' @ [NL])];
          estimate = (if c_dryEstimate c \<and> isExplainable query then
            (case executeReal http c (''EXPLAIN ESTIMATE '' @ stripTrailingFormatClause query @ '' FORMAT PrettyCompactMonoBlock'') of
               (Inl e, fx) \<Rightarrow> fx @ [Printed (''    EXPLAIN ESTIMATE: (error: '' @ e @ '')'' @ [NL])]
             | (Inr est, fx) \<Rightarrow>
                 if isEmptyEstimate est then fx @ [Printed (''    EXPLAIN ESTIMATE: this table is empty'' @ [NL])]
                 else fx @ [Printed (''    EXPLAIN ESTIMATE:'' @ NL # indentBlock (trim_right (\<lambda>c. c = NL) est) ''      '' @ [NL])])
            else [])
      in (Inr (emptyResponseFor query), c, header @ estimate))"

definition ExecuteQuery :: "transport \<Rightarrow> ClickHouseClient \<Rightarrow> string
    \<Rightarrow> (string + string) \<times> ClickHouseClient \<times> http_request effect list" where
  "ExecuteQuery http c query =
     (if c_dryRun c then dryRunIntercept http c query
      else case executeReal http c query of (r, fx) \<Rightarrow> (r, c, fx))"

definition ExecuteQueryReal :: "transport \<Rightarrow> ClickHouseClient \<Rightarrow> string \<Rightarrow> (string + string) \<times> http_request effect list" where
  "ExecuteQueryReal http c query = executeReal http c query"

definition ExecuteQueryWithFormat :: "transport \<Rightarrow> ClickHouseClient \<Rightarrow> string
    \<Rightarrow> (string + string) \<times> ClickHouseClient \<times> http_request effect list" where
  "ExecuteQueryWithFormat http c query = ExecuteQuery http c (query @ NL # ''FORMAT JSONCompact'')"

definition fresh_timeout :: "duration \<Rightarrow> duration" where
  "fresh_timeout clientTimeout =
     (if clientTimeout > 0 \<and> clientTimeout < probeTimeout then clientTimeout else probeTimeout)"

definition ExecuteQueryFreshConnection :: "transport \<Rightarrow> ClickHouseClient \<Rightarrow> string
    \<Rightarrow> (string + string) \<times> ClickHouseClient \<times> http_request effect list" where
  "ExecuteQueryFreshConnection http c query =
     (if c_dryRun c then dryRunIntercept http c query
      else case executeWith http (fresh_timeout (c_httpTimeout c)) True c query of (r, fx) \<Rightarrow> (r, c, fx))"

definition GetConnectionInfo :: "ClickHouseClient \<Rightarrow> string" where
  "GetConnectionInfo c = c_protocol c @ ''://'' @ c_host c @ '':'' @ c_port c"

section \<open>Timeouts\<close>

text \<open>The clients a run can have: made by \<open>NewClickHouseClient\<close> and changed by the client's methods, with
  margins of at least a second and sums within \<open>int64\<close>.\<close>

inductive configured :: "ClickHouseClient \<Rightarrow> bool" where
  new: "configured (NewClickHouseClient protocol host port username password)"
| query_timeout: "configured c \<Longrightarrow> d + c_margin c \<le> max_int64 \<Longrightarrow> configured (SetQueryTimeout d c)"
| client_margin: "configured c \<Longrightarrow> Second \<le> d \<Longrightarrow> c_queryTimeout c + d \<le> max_int64 \<Longrightarrow> configured (SetClientMargin d c)"
| setting: "configured c \<Longrightarrow> configured (SetSetting name v c)"
| no_setting: "configured c \<Longrightarrow> configured (RemoveSetting name c)"
| dry_run: "configured c \<Longrightarrow> configured (SetDryRun est c)"
| query: "configured c \<Longrightarrow> ExecuteQuery http c q = (r, c', fx) \<Longrightarrow> configured c'"

definition timeouts_ok :: "ClickHouseClient \<Rightarrow> bool" where
  "timeouts_ok c \<longleftrightarrow> Second \<le> c_margin c \<and> c_margin c \<le> max_int64 \<and>
     (c_queryTimeout c = 0 \<and> c_httpTimeout c = 0 \<or>
      0 < c_queryTimeout c \<and> c_httpTimeout c = c_queryTimeout c + c_margin c \<and> c_httpTimeout c \<le> max_int64)"

lemma timeouts_set:
  assumes "timeouts_ok c" "d + c_margin c \<le> max_int64"
  shows "timeouts_ok (SetQueryTimeout d c)"
  using assms by (auto simp: timeouts_ok_def SetQueryTimeout_def wrap64_id min_int64_def Second_def)

lemma ExecuteQuery_client: "ExecuteQuery http c q = (r, c', fx) \<Longrightarrow>
    c' = (if c_dryRun c then c\<lparr>c_dryCounter := Suc (c_dryCounter c)\<rparr> else c)"
  by (auto simp: ExecuteQuery_def dryRunIntercept_def Let_def split: if_splits prod.splits)

lemma configured_timeouts: "configured c \<Longrightarrow> timeouts_ok c"
proof (induction rule: configured.induct)
  case (client_margin c d)
  then have "timeouts_ok (SetQueryTimeout (c_queryTimeout c) (c\<lparr>c_margin := d\<rparr>))"
    by (auto simp: timeouts_ok_def SetQueryTimeout_def wrap64_id min_int64_def Second_def)
  then show ?case by (simp add: SetClientMargin_def Let_def)
next
  case (query c http q r c' fx)
  then show ?case by (auto dest!: ExecuteQuery_client simp: timeouts_ok_def split: if_splits)
qed (auto simp: timeouts_set, auto simp: timeouts_ok_def NewClickHouseClient_def DefaultQueryTimeout_def
  clientTimeoutMargin_def Second_def max_int64_def SetSetting_def RemoveSetting_def SetDryRun_def)



section \<open>Settings\<close>

lemma map_of_set_setting: "map_of (set_setting name v l) = (map_of l)(name \<mapsto> v)"
  by (induction l) auto

lemma keys_set_setting: "distinct (map fst l) \<Longrightarrow> distinct (map fst (set_setting name v l))
    \<and> fst ` set (set_setting name v l) = insert name (fst ` set l)"
  by (induction l) auto

lemma keys_remove_setting: "distinct (map fst l) \<Longrightarrow> distinct (map fst (remove_setting name l))
    \<and> fst ` set (remove_setting name l) = fst ` set l - {name}"
  by (induction l) (auto, force)

lemma map_of_remove_setting: "distinct (map fst l) \<Longrightarrow> map_of (remove_setting name l) = (map_of l)(name := None)"
proof (induction l)
  case (Cons st l)
  then show ?case by (cases st) (auto simp: fun_eq_iff map_of_eq_None_iff image_iff)
qed simp

lemma configured_settings: "configured c \<Longrightarrow> distinct (map fst (c_settings c))"
proof (induction rule: configured.induct)
  case (query c http q r c' fx)
  then show ?case by (auto dest!: ExecuteQuery_client)
qed (auto simp: NewClickHouseClient_def SetQueryTimeout_def SetClientMargin_def SetSetting_def RemoveSetting_def
  SetDryRun_def Let_def keys_set_setting keys_remove_setting)

text \<open>The extra settings form a map from names to values: each name is sent once, setting a name gives it that
  value and no other name another, and removing it takes exactly it away. (The hypothesis: the client was made
  and changed by its methods.)\<close>

theorem settings_map:
  assumes "configured c"
  shows "distinct (map fst (c_settings c))
    \<and> map_of (c_settings (SetSetting name v c)) = (map_of (c_settings c))(name \<mapsto> v)
    \<and> map_of (c_settings (RemoveSetting name c)) = (map_of (c_settings c))(name := None)"
  using configured_settings [OF assms]
  by (simp add: SetSetting_def RemoveSetting_def map_of_set_setting map_of_remove_setting)

theorem settings_map_witness:
  "map_of (c_settings (RemoveSetting ''a'' (SetSetting ''a'' ''2'' (NewClickHouseClient ''http'' ''h'' ''8123'' [] [])))) ''a'' = None"
  using settings_map [OF configured.setting [OF configured.new], of "''a''" "''2''"] by simp

section \<open>The request line\<close>

text \<open>How the server reads the query string: pairs between ampersands, names and values decoded.\<close>

definition hex_val :: "char \<Rightarrow> nat" where
  "hex_val c = (if is_digit c then code c - 48 else code c - 55)"

fun unescape :: "string \<Rightarrow> string" where
  "unescape [] = []"
| "unescape (c # cs) =
     (if c = CHR ''+'' then CHR '' '' # unescape cs
      else if c = CHR ''%'' then
        (case cs of
           a # b # ds \<Rightarrow> char_of (16 * hex_val a + hex_val b) # unescape ds
         | _ \<Rightarrow> [])
      else c # unescape cs)"

definition read_param :: "string \<Rightarrow> string \<times> string" where
  "read_param p = (case index_byte p (CHR ''='') of
     None \<Rightarrow> (unescape p, [])
   | Some i \<Rightarrow> (unescape (take i p), unescape (drop (i + 1) p)))"

definition url_params :: "string \<Rightarrow> (string \<times> string) list" where
  "url_params url = (case index_byte url (CHR ''?'') of
     None \<Rightarrow> []
   | Some i \<Rightarrow> map read_param (split_byte (CHR ''&'') (drop (i + 1) url)))"

lemma hex_val_digit: "n < 16 \<Longrightarrow> hex_val (hex_digit n) = n"
  by (auto simp: hex_val_def hex_digit_def is_digit_def in_range_def code_char_of)

lemma hex_digit_plain: "n < 16 \<Longrightarrow> is_alnum (hex_digit n)"
  by (auto simp: hex_digit_def is_alnum_def is_alpha_def is_digit_def is_upper_def in_range_def code_char_of)

lemma unreserved_not: "unreserved c \<Longrightarrow> c \<noteq> CHR ''+'' \<and> c \<noteq> CHR ''%'' \<and> c \<noteq> CHR ''&'' \<and> c \<noteq> CHR ''=''"
  by (auto simp: unreserved_def is_alnum_def is_alpha_def)

lemma unescape_char: "unescape (escape_char c @ r) = c # unescape r"
proof -
  have "code c div 16 < 16" "code c mod 16 < 16" using code_less [of c] by auto
  then show ?thesis
    using unreserved_not [of c] by (auto simp: escape_char_def hex_val_digit)
qed

lemma unescape_QueryEscape [simp]: "unescape (QueryEscape s) = s"
  unfolding QueryEscape_def by (induction s) (simp_all add: unescape_char)

lemma alnum_not: "is_alnum c \<Longrightarrow> c \<noteq> CHR ''&'' \<and> c \<noteq> CHR ''=''"
  by (auto simp: is_alnum_def is_alpha_def)

lemma QueryEscape_plain: "CHR ''&'' \<notin> set (QueryEscape s) \<and> CHR ''='' \<notin> set (QueryEscape s)"
proof -
  have "CHR ''&'' \<notin> set (escape_char c) \<and> CHR ''='' \<notin> set (escape_char c)" for c
  proof -
    have "code c div 16 < 16" "code c mod 16 < 16" using code_less [of c] by auto
    then have "is_alnum (hex_digit (code c div 16))" "is_alnum (hex_digit (code c mod 16))"
      by (simp_all only: hex_digit_plain)
    from this [THEN alnum_not] show ?thesis by (auto simp: escape_char_def dest: unreserved_not)
  qed
  then show ?thesis by (auto simp: QueryEscape_def)
qed

lemma index_byte_here: "b \<notin> set t \<Longrightarrow> index_byte (t @ b # r) b = Some (length t)"
  by (induction t) auto

lemma read_param_plain: "CHR ''='' \<notin> set a \<Longrightarrow> read_param (a @ CHR ''='' # b) = (unescape a, unescape b)"
  by (simp add: read_param_def index_byte_here)

lemma split_params:
  "CHR ''&'' \<notin> set x \<Longrightarrow> split_byte (CHR ''&'') (x @ concat (map setting_param sts)) =
     x # map (\<lambda>st. QueryEscape (fst st) @ ''='' @ QueryEscape (snd st)) sts"
proof (induction sts arbitrary: x)
  case (Cons st sts)
  have "CHR ''&'' \<notin> set (QueryEscape (fst st) @ ''='' @ QueryEscape (snd st))"
    using QueryEscape_plain by auto
  from Cons.IH [OF this] Cons.prems show ?case
    using split_byte_append [of "CHR ''&''" x] by (simp add: setting_param_def)
qed (simp add: split_byte_noB)

lemma drop_here: "drop (length a + 1) (a @ x # b) = b"
  by simp

lemma int_str_plain: "c \<in> set (int_str i) \<Longrightarrow> is_digit c \<or> c = CHR ''-''"
  using digits_nat_str by (auto simp: int_str_def list_all_iff split: if_splits)

lemma unescape_plain: "list_all unreserved s \<Longrightarrow> unescape s = s"
  by (induction s) (auto dest: unreserved_not)

text \<open>The server reads from the request line exactly the pinned settings, \<open>readonly=1\<close> first, with the time limit,
  and then the extra settings as they were given: no setting's name or value can add, change or drop another.
  (The hypothesis: no question mark in protocol, host or port.)\<close>

theorem request_params:
  assumes "CHR ''?'' \<notin> set (c_protocol c @ c_host c @ c_port c)"
  shows "url_params (request_url c) =
    [(''readonly'', ''1''), (''output_format_json_quote_64bit_integers'', ''1''),
     (''max_execution_time'', int_str (max_exec_seconds c)),
     (''cancel_http_readonly_queries_on_client_close'', ''1''), (''enable_http_compression'', ''1'')] @ c_settings c"
proof -
  let ?n = "int_str (max_exec_seconds c)"
  have n: "CHR ''&'' \<notin> set ?n" "unescape ?n = ?n"
    using int_str_plain [of "CHR ''&''"] int_str_plain [of _ "max_exec_seconds c"]
    by (auto simp: list_all_iff unreserved_def is_alnum_def intro!: unescape_plain) blast+
  have amp: "split_byte (CHR ''&'') (x @ CHR ''&'' # y) = x # split_byte (CHR ''&'') y" if "CHR ''&'' \<notin> set x" for x y
    using that by (rule split_byte_append)
  let ?q = "''readonly=1'' @ CHR ''&'' # ''output_format_json_quote_64bit_integers=1'' @ CHR ''&'' #
      (''max_execution_time='' @ ?n) @ CHR ''&'' # ''cancel_http_readonly_queries_on_client_close=1'' @ CHR ''&'' #
      ''enable_http_compression=1'' @ concat (map setting_param (c_settings c))"
  have url: "request_url c = (c_protocol c @ ''://'' @ c_host c @ '':'' @ c_port c @ ''/'') @ CHR ''?'' # ?q"
    by (simp add: request_url_def)
  have i: "index_byte (request_url c) (CHR ''?'') = Some (length (c_protocol c @ ''://'' @ c_host c @ '':'' @ c_port c @ ''/''))"
    unfolding url using assms by (intro index_byte_here) auto
  have "drop (length (c_protocol c @ ''://'' @ c_host c @ '':'' @ c_port c @ ''/'') + 1) (request_url c) = ?q"
    unfolding url by (rule drop_here)
  then have "url_params (request_url c) = map read_param (split_byte (CHR ''&'') ?q)"
    unfolding url_params_def i by simp
  also have "split_byte (CHR ''&'') ?q = [''readonly=1'', ''output_format_json_quote_64bit_integers=1'',
      ''max_execution_time='' @ ?n, ''cancel_http_readonly_queries_on_client_close=1''] @
      split_byte (CHR ''&'') (''enable_http_compression=1'' @ concat (map setting_param (c_settings c)))"
    using n(1) by (simp add: amp)
  also have "split_byte (CHR ''&'') (''enable_http_compression=1'' @ concat (map setting_param (c_settings c))) =
      ''enable_http_compression=1'' # map (\<lambda>st. QueryEscape (fst st) @ ''='' @ QueryEscape (snd st)) (c_settings c)"
    by (rule split_params) simp
  also have "map read_param ([''readonly=1'', ''output_format_json_quote_64bit_integers=1'', ''max_execution_time='' @ ?n,
      ''cancel_http_readonly_queries_on_client_close=1''] @ ''enable_http_compression=1'' #
      map (\<lambda>st. QueryEscape (fst st) @ ''='' @ QueryEscape (snd st)) (c_settings c)) =
    [read_param ''readonly=1'', read_param ''output_format_json_quote_64bit_integers=1'',
      read_param (''max_execution_time'' @ CHR ''='' # ?n), read_param ''cancel_http_readonly_queries_on_client_close=1'',
      read_param ''enable_http_compression=1''] @ map (\<lambda>st. read_param (QueryEscape (fst st) @ CHR ''='' # QueryEscape (snd st))) (c_settings c)"
    by simp
  also have "\<dots> = [(''readonly'', ''1''), (''output_format_json_quote_64bit_integers'', ''1''),
     (''max_execution_time'', ?n),
     (''cancel_http_readonly_queries_on_client_close'', ''1''), (''enable_http_compression'', ''1'')] @ c_settings c"
  proof -
    have "read_param ''readonly=1'' = (''readonly'', ''1'')"
      "read_param ''output_format_json_quote_64bit_integers=1'' = (''output_format_json_quote_64bit_integers'', ''1'')"
      "read_param ''cancel_http_readonly_queries_on_client_close=1'' = (''cancel_http_readonly_queries_on_client_close'', ''1'')"
      "read_param ''enable_http_compression=1'' = (''enable_http_compression'', ''1'')" by code_simp+
    moreover have "read_param (''max_execution_time'' @ CHR ''='' # ?n) = (''max_execution_time'', ?n)"
      using read_param_plain [of "''max_execution_time''" ?n] n(2) by simp
    moreover have "map (\<lambda>st. read_param (QueryEscape (fst st) @ CHR ''='' # QueryEscape (snd st))) l = l" for l
      by (simp add: read_param_plain QueryEscape_plain)
    ultimately show ?thesis by (simp only:)
  qed
  finally show ?thesis .
qed

theorem request_params_witness:
  "url_params (request_url (SetSetting ''a&readonly'' ''0 &'' (NewClickHouseClient ''http'' ''h'' ''8123'' [] []))) =
    [(''readonly'', ''1''), (''output_format_json_quote_64bit_integers'', ''1''), (''max_execution_time'', ''240''),
     (''cancel_http_readonly_queries_on_client_close'', ''1''), (''enable_http_compression'', ''1''),
     (''a&readonly'', ''0 &'')]"
proof -
  let ?c = "SetSetting ''a&readonly'' ''0 &'' (NewClickHouseClient ''http'' ''h'' ''8123'' [] [])"
  have "max_exec_seconds ?c = 240"
    by (simp add: max_exec_seconds_def SetSetting_def NewClickHouseClient_def DefaultQueryTimeout_def Second_def
        wrap64_id min_int64_def max_int64_def go_div_pos)
  moreover have "int_str 240 = ''240''" by (simp add: int_str_def nat_str_eval)
  moreover have "c_settings ?c = [(''a&readonly'', ''0 &'')]" by (simp add: SetSetting_def NewClickHouseClient_def)
  ultimately show ?thesis using request_params [of ?c] by (simp add: SetSetting_def NewClickHouseClient_def)
qed

section \<open>What a dry run sends\<close>

definition requests :: "'r effect list \<Rightarrow> 'r list" where
  "requests fx = List.map_filter (\<lambda>e. case e of Sent r \<Rightarrow> Some r | Printed _ \<Rightarrow> None) fx"

lemma requests_simps [simp]:
  "requests [] = []" "requests (Sent r # fx) = r # requests fx" "requests (Printed s # fx) = requests fx"
  "requests (a @ b) = requests a @ requests b"
  by (simp_all add: requests_def map_filter_simps map_filter_def)

lemma dry_run_requests:
  "case dryRunIntercept http c q of (r, c', fx) \<Rightarrow>
     r = Inr (emptyResponseFor q) \<and> c' = c\<lparr>c_dryCounter := Suc (c_dryCounter c)\<rparr> \<and>
     map q_body (requests fx) = (if c_dryEstimate c \<and> isExplainable q
       then [''EXPLAIN ESTIMATE '' @ stripTrailingFormatClause q @ '' FORMAT PrettyCompactMonoBlock''] else [])"
proof -
  obtain r fx where e: "executeReal http (c\<lparr>c_dryCounter := Suc (c_dryCounter c)\<rparr>)
      (''EXPLAIN ESTIMATE '' @ stripTrailingFormatClause q @ '' FORMAT PrettyCompactMonoBlock'') = (r, fx)"
    by (meson surj_pair)
  then have fx: "map q_body (requests fx) = [''EXPLAIN ESTIMATE '' @ stripTrailingFormatClause q @ '' FORMAT PrettyCompactMonoBlock'']"
    by (auto simp: executeReal_def executeWith_def Let_def)
  show ?thesis unfolding dryRunIntercept_def Let_def
    by (cases r) (simp_all add: e [simplified] fx [simplified] del: append_assoc)
qed

text \<open>C4: In a dry run a query is never sent: over either connection it is answered with an empty result of the
  shape the caller asked for, and the only request that reaches the server is \<open>EXPLAIN ESTIMATE\<close> on a text that
  starts as a SELECT or WITH, and that only when estimates were asked for.\<close>

theorem dry_run_sends_no_query:
  "let c = SetDryRun est c0;
       sent = (if est \<and> isExplainable q
         then [''EXPLAIN ESTIMATE '' @ stripTrailingFormatClause q @ '' FORMAT PrettyCompactMonoBlock''] else [])
   in (case ExecuteQuery http c q of (r, c', fx) \<Rightarrow>
         r = Inr (emptyResponseFor q) \<and> c_dryRun c' \<and> map q_body (requests fx) = sent)
    \<and> (case ExecuteQueryFreshConnection http c q of (r, c', fx) \<Rightarrow>
         r = Inr (emptyResponseFor q) \<and> c_dryRun c' \<and> map q_body (requests fx) = sent)"
proof -
  define c where "c = SetDryRun est c0"
  have "c_dryRun c" "c_dryEstimate c = est" by (simp_all add: c_def SetDryRun_def)
  then show ?thesis using dry_run_requests [where http = http and c = c and q = q]
    unfolding Let_def c_def [symmetric] ExecuteQuery_def ExecuteQueryFreshConnection_def by (auto split: prod.splits)
qed

section \<open>Leading comments\<close>

text \<open>What is left after the leading comments is a suffix of the text that starts with neither white space nor
  a comment.\<close>

theorem leading_comments_stripped:
  "(\<exists>p. s = p @ stripLeadingSQLComments s)
   \<and> (stripLeadingSQLComments s = [] \<or> (\<exists>c cs. stripLeadingSQLComments s = c # cs \<and> is_cut_ws c = False))
   \<and> has_prefix (stripLeadingSQLComments s) ''--'' = False \<and> has_prefix (stripLeadingSQLComments s) ''/*'' = False"
proof (induction s rule: stripLeadingSQLComments.induct)
  case (1 s0)
  define s where "s = trim_left is_cut_ws s0"
  have suf: "\<exists>p. s0 = p @ s" unfolding s_def trim_left_def by (metis takeWhile_dropWhile_id)
  have suf': "\<exists>p. s0 = p @ r" if "\<exists>p. drop k s = p @ r" for k r
    using that suf by (metis append.assoc append_take_drop_id)
  consider (line) i where "has_prefix s ''--''" "index_byte s NL = Some i"
    | (line_end) "has_prefix s ''--''" "index_byte s NL = None"
    | (block) i where "\<not> has_prefix s ''--''" "has_prefix s ''/*''" "str_index s ''*/'' = Some i"
    | (block_end) "\<not> has_prefix s ''--''" "has_prefix s ''/*''" "str_index s ''*/'' = None"
    | (rest) "\<not> has_prefix s ''--''" "\<not> has_prefix s ''/*''"
    by (metis option.exhaust)
  then show ?case
  proof cases
    case line
    then have "stripLeadingSQLComments s0 = stripLeadingSQLComments (drop (i + 1) s)"
      by (subst stripLeadingSQLComments.simps) (simp add: s_def Let_def)
    with "1.IH"(1) [OF s_def line] suf' show ?thesis by metis
  next
    case block
    then have "stripLeadingSQLComments s0 = stripLeadingSQLComments (drop (i + 2) s)"
      by (subst stripLeadingSQLComments.simps) (simp add: s_def Let_def)
    with "1.IH"(2) [OF s_def block] suf' show ?thesis by metis
  next
    case rest
    have eq: "stripLeadingSQLComments s0 = s" using rest by (subst stripLeadingSQLComments.simps) (simp add: s_def Let_def)
    have "\<not> is_cut_ws c" if "s = c # cs" for c cs
    proof -
      have "dropWhile is_cut_ws s0 = c # cs" using that by (simp add: s_def trim_left_def)
      then show ?thesis by (rule dropWhile_hd_not)
    qed
    then have "s = [] \<or> (\<exists>c cs. s = c # cs \<and> is_cut_ws c = False)" by (cases s) simp_all
    then show ?thesis unfolding eq using suf rest by simp
  next
    case line_end
    have "stripLeadingSQLComments s0 = []"
      using line_end by (subst stripLeadingSQLComments.simps) (simp add: s_def Let_def del: index_byte_None)
    then show ?thesis by (simp add: has_prefix_def)
  next
    case block_end
    have "stripLeadingSQLComments s0 = []"
      using block_end by (subst stripLeadingSQLComments.simps) (simp add: s_def Let_def)
    then show ?thesis by (simp add: has_prefix_def)
  qed
qed

text \<open>The end of a block comment is looked for from its own opening, so \<open>/*/\<close> counts as a whole comment.\<close>

lemma short_block_comment: "stripLeadingSQLComments ''/*/ SELECT 1 */'' = ''SELECT 1 */''"
  by code_simp

end
