(* ===== verification/CollectMode.thy ===== *)
theory CollectMode
  imports GoFloat GoRegexp Client
begin

text \<open>
  How much a run collects: the load probe (\<open>internal/collectmode/probe.go\<close>), the decision it leads to and
  the watchdog that can change it (\<open>internal/collectmode/collectmode.go\<close>), and how the client is made
  gentle (\<open>cmd/collect_mode.go\<close>).

  A nil watchdog is \<open>None\<close>; the clock is an argument of every call that reads it, and the callback of
  \<open>OnTrip\<close> is an output of every call that can run it.
\<close>

section \<open>Modes and signals\<close>

datatype Mode = Auto | Essential | Full

definition parse_mode :: "string \<Rightarrow> string + Mode" where
  "parse_mode s =
     (let m = to_lower (trim_space s) in
      if m = [] \<or> m = ''auto'' then Inr Auto
      else if m = ''essential'' then Inr Essential
      else if m = ''full'' then Inr Full
      else Inl s)"

record Signals =
  s_Ping :: duration
  s_MetricsRead :: duration
  s_Queries :: int
  s_MaxConcurrentQueries :: int
  s_MemoryTracking :: int
  s_MemoryLimit :: int
  s_Load1 :: float64
  s_CPUs :: float64
  s_ReadonlyReplicas :: int
  s_KeeperSessions :: int
  s_KeeperLossSince :: int
  s_Tables :: int

definition no_signals :: Signals where
  "no_signals = \<lparr>s_Ping = 0, s_MetricsRead = 0, s_Queries = 0, s_MaxConcurrentQueries = 0, s_MemoryTracking = 0,
     s_MemoryLimit = 0, s_Load1 = Fin 0, s_CPUs = Fin 0, s_ReadonlyReplicas = 0, s_KeeperSessions = 0,
     s_KeeperLossSince = 0, s_Tables = 0\<rparr>"

definition slowPing :: duration where "slowPing = 1 * Second"
definition slowMetrics :: duration where "slowMetrics = 2 * Second"
definition concurrentRatio :: rat where "concurrentRatio = 8 / 10"
definition memoryRatio :: rat where "memoryRatio = 9 / 10"
definition loadPerCPU :: rat where "loadPerCPU = 2"
definition LargeTables :: int where "LargeTables = 10000"

record Decision =
  d_Requested :: Mode
  d_Mode :: Mode
  d_Reasons :: "string list"
  d_Large :: bool
  d_KeeperDown :: bool
  d_Signals :: Signals

definition ellipsis :: string where
  "ellipsis = [CHR 0xE2, CHR 0x80, CHR 0xA6]"

definition firstLine :: "string \<Rightarrow> string" where
  "firstLine s =
     (let s = (case index_byte s NL of Some i \<Rightarrow> take i s | None \<Rightarrow> s)
      in if length s > 160 then take 160 s @ ellipsis else s)"

section \<open>The decision\<close>

definition keeper_down :: "Signals \<Rightarrow> string option \<Rightarrow> bool" where
  "keeper_down s probeErr \<longleftrightarrow>
     probeErr = None \<and> s_ReadonlyReplicas s > 0 \<and> (s_KeeperSessions s = 0 \<or> s_KeeperLossSince s > 0)"

definition too_many_queries :: "Signals \<Rightarrow> bool" where
  "too_many_queries s \<longleftrightarrow> s_MaxConcurrentQueries s > 0 \<and>
     f_ge (f_of_int (s_Queries s)) (f_mul (round64 concurrentRatio) (f_of_int (s_MaxConcurrentQueries s)))"

definition memory_full :: "Signals \<Rightarrow> bool" where
  "memory_full s \<longleftrightarrow> s_MemoryLimit s > 0 \<and>
     f_ge (f_of_int (s_MemoryTracking s)) (f_mul (round64 memoryRatio) (f_of_int (s_MemoryLimit s)))"

definition cpu_overloaded :: "Signals \<Rightarrow> bool" where
  "cpu_overloaded s \<longleftrightarrow> f_gt (s_CPUs s) (Fin 0) \<and> f_ge (s_Load1 s) (f_mul (Fin loadPerCPU) (s_CPUs s))"

definition readonly_cause :: "Signals \<Rightarrow> string option \<Rightarrow> string" where
  "readonly_cause s probeErr =
     (if keeper_down s probeErr then
        (if s_KeeperLossSince s > 0
         then ''Keeper connection lost since '' @ fmt_datetime (s_KeeperLossSince s * 1000000000) @ '' UTC''
         else ''no Keeper session'')
      else ''Keeper session or disk trouble'')"

definition decide_reasons :: "Signals \<Rightarrow> string option \<Rightarrow> string list" where
  "decide_reasons s probeErr = (case probeErr of
     Some e \<Rightarrow> [''the load probe itself failed ('' @ firstLine e @ '')'']
   | None \<Rightarrow>
       (if s_Ping s \<ge> slowPing
        then [''the server took '' @ fmt_fixed 1 (dur_seconds (s_Ping s)) @ '' s to answer SELECT 1''] else [])
     @ (if s_MetricsRead s \<ge> slowMetrics
        then [''reading system.metrics took '' @ fmt_fixed 1 (dur_seconds (s_MetricsRead s)) @ '' s''] else [])
     @ (if too_many_queries s
        then [int_str (s_Queries s) @ '' queries running against max_concurrent_queries = '' @ int_str (s_MaxConcurrentQueries s)]
        else [])
     @ (if memory_full s
        then [''memory at '' @ fmt_fixed 0 (f_div (f_mul (f_of_int 100) (f_of_int (s_MemoryTracking s))) (f_of_int (s_MemoryLimit s)))
          @ '' % of the server limit''] else [])
     @ (if cpu_overloaded s
        then [''load average '' @ fmt_fixed 1 (s_Load1 s) @ '' on '' @ fmt_fixed 0 (s_CPUs s) @ '' cores''] else [])
     @ (if s_ReadonlyReplicas s > 0
        then [int_str (s_ReadonlyReplicas s) @ '' replicated table(s) read-only ('' @ readonly_cause s probeErr @ '')''] else []))"

definition Decide :: "Mode \<Rightarrow> Signals \<Rightarrow> string option \<Rightarrow> Decision" where
  "Decide requested s probeErr =
     (let why = decide_reasons s probeErr in
      \<lparr>d_Requested = requested,
       d_Mode = (case requested of Full \<Rightarrow> Full | Essential \<Rightarrow> Essential
         | Auto \<Rightarrow> if length why > 0 then Essential else Full),
       d_Reasons = why, d_Large = (s_Tables s \<ge> LargeTables), d_KeeperDown = keeper_down s probeErr, d_Signals = s\<rparr>)"

definition Summary :: "Decision \<Rightarrow> string" where
  "Summary d =
     (if d_Requested d = Essential then ''essential collection, requested with -collect essential''
      else if d_Requested d = Full then
        ''full collection, requested with -collect full'' @
        (if length (d_Reasons d) > 0 then '' (the probe saw: '' @ str_join ''; '' (d_Reasons d) @ '')'' else [])
      else if d_Mode d = Essential then
        ''essential collection, chosen automatically: '' @ str_join ''; '' (d_Reasons d)
      else ''full collection (the server answered the load probe normally)'')"

text \<open>A run that was left to the probe starts essential exactly when the probe failed or one of its signals is
  at or above its threshold (a ratio against an unknown limit never is); a run that was asked for is what was
  asked for; and a decision carries a reason exactly in those cases.\<close>

theorem decide_iff:
  "let d = Decide requested s probeErr;
       trouble = (\<not> (probeErr = None \<and> s_Ping s < 1 * Second \<and> s_MetricsRead s < 2 * Second \<and> \<not> too_many_queries s
         \<and> \<not> memory_full s \<and> \<not> cpu_overloaded s \<and> s_ReadonlyReplicas s \<le> 0))
   in d_Mode d = (case requested of Auto \<Rightarrow> if trouble then Essential else Full | m \<Rightarrow> m)
    \<and> (d_Reasons d = []) = (\<not> trouble)
    \<and> (d_KeeperDown d = (probeErr = None \<and> s_ReadonlyReplicas s > 0 \<and> (s_KeeperSessions s = 0 \<or> s_KeeperLossSince s > 0)))"
  by (cases requested; cases probeErr)
    (auto simp: Decide_def decide_reasons_def keeper_down_def slowPing_def slowMetrics_def Let_def)

section \<open>The probe\<close>

definition q1 :: "string \<Rightarrow> string" where "q1 s = QUOTE # s @ [QUOTE]"

definition metric_sum :: "string \<Rightarrow> string" where
  "metric_sum m = ''    (SELECT sum(value) FROM system.metrics WHERE metric = '' @ q1 m @ ''),''"

definition async_max :: "string \<Rightarrow> string" where
  "async_max m = ''    (SELECT max(value) FROM system.asynchronous_metrics WHERE metric = '' @ q1 m @ ''),''"

definition ProbeQuery :: string where
  "ProbeQuery = str_join [NL]
     [''SELECT'', metric_sum ''Query'', metric_sum ''MemoryTracking'', metric_sum ''ReadonlyReplica'',
      async_max ''LoadAverage1'', async_max ''NumberOfTables'', async_max ''OSMemoryTotal'',
      ''    (SELECT toUInt64OrZero(extract(any(value), '' @ q1 ([BSLASH, BSLASH] @ ''d+'') @ '')) FROM system.settings WHERE name = ''
        @ q1 ''max_threads'' @ ''),'',
      metric_sum ''ZooKeeperSession'',
      ''    (SELECT max(value) FROM system.metrics WHERE metric = '' @ q1 ''ZooKeeperConnectionLossStartedTimestampSeconds'' @ '')'',
      ''FORMAT TSV'']"

definition LimitsQuery :: string where
  "LimitsQuery = str_join [NL]
     [''SELECT'',
      ''    (SELECT toInt64OrZero(any(value)) FROM system.server_settings WHERE name = '' @ q1 ''max_concurrent_queries'' @ ''),'',
      ''    (SELECT toInt64OrZero(any(value)) FROM system.server_settings WHERE name = '' @ q1 ''max_server_memory_usage'' @ ''),'',
      ''    (SELECT toFloat64OrZero(any(value)) FROM system.server_settings WHERE name = '' @ q1 ''max_server_memory_usage_to_ram_ratio'' @ '')'',
      ''FORMAT TSV'']"

definition probe_fields :: "string \<Rightarrow> string list" where
  "probe_fields tsv = split_byte TAB (trim_space tsv)"

definition num :: "string list \<Rightarrow> nat \<Rightarrow> float64" where
  "num f i = (if i \<ge> length f then Fin 0 else parse_float (trim_both (\<lambda>c. c = DQUOTE) (f ! i)))"

definition memory_limit :: "float64 \<Rightarrow> float64 \<Rightarrow> float64 \<Rightarrow> float64" where
  "memory_limit limit ratio ram =
     (if f_le limit (Fin 0) \<and> f_gt ram (Fin 0)
      then f_mul ram (if f_le ratio (Fin 0) then round64 (9 / 10) else ratio)
      else limit)"

text \<open>The runner answers a query; \<open>ping\<close> and \<open>metrics\<close> are the measured durations of the first two calls.\<close>

definition Probe :: "(string \<Rightarrow> string + string) \<Rightarrow> duration \<Rightarrow> duration \<Rightarrow> Signals \<times> string option" where
  "Probe run ping metrics =
     (case run ''SELECT 1'' of
        Inl e \<Rightarrow> (no_signals, Some e)
      | Inr _ \<Rightarrow>
          let s = no_signals\<lparr>s_Ping := ping, s_MetricsRead := metrics\<rparr> in
          case run ProbeQuery of
            Inl e \<Rightarrow> (s, Some e)
          | Inr out \<Rightarrow>
              let f = probe_fields out;
                  s = s\<lparr>s_Queries := f_to_int64 (num f 0), s_MemoryTracking := f_to_int64 (num f 1),
                    s_ReadonlyReplicas := f_to_int64 (num f 2), s_Load1 := num f 3, s_Tables := f_to_int64 (num f 4),
                    s_CPUs := num f 6, s_KeeperSessions := f_to_int64 (num f 7), s_KeeperLossSince := f_to_int64 (num f 8)\<rparr>
              in (case run LimitsQuery of
                    Inl _ \<Rightarrow> s
                  | Inr out2 \<Rightarrow>
                      let l = probe_fields out2 in
                      s\<lparr>s_MaxConcurrentQueries := f_to_int64 (num l 0),
                        s_MemoryLimit := f_to_int64 (memory_limit (num l 1) (num l 2) (num f 5))\<rparr>, None))"

text \<open>When the limits cannot be read (their table is missing before 23.3) the probe still succeeds, and neither
  ratio is ever a reason for an essential run.\<close>

theorem probe_unknown_limits:
  assumes "run ''SELECT 1'' = Inr a" "run ProbeQuery = Inr b" "run LimitsQuery = Inl e"
  shows "case Probe run ping metrics of (s, err) \<Rightarrow>
    err = None \<and> s_Ping s = ping \<and> s_MetricsRead s = metrics \<and> \<not> too_many_queries s \<and> \<not> memory_full s"
  using assms by (simp add: Probe_def Let_def too_many_queries_def memory_full_def no_signals_def)

theorem probe_unknown_limits_witness:
  "case Probe (\<lambda>q. if q = LimitsQuery then Inl ''UNKNOWN_TABLE'' else Inr ''1'') 5 7 of (s, err) \<Rightarrow>
    err = None \<and> s_Ping s = 5 \<and> s_MetricsRead s = 7 \<and> \<not> too_many_queries s \<and> \<not> memory_full s"
proof (rule probe_unknown_limits)
  show "(if ''SELECT 1'' = LimitsQuery then Inl ''UNKNOWN_TABLE'' else Inr ''1'') = (Inr ''1'' :: string + string)"
    by (simp add: LimitsQuery_def)
  show "(if ProbeQuery = LimitsQuery then Inl ''UNKNOWN_TABLE'' else Inr ''1'') = (Inr ''1'' :: string + string)"
    by (simp add: LimitsQuery_def ProbeQuery_def metric_sum_def)
qed simp

section \<open>The watchdog\<close>

definition EssentialQueryTimeout :: duration where "EssentialQueryTimeout = 30 * Second"
definition EssentialBudget :: duration where "EssentialBudget = 3 * Minute"
definition EssentialLookback :: duration where "EssentialLookback = 24 * Hour"
definition slowQuery :: duration where "slowQuery = 30 * Second"

record Watchdog =
  w_budget :: duration
  w_tripBudget :: duration
  w_started :: time
  w_tripped :: bool
  w_reason :: string
  w_lastSlow :: string
  w_locked :: bool

definition NewWatchdog :: "duration \<Rightarrow> Watchdog" where
  "NewWatchdog budget = \<lparr>w_budget = budget, w_tripBudget = 0, w_started = zero_time, w_tripped = False,
     w_reason = [], w_lastSlow = [], w_locked = False\<rparr>"

definition Locked :: "Watchdog \<Rightarrow> Watchdog" where
  "Locked w = w\<lparr>w_locked := True\<rparr>"

definition WithTripBudget :: "duration \<Rightarrow> Watchdog \<Rightarrow> Watchdog" where
  "WithTripBudget d w = w\<lparr>w_tripBudget := d\<rparr>"

definition StartClock :: "time \<Rightarrow> Watchdog option \<Rightarrow> Watchdog option" where
  "StartClock now w = map_option (\<lambda>w. w\<lparr>w_started := now\<rparr>) w"

text \<open>\<open>trip\<close>: the second component is the call of the \<open>OnTrip\<close> callback, with its argument.\<close>

definition trip :: "time \<Rightarrow> string \<Rightarrow> Watchdog \<Rightarrow> Watchdog \<times> string option" where
  "trip now reason w =
     (if w_locked w then (w, None)
      else
        let w = w\<lparr>w_tripped := True, w_reason := reason\<rparr>;
            w = (if w_budget w \<le> 0 \<and> w_tripBudget w > 0
                 then w\<lparr>w_budget := w_tripBudget w, w_started := now\<rparr> else w)
        in (w, Some reason))"

text \<open>\<open>(?i)TIMEOUT_EXCEEDED|Code: 159\b|deadline exceeded|Client\.Timeout|timeout awaiting|i/o timeout\<close>\<close>

definition re_timeout :: re where
  "re_timeout = alts [ilit ''TIMEOUT_EXCEEDED'', Seq (ilit ''Code: 159'') WordB, ilit ''deadline exceeded'',
     ilit ''Client.Timeout'', ilit ''timeout awaiting'', ilit ''i/o timeout'']"

definition timed_out :: "string option \<Rightarrow> bool" where
  "timed_out err = (case err of None \<Rightarrow> False | Some e \<Rightarrow> match_string re_timeout e)"

definition timeout_reason :: "string \<Rightarrow> duration \<Rightarrow> string" where
  "timeout_reason name d = name @ '' timed out after '' @ fmt_fixed 0 (dur_seconds d) @ '' s''"

definition slow_reason :: "string \<Rightarrow> string \<Rightarrow> string" where
  "slow_reason a b = a @ '' and '' @ b @ '' each took more than '' @ fmt_fixed 0 (dur_seconds slowQuery) @ '' s''"

definition observe :: "time \<Rightarrow> string \<Rightarrow> duration \<Rightarrow> string option \<Rightarrow> Watchdog \<Rightarrow> Watchdog \<times> string option" where
  "observe now name d err w =
     (if w_tripped w then (w, None)
      else if timed_out err then trip now (timeout_reason name d) w
      else if d \<ge> slowQuery then
        (if w_lastSlow w \<noteq> [] then trip now (slow_reason (w_lastSlow w) name) w
         else (w\<lparr>w_lastSlow := name\<rparr>, None))
      else (w\<lparr>w_lastSlow := []\<rparr>, None))"

definition trip_once :: "time \<Rightarrow> string \<Rightarrow> Watchdog \<Rightarrow> Watchdog \<times> string option" where
  "trip_once now reason w = (if w_tripped w then (w, None) else trip now reason w)"

text \<open>The methods on a possibly nil watchdog.\<close>

definition on_watchdog :: "(Watchdog \<Rightarrow> Watchdog \<times> string option) \<Rightarrow> Watchdog option \<Rightarrow> Watchdog option \<times> string option" where
  "on_watchdog f w = (case w of None \<Rightarrow> (None, None) | Some w \<Rightarrow> apfst Some (f w))"

definition Observe :: "time \<Rightarrow> string \<Rightarrow> duration \<Rightarrow> string option \<Rightarrow> Watchdog option \<Rightarrow> Watchdog option \<times> string option" where
  "Observe now name d err = on_watchdog (observe now name d err)"

definition TripWatchdog :: "time \<Rightarrow> string \<Rightarrow> Watchdog option \<Rightarrow> Watchdog option \<times> string option" where
  "TripWatchdog now reason = on_watchdog (trip_once now reason)"

definition Tripped :: "Watchdog option \<Rightarrow> bool \<times> string" where
  "Tripped w = (case w of None \<Rightarrow> (False, []) | Some w \<Rightarrow> (w_tripped w, w_reason w))"

definition OverBudget :: "time \<Rightarrow> Watchdog option \<Rightarrow> bool" where
  "OverBudget now w = (case w of None \<Rightarrow> False
     | Some w \<Rightarrow> \<not> (w_budget w \<le> 0 \<or> is_zero (w_started w)) \<and> now - w_started w > w_budget w)"

definition Budget :: "Watchdog option \<Rightarrow> duration" where
  "Budget w = (case w of None \<Rightarrow> 0 | Some w \<Rightarrow> w_budget w)"

section \<open>A latch\<close>

text \<open>
  What the callers rely on: a state with a flag that is only ever set, and an event that is reported
  exactly when it is set. Whatever is reported over a run of steps is reported at most once.
\<close>

locale latch =
  fixes step :: "'i \<Rightarrow> 's \<Rightarrow> 's \<times> 'e option"
    and flag :: "'s \<Rightarrow> bool"
    and note_of :: "'s \<Rightarrow> 'e"
  assumes keeps: "flag s \<Longrightarrow> step i s = (s, None)"
    and sets: "\<not> flag s \<Longrightarrow> step i s = (s', Some e) \<Longrightarrow> flag s' \<and> note_of s' = e"
    and quiet: "\<not> flag s \<Longrightarrow> step i s = (s', None) \<Longrightarrow> \<not> flag s'"
begin

fun run :: "'i list \<Rightarrow> 's \<Rightarrow> 's \<times> 'e list" where
  "run [] s = (s, [])"
| "run (i # is) s = (case step i s of (s', ev) \<Rightarrow>
     (case run is s' of (s'', evs) \<Rightarrow> (s'', (case ev of None \<Rightarrow> evs | Some e \<Rightarrow> e # evs))))"

lemma run_flag: "flag s \<Longrightarrow> run is s = (s, [])"
  by (induction "is") (auto simp: keeps)

lemma run_events:
  "\<not> flag s \<Longrightarrow> run is s = (s', evs) \<Longrightarrow> evs = (if flag s' then [note_of s'] else [])"
proof (induction "is" arbitrary: s evs)
  case (Cons i "is")
  obtain t ev where st: "step i s = (t, ev)" by (cases "step i s")
  show ?case
  proof (cases ev)
    case None
    with quiet [OF Cons.prems(1)] st have "\<not> flag t" by blast
    with Cons st None show ?thesis by (auto split: prod.splits)
  next
    case (Some e)
    with sets [OF Cons.prems(1)] st have "flag t" "note_of t = e" by auto
    with Cons.prems st Some show ?thesis by (auto simp: run_flag)
  qed
qed simp

end

text \<open>The calls a run makes on its watchdog.\<close>

datatype watch_call = CObserve time string duration "string option" | CTrip time string

fun watch_step :: "watch_call \<Rightarrow> Watchdog \<Rightarrow> Watchdog \<times> string option" where
  "watch_step (CObserve now name d err) w = observe now name d err w"
| "watch_step (CTrip now reason) w = trip_once now reason w"

lemma trip_cases: "trip now reason w = (w', ev) \<Longrightarrow>
    (if w_locked w then w' = w \<and> ev = None
     else w_tripped w' \<and> w_reason w' = reason \<and> ev = Some reason \<and> w_locked w' = w_locked w)"
  by (auto simp: trip_def Let_def split: if_splits)

interpretation wd: latch watch_step w_tripped w_reason
proof
  fix s s' :: Watchdog and i e
  show "w_tripped s \<Longrightarrow> watch_step i s = (s, None)"
    by (cases i) (auto simp: observe_def trip_once_def)
  show "\<not> w_tripped s \<Longrightarrow> watch_step i s = (s', Some e) \<Longrightarrow> w_tripped s' \<and> w_reason s' = e"
    by (cases i) (auto simp: observe_def trip_once_def dest!: trip_cases split: if_splits)
  show "\<not> w_tripped s \<Longrightarrow> watch_step i s = (s', None) \<Longrightarrow> \<not> w_tripped s'"
    by (cases i) (auto simp: observe_def trip_once_def dest!: trip_cases split: if_splits)
qed

fun watch_run :: "watch_call list \<Rightarrow> Watchdog \<Rightarrow> Watchdog \<times> string list" where
  "watch_run [] w = (w, [])"
| "watch_run (i # is) w = (case watch_step i w of (w', ev) \<Rightarrow>
     (case watch_run is w' of (w'', evs) \<Rightarrow> (w'', (case ev of None \<Rightarrow> evs | Some e \<Rightarrow> e # evs))))"

lemma watch_run_latch: "watch_run is w = wd.run is w"
  by (induction "is" arbitrary: w) (auto split: prod.splits option.splits)

lemma watch_run_append:
  "watch_run (xs @ ys) w = (case watch_run xs w of (w', a) \<Rightarrow> (case watch_run ys w' of (w'', b) \<Rightarrow> (w'', a @ b)))"
  by (induction xs arbitrary: w) (auto split: prod.splits option.splits)

text \<open>A run becomes essential at most once and for good: over any calls, the callback runs exactly once if the
  watchdog trips and never otherwise, with the reason it then reports; once tripped, no further call changes
  anything; and a locked watchdog never trips.\<close>

theorem watchdog_trips_once:
  "(case watch_run is (NewWatchdog budget) of (w, evs) \<Rightarrow>
      evs = (if w_tripped w then [w_reason w] else [])
      \<and> (case watch_run js w of (w2, evs2) \<Rightarrow> (if w_tripped w then (w2, evs2) = (w, []) else w_locked w2 = False)))
   \<and> w_tripped (fst (watch_run is (Locked (NewWatchdog budget)))) = False"
proof -
  have lock: "w_locked w' = w_locked w" if "watch_step i w = (w', ev)" for i w w' ev
    using that by (cases i) (auto simp: observe_def trip_once_def split: if_splits dest!: trip_cases)
  have locks: "w_locked (fst (watch_run is w)) = w_locked w" for "is" w
  proof (induction "is" arbitrary: w)
    case (Cons i "is")
    obtain w' ev where st: "watch_step i w = (w', ev)" by (cases "watch_step i w")
    obtain w'' evs where r: "watch_run is w' = (w'', evs)" by (cases "watch_run is w'")
    show ?case using Cons [of w'] st r lock [OF st] by (simp split: option.splits)
  qed simp
  have never: "w_tripped (fst (watch_run is w)) = w_tripped w" if "w_locked w" for "is" w
    using that
  proof (induction "is" arbitrary: w)
    case (Cons i "is")
    obtain w' ev where st: "watch_step i w = (w', ev)" by (cases "watch_step i w")
    obtain w'' evs where r: "watch_run is w' = (w'', evs)" by (cases "watch_run is w'")
    have "w_tripped w' = w_tripped w"
      using st Cons.prems by (cases i) (auto simp: observe_def trip_once_def split: if_splits dest!: trip_cases)
    with Cons.IH [of w'] Cons.prems lock [OF st] st r show ?case by (simp split: option.splits)
  qed simp
  obtain w evs where r: "watch_run is (NewWatchdog budget) = (w, evs)" by (cases "watch_run is (NewWatchdog budget)")
  obtain w2 evs2 where r2: "watch_run js w = (w2, evs2)" by (cases "watch_run js w")
  have "evs = (if w_tripped w then [w_reason w] else [])"
    using r unfolding watch_run_latch by (intro wd.run_events [of "NewWatchdog budget"]) (simp_all add: NewWatchdog_def)
  moreover have "w_tripped w \<Longrightarrow> (w2, evs2) = (w, [])"
    using r2 unfolding watch_run_latch by (simp add: wd.run_flag)
  moreover have "w_locked w2 = False"
    using locks [of js w] locks [of "is" "NewWatchdog budget"] r r2 by (simp add: NewWatchdog_def)
  moreover have "w_tripped (fst (watch_run is (Locked (NewWatchdog budget)))) = False"
    using never [of "Locked (NewWatchdog budget)" "is"] by (simp add: Locked_def NewWatchdog_def)
  ultimately show ?thesis using r r2 by auto
qed

text \<open>When the watchdog trips: some query timed out, or two queries in a row were slow.\<close>

type_synonym observation = "string \<times> duration \<times> string option"

fun two_slow :: "observation list \<Rightarrow> bool" where
  "two_slow ((_, d1, _) # (n2, d2, e2) # os) =
     (d1 \<ge> slowQuery \<and> d2 \<ge> slowQuery \<or> two_slow ((n2, d2, e2) # os))"
| "two_slow _ = False"

definition observations :: "time \<Rightarrow> observation list \<Rightarrow> watch_call list" where
  "observations now os = map (\<lambda>(n, d, e). CObserve now n d e) os"

lemma observe_not_locked: "\<not> w_locked w \<Longrightarrow> \<not> w_tripped w \<Longrightarrow>
    w_tripped (fst (observe now n d e w)) \<longleftrightarrow> timed_out e \<or> d \<ge> slowQuery \<and> w_lastSlow w \<noteq> []"
  by (auto simp: observe_def trip_def Let_def)

lemma watch_run_observations:
  assumes "\<not> w_locked w" "\<not> w_tripped w" "\<forall>(n, d, e)\<in>set os. n \<noteq> []"
  shows "w_tripped (fst (watch_run (observations now os) w)) \<longleftrightarrow>
    (\<exists>(n, d, e)\<in>set os. timed_out e) \<or> (w_lastSlow w \<noteq> [] \<and> os \<noteq> [] \<and> fst (snd (hd os)) \<ge> slowQuery) \<or> two_slow os"
  using assms
proof (induction os arbitrary: w)
  case (Cons x os)
  obtain n d e where x: "x = (n, d, e)" by (cases x)
  obtain w' ev where st: "observe now n d e w = (w', ev)" by (cases "observe now n d e w")
  have run: "fst (watch_run (observations now (x # os)) w) = fst (watch_run (observations now os) w')"
    using st by (simp add: observations_def x split: prod.splits)
  show ?case
  proof (cases "timed_out e \<or> d \<ge> slowQuery \<and> w_lastSlow w \<noteq> []")
    case True
    then have "w_tripped w'" using observe_not_locked [OF Cons.prems(1,2)] st by (metis fst_conv)
    then have "w_tripped (fst (watch_run (observations now os) w'))"
      unfolding watch_run_latch by (simp add: wd.run_flag)
    with True run x show ?thesis by auto
  next
    case False
    then have w': "w' = w\<lparr>w_lastSlow := (if d \<ge> slowQuery then n else [])\<rparr>"
      using st Cons.prems(2) by (auto simp: observe_def split: if_splits)
    have "n \<noteq> []" using Cons.prems(3) x by auto
    moreover have "two_slow (x # os) \<longleftrightarrow> (d \<ge> slowQuery \<and> os \<noteq> [] \<and> fst (snd (hd os)) \<ge> slowQuery) \<or> two_slow os"
      using x by (cases os) auto
    ultimately show ?thesis
      using Cons.IH [of w'] Cons.prems w' run False x by auto
  qed
qed (simp add: observations_def)

text \<open>A watchdog that is not locked trips over a run of collectors exactly when some collector timed out or two
  collectors in a row took at least 30 s. (The hypothesis: every collector has a name.)\<close>

theorem watchdog_trips_iff:
  assumes "\<forall>(n, d, e)\<in>set os. n \<noteq> []"
  shows "w_tripped (fst (watch_run (observations now os) (WithTripBudget b (NewWatchdog budget)))) \<longleftrightarrow>
    (\<exists>(n, d, e)\<in>set os. timed_out e) \<or> two_slow os"
  by (subst watch_run_observations) (use assms in \<open>simp_all add: NewWatchdog_def WithTripBudget_def\<close>)

theorem watchdog_trips_iff_witness:
  "w_tripped (fst (watch_run (observations 5 [(''a'', 31 * Second, None), (''b'', 30 * Second, Some ''x''), (''c'', 0, None)])
     (WithTripBudget 1 (NewWatchdog 0)))) = True"
  by (subst watchdog_trips_iff) (simp_all add: slowQuery_def Second_def)

text \<open>A run without a budget that trips gets the essential budget, counted from the moment it trips; a run with
  a budget of its own keeps it and its start. (The hypothesis: not locked, and the clock is not at its zero.)\<close>

theorem trip_budget:
  assumes "\<not> w_locked w" "0 < w_tripBudget w" "now \<noteq> zero_time"
  shows "OverBudget later (Some (fst (trip now reason w))) =
    (if w_budget w \<le> 0 then later > now + w_tripBudget w else OverBudget later (Some w))"
  using assms by (auto simp: trip_def OverBudget_def Let_def is_zero_def)

theorem trip_budget_witness:
  "OverBudget (4 * Minute) (Some (fst (trip 0 ''slow'' (WithTripBudget EssentialBudget (NewWatchdog 0))))) = True"
  by (subst trip_budget) (simp_all add: WithTripBudget_def NewWatchdog_def EssentialBudget_def Minute_def zero_time_def)

end
