(* ===== verification/RunLog.thy ===== *)
theory RunLog
  imports GoFloat GoRegexp
begin

text \<open>
  The execution log (\<open>internal/runlog/runlog.go\<close>): what a run did, entry by entry, and the text of
  \<open>execution_log.txt\<close>. In gov mode the recorder keeps only the error code of an error text.

  Times are rendered in UTC (\<open>+0000\<close>); \<open>Write\<close>, which puts the rendered text into a file, is not modelled.
\<close>

section \<open>The recorder\<close>

definition errorCap :: nat where "errorCap = 300"

record Entry =
  e_Stage :: string
  e_Name :: string
  e_Source :: string
  e_Status :: string
  e_Duration :: duration
  e_Bytes :: int
  e_Rows :: int
  e_Extra :: string
  e_Error :: string

record Phase =
  p_Name :: string
  p_Duration :: duration
  p_Note :: string

record Recorder =
  r_started :: time
  r_meta :: "(string \<times> string) list"
  r_entries :: "Entry list"
  r_phases :: "Phase list"
  r_gov :: bool

definition NewRecorder :: "time \<Rightarrow> Recorder" where
  "NewRecorder now = \<lparr>r_started = now, r_meta = [], r_entries = [], r_phases = [], r_gov = False\<rparr>"

definition WithGov :: "bool \<Rightarrow> Recorder \<Rightarrow> Recorder" where
  "WithGov on r = r\<lparr>r_gov := on\<rparr>"

definition em_dash :: string where "em_dash = [CHR 0xE2, CHR 0x80, CHR 0x94]"
definition dots :: string where "dots = [CHR 0xE2, CHR 0x80, CHR 0xA6]"

text \<open>\<open>Code: (\d+)\<close>\<close>

definition re_err_code :: re where
  "re_err_code = seqs [lit ''Code: '', Grp 1 (plus_of (Cls is_digit))]"

definition redactError :: "string \<Rightarrow> string" where
  "redactError msg =
     (if msg = [] then []
      else case re_find re_err_code msg of
        Some (_, _, cs) \<Rightarrow> ''Code: '' @ group msg cs 1 @ '' '' @ em_dash @ '' message redacted in gov mode''
      | None \<Rightarrow> ''error text redacted in gov mode'')"

primrec set_meta :: "string \<Rightarrow> string \<Rightarrow> (string \<times> string) list \<Rightarrow> (string \<times> string) list" where
  "set_meta k v [] = [(k, v)]"
| "set_meta k v (m # ms) = (if fst m = k then (k, v) # ms else m # set_meta k v ms)"

definition SetMeta :: "string \<Rightarrow> string \<Rightarrow> Recorder \<Rightarrow> Recorder" where
  "SetMeta k v r = r\<lparr>r_meta := set_meta k v (r_meta r)\<rparr>"

definition Meta :: "string \<Rightarrow> Recorder \<Rightarrow> string" where
  "Meta k r = (case map_of (r_meta r) k of Some v \<Rightarrow> v | None \<Rightarrow> [])"

text \<open>\<open>strings.ReplaceAll\<close> of one byte by another.\<close>

definition swap_byte :: "char \<Rightarrow> char \<Rightarrow> string \<Rightarrow> string" where
  "swap_byte a b s = map (\<lambda>c. if c = a then b else c) s"

definition cap_error :: "string \<Rightarrow> string" where
  "cap_error e = (if length e > errorCap then take errorCap e @ dots else e)"

definition RecordEntry :: "Entry \<Rightarrow> Recorder \<Rightarrow> Recorder" where
  "RecordEntry e r =
     (let e = (if r_gov r then e\<lparr>e_Error := redactError (e_Error e)\<rparr> else e);
          e = e\<lparr>e_Error := swap_byte (CHR ''|'') (CHR ''/'') (swap_byte NL (CHR '' '') (cap_error (e_Error e)))\<rparr>
      in r\<lparr>r_entries := r_entries r @ [e]\<rparr>)"

definition RecordPhase :: "string \<Rightarrow> duration \<Rightarrow> string \<Rightarrow> Recorder \<Rightarrow> Recorder" where
  "RecordPhase name d note r =
     (let note = (if r_gov r \<and> note \<noteq> [] then redactError note else note)
      in r\<lparr>r_phases := r_phases r @ [\<lparr>p_Name = name, p_Duration = d, p_Note = note\<rparr>]\<rparr>)"

text \<open>A nil recorder records nothing.\<close>

definition record_opt :: "Entry \<Rightarrow> Recorder option \<Rightarrow> Recorder option" where
  "record_opt e r = map_option (RecordEntry e) r"

definition entries_of :: "Recorder option \<Rightarrow> Entry list" where
  "entries_of r = (case r of None \<Rightarrow> [] | Some r \<Rightarrow> r_entries r)"

section \<open>Formatting\<close>

definition micro_sign :: string where "micro_sign = [CHR 0xC2, CHR 0xB5]"

definition dur_minutes :: "duration \<Rightarrow> float64" where
  "dur_minutes d = f_add (f_of_int (go_div d Minute)) (f_div (f_of_int (d - go_div d Minute * Minute)) (f_of_int 60000000000))"

definition fmtDur :: "duration \<Rightarrow> string" where
  "fmtDur d =
     (if d < Millisecond then int_str (go_div d 1000) @ '' '' @ micro_sign @ ''s''
      else if d < Second then int_str (go_div d 1000000) @ '' ms''
      else if d < Minute then fmt_fixed 2 (dur_seconds d) @ '' s''
      else fmt_fixed 1 (dur_minutes d) @ '' min'')"

fun fmt_bytes_from :: "string list \<Rightarrow> int \<Rightarrow> float64 \<Rightarrow> string" where
  "fmt_bytes_from [] b f = int_str b @ '' B''"
| "fmt_bytes_from (u # us) b f =
     (if f_gt (Fin 1024) f \<or> u = ''GiB'' then
        (if u = ''B'' then int_str b @ '' B'' else fmt_fixed 1 f @ '' '' @ u)
      else fmt_bytes_from us b (f_div f (Fin 1024)))"

definition fmtBytes :: "int \<Rightarrow> string" where
  "fmtBytes b = fmt_bytes_from [''B'', ''KiB'', ''MiB'', ''GiB''] b (f_of_int b)"

definition src_of :: "Entry \<Rightarrow> string" where
  "src_of e = (if e_Source e = [] then ''root'' else e_Source e)"

text \<open>\<open>%-<w>s\<close>, \<open>%<w>s\<close> and \<open>%<w>d\<close>: the width counts runes, that is bytes that do not continue one.\<close>

definition rune_count :: "string \<Rightarrow> nat" where
  "rune_count s = length (filter (\<lambda>c. \<not> in_range 128 191 c) s)"

definition pad_right :: "nat \<Rightarrow> string \<Rightarrow> string" where
  "pad_right w s = s @ replicate (w - rune_count s) (CHR '' '')"

definition pad_left :: "nat \<Rightarrow> string \<Rightarrow> string" where
  "pad_left w s = replicate (w - rune_count s) (CHR '' '') @ s"

section \<open>The text of the log\<close>

definition count_status :: "Entry list \<Rightarrow> string \<Rightarrow> nat" where
  "count_status es status = length (filter (\<lambda>e. e_Status e = status) es)"

definition fmt_zoned :: "time \<Rightarrow> string" where
  "fmt_zoned t = fmt_datetime t @ '' +0000''"

definition ln :: "string \<Rightarrow> string" where
  "ln s = s @ [NL]"

definition render_header :: "Recorder \<Rightarrow> time \<Rightarrow> string" where
  "render_header r now =
     ln ''clickhouse-diagnostic execution log'' @
     ln ''==================================='' @
     ln (''started:  '' @ fmt_zoned (r_started r)) @
     ln (''finished: '' @ fmt_zoned now @ ''   (total '' @ fmtDur (now - r_started r) @ '')'') @
     concat (map (\<lambda>(k, v). ln (pad_right 9 (k @ '':'') @ '' '' @ v)) (r_meta r))"

definition render_summary :: "Recorder \<Rightarrow> string" where
  "render_summary r =
     (let collectors = filter (\<lambda>e. e_Stage e = ''collector'') (r_entries r);
          alerts = filter (\<lambda>e. e_Stage e = ''alert'') (r_entries r);
          others = filter (\<lambda>e. e_Stage e \<noteq> ''collector'' \<and> e_Stage e \<noteq> ''alert'') (r_entries r);
          n = (\<lambda>es st. nat_str (count_status es st))
      in NL # ln ''Summary'' @ ln ''-------'' @
         ln (''collectors: '' @ n collectors ''ok'' @ '' ok, '' @ n collectors ''failed'' @ '' failed, '' @
           n collectors ''empty'' @ '' empty '' @ em_dash @ '' '' @
           fmtDur (sum_list (map e_Duration collectors)) @ '' of query time'') @
         (if alerts = [] then [] else
           ln (''alerts:     '' @ nat_str (length alerts) @ '' rules '' @ em_dash @ '' '' @ n alerts ''fired'' @ '' fired, '' @
             n alerts ''clean'' @ '' clean, '' @ n alerts ''failed'' @ '' failed, '' @ n alerts ''skipped'' @ '' skipped'')) @
         (if others = [] then [] else
           ln (''other:      '' @ nat_str (length others) @ '' entries ('' @ n others ''failed'' @ '' failed)'')) @
         (if r_phases r = [] then [] else
           ln (''phases:     '' @ str_join '' | '' (map (\<lambda>p. p_Name p @ '' '' @ fmtDur (p_Duration p)) (r_phases r)))))"

definition render_expensive :: "Entry list \<Rightarrow> string" where
  "render_expensive collectors =
     (if collectors = [] then []
      else
        (let sorted = sort_key (\<lambda>e. - e_Duration e) collectors in
         NL # ln (''Most expensive collectors (by wall time; tune windows in queries.<mode>/ from here)'') @
         ln (replicate 80 (CHR ''-'')) @
         concat (map (\<lambda>(i, e).
           ln (pad_left 3 (nat_str (i + 1)) @ ''. '' @ pad_left 10 (fmtDur (e_Duration e)) @ ''  '' @ pad_right 48 (e_Name e) @
             '' ('' @ src_of e @ '')  '' @ fmtBytes (e_Bytes e) @
             (if e_Rows e \<ge> 0 then ''  '' @ int_str (e_Rows e) @ '' rows'' else []) @ ''  '' @ e_Status e))
           (enumerate 0 (take 10 sorted)))))"

definition render_failed :: "Entry list \<Rightarrow> string" where
  "render_failed collectors =
     (let failed = filter (\<lambda>e. e_Status e = ''failed'') collectors in
      if failed = [] then []
      else NL # ln (''Failed collectors ('' @ nat_str (length failed) @ '') '' @ em_dash @
             '' a missing result file is one of these, not an empty table'') @
        ln (replicate 79 (CHR ''-'')) @
        concat (map (\<lambda>e. ln (''  '' @ pad_right 48 (e_Name e) @ '' ('' @ src_of e @ '')  '' @ fmtDur (e_Duration e) @ '' '' @
          em_dash @ '' '' @ e_Error e)) failed))"

definition table_cells :: "nat \<Rightarrow> Entry \<Rightarrow> string list" where
  "table_cells i e =
     [nat_str (i + 1), e_Stage e, e_Name e, src_of e, e_Status e, int_str (go_div (e_Duration e) 1000000), int_str (e_Bytes e),
      (if e_Rows e \<ge> 0 then int_str (e_Rows e) else []), swap_byte (CHR ''|'') (CHR ''/'') (e_Extra e), e_Error e]"

definition table_row :: "nat \<Rightarrow> Entry \<Rightarrow> string" where
  "table_row i e = ''| '' @ str_join '' | '' (table_cells i e) @ '' |''"

definition render_table :: "Entry list \<Rightarrow> string" where
  "render_table es =
     NL # ln ''All entries (execution order)'' @ ln (replicate 29 (CHR ''-'')) @
     ln ''| # | stage | name | source | status | duration_ms | bytes | rows | note | error |'' @
     ln ''|---|---|---|---|---|---|---|---|---|---|'' @
     concat (map (\<lambda>(i, e). ln (table_row i e)) (enumerate 0 es))"

definition render_phases :: "Phase list \<Rightarrow> string" where
  "render_phases ps =
     (if ps = [] then []
      else NL # ln ''Phases'' @ ln ''------'' @
        concat (map (\<lambda>p. ln (''  '' @ pad_right 16 (p_Name p) @ '' '' @ pad_left 10 (fmtDur (p_Duration p)) @
          (if p_Note p \<noteq> [] then ''  '' @ em_dash @ '' '' @ p_Note p else []))) ps))"

definition Render :: "Recorder \<Rightarrow> time \<Rightarrow> string" where
  "Render r now =
     (let collectors = filter (\<lambda>e. e_Stage e = ''collector'') (r_entries r) in
      render_header r now @ render_summary r @ render_expensive collectors @ render_failed collectors @
      render_table (r_entries r) @ render_phases (r_phases r) @
      NL # ln (''The archive step runs after this file is written, so its duration is not recorded here.''))"

section \<open>Redaction in gov mode\<close>

lemma group_slice: "map_of cs n = Some (a, b) \<Longrightarrow> group s cs n = slice s a b"
  by (simp add: group_def)

lemma err_code_match:
  assumes "t \<in> set (matches re_err_code st)"
  shows "\<exists>ds r. mrest st = ''Code: '' @ ds @ r \<and> ds \<noteq> [] \<and> list_all is_digit ds
    \<and> mcaps t = (1, mpos st + 6, mpos st + 6 + length ds) # mcaps st"
proof -
  let ?st = "adv 6 st"
  from assms have p: "has_prefix (mrest st) ''Code: ''"
    and t: "t \<in> set (matches (Grp 1 (plus_of (Cls is_digit))) ?st)"
    unfolding re_err_code_def seqs.simps matches.simps(3) [of "lit _"] matches_lit
    by (auto split: if_splits simp: eval_nat_numeral)
  from t obtain u where u: "u \<in> set (matches (plus_of (Cls is_digit)) ?st)" and tu: "mcaps t = (1, mpos st + 6, mpos u) # mcaps u"
    unfolding matches.simps(6) by (auto simp del: matches.simps)
  have len: "6 \<le> length (mrest st)" using p by (auto simp: has_prefix_iff)
  from u obtain d ds where d: "drop 6 (mrest st) = d # ds" "is_digit d"
    and u': "u \<in> set (matches (Star True (Cls is_digit)) (adv 1 ?st))"
    unfolding matches.simps(3) [of "Cls _"] matches_Cls
    by (cases "drop 6 (mrest st)") (auto simp del: matches.simps split: if_splits)
  from u' obtain k where k: "k \<le> length (takeWhile is_digit ds)" "u = adv k (adv 1 ?st)"
    unfolding matches_star_Cls using d by (auto simp: less_Suc_eq_le simp del: upt_Suc)
  have "list_all is_digit (take k ds)"
    using k(1) by (metis in_set_takeD list_all_iff set_takeWhileD takeWhile_eq_take take_take min.absorb1)
  moreover have "mrest st = ''Code: '' @ (d # take k ds) @ drop k ds"
    using p d by (auto simp: has_prefix_iff)
  moreover have "length (d # take k ds) = k + 1"
    using k(1) length_takeWhile_le [of is_digit ds] by simp
  ultimately show ?thesis using d(2) tu k(2)
    by (intro exI [of _ "d # take k ds"] exI [of _ "drop k ds"]) (auto simp: add.commute)
qed


text \<open>Only the error is redacted: a note in \<open>Extra\<close>, such as the reason a collector was skipped for (which can quote
  the probe's error and its host), is stored as it is.\<close>

lemma gov_keeps_extra:
  "e_Extra (last (r_entries (RecordEntry e (WithGov True r)))) = e_Extra e"
  by (simp add: RecordEntry_def WithGov_def Let_def)

section \<open>Recording\<close>

lemma swap_byte_gone: "a \<noteq> b \<Longrightarrow> a \<notin> set (swap_byte a b s)"
  by (auto simp: swap_byte_def)

lemma swap_byte_other: "x \<notin> set s \<Longrightarrow> x \<noteq> b \<Longrightarrow> x \<notin> set (swap_byte a b s)"
  by (auto simp: swap_byte_def)

text \<open>Recording appends one entry, leaves the others alone, and stores an error of at most 303 bytes on one line
  without a bar.\<close>

theorem record_appends:
  "\<exists>e2. r_entries (RecordEntry e r) = r_entries r @ [e2]
    \<and> e2 = e\<lparr>e_Error := e_Error e2\<rparr>
    \<and> length (e_Error e2) \<le> errorCap + 3 \<and> NL \<notin> set (e_Error e2) \<and> CHR ''|'' \<notin> set (e_Error e2)
    \<and> r_meta (RecordEntry e r) = r_meta r \<and> r_phases (RecordEntry e r) = r_phases r \<and> r_gov (RecordEntry e r) = r_gov r"
proof -
  define f where "f t = swap_byte (CHR ''|'') (CHR ''/'') (swap_byte NL (CHR '' '') (cap_error t))" for t
  have "length (f t) \<le> errorCap + 3 \<and> NL \<notin> set (f t) \<and> CHR ''|'' \<notin> set (f t)" for t
    unfolding f_def
    by (intro conjI swap_byte_gone swap_byte_other) (auto simp: swap_byte_def cap_error_def errorCap_def dots_def NL_def)
  then show ?thesis
    by (intro exI [of _ "last (r_entries (RecordEntry e r))"])
      (auto simp: RecordEntry_def Let_def f_def [symmetric])
qed

text \<open>A row of the table of all entries reads back, cell by cell, as the entry it was written from. (The
  hypothesis: stage, name, source and status hold no bar, and the error is one that was recorded.)\<close>

theorem table_row_reads_back:
  assumes "CHR ''|'' \<notin> set (e_Stage e @ e_Name e @ e_Source e @ e_Status e @ e_Error e)"
  shows "split_byte (CHR ''|'') (table_row i e) =
    [] # map (\<lambda>c. '' '' @ c @ '' '') (table_cells i e) @ [[]]"
proof -
  let ?b = "CHR ''|''"
  have num1: "?b \<notin> set (nat_str n)" for n
    using digits_nat_str [of n] by (force simp: list_all_iff)
  have num: "?b \<notin> set (int_str k)" for k
    using num1 [of "nat k"] num1 [of "nat (- k)"] by (simp add: int_str_def)
  have cells: "\<forall>c\<in>set (table_cells i e). ?b \<notin> set c"
    using assms num num1 swap_byte_gone [of ?b "CHR ''/''" "e_Extra e"]
    by (auto simp: table_cells_def src_of_def)
  have row: "split_byte ?b ('' '' @ str_join '' | '' cs @ '' |'') = map (\<lambda>c. '' '' @ c @ '' '') cs @ [[]]"
    if "cs \<noteq> []" "\<forall>c\<in>set cs. ?b \<notin> set c" for cs
    using that
  proof (induction cs)
    case (Cons c cs)
    have app: "split_byte ?b (('' '' @ c @ '' '') @ ?b # t) = ('' '' @ c @ '' '') # split_byte ?b t" for t
      using Cons.prems by (intro split_byte_append) auto
    show ?case
    proof (cases "cs = []")
      case True
      then show ?thesis using app [of "[]"] by simp
    next
      case False
      then have "'' '' @ str_join '' | '' (c # cs) @ '' |'' = ('' '' @ c @ '' '') @ ?b # '' '' @ str_join '' | '' cs @ '' |''"
        by (simp add: str_join_Cons)
      with app Cons False show ?thesis by simp
    qed
  qed simp
  have "table_row i e = ?b # '' '' @ str_join '' | '' (table_cells i e) @ '' |''" by (simp add: table_row_def)
  moreover have "table_cells i e \<noteq> []" by (simp add: table_cells_def)
  ultimately show ?thesis using row [OF _ cells] by simp
qed

theorem table_row_reads_back_witness:
  "split_byte (CHR ''|'') (table_row 0 \<lparr>e_Stage = ''collector'', e_Name = ''a.sql'', e_Source = [], e_Status = ''ok'',
     e_Duration = 5, e_Bytes = 2, e_Rows = - 1, e_Extra = ''x|y'', e_Error = []\<rparr>) ! 9 = '' x/y ''"
  by (subst table_row_reads_back) (simp_all add: table_cells_def swap_byte_def)

end
