(* ===== verification/CollectSetup.thy ===== *)
theory CollectSetup
  imports CollectMode RunLog "HOL-Library.Sublist"
begin

text \<open>
  How the command sets a collection up (\<open>cmd/collect_mode.go\<close>): the probe and the watchdog the collectors
  run under, the settings that make an essential run gentle, and what the bundle says about it.
\<close>

definition gentleSettings :: "(string \<times> string) list" where
  "gentleSettings = [(''max_threads'', ''2''), (''max_memory_usage'', ''1073741824''), (''priority'', ''10'')]"

text \<open>\<open>ping\<close> and \<open>metrics\<close> are the durations the probe measures.\<close>

definition setupCollection :: "(string \<Rightarrow> string + string) \<Rightarrow> duration \<Rightarrow> duration \<Rightarrow> Mode \<Rightarrow> duration \<Rightarrow> bool
    \<Rightarrow> Decision \<times> Watchdog" where
  "setupCollection run ping metrics requested budget dryRun =
     (let d = (if dryRun then Decide requested no_signals None
               else case Probe run ping metrics of (s, err) \<Rightarrow> Decide requested s err)
      in if requested = Full then (d, Locked (NewWatchdog budget))
         else (d, WithTripBudget EssentialBudget (NewWatchdog budget)))"

definition accepts :: "transport \<Rightarrow> ClickHouseClient \<Rightarrow> bool" where
  "accepts http c = (case fst (ExecuteQueryReal http c ''SELECT 1'') of Inl _ \<Rightarrow> False | Inr _ \<Rightarrow> True)"

text \<open>One turn of the loop over the gentle settings, on the client, the settings kept and those refused.\<close>

definition gentle_step :: "transport \<Rightarrow> string \<times> string
    \<Rightarrow> ClickHouseClient \<times> string list \<times> string list \<Rightarrow> ClickHouseClient \<times> string list \<times> string list" where
  "gentle_step http s st = (case st of (c, kept, refused) \<Rightarrow>
     let c = SetSetting (fst s) (snd s) c in
     if \<not> accepts http c then (RemoveSetting (fst s) c, kept, refused @ [fst s])
     else (c, kept @ [fst s @ ''='' @ snd s], refused))"

definition gentle_base :: "bool \<Rightarrow> ClickHouseClient \<Rightarrow> ClickHouseClient" where
  "gentle_base timeoutExplicit c =
     (let c = SetClientMargin (5 * Second) c in
      if \<not> timeoutExplicit then SetQueryTimeout EssentialQueryTimeout c else c)"

definition applyEssential :: "transport \<Rightarrow> ClickHouseClient \<Rightarrow> bool \<Rightarrow> ClickHouseClient \<times> string list" where
  "applyEssential http c0 timeoutExplicit =
     (let notes = (if \<not> timeoutExplicit then [''query timeout '' @ dur_string EssentialQueryTimeout] else [])
      in case fold (gentle_step http) gentleSettings (gentle_base timeoutExplicit c0, [], []) of (c, kept, refused) \<Rightarrow>
        (c, notes @ (if length kept > 0 then [str_join '', '' kept] else [])
          @ (if length refused > 0 then [''refused by the settings profile, left out: '' @ str_join '', '' refused] else [])))"

text \<open>What \<open>applyEssential\<close> sends: one probe for each of the gentle settings.\<close>

primrec gentle_fx :: "transport \<Rightarrow> (string \<times> string) list \<Rightarrow> ClickHouseClient \<Rightarrow> http_request effect list" where
  "gentle_fx http [] c = []"
| "gentle_fx http (g # gs) c =
     snd (ExecuteQueryReal http (SetSetting (fst g) (snd g) c) ''SELECT 1'') @ gentle_fx http gs (fst (gentle_step http g (c, [], [])))"

definition essential_fx :: "transport \<Rightarrow> ClickHouseClient \<Rightarrow> bool \<Rightarrow> http_request effect list" where
  "essential_fx http c timeoutExplicit = gentle_fx http gentleSettings (gentle_base timeoutExplicit c)"

definition collectKind :: "Watchdog option \<Rightarrow> string" where
  "collectKind w = (if fst (Tripped w) then ''essential'' else ''full'')"

definition skippedCollectors :: "Recorder \<Rightarrow> string list" where
  "skippedCollectors r =
     map (\<lambda>e. trim_suffix (e_Name e) ''.sql'')
       (filter (\<lambda>e. e_Stage e = ''collector'' \<and> e_Status e = ''skipped'') (r_entries r))"

lemma gentle_fx_sent: "e \<in> set (gentle_fx http gs c) \<Longrightarrow> \<exists>r. e = Sent r \<and> q_body r = ''SELECT 1''"
  by (induction gs arbitrary: c) (auto simp: ExecuteQueryReal_def executeReal_def executeWith_def Let_def)

lemma essential_fx_sent: "e \<in> set (essential_fx http c te) \<Longrightarrow> \<exists>r. e = Sent r \<and> q_body r = ''SELECT 1''"
  unfolding essential_fx_def by (rule gentle_fx_sent)

section \<open>What an essential run leaves the client with\<close>

lemma set_setting_new: "name \<notin> fst ` set l \<Longrightarrow> set_setting name v l = l @ [(name, v)]"
  by (induction l) auto

lemma remove_setting_last: "name \<notin> fst ` set l \<Longrightarrow> remove_setting name (l @ [(name, v)]) = l"
  by (induction l) auto

lemma gentle_step_settings:
  assumes "n \<notin> fst ` set (c_settings c)"
  shows "fst (gentle_step http (n, v) (c, kept, refused)) =
    (if accepts http (SetSetting n v c) then SetSetting n v c else c)"
    "accepts http (SetSetting n v c) \<Longrightarrow> c_settings (fst (gentle_step http (n, v) (c, kept, refused))) = c_settings c @ [(n, v)]"
  using assms
  by (simp_all add: gentle_step_def Let_def SetSetting_def RemoveSetting_def set_setting_new remove_setting_last)

lemma gentle_fold:
  assumes "distinct (map fst ss)" "fst ` set ss \<inter> fst ` set (c_settings c) = {}" "accepts http c"
    and "fold (gentle_step http) ss (c, kept, refused) = (c', kept', refused')"
  shows "accepts http c' \<and> (\<exists>xs. subseq xs ss \<and> c_settings c' = c_settings c @ xs)
    \<and> c_httpTimeout c' = c_httpTimeout c \<and> c_queryTimeout c' = c_queryTimeout c \<and> c_margin c' = c_margin c"
  using assms
proof (induction ss arbitrary: c kept refused)
  case (Cons s ss)
  obtain n v where s: "s = (n, v)" by (cases s)
  obtain c1 k1 r1 where st: "gentle_step http (n, v) (c, kept, refused) = (c1, k1, r1)"
    by (cases "gentle_step http (n, v) (c, kept, refused)") auto
  have new: "n \<notin> fst ` set (c_settings c)" using Cons.prems(2) s by auto
  note step = gentle_step_settings [OF new, of http v kept refused, unfolded st fst_conv]
  have fold1: "fold (gentle_step http) ss (c1, k1, r1) = (c', kept', refused')"
    using Cons.prems(4) s st by simp
  show ?case
  proof (cases "accepts http (SetSetting n v c)")
    case True
    with step have c1: "c1 = SetSetting n v c" "c_settings c1 = c_settings c @ [(n, v)]" by auto
    have "fst ` set ss \<inter> fst ` set (c_settings c1) = {}" using Cons.prems(1,2) c1(2) s by auto
    with Cons.IH [OF _ this _ fold1] Cons.prems(1) True c1 s obtain xs where
      "accepts http c'" "subseq xs ss" "c_settings c' = c_settings c @ (n, v) # xs"
      "c_httpTimeout c' = c_httpTimeout c1" "c_queryTimeout c' = c_queryTimeout c1" "c_margin c' = c_margin c1" by auto
    then show ?thesis using s c1(1) by (auto simp: SetSetting_def intro!: exI [of _ "(n, v) # xs"])
  next
    case False
    with step have "c1 = c" by simp
    with Cons.IH [of c k1 r1] Cons.prems fold1 s show ?thesis by (auto intro: list_emb_Cons)
  qed
qed (auto)



end
