(* ===== verification/Heuristics.thy ===== *)
theory Heuristics
  imports GoRegexp
begin

text \<open>
  The byte-shape heuristics that remove credentials from text (\<open>internal/collection/heuristics.go\<close>): an ordered
  list of patterns, of which three keep what surrounds the secret, and the names that mark a value as secret.
\<close>

definition redacted :: string where "redacted = ''REMOVED''"

section \<open>The patterns\<close>

definition upper_or_digit :: "char \<Rightarrow> bool" where
  "upper_or_digit c \<longleftrightarrow> is_upper c \<or> is_digit c"

definition pem_label :: re where
  "pem_label = seqs [any_star (Cls (\<lambda>c. upper_or_digit c \<or> c = CHR '' '')), lit ''PRIVATE KEY-----'']"

definition re_pem :: re where
  "re_pem = seqs [lit ''-----BEGIN '', pem_label, lazy_star (Cls (\<lambda>_. True)), lit ''-----END '', pem_label]"

definition scheme_char :: "char \<Rightarrow> bool" where
  "scheme_char c \<longleftrightarrow> is_alnum c \<or> c = CHR ''+'' \<or> c = CHR ''.'' \<or> c = CHR ''-''"

definition re_url_basic_auth :: re where
  "re_url_basic_auth = seqs
     [Grp 1 (seqs [Cls is_alpha, any_star (Cls scheme_char), lit ''://'',
        plus_of (Cls (\<lambda>c. c \<noteq> CHR '':'' \<and> c \<noteq> CHR ''@'' \<and> c \<noteq> CHR ''/'' \<and> \<not> re_space c)), lit '':'']),
      plus_of (Cls (\<lambda>c. c \<noteq> CHR ''@'' \<and> \<not> re_space c)), Grp 2 (lit ''@'')]"

definition re_akia :: re where
  "re_akia = seqs [WordB, lit ''AKIA'', times 16 (Cls upper_or_digit), WordB]"

definition re_asia :: re where
  "re_asia = seqs [WordB, lit ''ASIA'', times 16 (Cls upper_or_digit), WordB]"

definition b64url :: "char \<Rightarrow> bool" where
  "b64url c \<longleftrightarrow> re_word c \<or> c = CHR ''-''"

definition re_jwt :: re where
  "re_jwt = seqs [WordB, lit ''eyJ'', plus_of (Cls b64url), lit ''.'', plus_of (Cls b64url), lit ''.'', plus_of (Cls b64url), WordB]"

definition re_bcrypt :: re where
  "re_bcrypt = seqs [lit ''$2'', Cls (\<lambda>c. c \<in> {CHR ''a'', CHR ''b'', CHR ''x'', CHR ''y''}), lit ''$'', times 2 (Cls is_digit),
     lit ''$'', times 53 (Cls (\<lambda>c. is_alnum c \<or> c = CHR ''.'' \<or> c = CHR ''/''))]"

definition hex_char :: "char \<Rightarrow> bool" where
  "hex_char c \<longleftrightarrow> is_digit c \<or> in_range 97 102 c \<or> in_range 65 70 c"

definition re_long_hex :: re where
  "re_long_hex = seqs [WordB, times 40 (Cls hex_char), any_star (Cls hex_char), WordB]"

definition b64_char :: "char \<Rightarrow> bool" where
  "b64_char c \<longleftrightarrow> is_alnum c \<or> c = CHR ''+'' \<or> c = CHR ''/''"

definition re_long_base64 :: re where
  "re_long_base64 = seqs [WordB, times 128 (Cls b64_char), any_star (Cls b64_char), upto_n 2 (lit ''='')]"

definition sep_char :: "char \<Rightarrow> bool" where
  "sep_char c \<longleftrightarrow> c = CHR ''_'' \<or> c = CHR ''-''"

definition re_keyword :: re where
  "re_keyword = alts [ilit ''password'', ilit ''passwd'', ilit ''secret'', ilit ''token'',
     seqs [ilit ''api'', opt_of (Cls sep_char), ilit ''key''], seqs [ilit ''access'', opt_of (Cls sep_char), ilit ''key''],
     seqs [ilit ''private'', opt_of (Cls sep_char), ilit ''key''], ilit ''credential'']"

definition is_quote :: "char \<Rightarrow> bool" where
  "is_quote c \<longleftrightarrow> c = QUOTE \<or> c = DQUOTE"

definition re_quoted_value :: re where
  "re_quoted_value = seqs [Cls is_quote, plus_of (Cls (\<lambda>c. \<not> is_quote c \<and> c \<noteq> NL)), Cls is_quote]"

text \<open>The two keyword patterns: with \<open>:\<close> or \<open>=\<close> and any value, or with blanks and a quoted value.\<close>

definition re_keyword_value :: "bool \<Rightarrow> re" where
  "re_keyword_value eq =
     (if eq then seqs [Grp 1 re_keyword, opt_of (ilit ''s''),
        Grp 2 (seqs [any_star (Cls re_space), Cls (\<lambda>c. c = CHR '':'' \<or> c = CHR ''=''), any_star (Cls re_space)]),
        Grp 3 (Alt re_quoted_value (plus_of (Cls (\<lambda>c. \<not> re_space c))))]
      else seqs [Grp 1 re_keyword, opt_of (ilit ''s''), Grp 2 (plus_of (Cls re_space)), Grp 3 re_quoted_value])"

datatype credential_pattern = UrlBasicAuth | KeywordValue bool | Whole re

definition credential_patterns :: "credential_pattern list" where
  "credential_patterns = [Whole re_pem, UrlBasicAuth, Whole re_akia, Whole re_asia, Whole re_jwt, Whole re_bcrypt,
     Whole re_long_hex, Whole re_long_base64, KeywordValue True, KeywordValue False]"

section \<open>Keyword values\<close>

text \<open>\<open>quotedLiteralEnd\<close>, from the opening quote on: how many bytes the literal has.\<close>

fun literal_body :: "char \<Rightarrow> string \<Rightarrow> nat option" where
  "literal_body q [] = None"
| "literal_body q [c] = (if c = BSLASH then None else if c = q then Some 1 else None)"
| "literal_body q (c # d # cs) =
     (if c = BSLASH then map_option (\<lambda>n. n + 2) (literal_body q cs)
      else if c = q then (if d = q then map_option (\<lambda>n. n + 2) (literal_body q cs) else Some 1)
      else map_option Suc (literal_body q (d # cs)))"

definition quotedLiteralEnd :: "string \<Rightarrow> nat option" where
  "quotedLiteralEnd t = (case t of [] \<Rightarrow> None | q # cs \<Rightarrow> map_option Suc (literal_body q cs))"

lemma literal_body_bounds: "literal_body q s = Some n \<Longrightarrow> 0 < n \<and> n \<le> length s"
  by (induction q s arbitrary: n rule: literal_body.induct) (auto split: if_splits)

lemma quotedLiteralEnd_bounds: "quotedLiteralEnd t = Some n \<Longrightarrow> 1 < n \<and> n \<le> length t"
  by (auto simp: quotedLiteralEnd_def dest: literal_body_bounds split: list.splits)

text \<open>The span of the value, group 3, in a match of one of the keyword patterns.\<close>

definition value_span :: "bool \<Rightarrow> string \<Rightarrow> (nat \<times> nat) option" where
  "value_span eq s = (case re_find (re_keyword_value eq) s of
     None \<Rightarrow> None | Some (_, _, cs) \<Rightarrow> map_of cs 3)"

lemma Cls_first: "t \<in> set (matches (Seq (Cls p) r) st) \<Longrightarrow> mpos st < mpos t"
proof -
  assume "t \<in> set (matches (Seq (Cls p) r) st)"
  then obtain c cs where "mrest st = c # cs" and t: "t \<in> set (matches r (adv 1 st))"
    unfolding matches.simps(3) matches_Cls by (cases "mrest st") (auto split: if_splits)
  from matches_consumed [OF t] show ?thesis by (auto simp: consumed_def)
qed

lemma value_nonempty:
  assumes "t \<in> set (matches (Alt re_quoted_value (plus_of (Cls p))) st) \<or> t \<in> set (matches re_quoted_value st)"
  shows "mpos st < mpos t"
  using assms unfolding re_quoted_value_def seqs.simps matches.simps(4) by (auto simp del: matches.simps dest: Cls_first)

lemma Grp_last_span:
  assumes "t \<in> set (matches (Seq a (Seq b (Seq c (Grp n r)))) st)"
    and "\<And>st t. t \<in> set (matches r st) \<Longrightarrow> mpos st < mpos t"
  shows "\<exists>u. map_of (mcaps t) n = Some (mpos u, mpos t) \<and> mpos st \<le> mpos u \<and> mpos u < mpos t"
proof -
  from assms(1) obtain u v where u: "u \<in> set (matches (Seq a (Seq b c)) st)" and v: "v \<in> set (matches r u)"
    and t: "mpos t = mpos v" "mcaps t = (n, mpos u, mpos v) # mcaps v"
    by fastforce
  from matches_consumed [OF u] have "mpos st \<le> mpos u" by (auto simp: consumed_def)
  with assms(2) [OF v] t show ?thesis by auto
qed

lemma value_span_bounds:
  assumes "value_span eq s = Some (a, b)"
  shows "a < b \<and> b \<le> length s"
proof -
  from assms obtain i j cs where f: "re_find (re_keyword_value eq) s = Some (i, j, cs)" and g: "map_of cs 3 = Some (a, b)"
    by (auto simp: value_span_def split: option.splits)
  from find_from_Some [OF f [unfolded re_find_def]] obtain k t where k: "k \<le> length s" "cs = mcaps t"
    and m: "t \<in> set (matches (re_keyword_value eq) (M i (if k = 0 then None else Some (s ! (k - 1))) (drop k s) []))"
    and i: "i = k"
    by (auto dest: first_match_in)
  obtain p c where r: "re_keyword_value eq = Seq (Grp 1 re_keyword) (Seq (opt_of (ilit ''s'')) (Seq c (Grp 3 p)))"
    and p: "\<And>st t. t \<in> set (matches p st) \<Longrightarrow> mpos st < mpos t"
    unfolding re_keyword_value_def seqs.simps
    by (cases eq) (use value_nonempty in \<open>simp_all del: matches.simps, blast+\<close>)
  from Grp_last_span [OF m [unfolded r] p] obtain u where
    "map_of cs 3 = Some (mpos u, mpos t)" "mpos u < mpos t" using k by auto
  moreover from matches_consumed [OF m] have "mpos t \<le> length s" using k i by (auto simp: consumed_def)
  ultimately show ?thesis using g by auto
qed

text \<open>\<open>replaceKeywordValues\<close>: the text is searched again from where the last value ended.\<close>

function replaceKeywordValues :: "bool \<Rightarrow> string \<Rightarrow> string \<Rightarrow> string \<Rightarrow> string \<times> nat" where
  "replaceKeywordValues eq quotedToken token s =
     (case value_span eq s of
        None \<Rightarrow> (s, 0)
      | Some (vStart, vEnd) \<Rightarrow>
          let v = slice s vStart vEnd in
          if v = quotedToken \<or> v = token then
            (case replaceKeywordValues eq quotedToken token (drop vEnd s) of (out, n) \<Rightarrow> (take vStart s @ v @ out, n))
          else if is_quote (s ! vStart) then
            (let end = (case quotedLiteralEnd (drop vStart s) of Some k \<Rightarrow> vStart + k | None \<Rightarrow> vEnd)
             in case replaceKeywordValues eq quotedToken token (drop end s) of (out, n) \<Rightarrow> (take vStart s @ quotedToken @ out, Suc n))
          else
            (case replaceKeywordValues eq quotedToken token (drop vEnd s) of (out, n) \<Rightarrow> (take vStart s @ token @ out, Suc n)))"
  by pat_completeness auto
termination
  by (relation "measure (\<lambda>(_, _, _, s). length s)")
    (auto dest!: value_span_bounds [OF sym] value_span_bounds quotedLiteralEnd_bounds split: option.splits)

declare replaceKeywordValues.simps [simp del]

section \<open>All heuristics\<close>

definition url_repl :: "string \<Rightarrow> string \<Rightarrow> string \<times> nat" where
  "url_repl token m = (case re_find re_url_basic_auth m of
     Some (_, _, cs) \<Rightarrow> (group m cs 1 @ token @ group m cs 2, 1)
   | None \<Rightarrow> (m, 0))"

fun apply_pattern :: "string \<Rightarrow> string \<Rightarrow> credential_pattern \<Rightarrow> string \<Rightarrow> string \<times> nat" where
  "apply_pattern quotedToken token UrlBasicAuth s = replace_count re_url_basic_auth (url_repl token) s"
| "apply_pattern quotedToken token (KeywordValue eq) s = replaceKeywordValues eq quotedToken token s"
| "apply_pattern quotedToken token (Whole r) s = replace_count r (\<lambda>_. (token, 1)) s"

fun apply_patterns :: "string \<Rightarrow> string \<Rightarrow> credential_pattern list \<Rightarrow> string \<Rightarrow> string \<times> nat" where
  "apply_patterns quotedToken token [] s = (s, 0)"
| "apply_patterns quotedToken token (p # ps) s =
     (case apply_pattern quotedToken token p s of (s1, n) \<Rightarrow>
       (case apply_patterns quotedToken token ps s1 of (s2, m) \<Rightarrow> (s2, n + m)))"

definition redactHeuristicsWith :: "string \<Rightarrow> string \<Rightarrow> string \<Rightarrow> string \<times> nat" where
  "redactHeuristicsWith s quotedToken token = apply_patterns quotedToken token credential_patterns s"

definition RedactCredentialsInText :: "string \<Rightarrow> string \<times> nat" where
  "RedactCredentialsInText s = redactHeuristicsWith s redacted redacted"

section \<open>Sensitive names\<close>

definition sensitive_exact_names :: "string list" where
  "sensitive_exact_names = [''client_id'', ''tenant_id'', ''account_name'', ''storage_account_url'', ''role_arn'',
     ''role_session_name'', ''session_token'', ''connection_string'', ''account_key'']"

definition sensitive_fragments :: "string list" where
  "sensitive_fragments = [''password'', ''passwd'', ''secret'', ''credential'', ''token'', ''private_key'', ''privatekey'',
     ''api_key'', ''apikey'', ''access_key'', ''accesskey'', ''service_account'']"

definition isSensitiveName :: "string \<Rightarrow> bool" where
  "isSensitiveName name =
     (let n = to_lower name in
      n \<in> set sensitive_exact_names \<or> list_ex (\<lambda>frag. contains n frag) sensitive_fragments)"

section \<open>Redactors\<close>

text \<open>
  What the callers of a redactor rely on: the count of replacements is zero only if the text means the
  same as before (\<open>same\<close>), so a caller may skip the rewrite, and chaining redactors adds their counts.
\<close>

locale redactor =
  fixes redact :: "string \<Rightarrow> string \<times> nat"
    and same :: "string \<Rightarrow> string \<Rightarrow> bool"
  assumes same_refl: "same s s"
    and same_trans: "same s t \<Longrightarrow> same t u \<Longrightarrow> same s u"
    and zero_same: "redact s = (t, 0) \<Longrightarrow> same s t"
begin

text \<open>A redactor applied piece by piece, as the loops over lines and fields do.\<close>

definition pieces :: "string list \<Rightarrow> string list \<times> nat" where
  "pieces xs = (map (\<lambda>x. fst (redact x)) xs, sum_list (map (\<lambda>x. snd (redact x)) xs))"

lemma pieces_zero: "pieces xs = (ys, 0) \<Longrightarrow> list_all2 same xs ys"
proof (induction xs arbitrary: ys)
  case (Cons x xs)
  then have "snd (redact x) = 0" "pieces xs = (tl ys, 0)" "ys = fst (redact x) # tl ys"
    by (auto simp: pieces_def)
  with Cons.IH [of "tl ys"] zero_same [of x "fst (redact x)"] show ?case
    by (metis list.rel_intros(2) prod.collapse)
qed (simp add: pieces_def)

lemma then_zero:
  assumes "\<And>s t. redact2 s = (t, 0) \<Longrightarrow> same s t" "redact s = (t, n)" "redact2 t = (u, m)" "n + m = (0::nat)"
  shows "same s u"
  using assms zero_same same_trans by (metis add_is_0)

end

lemma replaceKeywordValues_zero:
  "replaceKeywordValues eq qt tok s = (t, n) \<Longrightarrow> n = 0 \<Longrightarrow> t = s"
proof (induction eq qt tok s arbitrary: t n rule: replaceKeywordValues.induct)
  case (1 eq qt tok s)
  show ?case
  proof (cases "value_span eq s")
    case None
    with 1 show ?thesis by (simp add: replaceKeywordValues.simps)
  next
    case (Some sp)
    obtain a b where sp: "sp = (a, b)" by (cases sp)
    let ?v = "slice s a b"
    have keep: "?v = qt \<or> ?v = tok"
      using 1(4,5) Some sp by (subst (asm) replaceKeywordValues.simps) (auto simp: Let_def split: if_splits prod.splits)
    obtain out m where rec: "replaceKeywordValues eq qt tok (drop b s) = (out, m)"
      by (cases "replaceKeywordValues eq qt tok (drop b s)")
    from 1(4) Some sp keep rec have t: "t = take a s @ ?v @ out" "n = m"
      by (subst (asm) replaceKeywordValues.simps; auto simp: Let_def)+
    from 1(1) [OF Some sp [symmetric] refl keep rec] 1(5) t(2) have "out = drop b s" by simp
    moreover have "a \<le> b" using value_span_bounds [of eq s a b] Some sp by simp
    ultimately show ?thesis
      using t(1) take_drop_split [of a b s] by (simp add: slice_def append_assoc [symmetric])
  qed
qed

lemma apply_pattern_zero: "apply_pattern qt tok p s = (t, 0) \<Longrightarrow> t = s"
proof (cases p)
  case UrlBasicAuth
  have "snd (url_repl tok m) = 0 \<Longrightarrow> fst (url_repl tok m) = m" for m
    by (auto simp: url_repl_def split: option.splits)
  then show "apply_pattern qt tok p s = (t, 0) \<Longrightarrow> t = s"
    using replace_count0 [of "url_repl tok" re_url_basic_auth s] UrlBasicAuth by simp
next
  case (KeywordValue eq)
  then show "apply_pattern qt tok p s = (t, 0) \<Longrightarrow> t = s" by (simp add: replaceKeywordValues_zero)
next
  case (Whole r)
  then show "apply_pattern qt tok p s = (t, 0) \<Longrightarrow> t = s"
    using replace_count0 [of "\<lambda>_. (tok, 1)" r s] by simp
qed

lemma apply_patterns_zero: "apply_patterns qt tok ps s = (t, 0) \<Longrightarrow> t = s"
  by (induction qt tok ps s arbitrary: t rule: apply_patterns.induct)
    (auto split: prod.splits dest: apply_pattern_zero)

lemma redactHeuristicsWith_zero: "redactHeuristicsWith s qt tok = (t, 0) \<Longrightarrow> t = s"
  by (simp add: redactHeuristicsWith_def apply_patterns_zero)

interpretation heur: redactor RedactCredentialsInText "(=)"
  by unfold_locales (auto simp: RedactCredentialsInText_def dest: redactHeuristicsWith_zero)

section \<open>A quoted value is hidden to its end\<close>

lemma match_k_ilit: "to_lower (take (length p) (mrest st)) = to_lower p \<Longrightarrow> match_k (ilit p) st k = k (adv (length p) st)"
  by (simp add: match_k_matches matches_ilit split: option.splits)

lemma ilit_s_miss: "mrest st = c # cs \<Longrightarrow> lower_char c \<noteq> CHR ''s'' \<Longrightarrow> match_k (opt_of (ilit ''s'')) st k = k st"
  by (simp add: lower_char_def)

lemma value_match:
  assumes "mrest st = c # cs" "is_quote c"
  shows "\<exists>t. match_k (Grp 3 (Alt re_quoted_value (plus_of (Cls (\<lambda>c. \<not> re_space c))))) st Some = Some t
    \<and> mcaps t = (3, mpos st, mpos t) # mcaps st"
proof -
  let ?r = "Alt re_quoted_value (plus_of (Cls (\<lambda>c. \<not> re_space c)))"
  have nospace: "\<not> re_space c" using assms(2) by (auto simp: is_quote_def re_space_def QUOTE_def DQUOTE_def TAB_def NL_def CR_def)
  have caps: "mcaps u = mcaps st" if "u \<in> set (matches r st)" "r \<in> {?r}" for u r
  proof -
    have star: "mcaps x = mcaps s" if "x \<in> set (matches (Star True (Cls p)) s)" for x s p
      using that unfolding matches_star_Cls by auto
    have cls: "mcaps x = mcaps s" if "x \<in> set (matches (Cls p) s)" for x s p
      using that unfolding matches_Cls by (auto split: list.splits if_splits)
    show ?thesis
      using that unfolding re_quoted_value_def seqs.simps
      by (auto simp del: matches.simps(1,5) dest!: star cls)
  qed
  have "matches (Star True (Cls (\<lambda>c. \<not> re_space c))) (adv 1 st) \<noteq> []"
    unfolding matches_star_Cls by simp
  then have "matches (plus_of (Cls (\<lambda>c. \<not> re_space c))) st \<noteq> []"
    unfolding matches.simps(3) matches_Cls assms(1) using nospace by simp
  then have "matches ?r st \<noteq> []" unfolding matches.simps(4) by simp
  then obtain u us where u: "matches ?r st = u # us" by (meson neq_Nil_conv)
  have "match_k (Grp 3 ?r) st Some = Some (M (mpos u) (mprev u) (mrest u) ((3, mpos st, mpos u) # mcaps u))"
    unfolding match_k.simps(6) unfolding match_k_matches u by simp
  moreover have "mcaps u = mcaps st" using caps [of u ?r] u by (metis list.set_intros(1) singletonI)
  ultimately show ?thesis by (metis mst.sel(1,4))
qed

lemma value_span_password:
  assumes "rest = c # cs" "is_quote c"
  shows "\<exists>b. value_span True (''password = '' @ rest) = Some (11, b)"
proof -
  let ?st = "M 0 None (''password = '' @ rest) []"
  let ?V = "Grp 3 (Alt re_quoted_value (plus_of (Cls (\<lambda>c. \<not> re_space c))))"
  let ?g = "[(2, 8, 11), (1, 0, 8)]"
  have sp: "\<not> re_space c" using assms(2) by (auto simp: is_quote_def re_space_def QUOTE_def DQUOTE_def TAB_def NL_def CR_def)
  obtain t where V: "match_k ?V (M 11 (Some CHR '' '') rest ?g) Some = Some t" "mcaps t = (3, 11, mpos t) # ?g"
    using value_match [of "M 11 (Some CHR '' '') rest ?g" c cs] assms by auto
  have blank: "match_k (any_star (Cls re_space)) (M i pv (CHR '' '' # x # xs) g) k = Some t"
    if "\<not> re_space x" "k (M (Suc i) (Some CHR '' '') (x # xs) g) = Some t" for i pv x xs g k
    using that by (intro star_Cls_longest) (simp add: re_space_def adv_def)
  have conn: "match_k (Grp 2 (seqs [any_star (Cls re_space), Cls (\<lambda>c. c = CHR '':'' \<or> c = CHR ''=''), any_star (Cls re_space)]))
      (M 8 (Some CHR ''d'') ('' = '' @ rest) [(1, 0, 8)]) k = Some t"
    if k: "k (M 11 (Some CHR '' '') rest ?g) = Some t" for k
    unfolding match_k.simps(6) seqs.simps match_k.simps(3) append_Cons append_Nil
    by (rule blank) (use k sp assms(1) in \<open>simp_all add: re_space_def TAB_def NL_def CR_def blank
      del: match_k.simps(5)\<close>)
  have kw: "match_k (Grp 1 re_keyword) ?st k = Some t"
    if "k (M 8 (Some CHR ''d'') ('' = '' @ rest) [(1, 0, 8)]) = Some t" for k
    using that unfolding re_keyword_def alts.simps match_k.simps(6) match_k.simps(4)
    by (subst match_k_ilit [of "''password''"]) (simp_all add: to_lower_def adv_def eval_nat_numeral)
  have plural: "match_k (opt_of (ilit ''s'')) (M 8 pv (CHR '' '' # xs) g) k = k (M 8 pv (CHR '' '' # xs) g)" for pv xs g k
    by (rule ilit_s_miss [of _ "CHR '' ''" xs]) (simp, code_simp)
  have "match_k (re_keyword_value True) ?st Some = Some t"
    unfolding re_keyword_value_def if_True seqs.simps(3) [of "Grp 1 re_keyword"] seqs.simps(3) [of "opt_of (ilit ''s'')"]
      seqs.simps(3) [of "Grp 2 _"] seqs.simps(2) match_k.simps(3) [of "Grp 1 re_keyword"]
    by (rule kw) (use conn [of "\<lambda>u. match_k ?V u Some", OF V(1)] in \<open>simp only: match_k.simps(3) [of "opt_of _"] match_k.simps(3) [of "Grp 2 _"] plural append_Cons\<close>)
  then have "first_match (re_keyword_value True) ?st = Some t" by (simp only: first_match_def)
  then have "re_find (re_keyword_value True) (''password = '' @ rest) = Some (0, mpos t, mcaps t)"
    by (simp add: re_find_def)
  with V(2) show ?thesis by (simp add: value_span_def)
qed



end
