(* ===== verification/SqlRedact.thy ===== *)
theory SqlRedact
  imports Heuristics
begin

text \<open>
  The removal of credentials from SQL and engine text (\<open>internal/collection/sqlredact.go\<close>): the scanners that
  step over quoted text and comments, the rules that name the secret arguments of an engine call, and the
  rewriting of one JSON field of a line. The code scans with indices into one string; here a scanner takes
  the text that is left and returns the text after what it read, so an index is a length.
\<close>

section \<open>Regions that hold no code\<close>

text \<open>The text after a quoted literal, from the byte after its opening quote: a backslash hides the next
  byte, a doubled quote stays inside, and a literal that never closes runs to the end.\<close>

fun skip_quoted :: "char \<Rightarrow> string \<Rightarrow> string" where
  "skip_quoted q [] = []"
| "skip_quoted q (c # cs) =
     (if c = BSLASH then skip_quoted q (drop 1 cs)
      else if c = q then (case cs of [] \<Rightarrow> [] | d # ds \<Rightarrow> if d = q then skip_quoted q ds else cs)
      else skip_quoted q cs)"

definition skipNonCode :: "string \<Rightarrow> string option" where
  "skipNonCode s = (case s of [] \<Rightarrow> None | c # cs \<Rightarrow>
     if c = BTICK \<or> c = DQUOTE then Some (skip_quoted c cs)
     else if c = CHR ''-'' \<and> next_char cs = Some (CHR ''-'') then
       Some (case index_byte s NL of Some k \<Rightarrow> drop (Suc k) s | None \<Rightarrow> [])
     else if c = CHR ''/'' \<and> next_char cs = Some (CHR ''*'') then
       Some (case str_index (drop 2 s) ''*/'' of Some k \<Rightarrow> drop (k + 4) s | None \<Rightarrow> [])
     else None)"

text \<open>What every scanner steps over: such a region, or a single-quoted literal.\<close>

definition skip_region :: "string \<Rightarrow> string option" where
  "skip_region s = (case skipNonCode s of Some r \<Rightarrow> Some r
     | None \<Rightarrow> (if next_char s = Some QUOTE then Some (skip_quoted QUOTE (drop 1 s)) else None))"

lemma skip_quoted_suffix: "\<exists>p. s = p @ skip_quoted q s"
proof (induction q s rule: skip_quoted.induct)
  case (2 q c cs)
  have "\<exists>p. c # cs = p @ skip_quoted q (drop 1 cs)" if "c = BSLASH"
    using "2.IH"(1) [OF that] by (cases cs) (auto, metis append_Cons)
  moreover have "\<exists>p. c # cs = p @ skip_quoted q ds" if "c \<noteq> BSLASH" "c = q" "cs = d # ds" "d = q" for d ds
    using "2.IH"(2) [OF that] that by (metis append_Cons)
  moreover have "\<exists>p. c # cs = p @ skip_quoted q cs" if "c \<noteq> BSLASH" "c \<noteq> q"
    using "2.IH"(3) [OF that] by (metis append_Cons)
  moreover have "\<exists>p. c # cs = p @ cs" by simp
  ultimately show ?case by (auto split: list.split)
qed simp

lemma skip_region_suffix:
  assumes "skip_region s = Some r"
  shows "\<exists>p. p \<noteq> [] \<and> s = p @ r"
proof -
  have d: "\<exists>p. p \<noteq> [] \<and> t = p @ drop k t" if "0 < k" "t \<noteq> []" for k and t :: string
    using that by (intro exI [of _ "take k t"]) simp
  have q: "\<exists>p. p \<noteq> [] \<and> c # cs = p @ skip_quoted x cs" for c x cs
    using skip_quoted_suffix [of cs x] by (metis append_Cons list.distinct(1))
  obtain c cs where s: "s = c # cs"
    using assms by (cases s) (auto simp: skip_region_def skipNonCode_def next_char_def)
  show ?thesis
    using assms q [of c cs] d [of _ s] s
    by (fastforce simp: skip_region_def skipNonCode_def next_char_def split: option.splits if_splits)
qed

lemma skip_region_less: "skip_region s = Some r \<Longrightarrow> length r < length s"
  using skip_region_suffix [of s r] by auto

lemma skip_region_take: "skip_region s = Some r \<Longrightarrow> take (length s - length r) s @ r = s"
  using skip_region_suffix [of s r] by auto

section \<open>Finding a call\<close>

definition isIdentStart :: "char \<Rightarrow> bool" where
  "isIdentStart c \<longleftrightarrow> c = CHR ''_'' \<or> is_alpha c"

definition isIdentByte :: "char \<Rightarrow> bool" where
  "isIdentByte c \<longleftrightarrow> isIdentStart c \<or> is_digit c"

definition is_blank :: "char \<Rightarrow> bool" where
  "is_blank c \<longleftrightarrow> c = CHR '' '' \<or> c = TAB"

definition ident_before :: "char option \<Rightarrow> bool" where
  "ident_before pv = (case pv of None \<Rightarrow> False | Some c \<Rightarrow> isIdentByte c)"

text \<open>The next identifier with \<open>(\<close> after it: what stands before it, its name, the blanks between and
  the text after the parenthesis. \<open>pv\<close> is the byte before \<open>s\<close>.\<close>

type_synonym call_site = "string \<times> string \<times> string \<times> string"

definition after_text :: "string \<Rightarrow> call_site option \<Rightarrow> call_site option" where
  "after_text p r = map_option (\<lambda>(before, site). (p @ before, site)) r"

function nextCall :: "char option \<Rightarrow> string \<Rightarrow> call_site option" where
  "nextCall pv [] = None"
| "nextCall pv (c # cs) =
     (case skip_region (c # cs) of
        Some r \<Rightarrow> (let p = take (length (c # cs) - length r) (c # cs) in after_text p (nextCall (Some (last p)) r))
      | None \<Rightarrow>
          if isIdentStart c \<and> \<not> ident_before pv then
            (let name = c # takeWhile isIdentByte cs; r = dropWhile isIdentByte cs;
                 blanks = takeWhile is_blank r
             in if next_char (dropWhile is_blank r) = Some (CHR ''('')
                then Some ([], name, blanks, drop 1 (dropWhile is_blank r))
                else after_text name (nextCall (Some (last name)) r))
          else after_text [c] (nextCall (Some c) cs))"
  by pat_completeness auto
termination
  by (relation "measure (\<lambda>(_, s). length s)")
    (auto dest: skip_region_less simp: le_imp_less_Suc length_dropWhile_less)

declare nextCall.simps(2) [simp del]

text \<open>The text up to the parenthesis that closes \<open>depth\<close> open ones, and the text after it.\<close>

definition read_on :: "string \<Rightarrow> (string \<times> string) option \<Rightarrow> (string \<times> string) option" where
  "read_on p r = map_option (\<lambda>(inner, rest). (p @ inner, rest)) r"

function matchingParen :: "nat \<Rightarrow> string \<Rightarrow> (string \<times> string) option" where
  "matchingParen depth [] = None"
| "matchingParen depth (c # cs) =
     (case skip_region (c # cs) of
        Some r \<Rightarrow> read_on (take (length (c # cs) - length r) (c # cs)) (matchingParen depth r)
      | None \<Rightarrow>
          if c = CHR ''('' then read_on [c] (matchingParen (Suc depth) cs)
          else if c = CHR '')'' then
            (if depth = 1 then Some ([], cs) else read_on [c] (matchingParen (depth - 1) cs))
          else read_on [c] (matchingParen depth cs))"
  by pat_completeness auto
termination
  by (relation "measure (\<lambda>(_, s). length s)") (auto dest: skip_region_less)

declare matchingParen.simps(2) [simp del]

text \<open>The pieces between the commas at depth 0, at least one; \<open>splitArgs\<close> gives none for a blank list.\<close>

definition join_first :: "string \<Rightarrow> string list \<Rightarrow> string list" where
  "join_first p xs = (case xs of [] \<Rightarrow> [p] | x # ys \<Rightarrow> (p @ x) # ys)"

function split_top :: "int \<Rightarrow> string \<Rightarrow> string list" where
  "split_top depth [] = [[]]"
| "split_top depth (c # cs) =
     (case skip_region (c # cs) of
        Some r \<Rightarrow> join_first (take (length (c # cs) - length r) (c # cs)) (split_top depth r)
      | None \<Rightarrow>
          if c = CHR ''('' \<or> c = CHR ''['' then join_first [c] (split_top (depth + 1) cs)
          else if c = CHR '')'' \<or> c = CHR '']'' then join_first [c] (split_top (depth - 1) cs)
          else if c = CHR '','' \<and> depth = 0 then [] # split_top depth cs
          else join_first [c] (split_top depth cs))"
  by pat_completeness auto
termination
  by (relation "measure (\<lambda>(_, s). length s)") (auto dest: skip_region_less)

declare split_top.simps(2) [simp del]

definition splitArgs :: "string \<Rightarrow> string list" where
  "splitArgs s = (let ps = split_top 0 s in if trim_space s \<noteq> [] \<or> 1 < length ps then ps else [])"

section \<open>The secret positions of a call\<close>

type_synonym arg_rule = "string list \<Rightarrow> nat list"

definition hiddenToken :: string where "hiddenToken = ''[HIDDEN]''"

definition hidden_literal :: string where "hidden_literal = QUOTE # hiddenToken @ [QUOTE]"

definition fixed_pos :: "nat \<Rightarrow> arg_rule" where
  "fixed_pos idx args = (if idx \<le> length args then [idx] else [])"

definition shifted :: "arg_rule \<Rightarrow> arg_rule" where
  "shifted r args = (if length args < 2 then [] else map Suc (r (drop 1 args)))"

definition hostDbUserPw :: arg_rule where
  "hostDbUserPw args = (if 5 \<le> length args then [5] else if length args = 4 then [4] else [])"

definition trim_quotes :: "string \<Rightarrow> string" where
  "trim_quotes arg = trim_both (\<lambda>c. c = QUOTE) (trim_space arg)"

definition format_names :: "string list" where
  "format_names = [''csv'', ''tsv'', ''json'', ''parquet'', ''orc'', ''avro'', ''arrow'', ''native'', ''tabseparated'',
     ''jsoneachrow'', ''jsoncompacteachrow'', ''lineasstring'', ''rawblob'', ''values'', ''protobuf'', ''capnproto'',
     ''msgpack'', ''auto'', ''regexp'', ''template'', ''customseparated'', ''arrowstream'']"

definition looksLikeFormat :: "string \<Rightarrow> bool" where
  "looksLikeFormat arg =
     (let v = trim_quotes arg; l = to_lower v in
      if v = [] \<or> list_ex (\<lambda>c. c \<in> set '' /:.@'') v then False
      else if l \<in> set format_names then True
      else has_suffix l ''withnames'' \<or> has_suffix l ''withnamesandtypes'' \<or> contains l ''eachrow'' \<or>
        has_prefix l ''json'' \<or> has_prefix l ''csv'' \<or> has_prefix l ''tsv'' \<or> has_prefix l ''tabseparated'')"

definition looksLikeCompression :: "string \<Rightarrow> bool" where
  "looksLikeCompression arg \<longleftrightarrow> to_lower (trim_quotes arg) \<in> set [''gzip'', ''gz'', ''zstd'', ''lz4'', ''bz2'', ''xz'',
     ''snappy'', ''deflate'', ''brotli'', ''br'', ''none'', ''auto'']"

definition s3Rule :: arg_rule where
  "s3Rule args =
     (if length args < 3 then []
      else if equal_fold (trim_space (args ! 1)) ''NOSIGN'' then []
      else if looksLikeFormat (args ! 1) then []
      else [2, 3] @ (if 4 \<le> length args \<and> \<not> looksLikeFormat (args ! 3) \<and> \<not> looksLikeCompression (args ! 3) then [4] else []))"

definition azureRule :: arg_rule where
  "azureRule args = (if 1 \<le> length args \<and> contains (to_lower (args ! 0)) ''accountkey='' then [1] else [])
     @ (if 5 \<le> length args then [5] else [])"

definition positionalSecrets :: "string \<Rightarrow> arg_rule option" where
  "positionalSecrets name =
     (if name \<in> set [''s3'', ''s3queue'', ''gcs'', ''oss'', ''cosn'', ''deltalake'', ''iceberg'', ''icebergs3'', ''hudi'']
      then Some s3Rule
      else if name \<in> set [''s3cluster'', ''deltalakecluster'', ''icebergcluster'', ''hudicluster'', ''icebergs3cluster'']
      then Some (shifted s3Rule)
      else if name \<in> set [''mysql'', ''postgresql'', ''mongodb'', ''materializedmysql'', ''materializedpostgresql'',
        ''remote'', ''remotesecure''] then Some hostDbUserPw
      else if name = ''externaldistributed'' then Some (fixed_pos 6)
      else if name = ''redis'' then Some (fixed_pos 3)
      else if name \<in> set [''azureblobstorage'', ''azurequeue'', ''azure''] then Some azureRule
      else None)"

definition maskLiteral :: "string \<Rightarrow> string option" where
  "maskLiteral arg =
     (let t = trim_space arg in
      if length t < 2 \<or> hd t \<noteq> QUOTE \<or> last t \<noteq> QUOTE then None
      else if t = hidden_literal \<or> t = [QUOTE, QUOTE] then None
      else (case str_index arg t of
              Some k \<Rightarrow> Some (take k arg @ hidden_literal @ drop (k + length t) arg)
            | None \<Rightarrow> None))"

text \<open>The loop over the positions of the rule; positions count from 1.\<close>

fun mask_args :: "nat list \<Rightarrow> string list \<Rightarrow> string list \<times> nat" where
  "mask_args [] args = (args, 0)"
| "mask_args (idx # ps) args =
     (if 1 \<le> idx \<and> idx \<le> length args then
        (case maskLiteral (args ! (idx - 1)) of
           Some masked \<Rightarrow> (case mask_args ps (args[idx - 1 := masked]) of (out, n) \<Rightarrow> (out, Suc n))
         | None \<Rightarrow> mask_args ps args)
      else mask_args ps args)"

definition mask_call :: "string \<Rightarrow> string list \<Rightarrow> string list \<times> nat" where
  "mask_call name args = (case positionalSecrets (to_lower name) of
     Some rule \<Rightarrow> mask_args (rule args) args | None \<Rightarrow> (args, 0))"

section \<open>What a scanner reads is what it leaves out of the rest\<close>

lemma nextCall_text:
  "nextCall pv s = Some (before, name, blanks, body) \<Longrightarrow> s = before @ name @ blanks @ ''('' @ body"
proof (induction pv s arbitrary: before name blanks body rule: nextCall.induct)
  case (2 pv c cs)
  show ?case
  proof (cases "skip_region (c # cs)")
    case (Some r)
    let ?p = "take (length (c # cs) - length r) (c # cs)"
    from 2(4) Some obtain b where b: "nextCall (Some (last ?p)) r = Some (b, name, blanks, body)" "before = ?p @ b"
      by (auto simp: nextCall.simps(2) Let_def after_text_def)
    from 2(3) [OF Some refl b(1)] skip_region_take [OF Some] b(2) show ?thesis by simp
  next
    case None
    let ?r = "dropWhile isIdentByte cs"
    show ?thesis
    proof (cases "isIdentStart c \<and> \<not> ident_before pv")
      case True
      show ?thesis
      proof (cases "next_char (dropWhile is_blank ?r) = Some (CHR ''('')")
        case call: True
        with 2(4) None True have "before = []" "name = c # takeWhile isIdentByte cs" "blanks = takeWhile is_blank ?r"
          "body = drop 1 (dropWhile is_blank ?r)" by (simp_all add: nextCall.simps(2) Let_def)
        moreover from call have "dropWhile is_blank ?r = ''('' @ drop 1 (dropWhile is_blank ?r)"
          by (auto simp: next_char_def split: list.splits)
        ultimately show ?thesis by (metis append_Cons append_Nil takeWhile_dropWhile_id)
      next
        case False
        from 2(4) None True False obtain b where b: "before = (c # takeWhile isIdentByte cs) @ b"
          "nextCall (Some (last (c # takeWhile isIdentByte cs))) ?r = Some (b, name, blanks, body)"
          by (auto simp: nextCall.simps(2) Let_def after_text_def)
        from 2(1) [OF None True refl refl refl False b(2)] b(1) show ?thesis
          by (metis append_Cons append_assoc takeWhile_dropWhile_id)
      qed
    next
      case False
      with 2(4) None obtain b where "nextCall (Some c) cs = Some (b, name, blanks, body)" "before = c # b"
        by (auto simp: nextCall.simps(2) after_text_def)
      with 2(2) [OF None False] show ?thesis by simp
    qed
  qed
qed simp

lemma read_on_Some: "read_on p r = Some (inner, rest) \<longleftrightarrow> (\<exists>i. r = Some (i, rest) \<and> inner = p @ i)"
  by (auto simp: read_on_def)

lemma matchingParen_text:
  "matchingParen depth s = Some (inner, rest) \<Longrightarrow> s = inner @ '')'' @ rest"
proof (induction depth s arbitrary: inner rest rule: matchingParen.induct)
  case (2 depth c cs)
  show ?case
  proof (cases "skip_region (c # cs)")
    case (Some r)
    from 2(5) [unfolded matchingParen.simps(2) Some option.case read_on_Some] obtain i where
      "matchingParen depth r = Some (i, rest)" "inner = take (length (c # cs) - length r) (c # cs) @ i" by blast
    with 2(4) [OF Some] skip_region_take [OF Some] show ?thesis by (metis append_assoc)
  next
    case None
    note 2 = "2.IH"(1-3) [OF None] 2(5) [unfolded matchingParen.simps(2) None option.case]
    show ?thesis
    proof (cases "c = CHR '')'' \<and> depth = 1")
      case False
      have "\<exists>d i. matchingParen d cs = Some (i, rest) \<and> inner = c # i \<and> cs = i @ '')'' @ rest"
        using 2 False by (auto simp: read_on_Some split: if_splits)
      then show ?thesis by auto
    qed (use 2(4) in simp)
  qed
qed simp

lemma join_first_not_Nil [simp]: "join_first p xs \<noteq> []"
  by (simp add: join_first_def split: list.split)

lemma split_top_not_Nil [simp]: "split_top depth s \<noteq> []"
proof (cases s)
  case (Cons c cs)
  show ?thesis
    unfolding Cons by (cases "skip_region (c # cs)") (simp_all add: split_top.simps(2) del: list.size)
qed simp

lemma join_join_first: "xs \<noteq> [] \<Longrightarrow> str_join sep (join_first p xs) = p @ str_join sep xs"
  by (cases xs; cases "tl xs") (auto simp: join_first_def)

lemma join_split_top: "str_join '','' (split_top depth s) = s"
proof (induction depth s rule: split_top.induct)
  case (2 depth c cs)
  show ?case
  proof (cases "skip_region (c # cs)")
    case (Some r)
    show ?thesis
      unfolding split_top.simps(2) Some option.case
      by (simp only: join_join_first split_top_not_Nil not_False_eq_True "2.IH"(5) [OF Some] skip_region_take [OF Some])
  next
    case None
    note IH = "2.IH"(1-4) [OF None]
    show ?thesis
      unfolding split_top.simps(2) None option.case
      using IH by (simp add: join_join_first str_join_Cons)
  qed
qed simp

lemma splitArgs_join: "str_join '','' (splitArgs s) = (if splitArgs s = [] then [] else s)"
  by (simp add: splitArgs_def Let_def join_split_top)

lemma splitArgs_Nil: "splitArgs s = [] \<Longrightarrow> list_all is_space s"
  by (auto simp: splitArgs_def Let_def trim_space_def trim_both_Nil_iff split: if_splits)

lemma length_join: "x \<in> set xs \<Longrightarrow> length x \<le> length (str_join sep xs)"
  by (induction sep xs rule: str_join.induct) auto

lemma splitArgs_length: "x \<in> set (splitArgs s) \<Longrightarrow> length x \<le> length s"
  using length_join [of x "splitArgs s" "'',''"] splitArgs_join [of s] by (auto split: if_splits)

section \<open>Redacting SQL text\<close>

lemma nextCall_less: "nextCall pv s = Some (before, name, blanks, body) \<Longrightarrow> length body < length s"
  by (drule nextCall_text) simp

lemma matchingParen_less: "matchingParen d s = Some (inner, rest) \<Longrightarrow> length inner < length s \<and> length rest < length s"
  by (drule matchingParen_text) simp

function redactCalls :: "char option \<Rightarrow> string \<Rightarrow> string \<times> nat" where
  "redactCalls pv s =
     (case nextCall pv s of
        None \<Rightarrow> (s, 0)
      | Some (before, name, blanks, body) \<Rightarrow>
          (case matchingParen 1 body of
             None \<Rightarrow> (s, 0)
           | Some (inner, rest) \<Rightarrow>
               let rs = map (redactCalls None) (splitArgs inner);
                   (args, m) = mask_call name (map fst rs);
                   (out, k) = redactCalls (Some (CHR '')'')) rest
               in (before @ name @ blanks @ ''('' @ str_join '','' args @ '')'' @ out,
                   sum_list (map snd rs) + m + k)))"
  by pat_completeness auto
termination
proof (relation "measure (\<lambda>(_, s). length s)", goal_cases)
  case (2 pv s x2 before ya name yb blanks body x2a inner rest z)
  then show ?case
    using nextCall_less [of pv s before name blanks body] matchingParen_less [of 1 body inner rest]
      splitArgs_length [of z inner] by fastforce
next
  case (3 pv s x2 before ya name yb blanks body x2a inner rest)
  then show ?case
    using nextCall_less [of pv s before name blanks body] matchingParen_less [of 1 body inner rest] by fastforce
qed simp

declare redactCalls.simps [simp del]

definition RedactSQLText :: "string \<Rightarrow> string \<times> nat" where
  "RedactSQLText s =
     (if s = [] then (s, 0)
      else case redactCalls None s of (out, n) \<Rightarrow>
        (case redactHeuristicsWith out hidden_literal hiddenToken of (out2, m) \<Rightarrow> (out2, n + m)))"

section \<open>No replacement, no change\<close>

text \<open>
  A count of zero does not mean the same text: \<open>splitArgs\<close> drops an argument list of blanks. It means the
  same text up to white space, which is what the interpretation of \<open>redactor\<close> states.
\<close>

definition squeeze :: "string \<Rightarrow> string" where
  "squeeze s = filter (\<lambda>c. \<not> is_space c) s"

definition same_but_blanks :: "string \<Rightarrow> string \<Rightarrow> bool" where
  "same_but_blanks s t \<longleftrightarrow> squeeze s = squeeze t"

lemma squeeze_append [simp]: "squeeze (a @ b) = squeeze a @ squeeze b"
  by (simp add: squeeze_def)

lemma squeeze_Cons: "squeeze (c # s) = (if is_space c then squeeze s else c # squeeze s)"
  by (simp add: squeeze_def)

lemma squeeze_blank: "list_all is_space s \<Longrightarrow> squeeze s = []"
  by (induction s) (auto simp: squeeze_def)

lemma squeeze_join: "map squeeze xs = map squeeze ys \<Longrightarrow> squeeze (str_join sep xs) = squeeze (str_join sep ys)"
proof (induction xs arbitrary: ys)
  case (Cons x xs)
  then obtain y zs where ys: "ys = y # zs" "squeeze x = squeeze y" "map squeeze xs = map squeeze zs" by auto
  show ?case
  proof (cases "xs = []")
    case False
    then have "zs \<noteq> []" using ys(3) by auto
    with False ys Cons.IH [OF ys(3)] show ?thesis by (simp add: str_join_Cons)
  qed (use ys in simp)
qed simp

lemma mask_args_zero: "mask_args ps args = (out, 0) \<Longrightarrow> out = args"
  by (induction ps args arbitrary: out rule: mask_args.induct) (auto split: if_splits option.splits prod.splits)

lemma mask_call_zero: "mask_call name args = (out, 0) \<Longrightarrow> out = args"
  by (auto simp: mask_call_def dest: mask_args_zero split: option.splits)

lemma redactCalls_zero: "redactCalls pv s = (t, 0) \<Longrightarrow> same_but_blanks s t"
proof (induction pv s arbitrary: t rule: redactCalls.induct)
  case (1 pv s)
  show ?case
  proof (cases "nextCall pv s")
    case None
    with 1(3) show ?thesis by (simp add: redactCalls.simps same_but_blanks_def)
  next
    case (Some site)
    obtain before name blanks body where site: "site = (before, name, blanks, body)" by (cases site)
    show ?thesis
    proof (cases "matchingParen 1 body")
      case None
      with 1(3) Some site show ?thesis by (simp add: redactCalls.simps same_but_blanks_def)
    next
      case (Some ir)
      obtain inner rest where ir: "ir = (inner, rest)" by (cases ir)
      note n = \<open>nextCall pv s = Some site\<close> [unfolded site]
      note m = Some [unfolded ir]
      let ?rs = "map (redactCalls None) (splitArgs inner)"
      obtain args k where args: "mask_call name (map fst ?rs) = (args, k)" by (cases "mask_call name (map fst ?rs)")
      obtain out j where out: "redactCalls (Some (CHR '')'')) rest = (out, j)" by (cases "redactCalls (Some (CHR '')'')) rest")
      from 1(3) n m args out have t: "t = before @ name @ blanks @ ''('' @ str_join '','' args @ '')'' @ out"
        and z: "sum_list (map snd ?rs) = 0" "k = 0" "j = 0"
        by (auto simp: redactCalls.simps [of pv s] Let_def)
      have "squeeze a = squeeze (fst (redactCalls None a))" if "a \<in> set (splitArgs inner)" for a
      proof -
        have "snd (redactCalls None a) = 0" using z(1) that by auto
        then show ?thesis
          using 1(1) [OF n refl refl refl m refl that, of "fst (redactCalls None a)"]
          by (metis prod.collapse same_but_blanks_def)
      qed
      then have "map squeeze (splitArgs inner) = map squeeze (map fst ?rs)" by simp
      then have "squeeze (str_join '','' (splitArgs inner)) = squeeze (str_join '','' args)"
        using squeeze_join mask_call_zero args z(2) by blast
      moreover have "squeeze (str_join '','' (splitArgs inner)) = squeeze inner"
        using splitArgs_join [of inner] splitArgs_Nil [of inner]
        by (cases "splitArgs inner = []") (auto simp: squeeze_blank squeeze_blank [of "[]"])
      moreover have "same_but_blanks rest out"
        using 1(2) [OF n refl refl refl m refl refl args [symmetric] refl out [unfolded z(3)]] .
      ultimately show ?thesis
        using t nextCall_text [OF n] matchingParen_text [OF m] by (simp add: same_but_blanks_def squeeze_Cons)
    qed
  qed
qed

interpretation calls: redactor "redactCalls pv" same_but_blanks for pv
  by unfold_locales (auto simp: same_but_blanks_def dest: redactCalls_zero)

section \<open>A call whose arguments are literals\<close>

definition closed_literal :: "string \<Rightarrow> bool" where
  "closed_literal l \<longleftrightarrow> next_char l = Some QUOTE \<and> quotedLiteralEnd l = Some (length l)"

definition is_ident :: "string \<Rightarrow> bool" where
  "is_ident name \<longleftrightarrow> name \<noteq> [] \<and> isIdentStart (hd name) \<and> list_all isIdentByte name"

lemma skip_literal_body:
  "literal_body q s = Some (length s) \<Longrightarrow> next_char rest \<noteq> Some q \<Longrightarrow> skip_quoted q (s @ rest) = rest"
  by (induction q s rule: literal_body.induct)
    (auto simp: next_char_def split: if_splits list.splits)

lemma literal_body_last: "literal_body q s = Some (length s) \<Longrightarrow> s \<noteq> [] \<and> last s = q"
  by (induction q s rule: literal_body.induct) (auto split: if_splits)

lemma closed_literal_shape:
  assumes "closed_literal l"
  obtains b where "l = QUOTE # b" "literal_body QUOTE b = Some (length b)"
  using assms by (cases l) (auto simp: closed_literal_def next_char_def quotedLiteralEnd_def)

lemma quote_no_region: "skipNonCode (QUOTE # s) = None"
  by (simp add: skipNonCode_def QUOTE_def BTICK_def DQUOTE_def)

lemma skip_closed: "closed_literal l \<Longrightarrow> next_char rest \<noteq> Some QUOTE \<Longrightarrow> skip_region (l @ rest) = Some rest"
  by (erule closed_literal_shape)
    (simp add: skip_region_def quote_no_region skip_literal_body, simp add: next_char_def)

lemma plain_no_region:
  assumes "c \<noteq> QUOTE" "c \<noteq> DQUOTE" "c \<noteq> BTICK" "c \<noteq> CHR ''-''" "c \<noteq> CHR ''/''"
  shows "skip_region (c # s) = None"
  using assms by (simp add: skip_region_def skipNonCode_def next_char_def)

lemma ident_start_plain: "isIdentStart c \<Longrightarrow> skip_region (c # s) = None"
  by (rule plain_no_region)
    (auto simp: isIdentStart_def is_alpha_def is_upper_def is_lower_def in_range_def code_def QUOTE_def DQUOTE_def BTICK_def)

lemma nextCall_name:
  assumes "is_ident name" "\<not> ident_before pv"
  shows "nextCall pv (name @ ''('' @ body) = Some ([], name, [], body)"
proof -
  from assms(1) obtain c cs where name: "name = c # cs" "isIdentStart c" "list_all isIdentByte cs"
    by (cases name) (auto simp: is_ident_def)
  have p: "\<not> isIdentByte (CHR ''('')" "\<not> is_blank (CHR ''('')" by code_simp+
  have "takeWhile isIdentByte (cs @ ''('' @ body) = cs" "dropWhile isIdentByte (cs @ ''('' @ body) = ''('' @ body"
    using p by (simp_all add: takeWhile_list_all name(3) dropWhile_list_all)
  then show ?thesis
    using name ident_start_plain [OF name(2)] assms(2) p
    by (simp add: nextCall.simps(2) Let_def next_char_def)
qed

lemma comma_paren_plain: "skip_region (CHR '','' # s) = None" "skip_region (CHR '')'' # s) = None"
  by (rule plain_no_region; simp add: QUOTE_def DQUOTE_def BTICK_def)+

lemma closed_Cons: "closed_literal l \<Longrightarrow> \<exists>c cs. l = c # cs"
  by (auto elim: closed_literal_shape)

lemma matchingParen_closed:
  "closed_literal l \<Longrightarrow> next_char s \<noteq> Some QUOTE \<Longrightarrow> matchingParen d (l @ s) = read_on l (matchingParen d s)"
  using skip_closed [of l s] closed_Cons [of l] by (auto simp: matchingParen.simps(2))

lemma split_top_closed:
  "closed_literal l \<Longrightarrow> next_char s \<noteq> Some QUOTE \<Longrightarrow> split_top d (l @ s) = join_first l (split_top d s)"
  using skip_closed [of l s] closed_Cons [of l] by (auto simp: split_top.simps(2))

lemma matchingParen_literals:
  "list_all closed_literal ls \<Longrightarrow> matchingParen 1 (str_join '','' ls @ '')'' @ rest) = Some (str_join '','' ls, rest)"
proof (induction ls)
  case Nil
  show ?case by (simp add: matchingParen.simps(2) comma_paren_plain)
next
  case (Cons l ls)
  have close: "matchingParen 1 ('')'' @ rest) = Some ([], rest)"
    by (simp add: matchingParen.simps(2) comma_paren_plain)
  show ?case
  proof (cases "ls = []")
    case True
    with Cons close show ?thesis by (simp add: matchingParen_closed next_char_def QUOTE_def read_on_def)
  next
    case False
    with Cons show ?thesis
      by (simp add: str_join_Cons matchingParen_closed next_char_def QUOTE_def read_on_def
          matchingParen.simps(2) [of _ "CHR '',''"] comma_paren_plain)
  qed
qed

lemma split_top_literals: "list_all closed_literal ls \<Longrightarrow> ls \<noteq> [] \<Longrightarrow> split_top 0 (str_join '','' ls) = ls"
proof (induction ls)
  case (Cons l ls)
  show ?case
  proof (cases "ls = []")
    case True
    with Cons split_top_closed [of l "[]" 0] show ?thesis by (simp add: next_char_def join_first_def)
  next
    case False
    with Cons show ?thesis
      by (simp add: str_join_Cons split_top_closed next_char_def QUOTE_def
          split_top.simps(2) [of _ "CHR '',''"] comma_paren_plain join_first_def)
  qed
qed simp

lemma splitArgs_literals:
  assumes "list_all closed_literal ls" "ls \<noteq> []"
  shows "splitArgs (str_join '','' ls) = ls"
proof -
  from assms obtain l ks where ls: "ls = l # ks" "closed_literal l" by (cases ls) auto
  then obtain b where b: "l = QUOTE # b" by (auto elim: closed_literal_shape)
  then have "QUOTE \<in> set (str_join '','' ls)" using ls by (cases ks) auto
  moreover have "\<not> is_space QUOTE" by code_simp
  ultimately have "trim_space (str_join '','' ls) \<noteq> []"
    by (auto simp: trim_space_def trim_both_Nil_iff list_all_iff)
  then show ?thesis using split_top_literals [OF assms] by (simp add: splitArgs_def)
qed

lemma redactCalls_literal: "closed_literal l \<Longrightarrow> redactCalls None l = (l, 0)"
  using skip_closed [of l "[]"] closed_Cons [of l]
  by (auto simp: redactCalls.simps nextCall.simps(2) next_char_def Let_def after_text_def)

text \<open>Masking hides exactly the positions asked for, an empty literal apart.\<close>

lemma dropWhile_id: "xs \<noteq> [] \<Longrightarrow> \<not> p (hd xs) \<Longrightarrow> dropWhile p xs = xs"
  by (cases xs) auto

lemma trim_both_id: "s \<noteq> [] \<Longrightarrow> \<not> p (hd s) \<Longrightarrow> \<not> p (last s) \<Longrightarrow> trim_both p s = s"
  using dropWhile_id [of s p] dropWhile_id [of "rev s" p]
  by (simp add: trim_both_def trim_left_def trim_right_def hd_rev)

lemma closed_literal_ends: "closed_literal l \<Longrightarrow> 2 \<le> length l \<and> l \<noteq> [] \<and> hd l = QUOTE \<and> last l = QUOTE"
  by (erule closed_literal_shape, frule literal_body_last) (auto simp: Suc_le_eq)

lemma closed_trim: "closed_literal l \<Longrightarrow> trim_space l = l"
proof -
  assume l: "closed_literal l"
  have "\<not> is_space QUOTE" by code_simp
  with closed_literal_ends [OF l] show "trim_space l = l"
    unfolding trim_space_def by (intro trim_both_id) simp_all
qed

lemma maskLiteral_closed:
  assumes "closed_literal l"
  shows "maskLiteral l = (if l = hidden_literal \<or> l = [QUOTE, QUOTE] then None else Some hidden_literal)"
proof -
  from closed_literal_ends [OF assms] have "\<not> length l < 2" "hd l = QUOTE" "last l = QUOTE" by simp_all
  moreover have "str_index l l = Some 0" using closed_literal_ends [OF assms] by (cases l) (simp_all add: has_prefix_def)
  ultimately show ?thesis by (simp add: maskLiteral_def closed_trim [OF assms])
qed

lemma hidden_literal_closed: "closed_literal hidden_literal" by code_simp

lemma mask_args_closed:
  assumes "list_all closed_literal ls"
  shows "length (fst (mask_args ps ls)) = length ls \<and> (\<forall>i<length ls. fst (mask_args ps ls) ! i =
    (if Suc i \<in> set ps \<and> ls ! i \<noteq> [QUOTE, QUOTE] then hidden_literal else ls ! i))"
  using assms
proof (induction ps ls rule: mask_args.induct)
  case (2 idx ps ls)
  show ?case
  proof (cases "1 \<le> idx \<and> idx \<le> length ls")
    case True
    then have "idx - 1 < length ls" by linarith
    then have "closed_literal (ls ! (idx - 1))" using 2(4) unfolding list_all_length by blast
    note m = maskLiteral_closed [OF this]
    show ?thesis
    proof (cases "maskLiteral (ls ! (idx - 1))")
      case None
      then have "ls ! (idx - 1) = hidden_literal \<or> ls ! (idx - 1) = [QUOTE, QUOTE]" using m by (simp split: if_splits)
      with None True 2(1) [OF True None 2(4)] show ?thesis by auto
    next
      case (Some x)
      then have x: "x = hidden_literal" "ls ! (idx - 1) \<noteq> [QUOTE, QUOTE]" using m by (simp_all split: if_splits)
      have "list_all closed_literal (ls[idx - 1 := hidden_literal])"
        using 2(4) hidden_literal_closed unfolding list_all_iff by (metis in_set_conv_nth insertE set_update_subset_insert subsetD)
      note IH = 2(2) [OF True Some, unfolded x(1), OF this]
      moreover have "hidden_literal \<noteq> [QUOTE, QUOTE]" by code_simp
      ultimately show ?thesis
        using True Some x by (auto simp: nth_list_update split: prod.split)
    qed
  next
    case False
    with 2(3) [OF False 2(4)] show ?thesis by auto
  qed
qed simp


definition lit_of :: "string \<Rightarrow> string" where "lit_of s = QUOTE # s @ [QUOTE]"


text \<open>
  The rule for a host, a database, a user and a password takes five arguments or more to be a table engine.
  ClickHouse also accepts \<open>remote(addr, 'db.table', user, password, sharding_key)\<close> and
  \<open>PostgreSQL(host, db, user, password, schema)\<close>, whose password is the fourth of five: the positional
  rule leaves it in place.
\<close>

lemma fourth_of_five_not_masked:
  "redactCalls None (''remote('' @ lit_of ''h'' @ '','' @ lit_of ''db.t'' @ '','' @ lit_of ''u'' @ '','' @ lit_of ''pw'' @ '',rand())'')
    = (''remote('' @ lit_of ''h'' @ '','' @ lit_of ''db.t'' @ '','' @ lit_of ''u'' @ '','' @ lit_of ''pw'' @ '',rand())'', 0)"
  by code_simp

text \<open>A comment before a literal keeps it from being seen as one.\<close>

lemma commented_literal_not_masked: "maskLiteral (''/*pw*/ '' @ lit_of ''secret'') = None"
  by code_simp

text \<open>A blank argument list is dropped with no replacement counted: the text is not reassembled verbatim.\<close>

lemma blank_arguments_dropped: "redactCalls None ''now( )'' = (''now()'', 0)"
  by code_simp

section \<open>One field of a JSON line\<close>

text \<open>
  \<open>encoding/json\<close> on strings, as bytes: \<open>json_quote\<close> is \<open>json.Marshal\<close>, which escapes quotes, backslashes,
  control bytes, the three HTML bytes and the line separators U+2028 and U+2029; \<open>json_unquote\<close> is
  \<open>json.Unmarshal\<close> of a literal, from the byte after the opening quote on. Text that is not valid UTF-8, which
  \<open>encoding/json\<close> replaces by U+FFFD, is not modelled: such bytes pass through here.
\<close>

definition json_u00 :: "char \<Rightarrow> string" where
  "json_u00 c = BSLASH # ''u00'' @ [hex_digits (code c div 16), hex_digits (code c mod 16)]"

definition json_escape_char :: "char \<Rightarrow> string" where
  "json_escape_char c =
     (if c = DQUOTE then [BSLASH, DQUOTE] else if c = BSLASH then [BSLASH, BSLASH]
      else if c = CHR 8 then BSLASH # ''b'' else if c = CHR 12 then BSLASH # ''f''
      else if c = NL then BSLASH # ''n'' else if c = CR then BSLASH # ''r'' else if c = TAB then BSLASH # ''t''
      else if code c < 32 \<or> c = CHR ''<'' \<or> c = CHR ''>'' \<or> c = CHR ''&'' then json_u00 c
      else [c])"

definition line_sep :: "char \<Rightarrow> bool" where
  "line_sep c \<longleftrightarrow> code c = 168 \<or> code c = 169"

fun json_escape :: "string \<Rightarrow> string" where
  "json_escape (a # b # c # cs) =
     (if code a = 226 \<and> code b = 128 \<and> line_sep c
      then BSLASH # ''u202'' @ [hex_digits (code c - 160)] @ json_escape cs
      else json_escape_char a @ json_escape (b # c # cs))"
| "json_escape (a # cs) = json_escape_char a @ json_escape cs"
| "json_escape [] = []"

definition json_quote :: "string \<Rightarrow> string" where
  "json_quote s = DQUOTE # json_escape s @ [DQUOTE]"

definition hex_value :: "char \<Rightarrow> nat option" where
  "hex_value c = (if is_digit c then Some (code c - 48)
     else if in_range 97 102 c then Some (code c - 87) else if in_range 65 70 c then Some (code c - 55) else None)"

definition hex4 :: "string \<Rightarrow> nat option" where
  "hex4 s = (case s of [a, b, c, d] \<Rightarrow>
      (case (hex_value a, hex_value b, hex_value c, hex_value d) of
         (Some w, Some x, Some y, Some z) \<Rightarrow> Some (4096 * w + 256 * x + 16 * y + z) | _ \<Rightarrow> None)
    | _ \<Rightarrow> None)"

text \<open>The UTF-8 bytes of a code point.\<close>

definition utf8 :: "nat \<Rightarrow> string" where
  "utf8 n = map char_of
     (if n < 128 then [n]
      else if n < 2048 then [192 + n div 64, 128 + n mod 64]
      else if n < 65536 then [224 + n div 4096, 128 + n div 64 mod 64, 128 + n mod 64]
      else [240 + n div 262144, 128 + n div 4096 mod 64, 128 + n div 64 mod 64, 128 + n mod 64])"

definition surrogate :: "nat \<Rightarrow> bool" where
  "surrogate n \<longleftrightarrow> 55296 \<le> n \<and> n < 57344"

text \<open>The second half of a surrogate pair, when the text goes on with one; a half alone is U+FFFD.\<close>

definition low_surrogate :: "nat \<Rightarrow> string \<Rightarrow> nat option" where
  "low_surrogate hi s = (if hi < 56320 \<and> has_prefix s (BSLASH # ''u'') then
     (case hex4 (take 4 (drop 2 s)) of
        Some lo \<Rightarrow> if 56320 \<le> lo \<and> lo < 57344 then Some (65536 + (hi - 55296) * 1024 + (lo - 56320)) else None
      | None \<Rightarrow> None) else None)"

definition simple_escape :: "char \<Rightarrow> char option" where
  "simple_escape c =
     (if c = DQUOTE \<or> c = BSLASH \<or> c = CHR ''/'' then Some c
      else if c = CHR ''b'' then Some (CHR 8) else if c = CHR ''f'' then Some (CHR 12)
      else if c = CHR ''n'' then Some NL else if c = CHR ''r'' then Some CR else if c = CHR ''t'' then Some TAB else None)"

function json_unescape :: "string \<Rightarrow> string option" where
  "json_unescape [] = None"
| "json_unescape (c # cs) =
     (if c = DQUOTE then (if cs = [] then Some [] else None)
      else if c = BSLASH then
        (case cs of [] \<Rightarrow> None
         | e # es \<Rightarrow>
             if e = CHR ''u'' then
               (case hex4 (take 4 es) of
                  None \<Rightarrow> None
                | Some n \<Rightarrow>
                    if surrogate n then
                      (case low_surrogate n (drop 4 es) of
                         Some m \<Rightarrow> map_option ((@) (utf8 m)) (json_unescape (drop 10 es))
                       | None \<Rightarrow> map_option ((@) (utf8 65533)) (json_unescape (drop 4 es)))
                    else map_option ((@) (utf8 n)) (json_unescape (drop 4 es)))
             else (case simple_escape e of Some x \<Rightarrow> map_option ((#) x) (json_unescape es) | None \<Rightarrow> None))
      else if code c < 32 then None
      else map_option ((#) c) (json_unescape cs))"
  by pat_completeness auto
termination by (relation "measure length") auto

declare json_unescape.simps(2) [simp del]

definition json_unquote :: "string \<Rightarrow> string option" where
  "json_unquote s = (case s of [] \<Rightarrow> None | c # cs \<Rightarrow> if c = DQUOTE then json_unescape cs else None)"

subsection \<open>Decoding what was encoded\<close>

lemma hex_value_digits: "n < 16 \<Longrightarrow> hex_value (hex_digits n) = Some n"
proof -
  assume n: "n < 16"
  show ?thesis
  proof (cases "n < 10")
    case True
    then show ?thesis by (simp add: hex_value_def hex_digits_def is_digit_def in_range_def code_char_of)
  next
    case False
    with n show ?thesis by (simp add: hex_value_def hex_digits_def is_digit_def in_range_def code_char_of)
  qed
qed

lemma hex4_u00:
  assumes "code c < 128"
  shows "hex4 (CHR ''0'' # CHR ''0'' # [hex_digits (code c div 16), hex_digits (code c mod 16)]) = Some (code c)"
proof -
  have z: "hex_value (CHR ''0'') = Some 0" by code_simp
  have "code c div 16 < 16" using assms by linarith
  then show ?thesis by (simp add: hex4_def z hex_value_digits)
qed

lemma json_unescape_u:
  assumes "hex4 [w, x, y, z] = Some n" "\<not> surrogate n"
  shows "json_unescape (BSLASH # CHR ''u'' # w # x # y # z # s) = map_option ((@) (utf8 n)) (json_unescape s)"
proof -
  have "take 4 (w # x # y # z # s) = [w, x, y, z]" "drop 4 (w # x # y # z # s) = s" by (simp_all add: eval_nat_numeral)
  moreover have "BSLASH \<noteq> DQUOTE" by code_simp
  ultimately show ?thesis using assms by (subst json_unescape.simps(2)) (simp del: take_Suc_Cons drop_Suc_Cons)
qed

lemma json_unescape_u00:
  assumes "code c < 128"
  shows "json_unescape (json_u00 c @ s) = map_option ((#) c) (json_unescape s)"
proof -
  have "\<not> surrogate (code c)" "utf8 (code c) = [c]" using assms by (simp_all add: surrogate_def utf8_def)
  moreover have "((@) [c]) = ((#) c)" by (simp add: fun_eq_iff)
  ultimately show ?thesis
    using json_unescape_u [OF hex4_u00 [OF assms], of s] by (simp add: json_u00_def)
qed

lemma json_unescape_simple:
  assumes "simple_escape e = Some x" "e \<noteq> CHR ''u''"
  shows "json_unescape (BSLASH # e # s) = map_option ((#) x) (json_unescape s)"
proof -
  have "BSLASH \<noteq> DQUOTE" by code_simp
  with assms show ?thesis by (subst json_unescape.simps(2)) simp
qed

lemma json_unescape_plain:
  "c \<noteq> DQUOTE \<Longrightarrow> c \<noteq> BSLASH \<Longrightarrow> \<not> code c < 32 \<Longrightarrow> json_unescape (c # s) = map_option ((#) c) (json_unescape s)"
  by (subst json_unescape.simps(2)) simp

lemma simple_escapes:
  "simple_escape DQUOTE = Some DQUOTE" "simple_escape BSLASH = Some BSLASH" "simple_escape (CHR ''b'') = Some (CHR 8)"
  "simple_escape (CHR ''f'') = Some (CHR 12)" "simple_escape (CHR ''n'') = Some NL" "simple_escape (CHR ''r'') = Some CR"
  "simple_escape (CHR ''t'') = Some TAB" "DQUOTE \<noteq> CHR ''u''" "BSLASH \<noteq> CHR ''u''"
  by code_simp+

lemma html_code: "c = CHR ''<'' \<or> c = CHR ''>'' \<or> c = CHR ''&'' \<Longrightarrow> code c < 128"
  by (auto simp: code_def)

lemma json_unescape_char: "json_unescape (json_escape_char c @ s) = map_option ((#) c) (json_unescape s)"
proof (cases "c = DQUOTE \<or> c = BSLASH")
  case True
  then show ?thesis by (auto simp: json_escape_char_def json_unescape_simple simple_escapes)
next
  case nq: False
  show ?thesis
  proof (cases "c \<in> {CHR 8, CHR 12, NL, CR, TAB}")
    case True
    then show ?thesis using nq by (simp add: json_escape_char_def) (elim disjE; simp add: json_unescape_simple simple_escapes NL_def CR_def TAB_def)
  next
    case ns: False
    show ?thesis
    proof (cases "code c < 32 \<or> c = CHR ''<'' \<or> c = CHR ''>'' \<or> c = CHR ''&''")
      case True
      then have "code c < 128" using html_code by fastforce
      moreover have "json_escape_char c = json_u00 c" using True nq ns by (simp add: json_escape_char_def)
      ultimately show ?thesis by (simp add: json_unescape_u00)
    next
      case False
      with nq ns have "json_escape_char c = [c]" by (simp add: json_escape_char_def)
      with nq False show ?thesis by (simp add: json_unescape_plain)
    qed
  qed
qed

lemma json_unescape_sep:
  assumes "line_sep c" "code a = 226" "code b = 128"
  shows "json_unescape (BSLASH # ''u202'' @ [hex_digits (code c - 160)] @ s) = map_option (\<lambda>t. a # b # c # t) (json_unescape s)"
proof -
  have ab: "a = char_of (226::nat)" "b = char_of (128::nat)" using assms by (metis char_of_code)+
  have z: "hex_value (CHR ''2'') = Some 2" "hex_value (CHR ''0'') = Some 0" by code_simp+
  have "hex4 [CHR ''2'', CHR ''0'', CHR ''2'', hex_digits (code c - 160)] = Some (8064 + code c)"
    using assms(1) by (auto simp: hex4_def z hex_value_digits line_sep_def)
  moreover have "\<not> surrogate (8064 + code c)" using assms(1) by (auto simp: surrogate_def line_sep_def)
  moreover have "utf8 (8064 + code c) = [a, b, c]"
  proof -
    have "char_of (code c) = c" by simp
    with assms(1) ab show ?thesis unfolding line_sep_def by (elim disjE) (simp_all add: utf8_def)
  qed
  moreover have "((@) [a, b, c]) = (\<lambda>t. a # b # c # t)" by (simp add: fun_eq_iff)
  ultimately show ?thesis using json_unescape_u [of "CHR ''2''" "CHR ''0''" "CHR ''2''" "hex_digits (code c - 160)" _ s] by simp
qed

text \<open>Encoding a string as a JSON literal and decoding the literal gives the string back, whatever its bytes:
  a field that is rewritten holds exactly the redacted text.\<close>

theorem json_roundtrip: "json_unquote (json_quote s) = Some s"
proof -
  have "json_unescape (json_escape s @ [DQUOTE]) = Some s"
  proof (induction s rule: json_escape.induct)
    case (1 a b c cs)
    show ?case
    proof (cases "code a = 226 \<and> code b = 128 \<and> line_sep c")
      case True
      with 1(1) json_unescape_sep [of c a b "json_escape cs @ [DQUOTE]"] show ?thesis by simp
    next
      case False
      with 1(2) show ?thesis by (auto simp: json_unescape_char)
    qed
  qed (auto simp: json_unescape_char json_unescape.simps(2) [of DQUOTE "[]"])
  then show ?thesis by (simp add: json_unquote_def json_quote_def)
qed

subsection \<open>Rewriting the field\<close>

definition skipJSONBlanks :: "string \<Rightarrow> nat \<Rightarrow> nat" where
  "skipJSONBlanks line k = k + length (takeWhile is_blank (drop k line))"

definition atJSONKeyPosition :: "string \<Rightarrow> nat \<Rightarrow> bool" where
  "atJSONKeyPosition line at = (case dropWhile is_blank (rev (take at line)) of
     [] \<Rightarrow> False | c # _ \<Rightarrow> c = CHR ''{'' \<or> c = CHR '','')"

fun json_string_length :: "string \<Rightarrow> nat option" where
  "json_string_length [] = None"
| "json_string_length (c # cs) =
     (if c = BSLASH then map_option (\<lambda>n. n + 2) (json_string_length (drop 1 cs))
      else if c = DQUOTE then Some 0
      else map_option Suc (json_string_length cs))"

definition jsonStringEnd :: "string \<Rightarrow> nat \<Rightarrow> nat option" where
  "jsonStringEnd s start = map_option (\<lambda>n. start + 1 + n) (json_string_length (drop (start + 1) s))"

text \<open>
  \<open>replaceJSONStringField\<close>, from the opening quote of the value: the line, whether it changed, and the count
  that \<open>fn\<close> reported (the closure of the caller adds it to its total whenever it is called).
\<close>

definition replace_literal_at :: "string \<Rightarrow> nat \<Rightarrow> (string \<Rightarrow> string \<times> nat) \<Rightarrow> string \<times> bool \<times> nat" where
  "replace_literal_at line start fn =
     (case jsonStringEnd line start of
        None \<Rightarrow> (line, False, 0)
      | Some end \<Rightarrow>
          (case json_unquote (slice line start (end + 1)) of
             None \<Rightarrow> (line, False, 0)
           | Some v \<Rightarrow>
               (case fn v of (nv, n) \<Rightarrow>
                  if nv = v then (line, False, n)
                  else (take start line @ json_quote nv @ drop (end + 1) line, True, n))))"

text \<open>The search for the member, from a position on.\<close>

function replace_field_from :: "nat \<Rightarrow> string \<Rightarrow> string \<Rightarrow> (string \<Rightarrow> string \<times> nat) \<Rightarrow> string \<times> bool \<times> nat" where
  "replace_field_from from line key fn =
     (let needle = DQUOTE # key @ [DQUOTE] in
      case str_index (drop from line) needle of
        None \<Rightarrow> (line, False, 0)
      | Some rel \<Rightarrow>
          let at = from + rel; colon = skipJSONBlanks line (at + length needle); start = skipJSONBlanks line (colon + 1) in
          if \<not> atJSONKeyPosition line at
             \<or> next_char (drop colon line) \<noteq> Some (CHR '':'')
             \<or> next_char (drop start line) \<noteq> Some DQUOTE
          then replace_field_from (at + 1) line key fn
          else replace_literal_at line start fn)"
  by pat_completeness auto
termination
  by (relation "measure (\<lambda>(from, line, _, _). length line - from)") (auto dest!: str_index_Some)

declare replace_field_from.simps [simp del]

definition replaceJSONStringField :: "string \<Rightarrow> string \<Rightarrow> (string \<Rightarrow> string \<times> nat) \<Rightarrow> string \<times> bool \<times> nat" where
  "replaceJSONStringField line key fn = replace_field_from 0 line key fn"

text \<open>The lines of a body: each named field in turn, every line by itself.\<close>

fun redact_fields :: "string list \<Rightarrow> string \<Rightarrow> string \<times> nat" where
  "redact_fields [] line = (line, 0)"
| "redact_fields (f # fs) line =
     (case replaceJSONStringField line f RedactSQLText of (line2, _, c) \<Rightarrow>
       (case redact_fields fs line2 of (out, n) \<Rightarrow> (out, c + n)))"

definition RedactJSONLFields :: "string \<Rightarrow> string list \<Rightarrow> string \<times> nat" where
  "RedactJSONLFields body fields =
     (if fields = [] \<or> body = [] then (body, 0)
      else let rs = map (redact_fields fields) (split_byte NL body)
           in (str_join [NL] (map fst rs), sum_list (map snd rs)))"

definition SensitiveCollectorFields :: "string \<Rightarrow> string list" where
  "SensitiveCollectorFields name =
     (if name = ''system.tables.sql'' then [''create_table_query'', ''engine_full'', ''as_select'']
      else if name = ''system.dictionaries.sql'' then [''source'', ''last_exception''] else [])"

lemma json_string_length_bounds:
  "json_string_length s = Some n \<Longrightarrow> n < length s \<and> s ! n = DQUOTE"
proof (induction s arbitrary: n rule: json_string_length.induct)
  case (2 c cs)
  show ?case
  proof (cases "c = BSLASH")
    case True
    with 2(3) obtain m where "json_string_length (drop 1 cs) = Some m" "n = m + 2" by auto
    with 2(1) [OF True] show ?thesis by (cases cs) auto
  next
    case False
    with 2 show ?thesis by (auto split: if_splits)
  qed
qed simp

definition in_place :: "string \<Rightarrow> (string \<Rightarrow> string \<times> nat) \<Rightarrow> string \<times> bool \<times> nat \<Rightarrow> bool" where
  "in_place line fn r \<longleftrightarrow> (case r of (line2, changed, n) \<Rightarrow>
     if changed
     then \<exists>pre lit post v. line = pre @ lit @ post \<and> json_unquote lit = Some v \<and> line2 = pre @ json_quote (fst (fn v)) @ post
       \<and> n = snd (fn v) \<and> fst (fn v) \<noteq> v
     else line2 = line)"

lemma literal_in_place: "in_place line fn (replace_literal_at line start fn)"
proof (cases "jsonStringEnd line start")
  case (Some e)
  then have "start \<le> e" by (auto simp: jsonStringEnd_def)
  then have line: "line = take start line @ slice line start (e + 1) @ drop (e + 1) line"
    using take_drop_split [of start "e + 1" line] by (simp add: slice_def append_assoc [symmetric] del: append_assoc)
  show ?thesis
  proof (cases "json_unquote (slice line start (e + 1))")
    case (Some v)
    obtain nv n where fn: "fn v = (nv, n)" by (cases "fn v")
    show ?thesis
    proof (cases "nv = v")
      case True
      with \<open>jsonStringEnd line start = Some e\<close> Some fn show ?thesis by (simp add: replace_literal_at_def in_place_def)
    next
      case False
      then have "replace_literal_at line start fn = (take start line @ json_quote nv @ drop (e + 1) line, True, n)"
        using \<open>jsonStringEnd line start = Some e\<close> Some fn by (simp add: replace_literal_at_def)
      then show ?thesis
        using line Some fn False unfolding in_place_def by (simp only: prod.case if_True fst_conv snd_conv) (metis fst_conv snd_conv)
    qed
  qed (simp add: replace_literal_at_def in_place_def Some)
qed (simp add: replace_literal_at_def in_place_def)

lemma field_in_place: "in_place line fn (replaceJSONStringField line key fn)"
proof -
  have "in_place line fn (replace_field_from from line key fn)" for "from"
  proof (induction "from" line key fn rule: replace_field_from.induct)
    case (1 "from" line key fn)
    show ?case
      by (subst replace_field_from.simps)
        (use 1 in \<open>auto simp: Let_def literal_in_place split: option.splits\<close>, simp add: in_place_def)
  qed
  then show ?thesis by (simp add: replaceJSONStringField_def)
qed

text \<open>A field is rewritten in place: a line that changes changes only in one JSON literal, which encoded
  a string \<open>v\<close> and now encodes what \<open>fn\<close> made of it; every byte before and after it is kept.\<close>

theorem field_rewritten_in_place:
  "case replaceJSONStringField line key fn of (line2, changed, n) \<Rightarrow>
     if changed
     then \<exists>pre lit post v. line = pre @ lit @ post \<and> json_unquote lit = Some v \<and> line2 = pre @ json_quote (fst (fn v)) @ post
       \<and> n = snd (fn v) \<and> fst (fn v) \<noteq> v
     else line2 = line"
  using field_in_place [of line fn key] by (simp only: in_place_def)

lemma hex_digit_not_NL: "n < 16 \<Longrightarrow> NL \<noteq> hex_digits n"
proof
  assume n: "n < 16" "NL = hex_digits n"
  from n(1) have "code (hex_digits n) = (if n < 10 then 48 + n else 87 + n)" by (simp add: hex_digits_def code_char_of)
  then have "code NL = (if n < 10 then 48 + n else 87 + n)" using n(2) by metis
  then show False by (simp add: NL_def code_def split: if_splits)
qed

lemma NL_json_escape_char: "NL \<notin> set (json_escape_char c)"
proof -
  have "NL \<noteq> BSLASH" "NL \<notin> set ''u00''" by code_simp+
  then have "NL \<notin> set (json_u00 c)" if "code c < 128"
    using that hex_digit_not_NL [of "code c div 16"] hex_digit_not_NL [of "code c mod 16"] by (auto simp: json_u00_def)
  then show ?thesis
    using html_code by (auto simp: json_escape_char_def NL_def DQUOTE_def BSLASH_def TAB_def CR_def)
qed

lemma NL_json_escape: "NL \<notin> set (json_escape s)"
proof (induction s rule: json_escape.induct)
  case (1 a b c cs)
  have "NL \<noteq> hex_digits (code c - 160)" if "line_sep c"
    using that by (intro hex_digit_not_NL) (auto simp: line_sep_def)
  moreover have "NL \<noteq> BSLASH" "NL \<notin> set ''u202''" by code_simp+
  ultimately show ?case using 1 NL_json_escape_char by auto
qed (use NL_json_escape_char in auto)

lemma field_keeps_line: "NL \<notin> set line \<Longrightarrow> NL \<notin> set (fst (replaceJSONStringField line key fn))"
  using field_in_place [of line fn key] NL_json_escape
  by (auto simp: in_place_def json_quote_def NL_def DQUOTE_def split: prod.splits if_splits)

lemma fields_keep_line: "NL \<notin> set line \<Longrightarrow> NL \<notin> set (fst (redact_fields fs line))"
proof (induction fs line rule: redact_fields.induct)
  case (2 f fs line)
  obtain l2 ch c where r: "replaceJSONStringField line f RedactSQLText = (l2, ch, c)" by (metis prod_cases3)
  with field_keeps_line [OF 2(2), of f RedactSQLText] have "NL \<notin> set l2" by simp
  with 2(1) [OF r [symmetric] refl] r show ?case by (cases "redact_fields fs l2") simp
qed simp

text \<open>Redacting the fields of a body rewrites it line by line: it keeps the number of lines, and line \<open>i\<close>
  of the result is line \<open>i\<close> of the body with the named fields redacted.\<close>

theorem jsonl_line_by_line:
  "split_byte NL (fst (RedactJSONLFields body fields)) =
    (if fields = [] \<or> body = [] then split_byte NL body
     else map (fst \<circ> redact_fields fields) (split_byte NL body))"
proof -
  have "\<forall>x\<in>set (map (fst \<circ> redact_fields fields) (split_byte NL body)). NL \<notin> set x"
    using fields_keep_line split_byte_parts by auto
  then show ?thesis
    by (simp add: RedactJSONLFields_def Let_def split_join_byte del: join_split_byte)
qed

text \<open>When the redactor of SQL text reports no replacement, the text is the same but for white space.\<close>

theorem sql_zero_same: "snd (RedactSQLText s) = 0 \<Longrightarrow> squeeze (fst (RedactSQLText s)) = squeeze s"
proof -
  assume z: "snd (RedactSQLText s) = 0"
  obtain out n where c: "redactCalls None s = (out, n)" by (cases "redactCalls None s")
  obtain out2 m where h: "redactHeuristicsWith out hidden_literal hiddenToken = (out2, m)"
    by (cases "redactHeuristicsWith out hidden_literal hiddenToken")
  show ?thesis
  proof (cases "s = []")
    case False
    with z c h have "n = 0" "m = 0" by (simp_all add: RedactSQLText_def)
    with c h False calls.zero_same [of None s out] redactHeuristicsWith_zero [of out hidden_literal hiddenToken out2]
    show ?thesis by (simp add: RedactSQLText_def same_but_blanks_def)
  qed (simp add: RedactSQLText_def)
qed

text \<open>A text shorter than every match of every pattern is left alone.\<close>

definition pattern_min_len :: "credential_pattern \<Rightarrow> nat" where
  "pattern_min_len p = (case p of UrlBasicAuth \<Rightarrow> min_len re_url_basic_auth | KeywordValue eq \<Rightarrow> min_len (re_keyword_value eq)
     | Whole r \<Rightarrow> min_len r)"

lemma apply_pattern_short: "length s < pattern_min_len p \<Longrightarrow> apply_pattern qt tok p s = (s, 0)"
  by (cases p) (simp_all add: pattern_min_len_def replace_count_def replace_short replaceKeywordValues.simps value_span_def find_short)

lemma short_text_kept:
  assumes "length s < 7"
  shows "redactHeuristicsWith s qt tok = (s, 0)"
proof -
  have "list_all (\<lambda>p. 7 \<le> pattern_min_len p) credential_patterns"
    by (simp add: credential_patterns_def pattern_min_len_def re_pem_def pem_label_def re_url_basic_auth_def re_akia_def re_asia_def
        re_jwt_def re_bcrypt_def re_long_hex_def re_long_base64_def re_keyword_value_def re_keyword_def re_quoted_value_def eval_nat_numeral)
  moreover have "apply_patterns qt tok ps s = (s, 0)" if "list_all (\<lambda>p. 7 \<le> pattern_min_len p) ps" for ps
    using that assms by (induction ps) (simp_all add: apply_pattern_short)
  ultimately show ?thesis by (simp add: redactHeuristicsWith_def)
qed

lemma sql_zero_same_witness:
  "fst (RedactSQLText ''f( )'') = ''f()'' \<and> squeeze (fst (RedactSQLText ''f( )'')) = squeeze ''f( )''"
proof -
  have "redactCalls None ''f( )'' = (''f()'', 0)" by code_simp
  then have "RedactSQLText ''f( )'' = (''f()'', 0)" by (simp add: RedactSQLText_def short_text_kept)
  with sql_zero_same [of "''f( )''"] show ?thesis by simp
qed

end
