(* ===== verification/GoPath.thy ===== *)
theory GoPath
  imports GoStrings
begin

text \<open>
  The functions of Go's \<open>path\<close> and \<open>path/filepath\<close> (on Unix) that the source uses, on the slash-separated
  components of a path.
\<close>

abbreviation SLASH :: char where "SLASH \<equiv> CHR ''/''"

definition path_ext :: "string \<Rightarrow> string" where
  "path_ext name =
     (let r = rev name; e = takeWhile (\<lambda>c. c \<noteq> CHR ''.'' \<and> c \<noteq> SLASH) r
      in case drop (length e) r of c # _ \<Rightarrow> (if c = CHR ''.'' then CHR ''.'' # rev e else []) | [] \<Rightarrow> [])"

definition is_abs :: "string \<Rightarrow> bool" where
  "is_abs p \<longleftrightarrow> has_prefix p [SLASH]"

text \<open>\<open>Clean\<close>: the components, outermost last, after \<open>.\<close>, empty components and inner \<open>..\<close> are gone.\<close>

definition clean_step :: "bool \<Rightarrow> string \<Rightarrow> string list \<Rightarrow> string list" where
  "clean_step rooted c out =
     (if c = [] \<or> c = ''.'' then out
      else if c = ''..'' then
        (case out of
           [] \<Rightarrow> if rooted then [] else [c]
         | d # ds \<Rightarrow> if d = ''..'' then c # out else ds)
      else c # out)"

definition clean_comps :: "bool \<Rightarrow> string list \<Rightarrow> string list" where
  "clean_comps rooted cs = rev (fold (clean_step rooted) cs [])"

definition path_clean :: "string \<Rightarrow> string" where
  "path_clean p =
     (let cs = clean_comps (is_abs p) (split_byte SLASH p); body = str_join [SLASH] cs
      in if is_abs p then SLASH # body else if body = [] then ''.'' else body)"

definition path_join :: "string list \<Rightarrow> string" where
  "path_join es = (let es = filter (\<lambda>e. e \<noteq> []) es in if es = [] then [] else path_clean (str_join [SLASH] es))"

definition path_base :: "string \<Rightarrow> string" where
  "path_base p =
     (if p = [] then ''.''
      else let q = trim_right (\<lambda>c. c = SLASH) p in if q = [] then [SLASH] else last (split_byte SLASH q))"

definition path_dir :: "string \<Rightarrow> string" where
  "path_dir p = path_clean (rev (dropWhile (\<lambda>c. c \<noteq> SLASH) (rev p)))"

section \<open>Clean paths\<close>

text \<open>A plain component: a file name that \<open>Clean\<close> keeps.\<close>

definition plain :: "string \<Rightarrow> bool" where
  "plain c \<longleftrightarrow> c \<noteq> [] \<and> c \<noteq> ''.'' \<and> c \<noteq> ''..'' \<and> SLASH \<notin> set c"

lemma fold_clean_plain: "list_all plain cs \<Longrightarrow> fold (clean_step rooted) cs out = rev cs @ out"
  by (induction cs arbitrary: out) (auto simp: clean_step_def plain_def)

lemma clean_plain: "list_all plain cs \<Longrightarrow> clean_comps rooted cs = cs"
  by (simp add: clean_comps_def fold_clean_plain)

lemma plain_no_slash: "list_all plain cs \<Longrightarrow> c \<in> set cs \<Longrightarrow> SLASH \<notin> set c"
  by (auto simp: list_all_iff plain_def)

lemma split_plain:
  assumes "list_all plain cs" "cs \<noteq> []"
  shows "split_byte SLASH (str_join [SLASH] cs) = cs"
  using assms by (intro split_join_byte) (auto simp: plain_no_slash)

lemma join_plain_relative:
  assumes "list_all plain cs" "cs \<noteq> []"
  shows "\<not> is_abs (str_join [SLASH] cs)" "str_join [SLASH] cs \<noteq> []"
proof -
  obtain c ds where cs: "cs = c # ds" using assms(2) by (cases cs) auto
  with assms(1) have "plain c" by simp
  then obtain a b where c: "c = a # b" "a \<noteq> SLASH" by (cases c) (auto simp: plain_def)
  have "\<exists>r. str_join [SLASH] cs = a # r" by (cases ds) (auto simp: cs c(1))
  with c(2) show "\<not> is_abs (str_join [SLASH] cs)" "str_join [SLASH] cs \<noteq> []"
    by (auto simp: is_abs_def has_prefix_iff)
qed

lemma path_clean_plain:
  assumes "list_all plain cs" "cs \<noteq> []"
  shows "path_clean (str_join [SLASH] cs) = str_join [SLASH] cs"
  using join_plain_relative [OF assms] by (simp add: path_clean_def Let_def split_plain [OF assms] clean_plain [OF assms(1)])

lemma path_join_plain:
  assumes "plain c" "list_all plain cs" "cs \<noteq> []"
  shows "path_join [c, str_join [SLASH] cs] = str_join [SLASH] (c # cs)"
proof -
  have "str_join [SLASH] [c, str_join [SLASH] cs] = str_join [SLASH] (c # cs)" using assms(3) by (cases cs) auto
  moreover have "c \<noteq> []" "str_join [SLASH] cs \<noteq> []" using assms join_plain_relative(2) by (auto simp: plain_def)
  moreover have "path_clean (str_join [SLASH] (c # cs)) = str_join [SLASH] (c # cs)"
    using path_clean_plain [of "c # cs"] assms by simp
  ultimately show ?thesis by (simp add: path_join_def)
qed

lemma join_plain_inject:
  assumes "list_all plain cs" "list_all plain ds" "cs \<noteq> []" "ds \<noteq> []" "str_join [SLASH] cs = str_join [SLASH] ds"
  shows "cs = ds"
  by (metis split_plain assms)

end
