(* ===== verification/Executor.thy ===== *)
theory Executor
  imports QueryTemplate QuerySelect CollectSetup SqlRedact GoPath
begin

text \<open>
  Running the selected queries (\<open>internal/query/executor.go\<close>, \<open>internal/query/manager.go\<close>): the order, the
  reasons to skip a collector, what is sent for one and what is written and recorded about it, and the switch
  to an essential collection in the middle of a run (the \<open>OnTrip\<close> callback of \<open>cmd/main.go\<close>).

  What a query meets outside the program is a \<open>moment\<close>: the file system, the server and the readings of the
  clock while it is handled. The requests sent and the files written are the list of effects; progress
  messages on the console are not modelled, nor are the \<open>SELECT 1\<close> probes of the switch part of the effects.
  \<open>filepath.Join\<close> is a slash between two names.
\<close>

section \<open>Texts\<close>

definition validation_text :: "validation_error \<Rightarrow> string" where
  "validation_text e = (case e of
     EmptyQuery \<Rightarrow> ''query is empty after stripping comments and FORMAT clause''
   | HasSemicolon \<Rightarrow> ''query contains a semicolon; multiple statements are not allowed''
   | NotSelect w \<Rightarrow> ''only SELECT queries are allowed; query starts with '' @ go_quote w
   | ForbiddenKeyword k \<Rightarrow> ''forbidden keyword '' @ go_quote k @ '' is not allowed in query files''
   | IndexPanic \<Rightarrow> ''panic'')"

definition RunFolderName :: "time \<Rightarrow> string" where
  "RunFolderName t = ''clickhouse_diagnostic_'' @ fmt_stamp t"

section \<open>The executor and what it meets\<close>

record Executor =
  x_salt :: string
  x_format :: OutputFormat
  x_from :: time
  x_to :: time
  x_mode :: string
  x_maxLookback :: duration
  x_detachedScope :: string
  x_detachedScopeP :: string
  x_keeperDown :: string

definition NewExecutor :: Executor where
  "NewExecutor = \<lparr>x_salt = [], x_format = FormatJSONL, x_from = zero_time, x_to = zero_time, x_mode = [], x_maxLookback = 0,
     x_detachedScope = [], x_detachedScopeP = [], x_keeperDown = []\<rparr>"

definition WithKeeperDown :: "string \<Rightarrow> Executor \<Rightarrow> Executor" where
  "WithKeeperDown reason x = x\<lparr>x_keeperDown := reason\<rparr>"

definition WithDetachedScope :: "string \<Rightarrow> string \<Rightarrow> Executor \<Rightarrow> Executor" where
  "WithDetachedScope scope qualified x = x\<lparr>x_detachedScope := scope, x_detachedScopeP := qualified\<rparr>"

definition WithMaxLookback :: "duration \<Rightarrow> Executor \<Rightarrow> Executor" where
  "WithMaxLookback d x = x\<lparr>x_maxLookback := d\<rparr>"

definition WithMode :: "string \<Rightarrow> Executor \<Rightarrow> Executor" where
  "WithMode m x = x\<lparr>x_mode := m\<rparr>"

definition WithWindow :: "time \<Rightarrow> time \<Rightarrow> Executor \<Rightarrow> Executor" where
  "WithWindow f t x = x\<lparr>x_from := f, x_to := t\<rparr>"

definition WithOutputFormat :: "OutputFormat \<Rightarrow> Executor \<Rightarrow> Executor" where
  "WithOutputFormat f x = x\<lparr>x_format := f\<rparr>"

definition WithSalt :: "string \<Rightarrow> Executor \<Rightarrow> Executor" where
  "WithSalt s x = x\<lparr>x_salt := s\<rparr>"

definition outputFormat :: "Executor \<Rightarrow> OutputFormat" where
  "outputFormat x = (if of_Clause (x_format x) = [] then FormatJSONL else x_format x)"

text \<open>\<open>m_now\<close>: the clock when the budget is checked; \<open>m_query\<close>, \<open>m_total\<close>: how long the round trip and the whole
  query took; \<open>m_after\<close>: the clock when the watchdog observes it.\<close>

record moment =
  m_read :: "string \<Rightarrow> string + string"
  m_write :: "string \<Rightarrow> string \<Rightarrow> string option"
  m_http :: transport
  m_now :: time
  m_query :: duration
  m_total :: duration
  m_after :: time

datatype io = Net "http_request effect" | WriteFile string string

record RunState =
  s_client :: ClickHouseClient
  s_rec :: "Recorder option"
  s_watch :: "Watchdog option"
  s_io :: "io list"

definition lookback :: "Executor \<Rightarrow> Watchdog option \<Rightarrow> duration" where
  "lookback x w = (if x_maxLookback x > 0 then x_maxLookback x else if fst (Tripped w) then EssentialLookback else 0)"

definition query_vars :: "Executor \<Rightarrow> Watchdog option \<Rightarrow> Vars" where
  "query_vars x w = \<lparr>v_Mode = x_mode x, v_QueryID = [], v_NormalizedQueryHash = [], v_From = x_from x, v_To = x_to x,
     v_GovSalt = x_salt x, v_MaxLookback = lookback x w, v_DetachedScope = x_detachedScope x, v_DetachedScopeP = x_detachedScopeP x\<rparr>"

text \<open>From the file's content to the text that is sent, or the error that stops it.\<close>

definition prepare :: "OutputFormat \<Rightarrow> Vars \<Rightarrow> string \<Rightarrow> string \<Rightarrow> string + string" where
  "prepare f vars name content =
     (let sql = ApplyVars content vars; unbound = UnboundPlaceholders sql in
      if unbound \<noteq> [] then Inl (''query '' @ QUOTE # name @ QUOTE # '' has unbound placeholder(s) ['' @ str_join '' '' unbound @ '']'')
      else let sql = apply_format f sql in
        (case validate_query_content sql of
           Some e \<Rightarrow> Inl (''security validation failed for '' @ QUOTE # name @ QUOTE # '': '' @ validation_text e)
         | None \<Rightarrow> Inr sql))"

definition redactResult :: "string \<Rightarrow> string \<Rightarrow> string \<Rightarrow> string \<times> string" where
  "redactResult queryName ext result =
     (let fields = SensitiveCollectorFields queryName in
      if fields = [] then (result, [])
      else if ext \<noteq> ''.jsonl'' then (result, ''NOT redacted (non-JSONL format)'')
      else (case RedactJSONLFields result fields of (out, n) \<Rightarrow>
        (out, if n = 0 then [] else nat_str n @ '' credential(s) replaced with [HIDDEN]'')))"

definition count_rows :: "string \<Rightarrow> string \<Rightarrow> int" where
  "count_rows ext result =
     (if ext = ''.jsonl'' then int (count_byte result NL)
      else if ext = ''.tsv'' then (let rows = int (count_byte result NL) - 2 in if rows < 0 then 0 else rows)
      else - 1)"

definition collector_entry :: "QueryFile \<Rightarrow> string \<Rightarrow> duration \<Rightarrow> int \<Rightarrow> int \<Rightarrow> string \<Rightarrow> string \<Rightarrow> Entry" where
  "collector_entry q status d bytes rows extra err =
     \<lparr>e_Stage = ''collector'', e_Name = Name q, e_Source = DirName q, e_Status = status, e_Duration = d, e_Bytes = bytes,
      e_Rows = rows, e_Extra = extra, e_Error = err\<rparr>"

definition log_entry :: "Entry \<Rightarrow> RunState \<Rightarrow> RunState" where
  "log_entry e st = st\<lparr>s_rec := record_opt e (s_rec st)\<rparr>"

section \<open>One query\<close>

definition result_name :: "Executor \<Rightarrow> QueryFile \<Rightarrow> string \<Rightarrow> string" where
  "result_name x q timestamp = trim_suffix (Name q) (path_ext (Name q)) @ ''_'' @ timestamp @ of_Ext (outputFormat x)"

text \<open>After the answer: scrub it, write it, record it.\<close>

definition save_result :: "Executor \<Rightarrow> moment \<Rightarrow> QueryFile \<Rightarrow> string \<Rightarrow> string \<Rightarrow> string \<Rightarrow> RunState
    \<Rightarrow> string option \<times> RunState" where
  "save_result x m q outputDir timestamp answer st =
     (let ext = of_Ext (outputFormat x); (result, note) = redactResult (Name q) ext answer;
          file = result_name x q timestamp; path = outputDir @ ''/'' @ file;
          st = st\<lparr>s_io := s_io st @ [WriteFile path result]\<rparr>; bytes = int (length result)
      in case m_write m path result of
           Some e \<Rightarrow> (Some (''error saving result: '' @ e),
             log_entry (collector_entry q ''failed'' (m_query m) bytes (- 1) [] (''error saving result: '' @ e)) st)
         | None \<Rightarrow> (None,
             log_entry (collector_entry q ''ok'' (m_query m) bytes (count_rows ext result)
               (file @ (if note \<noteq> [] then ''; '' @ note else [])) []) st))"

definition executeQuery :: "Executor \<Rightarrow> moment \<Rightarrow> QueryFile \<Rightarrow> string \<Rightarrow> string \<Rightarrow> RunState \<Rightarrow> string option \<times> RunState" where
  "executeQuery x m q outputDir timestamp st =
     (case m_read m (FullPath q) of
        Inl e \<Rightarrow> (Some (''error reading query file: '' @ e),
          log_entry (collector_entry q ''failed'' 0 0 (- 1) [] (''error reading query file: '' @ e)) st)
      | Inr content \<Rightarrow>
          if content = [] then (None, log_entry (collector_entry q ''empty'' 0 0 (- 1) ''query file is empty'' []) st)
          else (case prepare (outputFormat x) (query_vars x (s_watch st)) (Name q) content of
             Inl e \<Rightarrow> (Some e, log_entry (collector_entry q ''failed'' 0 0 (- 1) [] e) st)
           | Inr sql \<Rightarrow>
               (case ExecuteQuery (m_http m) (s_client st) sql of (answer, c, fx) \<Rightarrow>
                  let st = st\<lparr>s_client := c, s_io := s_io st @ map Net fx\<rparr> in
                  (case answer of
                     Inl e \<Rightarrow> (Some (''error executing query: '' @ e),
                       log_entry (collector_entry q ''failed'' (m_query m) 0 (- 1) [] e) st)
                   | Inr text \<Rightarrow> save_result x m q outputDir timestamp text st))))"

section \<open>The run\<close>

record tieredQuery =
  tq_file :: QueryFile
  tq_tier :: string
  tq_needsKeeper :: bool

definition tiered :: "(string \<Rightarrow> string + string) \<Rightarrow> QueryFile \<Rightarrow> tieredQuery" where
  "tiered readf q = (case readf (FullPath q) of
     Inl _ \<Rightarrow> \<lparr>tq_file = q, tq_tier = TierFull, tq_needsKeeper = False\<rparr>
   | Inr b \<Rightarrow> \<lparr>tq_file = q, tq_tier = (case parse_tier b of Inl _ \<Rightarrow> TierFull | Inr t \<Rightarrow> t), tq_needsKeeper = needs_keeper b\<rparr>)"

text \<open>\<open>qs\<close>: the values of the map of selected queries, in the order of its iteration.\<close>

definition orderByTier :: "(string \<Rightarrow> string + string) \<Rightarrow> QueryFile list \<Rightarrow> tieredQuery list" where
  "orderByTier readf qs =
     sort_key (\<lambda>t. if tq_tier t = TierEssential then 0 else 1 :: nat) (sort_key (\<lambda>t. Name (tq_file t)) (map (tiered readf) qs))"

definition skip_entry :: "QueryFile \<Rightarrow> string \<Rightarrow> RunState \<Rightarrow> RunState" where
  "skip_entry q why st = log_entry (collector_entry q ''skipped'' 0 0 (- 1) why []) st"

text \<open>Why a collector is not run.\<close>

definition skip_reason :: "Executor \<Rightarrow> moment \<Rightarrow> tieredQuery \<Rightarrow> Watchdog option \<Rightarrow> string option" where
  "skip_reason x m t w =
     (if OverBudget (m_now m) w then Some (''time budget ('' @ dur_string (Budget w) @ '') spent before it ran'')
      else if x_keeperDown x \<noteq> [] \<and> tq_needsKeeper t then Some (''needs a live Keeper session '' @ em_dash @ '' '' @ x_keeperDown x)
      else if fst (Tripped w) \<and> tq_tier t \<noteq> TierEssential then Some (''essential collection: '' @ snd (Tripped w))
      else None)"

text \<open>The callback of the watchdog: the rest of the run is made gentle, and the log says so.\<close>

definition switchEssential :: "transport \<Rightarrow> bool \<Rightarrow> string \<Rightarrow> RunState \<Rightarrow> RunState" where
  "switchEssential http timeoutExplicit reason st =
     (case applyEssential http (s_client st) timeoutExplicit of (c, notes) \<Rightarrow>
        st\<lparr>s_client := c, s_io := s_io st @ map Net (essential_fx http (s_client st) timeoutExplicit),
           s_rec := map_option (SetMeta ''collect'' (''started full, switched to essential: '' @ reason @ '' '' @ em_dash @ '' '' @
             str_join ''; '' (notes @ [''1-day windows'', ''remaining full-tier collectors skipped'']))) (s_rec st)\<rparr>)"

text \<open>One turn of the loop of \<open>ExecuteQueries\<close>.\<close>

definition run_one :: "Executor \<Rightarrow> bool \<Rightarrow> string \<Rightarrow> string \<Rightarrow> moment \<Rightarrow> tieredQuery \<Rightarrow> RunState \<Rightarrow> RunState" where
  "run_one x timeoutExplicit outputDir timestamp m t st =
     (let q = tq_file t in
      case skip_reason x m t (s_watch st) of
        Some why \<Rightarrow> skip_entry q why st
      | None \<Rightarrow>
          (case executeQuery x m q outputDir timestamp st of (err, st) \<Rightarrow>
             (case Observe (m_after m) (Name q) (m_total m) err (s_watch st) of (w, fired) \<Rightarrow>
                let st = st\<lparr>s_watch := w\<rparr> in
                (case fired of None \<Rightarrow> st | Some reason \<Rightarrow> switchEssential (m_http m) timeoutExplicit reason st))))"

fun run_all :: "Executor \<Rightarrow> bool \<Rightarrow> string \<Rightarrow> string \<Rightarrow> (nat \<Rightarrow> moment) \<Rightarrow> tieredQuery list \<Rightarrow> RunState \<Rightarrow> RunState" where
  "run_all x te outputDir timestamp ms [] st = st"
| "run_all x te outputDir timestamp ms (t # ts) st =
     run_all x te outputDir timestamp (\<lambda>i. ms (Suc i)) ts (run_one x te outputDir timestamp (ms 0) t st)"

text \<open>\<open>ExecuteQueries\<close>: \<open>now\<close> is the clock at its start, \<open>readf\<close> and \<open>mkdir\<close> the file system before the loop.\<close>

definition ExecuteQueries :: "Executor \<Rightarrow> bool \<Rightarrow> time \<Rightarrow> (string \<Rightarrow> string + string) \<Rightarrow> (string \<Rightarrow> string option) \<Rightarrow> (nat \<Rightarrow> moment)
    \<Rightarrow> QueryFile list \<Rightarrow> string \<Rightarrow> RunState \<Rightarrow> (string + string) \<times> RunState" where
  "ExecuteQueries x te now readf mkdir ms queries outputDir st =
     (let finalOutputDir = outputDir @ ''/'' @ RunFolderName now in
      case mkdir finalOutputDir of
        Some e \<Rightarrow> (Inl (''error creating output directory: '' @ e), st)
      | None \<Rightarrow> (Inr finalOutputDir, run_all x te finalOutputDir (fmt_stamp now) ms (orderByTier readf queries) st))"

section \<open>What reaches the server and the disk\<close>

text \<open>A text that may be sent: a query that passed the checks of \<open>prepare\<close>, or in a dry run its estimate.\<close>

definition checked_query :: "OutputFormat \<Rightarrow> string \<Rightarrow> bool" where
  "checked_query f sql \<longleftrightarrow> validate_query_content sql = None \<and> (\<exists>bound. UnboundPlaceholders bound = [] \<and> sql = apply_format f bound)"

definition sendable :: "OutputFormat \<Rightarrow> string \<Rightarrow> bool" where
  "sendable f body \<longleftrightarrow> (\<exists>sql. checked_query f sql \<and>
     (body = sql \<or> body = ''EXPLAIN ESTIMATE '' @ stripTrailingFormatClause sql @ '' FORMAT PrettyCompactMonoBlock''))"

definition io_ok :: "Executor \<Rightarrow> string \<Rightarrow> string \<Rightarrow> QueryFile set \<Rightarrow> io \<Rightarrow> bool" where
  "io_ok x outputDir timestamp qs e = (case e of
     Net (Sent r) \<Rightarrow> sendable (outputFormat x) (q_body r) \<or> q_body r = ''SELECT 1''
   | Net (Printed _) \<Rightarrow> True
   | WriteFile path text \<Rightarrow> (\<exists>q\<in>qs. \<exists>answer. path = outputDir @ ''/'' @ result_name x q timestamp \<and>
       text = fst (redactResult (Name q) (of_Ext (outputFormat x)) answer)))"

lemma prepare_checked: "prepare f vars name content = Inr sql \<Longrightarrow> checked_query f sql"
  by (auto simp: prepare_def checked_query_def Let_def split: if_splits option.splits)

lemma ExecuteQuery_sends:
  assumes "ExecuteQuery http c sql = (r, c', fx)"
  shows "\<forall>q\<in>set (requests fx). q_body q = sql \<or>
    q_body q = ''EXPLAIN ESTIMATE '' @ stripTrailingFormatClause sql @ '' FORMAT PrettyCompactMonoBlock''"
proof (cases "c_dryRun c")
  case True
  with assms dry_run_requests [where http = http and c = c and q = sql]
  have "map q_body (requests fx) = (if c_dryEstimate c \<and> isExplainable sql
      then [''EXPLAIN ESTIMATE '' @ stripTrailingFormatClause sql @ '' FORMAT PrettyCompactMonoBlock''] else [])"
    by (simp add: ExecuteQuery_def)
  then show ?thesis by (auto simp: map_eq_Cons_conv split: if_splits)
next
  case False
  with assms show ?thesis
    by (auto simp: ExecuteQuery_def executeReal_def executeWith_def Let_def)
qed

lemma in_requests: "Sent r \<in> set fx \<Longrightarrow> r \<in> set (requests fx)"
  by (induction fx) (auto split: effect.splits simp: requests_def map_filter_simps)

lemma net_ok:
  assumes "ExecuteQuery http c sql = (r, c', fx)" "checked_query (outputFormat x) sql"
  shows "list_all (io_ok x outputDir timestamp qs) (map Net fx)"
  unfolding list_all_iff
proof
  fix e assume "e \<in> set (map Net fx)"
  then obtain n where e: "e = Net n" "n \<in> set fx" by auto
  show "io_ok x outputDir timestamp qs e"
  proof (cases n)
    case (Sent q)
    with e(2) have "q \<in> set (requests fx)" by (simp add: in_requests)
    with ExecuteQuery_sends [OF assms(1)] have "sendable (outputFormat x) (q_body q)"
      unfolding sendable_def using assms(2) by blast
    then show ?thesis by (simp add: io_ok_def e(1) Sent)
  qed (simp add: io_ok_def e(1))
qed

text \<open>What a step does to the state: it appends effects of the allowed kind and one entry to the log.\<close>

definition step_ok :: "Executor \<Rightarrow> string \<Rightarrow> string \<Rightarrow> QueryFile set \<Rightarrow> (Entry \<Rightarrow> bool) list \<Rightarrow> RunState \<Rightarrow> RunState \<Rightarrow> bool" where
  "step_ok x outputDir timestamp qs ps st st' \<longleftrightarrow>
     (\<exists>fx. s_io st' = s_io st @ fx \<and> list_all (io_ok x outputDir timestamp qs) fx) \<and>
     (case s_rec st of None \<Rightarrow> s_rec st' = None
      | Some r \<Rightarrow> \<exists>r' es. s_rec st' = Some r' \<and> r_entries r' = r_entries r @ es \<and> list_all2 (\<lambda>p e. p e) ps es)"

lemma step_ok_trans:
  assumes "step_ok x d ts qs ps st st'" "step_ok x d ts qs ps' st' st''"
  shows "step_ok x d ts qs (ps @ ps') st st''"
proof -
  from assms obtain fx fx' where fx: "s_io st'' = s_io st @ fx @ fx'" "list_all (io_ok x d ts qs) (fx @ fx')"
    by (auto simp: step_ok_def)
  show ?thesis
  proof (cases "s_rec st")
    case None
    with assms fx show ?thesis unfolding step_ok_def by auto
  next
    case (Some r)
    with assms(1) obtain r' es where r': "s_rec st' = Some r'" "r_entries r' = r_entries r @ es" "list_all2 (\<lambda>p e. p e) ps es"
      by (auto simp: step_ok_def)
    with assms(2) obtain r'' es' where r'': "s_rec st'' = Some r''" "r_entries r'' = r_entries r' @ es'" "list_all2 (\<lambda>p e. p e) ps' es'"
      by (auto simp: step_ok_def)
    with r' have "r_entries r'' = r_entries r @ es @ es'" "list_all2 (\<lambda>p e. p e) (ps @ ps') (es @ es')"
      by (auto intro: list_all2_appendI)
    with Some r''(1) fx show ?thesis unfolding step_ok_def by auto
  qed
qed

lemma step_ok_refl: "step_ok x d ts qs [] st st"
  by (auto simp: step_ok_def split: option.splits)

lemma step_ok_log:
  assumes "list_all (io_ok x d ts qs) fx" "s_io st' = s_io st @ fx" "s_rec st' = s_rec st"
    "\<And>r. \<exists>e'. r_entries (RecordEntry e r) = r_entries r @ [e'] \<and> p e'"
  shows "step_ok x d ts qs [p] st (log_entry e st')"
proof (cases "s_rec st")
  case None
  with assms show ?thesis by (auto simp: step_ok_def log_entry_def record_opt_def)
next
  case (Some r)
  from assms(4) [of r] obtain e' where "r_entries (RecordEntry e r) = r_entries r @ [e']" "p e'" by blast
  with Some assms(1-3) show ?thesis by (auto simp: step_ok_def log_entry_def record_opt_def)
qed

definition about :: "QueryFile \<Rightarrow> string list \<Rightarrow> Entry \<Rightarrow> bool" where
  "about q statuses e \<longleftrightarrow> e_Stage e = ''collector'' \<and> e_Name e = Name q \<and> e_Source e = DirName q \<and> e_Status e \<in> set statuses"

lemma record_about:
  "status \<in> set statuses \<Longrightarrow>
    \<exists>e'. r_entries (RecordEntry (collector_entry q status d b n extra err) r) = r_entries r @ [e'] \<and> about q statuses e'"
  by (simp add: RecordEntry_def Let_def about_def collector_entry_def)

lemma save_result_step:
  assumes "q \<in> qs"
  shows "step_ok x d ts qs [about q [''ok'', ''failed'']] st (snd (save_result x m q d ts answer st))"
    and "s_watch (snd (save_result x m q d ts answer st)) = s_watch st"
proof -
  obtain out nt where r: "redactResult (Name q) (of_Ext (outputFormat x)) answer = (out, nt)" by fastforce
  let ?fx = "[WriteFile (d @ ''/'' @ result_name x q ts) out]"
  have fx: "list_all (io_ok x d ts qs) ?fx"
    using assms r by (auto simp: io_ok_def intro!: bexI [of _ q] exI [of _ answer])
  show "step_ok x d ts qs [about q [''ok'', ''failed'']] st (snd (save_result x m q d ts answer st))"
    by (cases "m_write m (d @ ''/'' @ result_name x q ts) out")
      (auto simp: save_result_def Let_def r intro!: step_ok_log [OF fx] record_about)
  show "s_watch (snd (save_result x m q d ts answer st)) = s_watch st"
    by (auto simp: save_result_def Let_def r log_entry_def split: option.splits)
qed

lemma executeQuery_step:
  assumes "q \<in> qs"
  shows "step_ok x d ts qs [about q [''ok'', ''failed'', ''empty'']] st (snd (executeQuery x m q d ts st))"
    and "s_watch (snd (executeQuery x m q d ts st)) = s_watch st"
proof -
  let ?P = "\<lambda>st'. step_ok x d ts qs [about q [''ok'', ''failed'', ''empty'']] st st' \<and> s_watch st' = s_watch st"
  have log: "?P (log_entry (collector_entry q status dur b n extra err) st')"
    if "list_all (io_ok x d ts qs) fx" "s_io st' = s_io st @ fx" "s_rec st' = s_rec st" "s_watch st' = s_watch st"
      "status \<in> set [''ok'', ''failed'', ''empty'']" for status dur b n extra err st' fx
  proof
    show "step_ok x d ts qs [about q [''ok'', ''failed'', ''empty'']] st (log_entry (collector_entry q status dur b n extra err) st')"
      using that(1-3) by (rule step_ok_log) (rule record_about [OF that(5)])
  qed (use that(4) in \<open>simp add: log_entry_def\<close>)
  note log0 = log [of "[]" st, simplified]
  have "?P (snd (executeQuery x m q d ts st))"
  proof (cases "m_read m (FullPath q)")
    case (Inr content)
    show ?thesis
    proof (cases "content = []")
      case False
      show ?thesis
      proof (cases "prepare (outputFormat x) (query_vars x (s_watch st)) (Name q) content")
        case (Inr sql)
        obtain answer c fx where e: "ExecuteQuery (m_http m) (s_client st) sql = (answer, c, fx)" by (metis prod_cases3)
        let ?st = "st\<lparr>s_client := c, s_io := s_io st @ map Net fx\<rparr>"
        have fx: "list_all (io_ok x d ts qs) (map Net fx)" by (rule net_ok [OF e prepare_checked [OF Inr]])
        have st: "step_ok x d ts qs [] st ?st" using fx by (auto simp: step_ok_def split: option.splits)
        show ?thesis
        proof (cases answer)
          case (Inl err)
          show ?thesis
            using log [OF fx, of ?st "''failed''"] \<open>m_read m (FullPath q) = Inr content\<close> False \<open>prepare _ _ _ _ = Inr sql\<close> e Inl
            by (simp add: executeQuery_def Let_def)
        next
          case (Inr body)
          note s = save_result_step [OF assms, where x = x and d = d and ts = ts and st = ?st and m = m and answer = body]
          have "step_ok x d ts qs [about q [''ok'', ''failed'', ''empty'']] ?st (snd (save_result x m q d ts body ?st))"
            using s(1) unfolding step_ok_def by (auto simp: about_def list_all2_Cons1 split: option.splits)
          with step_ok_trans [OF st] s(2)
          show ?thesis
            using \<open>m_read m (FullPath q) = Inr content\<close> False \<open>prepare _ _ _ _ = Inr sql\<close> e Inr
            by (simp add: executeQuery_def Let_def)
        qed
      qed (use log0 Inr False in \<open>simp add: executeQuery_def\<close>)
    qed (use log0 Inr in \<open>simp add: executeQuery_def\<close>)
  qed (use log0 in \<open>simp add: executeQuery_def\<close>)
  then show "step_ok x d ts qs [about q [''ok'', ''failed'', ''empty'']] st (snd (executeQuery x m q d ts st))"
    and "s_watch (snd (executeQuery x m q d ts st)) = s_watch st" by blast+
qed

lemma switch_state [simp]:
  "s_io (switchEssential http te reason st) = s_io st @ map Net (essential_fx http (s_client st) te)"
  "s_watch (switchEssential http te reason st) = s_watch st"
  "s_rec (switchEssential http te reason st) = None \<longleftrightarrow> s_rec st = None"
  by (simp_all add: switchEssential_def split: prod.splits)

lemma switch_io: "list_all (io_ok x d ts qs) (map Net (essential_fx http c te))"
  using essential_fx_sent [of _ http c te] by (fastforce simp: list_all_iff io_ok_def)

lemma switch_entries: "s_rec st = Some r \<Longrightarrow>
    \<exists>r'. s_rec (switchEssential http te reason st) = Some r' \<and> r_entries r' = r_entries r"
  by (simp add: switchEssential_def SetMeta_def split: prod.splits)

text \<open>What a collector leaves in the log, given whether it was skipped.\<close>

lemma run_one_step:
  assumes "tq_file t \<in> qs"
  shows "step_ok x d ts qs [about (tq_file t) (if skip_reason x m t (s_watch st) = None then [''ok'', ''failed'', ''empty'']
      else [''skipped''])] st (run_one x te d ts m t st)"
proof (cases "skip_reason x m t (s_watch st)")
  case (Some why)
  have "step_ok x d ts qs [about (tq_file t) [''skipped'']] st (skip_entry (tq_file t) why st)"
    unfolding skip_entry_def by (rule step_ok_log [of _ _ _ _ "[]"]) (auto intro: record_about)
  with Some show ?thesis by (simp add: run_one_def Let_def)
next
  case None
  obtain err st1 where e: "executeQuery x m (tq_file t) d ts st = (err, st1)" by fastforce
  have s1: "step_ok x d ts qs [about (tq_file t) [''ok'', ''failed'', ''empty'']] st st1"
    using executeQuery_step(1) [OF assms, of x d ts st m] by (simp add: e)
  obtain w fired where o: "Observe (m_after m) (Name (tq_file t)) (m_total m) err (s_watch st1) = (w, fired)" by fastforce
  have "step_ok x d ts qs [] st1 (run_one x te d ts m t st)"
    using None e o switch_entries switch_io by (cases fired) (auto simp: run_one_def Let_def step_ok_def split: option.splits)
  from step_ok_trans [OF s1 this] None show ?thesis by simp
qed

definition ran_or_skipped :: "tieredQuery \<Rightarrow> Entry \<Rightarrow> bool" where
  "ran_or_skipped t = about (tq_file t) [''ok'', ''failed'', ''empty'', ''skipped'']"

lemma step_ok_mono:
  assumes "step_ok x d ts qs [p] st st'" "\<And>e. p e \<Longrightarrow> p' e"
  shows "step_ok x d ts qs [p'] st st'"
  using assms(1) unfolding step_ok_def
proof (elim conjE, intro conjI)
  assume "case s_rec st of None \<Rightarrow> s_rec st' = None
    | Some r \<Rightarrow> \<exists>r' es. s_rec st' = Some r' \<and> r_entries r' = r_entries r @ es \<and> list_all2 (\<lambda>p. p) [p] es"
  with assms(2) show "case s_rec st of None \<Rightarrow> s_rec st' = None
    | Some r \<Rightarrow> \<exists>r' es. s_rec st' = Some r' \<and> r_entries r' = r_entries r @ es \<and> list_all2 (\<lambda>p. p) [p'] es"
    by (auto simp: list_all2_Cons1 split: option.splits)
qed

lemma run_all_step:
  "tq_file ` set tqs \<subseteq> qs \<Longrightarrow> step_ok x d ts qs (map ran_or_skipped tqs) st (run_all x te d ts ms tqs st)"
proof (induction tqs arbitrary: ms st)
  case (Cons t tqs)
  then have "step_ok x d ts qs [ran_or_skipped t] st (run_one x te d ts (ms 0) t st)"
    by (intro step_ok_mono [OF run_one_step]) (auto simp: ran_or_skipped_def about_def split: if_splits)
  from step_ok_trans [OF this Cons.IH] Cons.prems show ?case by simp
qed (simp add: step_ok_refl)

lemma set_order [simp]: "set (orderByTier readf qs) = tiered readf ` set qs"
  by (simp add: orderByTier_def)

lemma file_tiered [simp]: "tq_file (tiered readf q) = q"
  by (simp add: tiered_def split: sum.splits)

lemma execute_step:
  assumes "ExecuteQueries x te now readf mkdir ms queries outputDir st = (Inr dir, st')"
  shows "step_ok x dir (fmt_stamp now) (set queries) (map ran_or_skipped (orderByTier readf queries)) st st'"
  using assms run_all_step [of "orderByTier readf queries" "set queries" x dir "fmt_stamp now" st te ms]
  by (auto simp: ExecuteQueries_def Let_def image_image split: option.splits)


text \<open>C10: A run with a recorder adds to its log exactly one entry per selected query, in the order of
  \<open>orderByTier\<close>, under the query's name, with one of the statuses ok, failed, empty or skipped.\<close>

theorem run_logs_every_query:
  "case ExecuteQueries x te now readf mkdir ms queries outputDir (st\<lparr>s_rec := Some r\<rparr>) of (res, st') \<Rightarrow>
     (case res of
        Inl _ \<Rightarrow> s_rec st' = Some r
      | Inr dir \<Rightarrow> \<exists>r' es. s_rec st' = Some r' \<and> r_entries r' = r_entries r @ es \<and>
          list_all2 ran_or_skipped (orderByTier readf queries) es)"
proof -
  obtain res st' where e: "ExecuteQueries x te now readf mkdir ms queries outputDir (st\<lparr>s_rec := Some r\<rparr>) = (res, st')" by fastforce
  show ?thesis
  proof (cases res)
    case (Inl a)
    with e show ?thesis by (auto simp: ExecuteQueries_def Let_def split: option.splits)
  next
    case (Inr dir)
    with execute_step [of x te now readf mkdir ms queries outputDir "st\<lparr>s_rec := Some r\<rparr>" dir st'] e show ?thesis
      by (simp add: step_ok_def list_all2_map1)
  qed
qed

section \<open>Essential from some point on\<close>

definition tripped :: "RunState \<Rightarrow> bool" where
  "tripped st \<longleftrightarrow> fst (Tripped (s_watch st))"

lemma run_one_watch:
  "s_watch (run_one x te d ts m t st) =
    (case skip_reason x m t (s_watch st) of Some _ \<Rightarrow> s_watch st
     | None \<Rightarrow> fst (Observe (m_after m) (Name (tq_file t)) (m_total m)
        (fst (executeQuery x m (tq_file t) d ts st)) (s_watch st)))"
proof -
  have "s_watch (snd (executeQuery x m (tq_file t) d ts st)) = s_watch st"
    by (rule executeQuery_step(2) [of _ UNIV]) simp
  then show ?thesis
    by (auto simp: run_one_def Let_def skip_entry_def log_entry_def split: option.splits prod.splits)
qed

lemma tripped_stays: "tripped st \<Longrightarrow> s_watch (run_one x te d ts m t st) = s_watch st"
  by (auto simp: run_one_watch tripped_def Tripped_def Observe_def on_watchdog_def observe_def split: option.splits)

definition not_run :: "QueryFile \<Rightarrow> Entry \<Rightarrow> bool" where
  "not_run q = about q [''skipped'']"

lemma essential_run_step:
  "tripped st \<Longrightarrow> step_ok x d ts UNIV
     (map (\<lambda>t. if tq_tier t = TierEssential then ran_or_skipped t else not_run (tq_file t)) tqs) st (run_all x te d ts ms tqs st)"
proof (induction tqs arbitrary: ms st)
  case (Cons t tqs)
  have "skip_reason x (ms 0) t (s_watch st) \<noteq> None" if "tq_tier t \<noteq> TierEssential"
    using that Cons.prems by (simp add: skip_reason_def tripped_def)
  then have "step_ok x d ts UNIV [if tq_tier t = TierEssential then ran_or_skipped t else not_run (tq_file t)]
      st (run_one x te d ts (ms 0) t st)"
    by (intro step_ok_mono [OF run_one_step]) (auto simp: ran_or_skipped_def not_run_def about_def split: if_splits)
  moreover have "tripped (run_one x te d ts (ms 0) t st)" using Cons.prems tripped_stays by (simp add: tripped_def)
  ultimately show ?case using step_ok_trans Cons.IH by fastforce
qed (simp add: step_ok_refl)

text \<open>Once the watchdog has tripped, however and whenever that happened, no collector of the full tier runs any more:
  of the collectors that are left each essential one is run or skipped, and every other is logged as skipped.\<close>

theorem essential_from_trip_on:
  assumes "s_rec (run_all x te d ts ms done st) = Some r" "tripped (run_all x te d ts ms done st)"
  shows "\<exists>r' es. s_rec (run_all x te d ts ms (done @ left) st) = Some r' \<and> r_entries r' = r_entries r @ es \<and>
    list_all2 (\<lambda>t e. if tq_tier t = TierEssential then ran_or_skipped t e else not_run (tq_file t) e) left es"
proof -
  have "run_all x te d ts ms (done @ left) st =
      run_all x te d ts (\<lambda>i. ms (length done + i)) left (run_all x te d ts ms done st)" for ms
    by (induction "done" arbitrary: ms st) simp_all
  then show ?thesis
    using essential_run_step [OF assms(2), of x d ts left te "\<lambda>i. ms (length done + i)"] assms(1)
    by (auto simp: step_ok_def list_all2_map1 if_distribR intro: list_all2_mono)
qed

section \<open>The order of the collectors\<close>

definition tier_rank :: "tieredQuery \<Rightarrow> nat" where
  "tier_rank t = (if tq_tier t = TierEssential then 0 else 1)"

definition before :: "tieredQuery \<Rightarrow> tieredQuery \<Rightarrow> bool" where
  "before a b \<longleftrightarrow> tier_rank a < tier_rank b \<or> tier_rank a = tier_rank b \<and> Name (tq_file a) < Name (tq_file b)"

lemma sort_key_sorted_wrt:
  fixes f :: "'a \<Rightarrow> 'b::linorder" and g :: "'a \<Rightarrow> 'c::linorder"
  assumes "sorted (map g xs)"
  shows "sorted_wrt (\<lambda>a b. f a < f b \<or> f a = f b \<and> g a \<le> g b) (sort_key f xs)"
proof -
  have st: "filter (\<lambda>y. f y = k) (sort_key f xs) = filter (\<lambda>y. f y = k) xs" for k
    using sort_key_stable [of f k xs] by (simp add: eq_commute)
  show ?thesis
    unfolding sorted_wrt_iff_nth_less
  proof (intro allI impI)
    fix i j assume ij: "i < j" "j < length (sort_key f xs)"
    let ?ys = "sort_key f xs"
    have le: "f (?ys ! i) \<le> f (?ys ! j)"
      using sorted_nth_mono [of "map f ?ys" i j] ij by (simp add: sorted_sort_key)
    show "f (?ys ! i) < f (?ys ! j) \<or> f (?ys ! i) = f (?ys ! j) \<and> g (?ys ! i) \<le> g (?ys ! j)"
    proof (cases "f (?ys ! i) = f (?ys ! j)")
      case True
      have split: "?ys = take j ?ys @ ?ys ! j # drop (Suc j) ?ys" using ij(2) by (rule id_take_nth_drop)
      let ?P = "\<lambda>y. f y = f (?ys ! j)"
      have "sorted (map g (filter ?P ?ys))" unfolding st using assms by (rule sorted_filter)
      moreover have "filter ?P ?ys = filter ?P (take j ?ys) @ ?ys ! j # filter ?P (drop (Suc j) ?ys)"
        by (subst split) simp
      moreover have "?ys ! i \<in> set (filter ?P (take j ?ys))"
        using ij True by (auto simp: in_set_conv_nth intro!: exI [of _ i])
      ultimately have "g (?ys ! i) \<le> g (?ys ! j)" by (auto simp: sorted_append)
      with True show ?thesis by simp
    qed (use le in simp)
  qed
qed

lemma sorted_wrt_distinct: "distinct (map f xs) \<Longrightarrow> sorted_wrt P xs \<Longrightarrow> sorted_wrt (\<lambda>a b. P a b \<and> f a \<noteq> f b) xs"
  by (induction xs) auto

lemma sorted_wrt_unique:
  assumes "\<And>a b. P a b \<Longrightarrow> \<not> P b a"
  shows "sorted_wrt P xs \<Longrightarrow> sorted_wrt P ys \<Longrightarrow> mset xs = mset ys \<Longrightarrow> xs = ys"
proof (induction xs arbitrary: ys)
  case (Cons x xs)
  then obtain y zs where ys: "ys = y # zs" by (cases ys) auto
  have "x = y"
  proof (rule ccontr)
    assume "x \<noteq> y"
    with Cons.prems(3) ys have "x \<in> set zs" "y \<in> set xs"
      by (metis insert_iff list.set(2) set_mset_mset)+
    with Cons.prems(1,2) ys assms show False by auto
  qed
  with Cons ys show ?case by simp
qed simp

lemma orderByTier_unique:
  assumes "distinct (map Name qs)"
  shows "(mset l = mset (map (tiered readf) qs) \<and> sorted_wrt before l) \<longleftrightarrow> l = orderByTier readf qs"
proof -
  let ?o = "orderByTier readf qs"
  have m: "mset ?o = mset (map (tiered readf) qs)" by (simp add: orderByTier_def)
  have names: "map (Name \<circ> tq_file) (map (tiered readf) qs) = map Name qs" by (simp add: o_def)
  let ?le = "\<lambda>a b. tier_rank a < tier_rank b \<or> tier_rank a = tier_rank b \<and> Name (tq_file a) \<le> Name (tq_file b)"
  have le: "sorted_wrt ?le ?o"
    unfolding orderByTier_def tier_rank_def [symmetric] by (rule sort_key_sorted_wrt) simp
  have d: "distinct (map (Name \<circ> tq_file) ?o)"
  proof -
    have "mset (map (Name \<circ> tq_file) ?o) = mset (map Name qs)" unfolding names [symmetric] mset_map m ..
    with assms show ?thesis by (metis mset_eq_imp_distinct_iff)
  qed
  have "before a b" if "?le a b \<and> (Name \<circ> tq_file) a \<noteq> (Name \<circ> tq_file) b" for a b
    using that unfolding before_def o_def by (meson order.not_eq_order_implies_strict)
  then have s: "sorted_wrt before ?o"
    using sorted_wrt_mono_rel [OF _ sorted_wrt_distinct [OF d le], of before] by blast
  have "\<not> before b a" if "before a b" for a b using that by (auto simp: before_def)
  note unique = sorted_wrt_unique [of before l ?o, OF this _ s]
  show ?thesis
  proof
    assume "mset l = mset (map (tiered readf) qs) \<and> sorted_wrt before l"
    then show "l = ?o" using unique m by simp
  next
    assume "l = ?o"
    then show "mset l = mset (map (tiered readf) qs) \<and> sorted_wrt before l" using m s by (simp only:)
  qed
qed

text \<open>The order of the collectors does not depend on the order of the map they come from: for names that are all
  different there is exactly one list of the collectors, each once, with the essential ones before the others and
  by name within each group, and \<open>orderByTier\<close> gives it.\<close>

theorem order_unique:
  "distinct (map Name qs) \<Longrightarrow>
    (mset l = mset (map (tiered readf) qs) \<and> sorted_wrt before l) \<longleftrightarrow> l = orderByTier readf qs"
  by (rule orderByTier_unique)

lemma order_unique_witness:
  "orderByTier (\<lambda>p. if p = ''b'' then Inr ''-- tier: essential'' else Inl ''gone'')
      [\<lparr>Path = ''a'', Name = ''a'', DirName = [], FullPath = ''a''\<rparr>, \<lparr>Path = ''b'', Name = ''b'', DirName = [], FullPath = ''b''\<rparr>]
    = orderByTier (\<lambda>p. if p = ''b'' then Inr ''-- tier: essential'' else Inl ''gone'')
      [\<lparr>Path = ''b'', Name = ''b'', DirName = [], FullPath = ''b''\<rparr>, \<lparr>Path = ''a'', Name = ''a'', DirName = [], FullPath = ''a''\<rparr>]"
    (is "orderByTier ?f [?a, ?b] = orderByTier ?f [?b, ?a]")
proof -
  have "mset (orderByTier ?f [?a, ?b]) = mset (map (tiered ?f) [?b, ?a]) \<and> sorted_wrt before (orderByTier ?f [?a, ?b])"
    using order_unique [of "[?a, ?b]" "orderByTier ?f [?a, ?b]" ?f] by (simp add: add_mset_commute)
  then show ?thesis using order_unique [of "[?b, ?a]" "orderByTier ?f [?a, ?b]" ?f] by simp
qed

lemma essential_from_trip_on_witness:
  "\<forall>ms. let q = \<lparr>Path = ''a'', Name = ''a'', DirName = [], FullPath = ''a''\<rparr>; t = \<lparr>tq_file = q, tq_tier = TierFull, tq_needsKeeper = False\<rparr>;
     st = \<lparr>s_client = NewClickHouseClient ''http'' ''h'' ''8123'' ''u'' ''p'', s_rec = Some (NewRecorder 0),
       s_watch = Some ((NewWatchdog 0)\<lparr>w_tripped := True\<rparr>), s_io = []\<rparr>
   in map_option (map e_Status \<circ> r_entries) (s_rec (run_all NewExecutor False ''d'' ''t'' ms [t] st)) = Some [''skipped'']"
proof
  fix ms
  let ?q = "\<lparr>Path = ''a'', Name = ''a'', DirName = [], FullPath = ''a''\<rparr>"
  let ?t = "\<lparr>tq_file = ?q, tq_tier = TierFull, tq_needsKeeper = False\<rparr>"
  let ?st = "\<lparr>s_client = NewClickHouseClient ''http'' ''h'' ''8123'' ''u'' ''p'', s_rec = Some (NewRecorder 0),
    s_watch = Some ((NewWatchdog 0)\<lparr>w_tripped := True\<rparr>), s_io = []\<rparr>"
  have "TierFull \<noteq> TierEssential" by code_simp
  with essential_from_trip_on [of NewExecutor False "''d''" "''t''" ms "[]" ?st "NewRecorder 0" "[?t]"]
  show "let q = ?q; t = \<lparr>tq_file = q, tq_tier = TierFull, tq_needsKeeper = False\<rparr>; st = ?st
    in map_option (map e_Status \<circ> r_entries) (s_rec (run_all NewExecutor False ''d'' ''t'' ms [t] st)) = Some [''skipped'']" by (auto simp: tripped_def Tripped_def NewRecorder_def not_run_def about_def list_all2_Cons1)
qed

text \<open>A mistyped tier is dropped here: the collector silently counts as one of the full tier.\<close>

lemma mistyped_tier_is_full:
  "parse_tier ''--tier:x'' = Inl ''x'' \<and> tq_tier (tiered (\<lambda>_. Inr ''--tier:x'') q) = TierFull"
proof -
  have "parse_tier ''--tier:x'' = Inl ''x''" by code_simp
  then show ?thesis by (simp add: tiered_def)
qed

section \<open>The manager\<close>

text \<open>\<open>Manager.ExecuteQueries\<close>: \<open>dirError\<close> is the outcome of \<open>ValidateQueryDirectory\<close>, \<open>ks\<close> the order in which the map of
  selected files is iterated.\<close>

definition validateQueryDirectory :: "string \<Rightarrow> (string + nat) option \<Rightarrow> string option" where
  "validateQueryDirectory dir listing = (case listing of
     None \<Rightarrow> Some (''queries directory '' @ QUOTE # dir @ QUOTE # '' does not exist'')
   | Some (Inl e) \<Rightarrow> Some (''error checking directory contents: '' @ e)
   | Some (Inr n) \<Rightarrow> (if n = 0 then Some (''queries directory '' @ QUOTE # dir @ QUOTE # '' is empty'') else None))"

record Manager =
  mg_format :: OutputFormat
  mg_from :: time
  mg_to :: time
  mg_mode :: string
  mg_lookback :: duration
  mg_scope :: "string \<times> string"
  mg_keeperDn :: string

definition NewManager :: Manager where
  "NewManager = \<lparr>mg_format = FormatJSONL, mg_from = zero_time, mg_to = zero_time, mg_mode = [], mg_lookback = 0,
     mg_scope = ([], []), mg_keeperDn = []\<rparr>"

definition manager_executor :: "Manager \<Rightarrow> string \<Rightarrow> Executor" where
  "manager_executor mg salt =
     WithKeeperDown (mg_keeperDn mg) (WithDetachedScope (fst (mg_scope mg)) (snd (mg_scope mg)) (WithMaxLookback (mg_lookback mg)
       (WithMode (mg_mode mg) (WithWindow (mg_from mg) (mg_to mg) (WithOutputFormat (mg_format mg) (WithSalt salt NewExecutor))))))"

definition ManagerExecuteQueries :: "Manager \<Rightarrow> bool \<Rightarrow> time \<Rightarrow> (string \<Rightarrow> string + string) \<Rightarrow> (string \<Rightarrow> string option) \<Rightarrow> (nat \<Rightarrow> moment)
    \<Rightarrow> string list \<Rightarrow> (string + nat) option \<Rightarrow> string \<Rightarrow> fsnode \<Rightarrow> Version \<Rightarrow> string \<Rightarrow> string \<Rightarrow> RunState \<Rightarrow> (string + string) \<times> RunState" where
  "ManagerExecuteQueries mg te now readf mkdir ms ks listing queriesDir tree serverVersion outputDir salt st =
     (case validateQueryDirectory queriesDir listing of
        Some e \<Rightarrow> (Inl (''query directory validation failed: '' @ e), st)
      | None \<Rightarrow> (case find_compatible_queries queriesDir tree serverVersion of
          Inl e \<Rightarrow> (Inl (''error finding query files: '' @ e), st)
        | Inr allQueries \<Rightarrow>
            if allQueries = [] then
              (Inl (''no suitable query files found in '' @ QUOTE # queriesDir @ QUOTE # '' or its subdirectories''), st)
            else (case ExecuteQueries (manager_executor mg salt) te now readf mkdir ms
                (List.map_filter (select_highest_priority_queries allQueries) ks) outputDir st of
              (Inl e, st) \<Rightarrow> (Inl (''error executing queries: '' @ e), st)
            | (Inr dir, st) \<Rightarrow> (Inr dir, st))))"

definition GetQuerySummary :: "string list \<Rightarrow> string \<Rightarrow> fsnode \<Rightarrow> Version \<Rightarrow> string + (string \<rightharpoonup> nat)" where
  "GetQuerySummary ks queriesDir tree serverVersion =
     (case find_compatible_queries queriesDir tree serverVersion of
        Inl e \<Rightarrow> Inl e
      | Inr allQueries \<Rightarrow> Inr (\<lambda>g. map_option length
          (group_queries_by_type (select_highest_priority_queries allQueries) ks g)))"

text \<open>A run of the manager is determined by the files and the server: iterating the map of selected queries in another
  order gives the same result, the same requests and files and the same log.\<close>

lemma manager_deterministic:
  assumes "distinct ks" "distinct ks'" "set ks = set ks'"
  shows "ManagerExecuteQueries mg te now readf mkdir ms ks listing queriesDir tree v outputDir salt st
    = ManagerExecuteQueries mg te now readf mkdir ms ks' listing queriesDir tree v outputDir salt st"
proof -
  have "orderByTier readf (List.map_filter (select_highest_priority_queries all) ks)
      = orderByTier readf (List.map_filter (select_highest_priority_queries all) ks')"
    if f: "find_compatible_queries queriesDir tree v = Inr all" for all
  proof -
    let ?m = "select_highest_priority_queries all"
    have names: "map Name (List.map_filter ?m l) = filter (\<lambda>k. ?m k \<noteq> None) l" for l
      using select_name [OF _ find_compatible_ok [OF f]] by (induction l) (auto simp: List.map_filter_def)
    have "mset ks = mset ks'" using assms by (simp add: set_eq_iff_mset_eq_distinct)
    then have mf: "mset (List.map_filter ?m ks) = mset (List.map_filter ?m ks')"
      by (simp add: List.map_filter_def)
    then show ?thesis
      using orderByTier_unique [of "List.map_filter ?m ks'" "orderByTier readf (List.map_filter ?m ks)" readf]
        orderByTier_unique [of "List.map_filter ?m ks" "orderByTier readf (List.map_filter ?m ks)" readf]
        assms(1,2) by (simp add: names)
  qed
  then show ?thesis
    by (cases "validateQueryDirectory queriesDir listing"; cases "find_compatible_queries queriesDir tree v";
        cases "mkdir (outputDir @ ''/'' @ RunFolderName now)")
      (simp_all add: ManagerExecuteQueries_def ExecuteQueries_def Let_def)
qed

end
