(* ===== verification/QueryInputs.thy ===== *)
theory QueryInputs
  imports QueryTemplate Versions
begin

text \<open>
  The checks of the operator's input before it is spliced into SQL: query ids and hashes
  (\<open>internal/query/analysis.go\<close>), times and time windows, the text-log options
  (\<open>internal/query/textlog.go\<close>) and the salt of gov mode (\<open>internal/gov_mapping.go\<close>).
  The anchored patterns are shown to be plain conditions on the text.
\<close>

section \<open>Anchored patterns\<close>

definition is_hex :: "char \<Rightarrow> bool" where
  "is_hex c \<longleftrightarrow> is_digit c \<or> in_range 97 102 c \<or> in_range 65 70 c"

lemma is_hex_Char [simp, code]: "is_hex (Char b0 b1 b2 b3 b4 b5 b6 b7) \<longleftrightarrow>
   \<not> b7 \<and> (if b6 then \<not> b4 \<and> \<not> b3 \<and> (b0 \<or> b1 \<or> b2) \<and> \<not> (b0 \<and> b1 \<and> b2)
            else b5 \<and> b4 \<and> \<not> (b3 \<and> (b2 \<or> b1)))"
  by (cases b0; cases b1; cases b2; cases b3; cases b4; cases b5; cases b6; cases b7)
    (simp_all add: is_hex_def is_digit_def in_range_def code_def)

text \<open>\<open>^[0-9a-fA-F]{8}-...{4}-...{4}-...{4}-...{12}$\<close>, \<open>^[0-9]{1,20}$\<close> and \<open>^[A-Za-z0-9]{8,64}$\<close>\<close>

definition re_query_id :: re where
  "re_query_id = seqs [Bot, times 8 (Cls is_hex), lit ''-'', times 4 (Cls is_hex), lit ''-'', times 4 (Cls is_hex),
     lit ''-'', times 4 (Cls is_hex), lit ''-'', times 12 (Cls is_hex), Eot]"

definition re_normalized_hash :: re where
  "re_normalized_hash = seqs [Bot, Cls is_digit, upto_n 19 (Cls is_digit), Eot]"

definition re_gov_salt :: re where
  "re_gov_salt = seqs [Bot, times 8 (Cls is_alnum), upto_n 56 (Cls is_alnum), Eot]"

lemma match_string_Bot: "match_string (Seq Bot r) s \<longleftrightarrow> matches r (M 0 None s []) \<noteq> []"
  by (auto simp: match_string_iff)

lemma matches_times_Seq: "matches (Seq (times n (Cls p)) r) st \<noteq> [] \<longleftrightarrow>
    n \<le> length (mrest st) \<and> list_all p (take n (mrest st)) \<and> matches r (adv n st) \<noteq> []"
  unfolding matches_Seq_ex matches_times by auto

lemma matches_upto_Eot: "matches (Seq (upto_n n (Cls p)) Eot) st \<noteq> [] \<longleftrightarrow>
    length (mrest st) \<le> n \<and> list_all p (mrest st)"
proof -
  have all: "length s \<le> length (takeWhile p s) \<longleftrightarrow> list_all p s" for s
  proof
    assume "length s \<le> length (takeWhile p s)"
    then have "takeWhile p s = s" by (metis takeWhile_eq_take take_all)
    then show "list_all p s" by (metis list_all_takeWhile)
  next
    assume "list_all p s"
    then have "takeWhile p s = s" using takeWhile_list_all [of p s "[]"] by (simp only: append_Nil2 takeWhile.simps)
    then show "length s \<le> length (takeWhile p s)" by (simp only: order.refl)
  qed
  have "matches (Seq (upto_n n (Cls p)) Eot) st \<noteq> [] \<longleftrightarrow>
      length (mrest st) \<le> min n (length (takeWhile p (mrest st)))"
    unfolding matches_Seq_ex matches_upto by (auto simp: less_Suc_eq_le simp del: upt_Suc)
  then show ?thesis unfolding all [symmetric] by linarith
qed

section \<open>Identifiers\<close>

text \<open>The two errors: the value is missing, or has the wrong shape.\<close>

datatype input_error = InputMissing | InputMalformed string

definition ValidateQueryID :: "string \<Rightarrow> input_error option" where
  "ValidateQueryID ident =
     (if ident = [] then Some InputMissing
      else if \<not> match_string re_query_id ident then Some (InputMalformed ident)
      else None)"

definition ValidateNormalizedQueryHash :: "string \<Rightarrow> input_error option" where
  "ValidateNormalizedQueryHash h =
     (if h = [] then Some InputMissing
      else if \<not> match_string re_normalized_hash h then Some (InputMalformed h)
      else None)"

definition ValidateGovSalt :: "string \<Rightarrow> input_error option" where
  "ValidateGovSalt salt =
     (if salt = [] then Some InputMissing
      else if \<not> match_string re_gov_salt salt then Some (InputMalformed salt)
      else None)"

text \<open>A UUID: five groups of hex digits, of 8, 4, 4, 4 and 12.\<close>

definition is_uuid :: "string \<Rightarrow> bool" where
  "is_uuid s \<longleftrightarrow> (case split_byte (CHR ''-'') s of
     [a, b, c, d, e] \<Rightarrow> map length [a, b, c, d, e] = [8, 4, 4, 4, 12] \<and> list_all (list_all is_hex) [a, b, c, d, e]
   | _ \<Rightarrow> False)"

lemma hex_not_dash: "list_all is_hex s \<Longrightarrow> CHR ''-'' \<notin> set s"
  by (auto simp: list_all_iff)

text \<open>One group and the dash after it, taken off the front.\<close>

lemma group_dash:
  "(n \<le> length s \<and> list_all is_hex (take n s) \<and> has_prefix (drop n s) ''-'' \<and> P (drop (length ''-'') (drop n s))) \<longleftrightarrow>
   (\<exists>a r. s = a @ CHR ''-'' # r \<and> length a = n \<and> list_all is_hex a \<and> P r)"
proof
  assume L: "n \<le> length s \<and> list_all is_hex (take n s) \<and> has_prefix (drop n s) ''-'' \<and> P (drop (length ''-'') (drop n s))"
  then obtain r where r: "drop n s = CHR ''-'' # r" by (auto simp: has_prefix_iff)
  then have "s = take n s @ CHR ''-'' # r" by (metis append_take_drop_id)
  moreover have "P r" using L unfolding r by simp
  ultimately show "\<exists>a r. s = a @ CHR ''-'' # r \<and> length a = n \<and> list_all is_hex a \<and> P r"
    using L by (intro exI [of _ "take n s"] exI [of _ r]) auto
next
  assume "\<exists>a r. s = a @ CHR ''-'' # r \<and> length a = n \<and> list_all is_hex a \<and> P r"
  then show "n \<le> length s \<and> list_all is_hex (take n s) \<and> has_prefix (drop n s) ''-'' \<and> P (drop (length ''-'') (drop n s))"
    by (auto simp: has_prefix_def)
qed

lemma match_query_id: "match_string re_query_id s \<longleftrightarrow> is_uuid s"
proof -
  have last: "matches (Seq (times 12 (Cls is_hex)) Eot) st \<noteq> [] \<longleftrightarrow> length (mrest st) = 12 \<and> list_all is_hex (mrest st)" for st
    unfolding matches_times_Seq by auto
  have grp: "matches (Seq (times n (Cls is_hex)) (Seq (lit ''-'') r)) st \<noteq> [] \<longleftrightarrow>
      (\<exists>a t. mrest st = a @ CHR ''-'' # t \<and> length a = n \<and> list_all is_hex a \<and> P t)"
    if "\<And>st. matches r st \<noteq> [] \<longleftrightarrow> P (mrest st)" for n r P st
    unfolding matches_times_Seq matches_lit_Seq that adv_simps by (rule group_dash)
  have "match_string re_query_id s \<longleftrightarrow>
     (\<exists>a t. s = a @ CHR ''-'' # t \<and> length a = 8 \<and> list_all is_hex a \<and>
     (\<exists>b u. t = b @ CHR ''-'' # u \<and> length b = 4 \<and> list_all is_hex b \<and>
     (\<exists>c v. u = c @ CHR ''-'' # v \<and> length c = 4 \<and> list_all is_hex c \<and>
     (\<exists>d e. v = d @ CHR ''-'' # e \<and> length d = 4 \<and> list_all is_hex d \<and> length e = 12 \<and> list_all is_hex e))))"
    (is "_ \<longleftrightarrow> ?R")
    unfolding re_query_id_def seqs.simps match_string_Bot grp [OF grp [OF grp [OF grp [OF last]]]] mst.sel ..
  also have "?R \<longleftrightarrow> is_uuid s"
  proof
    assume ?R
    then obtain a b c d e where "s = a @ CHR ''-'' # b @ CHR ''-'' # c @ CHR ''-'' # d @ CHR ''-'' # e"
      "list_all is_hex a" "list_all is_hex b" "list_all is_hex c" "list_all is_hex d" "list_all is_hex e"
      "length a = 8" "length b = 4" "length c = 4" "length d = 4" "length e = 12" by blast
    then show "is_uuid s" by (simp add: is_uuid_def split_byte_append split_byte_noB hex_not_dash)
  next
    assume "is_uuid s"
    then obtain a b c d e where sp: "split_byte (CHR ''-'') s = [a, b, c, d, e]"
      and p: "map length [a, b, c, d, e] = [8, 4, 4, 4, 12]" "list_all (list_all is_hex) [a, b, c, d, e]"
      by (auto simp: is_uuid_def split: list.splits)
    have "s = a @ CHR ''-'' # b @ CHR ''-'' # c @ CHR ''-'' # d @ CHR ''-'' # e"
      using join_split_byte [of "CHR ''-''" s] unfolding sp by simp
    moreover have "list_all is_hex a" "list_all is_hex b" "list_all is_hex c" "list_all is_hex d" "list_all is_hex e"
      "length a = 8" "length b = 4" "length c = 4" "length d = 4" "length e = 12" using p by simp_all
    ultimately show ?R by blast
  qed
  finally show ?thesis .
qed

lemma match_normalized_hash: "match_string re_normalized_hash s \<longleftrightarrow> s \<noteq> [] \<and> length s \<le> 20 \<and> list_all is_digit s"
proof (cases s)
  case Nil
  then show ?thesis unfolding re_normalized_hash_def seqs.simps match_string_Bot by simp
next
  case (Cons c cs)
  have "matches (Seq (Cls p) r) st \<noteq> [] \<longleftrightarrow> p c \<and> matches r (adv 1 st) \<noteq> []" if "mrest st = c # cs" for p r st
    using that by (simp add: adv_Suc_Cons)
  from this [of "M 0 None s []"] Cons show ?thesis
    unfolding re_normalized_hash_def seqs.simps match_string_Bot by (simp only: mst.sel matches_upto_Eot) auto
qed

lemma match_gov_salt: "match_string re_gov_salt s \<longleftrightarrow> 8 \<le> length s \<and> length s \<le> 64 \<and> list_all is_alnum s"
proof -
  have "list_all is_alnum s \<longleftrightarrow> list_all is_alnum (take 8 s) \<and> list_all is_alnum (drop 8 s)"
    by (metis append_take_drop_id list_all_append)
  then show ?thesis
    unfolding re_gov_salt_def seqs.simps match_string_Bot matches_times_Seq matches_upto_Eot adv_simps mst.sel
    by auto
qed

text \<open>What is accepted before it is spliced into SQL: a query id is a UUID (five groups of 8, 4, 4, 4 and 12 hex
  digits), a normalized hash is 1 to 20 decimal digits, a salt is 8 to 64 ASCII letters and digits; so none of
  them holds a quote, a backslash or a blank.\<close>

theorem input_shapes:
  "(ValidateQueryID s = None \<longleftrightarrow> is_uuid s)
   \<and> (ValidateNormalizedQueryHash s = None \<longleftrightarrow> 1 \<le> length s \<and> length s \<le> 20 \<and> list_all is_digit s)
   \<and> (ValidateGovSalt s = None \<longleftrightarrow> 8 \<le> length s \<and> length s \<le> 64 \<and> list_all is_alnum s)"
proof -
  have "\<not> is_uuid []" by (simp add: is_uuid_def)
  then show ?thesis
    by (auto simp: ValidateQueryID_def ValidateNormalizedQueryHash_def ValidateGovSalt_def
        match_query_id match_normalized_hash match_gov_salt Suc_le_eq)
qed

text \<open>Accepted although they are no positive UInt64: zero, and a number above the largest. A salt that is a
  forbidden keyword is accepted too, and the SQL it is spliced into is then refused.\<close>

lemma hash_zero_and_overflow:
  "ValidateNormalizedQueryHash ''0'' = None" "ValidateNormalizedQueryHash ''99999999999999999999'' = None"
  by (simp_all add: ValidateNormalizedQueryHash_def match_normalized_hash)

lemma salt_keyword:
  "ValidateGovSalt ''TRUNCATE'' = None"
  "validate_query_content (str_replace (quoted ''%salt%'') (quoted ''TRUNCATE'')
     (''SELECT hex(SHA256(concat(name, '' @ quoted ''%salt%'' @ '')))'')) = Some (ForbiddenKeyword ''TRUNCATE'')"
proof -
  show "ValidateGovSalt ''TRUNCATE'' = None"
    by (simp add: ValidateGovSalt_def match_gov_salt is_alnum_def is_alpha_def)
  have "str_replace (quoted ''%salt%'') (quoted ''TRUNCATE'') (''SELECT hex(SHA256(concat(name, '' @ quoted ''%salt%'' @ '')))'')
      = ''SELECT hex(SHA256(concat(name, '' @ quoted ''TRUNCATE'' @ '')))''" by code_simp
  moreover have "validate_query_content (''SELECT hex(SHA256(concat(name, '' @ quoted ''TRUNCATE'' @ '')))'')
      = Some (ForbiddenKeyword ''TRUNCATE'')" by code_simp
  ultimately show "validate_query_content (str_replace (quoted ''%salt%'') (quoted ''TRUNCATE'')
     (''SELECT hex(SHA256(concat(name, '' @ quoted ''%salt%'' @ '')))'')) = Some (ForbiddenKeyword ''TRUNCATE'')" by simp
qed

section \<open>Times\<close>

definition ParseTimeFlag :: "string \<Rightarrow> string + time" where
  "ParseTimeFlag s =
     (if s = [] then Inr zero_time
      else case parse_rfc3339 s of
        Some t \<Rightarrow> Inr t
      | None \<Rightarrow> (case parse_date s of Some t \<Rightarrow> Inr t | None \<Rightarrow> Inl s))"

text \<open>A date alone and the same date with \<open>T00:00:00Z\<close> are both read as midnight UTC of that day. (The
  hypothesis: a year of four digits, a month, and a day the month has.)\<close>

theorem parse_time_flag_date:
  assumes "0 \<le> y" "y \<le> 9999" "1 \<le> m" "m \<le> 12" "1 \<le> d" "d \<le> days_in y m"
  shows "ParseTimeFlag (pad_int 4 y @ ''-'' @ pad_int 2 m @ ''-'' @ pad_int 2 d) = Inr (days_from_civil y m d * 24 * Hour)
    \<and> ParseTimeFlag (pad_int 4 y @ ''-'' @ pad_int 2 m @ ''-'' @ pad_int 2 d @ ''T00:00:00Z'') = Inr (days_from_civil y m d * 24 * Hour)"
proof -
  let ?d = "\<lambda>r. pad_int 4 y @ ''-'' @ pad_int 2 m @ ''-'' @ pad_int 2 d @ r"
  have "d \<le> 99" using assms(6) by (simp add: days_in_def split: if_splits)
  then have date: "take_date (?d r) = Some ((y, m, d), r)" for r
    using assms by (intro take_date_pad) auto
  have ok: "day_ok (y, m, d)" using assms by (simp add: day_ok_def)
  have clock: "take_clock ''00:00:00Z'' = Some (0, ''Z'')"
    by (simp add: take_clock_def take_hour_def take_digits_def take_lit_def has_prefix_def take_fraction_def
        code_def eval_nat_numeral)
  have ne: "?d r \<noteq> []" for r by simp
  have plain: "?d [] = pad_int 4 y @ ''-'' @ pad_int 2 m @ ''-'' @ pad_int 2 d" by simp
  have "parse_rfc3339 (?d []) = None" unfolding parse_rfc3339_def date by (simp add: take_lit_def has_prefix_def)
  moreover have "parse_date (?d []) = Some (days_from_civil y m d * 24 * Hour)"
    unfolding parse_date_def date using ok by (simp add: instant_def Hour_def)
  moreover have "parse_rfc3339 (?d ''T00:00:00Z'') = Some (days_from_civil y m d * 24 * Hour)"
    unfolding parse_rfc3339_def date using ok clock
    by (simp add: take_lit_def has_prefix_def take_zone_def instant_def Hour_def)
  ultimately show ?thesis unfolding plain [symmetric] ParseTimeFlag_def using ne by simp
qed

theorem parse_time_flag_date_witness:
  "ParseTimeFlag ''2026-05-28'' = ParseTimeFlag ''2026-05-28T00:00:00Z''"
  using parse_time_flag_date [of 2026 5 28]
  by (simp add: days_in_def pad_int_def pad_nat_def nat_str_eval)

section \<open>The text-log options\<close>

record TextLogOpts =
  t_From :: time
  t_To :: time
  t_Level :: string
  t_RowLimit :: int

definition DefaultTextLogRowLimit :: int where "DefaultTextLogRowLimit = 500000"

definition level_names :: "string list" where
  "level_names = [''Fatal'', ''Critical'', ''Error'', ''Warning'', ''Notice'', ''Information'', ''Debug'', ''Trace'']"

definition canonicalLevel :: "string \<Rightarrow> string option" where
  "canonicalLevel s = first_some (\<lambda>l. if equal_fold s l then Some l else None) level_names"

datatype textlog_error = WindowRequired | ToNotAfterFrom time time | NotALevel string

text \<open>\<open>Validate\<close> works on a pointer: the result is the error, if any, and the options it leaves.\<close>

definition validate_textlog :: "TextLogOpts \<Rightarrow> textlog_error option \<times> TextLogOpts" where
  "validate_textlog o1 =
     (if is_zero (t_From o1) \<or> is_zero (t_To o1) then (Some WindowRequired, o1)
      else if \<not> t_To o1 > t_From o1 then (Some (ToNotAfterFrom (t_To o1) (t_From o1)), o1)
      else
        let o2 = (if t_RowLimit o1 \<le> 0 then o1\<lparr>t_RowLimit := DefaultTextLogRowLimit\<rparr> else o1) in
        if t_Level o2 \<noteq> [] then
          (case canonicalLevel (t_Level o2) of
             None \<Rightarrow> (Some (NotALevel (t_Level o2)), o2)
           | Some l \<Rightarrow> (None, o2\<lparr>t_Level := l\<rparr>))
        else (None, o2))"

definition isAtLeast :: "Version \<Rightarrow> int \<Rightarrow> int \<Rightarrow> bool" where
  "isAtLeast v major minor =
     (if Major v \<noteq> major then Major v > major else Minor v \<ge> minor)"

text \<open>\<open>buildSQL\<close>; the collector contributes its mode and the clause of its output format.\<close>

definition text_log_sql :: "string \<Rightarrow> string \<Rightarrow> TextLogOpts \<Rightarrow> Version \<Rightarrow> string" where
  "text_log_sql mode clause opts serverVersion =
     (let formatCol = (if isAtLeast serverVersion 23 1 then ''    message_format_string,'' @ [NL] else []);
          levelFilter = (if t_Level opts \<noteq> [] then
            (case canonicalLevel (t_Level opts) of
               Some l \<Rightarrow> ''  AND level <= '' @ quoted l @ [NL] | None \<Rightarrow> []) else [])
      in str_join [NL]
        [''SELECT'',
         ''    event_time_microseconds                                AS ts,'',
         ''    hostName()                                             AS hostname,'',
         ''    level,'',
         ''    thread_id,'',
         ''    logger_name,'',
         ''    message,'',
         formatCol @ ''    source_file,'',
         ''    source_line,'',
         ''    query_id'',
         ''FROM '' @ SysTable mode ''text_log'',
         ''WHERE event_time >= toDateTime('' @ quoted (fmt_datetime (t_From opts)) @ '', '' @ quoted ''UTC'' @ '')'',
         ''  AND event_time <= toDateTime('' @ quoted (fmt_datetime (t_To opts)) @ '', '' @ quoted ''UTC'' @ '')'',
         levelFilter @ ''ORDER BY event_time_microseconds ASC'',
         ''LIMIT '' @ int_str (t_RowLimit opts),
         ''FORMAT '' @ clause])"

lemma canonical_in: "canonicalLevel s = Some l \<Longrightarrow> l \<in> set level_names \<and> equal_fold s l"
  unfolding canonicalLevel_def by (drule first_some_Some) (auto split: if_splits)

lemma canonical_None: "canonicalLevel s = None \<longleftrightarrow> (\<forall>l\<in>set level_names. \<not> equal_fold s l)"
  unfolding canonicalLevel_def first_some_None by (auto split: if_splits)

lemma equal_fold_trans: "equal_fold s a \<Longrightarrow> equal_fold s b \<Longrightarrow> to_lower a = to_lower b"
  by (simp add: equal_fold_def)

lemma level_names_fold: "l \<in> set level_names \<Longrightarrow> l' \<in> set level_names \<Longrightarrow> to_lower l = to_lower l' \<Longrightarrow> l = l'"
proof -
  have "distinct (map to_lower level_names)" by code_simp
  then have "inj_on to_lower (set level_names)" by (simp add: distinct_map)
  then show "l \<in> set level_names \<Longrightarrow> l' \<in> set level_names \<Longrightarrow> to_lower l = to_lower l' \<Longrightarrow> l = l'"
    by (rule inj_onD)
qed

lemma canonical_iff: "canonicalLevel s = Some l \<longleftrightarrow> l \<in> set level_names \<and> equal_fold s l"
proof
  assume R: "l \<in> set level_names \<and> equal_fold s l"
  then obtain l' where l': "canonicalLevel s = Some l'"
    using canonical_None [of s] by (cases "canonicalLevel s") auto
  from canonical_in [OF this] R have "l' = l" by (metis equal_fold_trans level_names_fold)
  with l' show "canonicalLevel s = Some l" by simp
qed (rule canonical_in)

text \<open>The text-log options are accepted exactly when both ends of the window are given, it runs forwards and
  the level, if any, is a log level in any case; what is left then has a positive row limit and no level or the
  exact spelling of the one log level that was meant, and checking it again changes nothing.\<close>

theorem textlog_validate:
  "(fst (validate_textlog opts) = None \<longleftrightarrow>
      \<not> is_zero (t_From opts) \<and> \<not> is_zero (t_To opts) \<and> t_From opts < t_To opts
      \<and> (t_Level opts = [] \<or> (\<exists>l\<in>set level_names. equal_fold (t_Level opts) l)))
   \<and> (case validate_textlog opts of
        (Some e, _) \<Rightarrow> True
      | (None, o2) \<Rightarrow> 0 < t_RowLimit o2 \<and> t_From o2 = t_From opts \<and> t_To o2 = t_To opts
          \<and> (t_Level o2 = [] \<and> t_Level opts = [] \<or> t_Level o2 \<in> set level_names \<and> equal_fold (t_Level opts) (t_Level o2))
          \<and> validate_textlog o2 = (None, o2))"
proof -
  have self: "canonicalLevel l = Some l" if "l \<in> set level_names" for l
    using that by (simp add: canonical_iff)
  have ne: "l \<noteq> []" if "l \<in> set level_names" for l using that by (auto simp: level_names_def)
  show ?thesis
  proof (cases "t_Level opts = []")
    case True
    then show ?thesis by (auto simp: validate_textlog_def DefaultTextLogRowLimit_def)
  next
    case False
    show ?thesis
    proof (cases "canonicalLevel (t_Level opts)")
      case None
      with False show ?thesis
        using canonical_None [of "t_Level opts"] by (auto simp: validate_textlog_def Let_def)
    next
      case (Some l)
      with canonical_in [OF Some] False self ne show ?thesis
        by (auto simp: validate_textlog_def Let_def DefaultTextLogRowLimit_def)
    qed
  qed
qed

section \<open>The analysis options\<close>

record AnalysisOpts =
  a_QueryID :: string
  a_NormalizedQueryHash :: string
  a_From :: time
  a_To :: time

definition analysis_enabled :: "AnalysisOpts \<Rightarrow> bool" where
  "analysis_enabled opts \<longleftrightarrow> a_QueryID opts \<noteq> [] \<or> a_NormalizedQueryHash opts \<noteq> []"

datatype analysis_error =
    NotEnabled
  | BadQueryID input_error
  | BadHash input_error
  | WindowOrder time time

definition analysis_window :: "AnalysisOpts \<Rightarrow> time \<Rightarrow> AnalysisOpts" where
  "analysis_window opts now =
     (if \<not> is_zero (a_From opts) \<and> \<not> is_zero (a_To opts) then opts
      else if \<not> is_zero (a_From opts) then opts\<lparr>a_To := now\<rparr>
      else if \<not> is_zero (a_To opts) then opts\<lparr>a_From := add_days (a_To opts) (- 7)\<rparr>
      else
        let days = (if a_QueryID opts \<noteq> [] then 3 else 7)
        in opts\<lparr>a_To := now, a_From := add_days now (- days)\<rparr>)"

definition validate_analysis :: "AnalysisOpts \<Rightarrow> time \<Rightarrow> analysis_error option \<times> AnalysisOpts" where
  "validate_analysis opts now =
     (if \<not> analysis_enabled opts then (Some NotEnabled, opts)
      else case (if a_QueryID opts \<noteq> [] then ValidateQueryID (a_QueryID opts) else None) of
        Some e \<Rightarrow> (Some (BadQueryID e), opts)
      | None \<Rightarrow>
          (case (if a_NormalizedQueryHash opts \<noteq> [] then ValidateNormalizedQueryHash (a_NormalizedQueryHash opts) else None) of
             Some e \<Rightarrow> (Some (BadHash e), opts)
           | None \<Rightarrow>
               let o2 = analysis_window opts now in
               if \<not> a_To o2 > a_From o2 then (Some (WindowOrder (a_To o2) (a_From o2)), o2)
               else (None, o2)))"

text \<open>Accepted analysis options carry a UUID or a numeric hash (or both), keep every value that was given, and
  end in a window that runs forwards: the given one, from the given start to now, the 7 days before the given
  end, or the 3 (with a query id) or 7 days before now.\<close>

theorem analysis_validate:
  "validate_analysis opts now = (None, o2) \<longleftrightarrow>
     (a_QueryID opts = [] \<or> is_uuid (a_QueryID opts))
     \<and> (a_NormalizedQueryHash opts = [] \<or> length (a_NormalizedQueryHash opts) \<le> 20 \<and> list_all is_digit (a_NormalizedQueryHash opts))
     \<and> \<not> (a_QueryID opts = [] \<and> a_NormalizedQueryHash opts = [])
     \<and> o2 = opts\<lparr>
          a_From := (if \<not> is_zero (a_From opts) then a_From opts
            else if \<not> is_zero (a_To opts) then a_To opts - 7 * 24 * Hour
            else now - (if a_QueryID opts \<noteq> [] then 3 else 7) * 24 * Hour),
          a_To := (if \<not> is_zero (a_To opts) then a_To opts else now)\<rparr>
     \<and> a_From o2 < a_To o2"
proof -
  have id: "a_QueryID opts \<noteq> [] \<Longrightarrow> ValidateQueryID (a_QueryID opts) = None \<longleftrightarrow> is_uuid (a_QueryID opts)"
    and hash: "a_NormalizedQueryHash opts \<noteq> [] \<Longrightarrow> ValidateNormalizedQueryHash (a_NormalizedQueryHash opts) = None \<longleftrightarrow>
      length (a_NormalizedQueryHash opts) \<le> 20 \<and> list_all is_digit (a_NormalizedQueryHash opts)"
    by (simp_all add: ValidateQueryID_def ValidateNormalizedQueryHash_def match_query_id match_normalized_hash)
  have win: "analysis_window opts now = opts\<lparr>
          a_From := (if \<not> is_zero (a_From opts) then a_From opts
            else if \<not> is_zero (a_To opts) then a_To opts - 7 * 24 * Hour
            else now - (if a_QueryID opts \<noteq> [] then 3 else 7) * 24 * Hour),
          a_To := (if \<not> is_zero (a_To opts) then a_To opts else now)\<rparr>" (is "_ = ?w")
    by (cases opts) (simp add: analysis_window_def add_days_def)
  let ?e1 = "if a_QueryID opts \<noteq> [] then ValidateQueryID (a_QueryID opts) else None"
  let ?e2 = "if a_NormalizedQueryHash opts \<noteq> [] then ValidateNormalizedQueryHash (a_NormalizedQueryHash opts) else None"
  have e1: "?e1 = None \<longleftrightarrow> a_QueryID opts = [] \<or> is_uuid (a_QueryID opts)" using id by auto
  have e2: "?e2 = None \<longleftrightarrow> a_NormalizedQueryHash opts = [] \<or>
      length (a_NormalizedQueryHash opts) \<le> 20 \<and> list_all is_digit (a_NormalizedQueryHash opts)" using hash by auto
  have "validate_analysis opts now = (None, o2) \<longleftrightarrow>
      analysis_enabled opts \<and> ?e1 = None \<and> ?e2 = None \<and> o2 = ?w \<and> a_From o2 < a_To o2"
    unfolding validate_analysis_def win Let_def by (cases ?e1; cases ?e2) auto
  then show ?thesis unfolding e1 e2 analysis_enabled_def by blast
qed

end
