(* ===== verification/QueryScope.thy ===== *)
theory QueryScope
  imports QueryTemplate
begin

text \<open>
  The scope of the detached-parts query (\<open>internal/query/detached_scope.go\<close>): which tables a large
  SharedMergeTree server is asked about, and the predicate that is spliced into
  \<open>{detached_scope}\<close>. \<open>read_literal\<close> reads a ClickHouse string literal back, so that what the splice
  means to the server can be stated.
\<close>

section \<open>The query for tables with signals\<close>

definition SignalTablesQuery :: "string \<Rightarrow> string" where
  "SignalTablesQuery mode =
     (let src = (if mode = ''cloud'' then ''clusterAllReplicas(default, system.text_log)'' else ''system.text_log'');
          q = (\<lambda>s. QUOTE # s @ [QUOTE]); bs = [BSLASH, BSLASH]
      in str_join [NL]
        [''SELECT DISTINCT'',
         ''    extract(logger_name, '' @ q (''^([^.'' @ bs @ ''s]+)'' @ bs @ ''.'') @ '')       AS db,'',
         ''    extract(logger_name, '' @ q (''^[^.'' @ bs @ ''s]+'' @ bs @ ''.([^'' @ bs @ ''s]+)'') @ '') AS tbl'',
         ''FROM '' @ src,
         ''WHERE event_date >= toDate(now() - INTERVAL 1 DAY) AND event_time > now() - INTERVAL 1 DAY'',
         ''  AND level IN ('' @ q ''Fatal'' @ '', '' @ q ''Critical'' @ '', '' @ q ''Error'' @ '', '' @ q ''Warning'' @ '')'',
         ''  AND (message ILIKE '' @ q ''%broken%part%'' @ '' OR message ILIKE '' @ q ''%unexpected%part%'' @
           '' OR message ILIKE '' @ q ''%detach%part%'' @ '')'',
         ''  AND db != '' @ q [] @ '' AND tbl != '' @ q [],
         ''LIMIT 1000'',
         ''FORMAT TSV''])"

section \<open>Reading its answer\<close>

definition signal_row :: "string \<Rightarrow> (string \<times> string) option" where
  "signal_row line = (case split_byte TAB line of
     [d, t] \<Rightarrow> if d = [] \<or> t = [] then None else Some (d, t)
   | _ \<Rightarrow> None)"

fun signal_rows :: "(string \<times> string) list \<Rightarrow> string list \<Rightarrow> (string \<times> string) list" where
  "signal_rows seen [] = []"
| "signal_rows seen (line # lines) = (case signal_row line of
     None \<Rightarrow> signal_rows seen lines
   | Some k \<Rightarrow> if k \<in> set seen then signal_rows seen lines else k # signal_rows (k # seen) lines)"

definition ParseSignalTables :: "string \<Rightarrow> (string \<times> string) list" where
  "ParseSignalTables tsv = signal_rows [] (split_byte NL (trim_space tsv))"

lemma signal_rows_dedup: "signal_rows seen lines = dedup_seen seen (List.map_filter signal_row lines)"
  by (induction seen lines rule: signal_rows.induct) (auto simp: map_filter_simps split: option.splits)

lemma signal_row_Some: "signal_row line = Some (d, t) \<longleftrightarrow>
    line = d @ TAB # t \<and> TAB \<notin> set d \<and> TAB \<notin> set t \<and> d \<noteq> [] \<and> t \<noteq> []"
proof
  assume "signal_row line = Some (d, t)"
  then have s: "split_byte TAB line = [d, t]" "d \<noteq> []" "t \<noteq> []"
    by (auto simp: signal_row_def split: list.splits if_splits)
  have "line = d @ TAB # t" using join_split_byte [of TAB line] s(1) by simp
  with s split_byte_parts [of _ TAB line] show "line = d @ TAB # t \<and> TAB \<notin> set d \<and> TAB \<notin> set t \<and> d \<noteq> [] \<and> t \<noteq> []"
    by simp
next
  assume "line = d @ TAB # t \<and> TAB \<notin> set d \<and> TAB \<notin> set t \<and> d \<noteq> [] \<and> t \<noteq> []"
  then show "signal_row line = Some (d, t)"
    by (simp add: signal_row_def split_byte_append split_byte_noB)
qed

text \<open>The tables read from the answer are exactly the pairs that stand in a line of two non-empty fields, each
  listed once, in the order of their first lines.\<close>

theorem parse_signal_tables:
  "set (ParseSignalTables tsv) =
     {(d, t). d \<noteq> [] \<and> t \<noteq> [] \<and> TAB \<notin> set d \<and> TAB \<notin> set t \<and> d @ TAB # t \<in> set (split_byte NL (trim_space tsv))}
   \<and> distinct (ParseSignalTables tsv)
   \<and> ParseSignalTables tsv = dedup (List.map_filter signal_row (split_byte NL (trim_space tsv)))"
proof -
  have "set (List.map_filter signal_row lines) =
      {(d, t). d \<noteq> [] \<and> t \<noteq> [] \<and> TAB \<notin> set d \<and> TAB \<notin> set t \<and> d @ TAB # t \<in> set lines}" for lines
    unfolding set_map_filter_ex by (auto simp: signal_row_Some)
  then show ?thesis
    by (simp add: ParseSignalTables_def signal_rows_dedup set_dedup_seen distinct_dedup_seen)
qed

section \<open>The predicate\<close>

definition esc_sql_char :: "char \<Rightarrow> string" where
  "esc_sql_char c = (if c = BSLASH then [BSLASH, BSLASH] else if c = QUOTE then [BSLASH, QUOTE] else [c])"

definition sqlString :: "string \<Rightarrow> string" where
  "sqlString s = QUOTE # concat (map esc_sql_char s) @ [QUOTE]"

definition table_literal :: "string \<times> string \<Rightarrow> string" where
  "table_literal t = ''('' @ sqlString (fst t) @ '', '' @ sqlString (snd t) @ '')''"

definition DetachedScope :: "bool \<Rightarrow> (string \<times> string) list \<Rightarrow> string \<Rightarrow> string" where
  "DetachedScope limit tables qualifier =
     (if \<not> limit then ''1''
      else let cols = ''('' @ qualifier @ ''database, '' @ qualifier @ ''table)'';
               s = cols @ '' IN (SELECT database, name FROM system.tables WHERE engine NOT LIKE '' @
                 QUOTE # ''Shared%'' @ QUOTE # '')''
        in if tables = [] then s
           else s @ '' OR '' @ cols @ '' IN ('' @ str_join '', '' (map table_literal tables) @ '')'')"

text \<open>
  A ClickHouse string literal, read after its opening quote: a backslash takes the next byte as it is
  when that byte is a quote or a backslash (the only escapes \<open>sqlString\<close> writes), two quotes in a row
  stand for one, and a single quote ends it. The result is the value and the text that follows.
\<close>

fun read_body :: "string \<Rightarrow> (string \<times> string) option" where
  "read_body [] = None"
| "read_body [c] = (if c = QUOTE then Some ([], []) else None)"
| "read_body (c # d # cs) =
     (if c = BSLASH then
        (if d = QUOTE \<or> d = BSLASH then map_option (apfst (Cons d)) (read_body cs) else None)
      else if c = QUOTE then
        (if d = QUOTE then map_option (apfst (Cons QUOTE)) (read_body cs) else Some ([], d # cs))
      else map_option (apfst (Cons c)) (read_body (d # cs)))"

definition read_literal :: "string \<Rightarrow> (string \<times> string) option" where
  "read_literal s = (case s of [] \<Rightarrow> None | c # cs \<Rightarrow> if c = QUOTE then read_body cs else None)"

lemma quote_bslash [simp]: "QUOTE \<noteq> BSLASH" "BSLASH \<noteq> QUOTE"
  by (simp_all add: QUOTE_def BSLASH_def)

lemma read_body_esc:
  "rest = [] \<or> hd rest \<noteq> QUOTE \<Longrightarrow> read_body (concat (map esc_sql_char s) @ QUOTE # rest) = Some (s, rest)"
proof (induction s)
  case Nil
  then show ?case by (cases rest) auto
next
  case (Cons c s)
  obtain d ds where ds: "concat (map esc_sql_char s) @ QUOTE # rest = d # ds"
    by (cases "concat (map esc_sql_char s) @ QUOTE # rest") auto
  with Cons have "read_body (d # ds) = Some (s, rest)" by simp
  then have "read_body (esc_sql_char c @ d # ds) = Some (c # s, rest)" by (simp add: esc_sql_char_def)
  with ds show ?case by simp
qed

text \<open>A database or table name spliced into the scope is read by the server as that name and nothing else:
  reading the literal that \<open>sqlString\<close> writes gives back the name and leaves exactly the text after it. (The
  hypothesis: that text does not start with a quote; in the predicate a comma or a parenthesis follows.)\<close>

theorem sqlString_roundtrip:
  assumes "rest = [] \<or> hd rest \<noteq> QUOTE"
  shows "read_literal (sqlString name @ rest) = Some (name, rest)"
  using read_body_esc [OF assms, of name] by (simp add: read_literal_def sqlString_def)

theorem sqlString_roundtrip_witness:
  "read_literal (sqlString (''a'' @ [QUOTE, BSLASH] @ ''); --'') @ '', x'') = Some (''a'' @ [QUOTE, BSLASH] @ ''); --'', '', x'')"
  by (rule sqlString_roundtrip) (simp add: QUOTE_def)

text \<open>The list of literals in the predicate, read back: the tables, in order.\<close>

fun read_tables :: "nat \<Rightarrow> string \<Rightarrow> ((string \<times> string) list \<times> string) option" where
  "read_tables 0 s = None"
| "read_tables (Suc fuel) s =
     (if \<not> has_prefix s ''('' then None
      else case read_literal (drop 1 s) of
        None \<Rightarrow> None
      | Some (d, s1) \<Rightarrow>
          (if \<not> has_prefix s1 '', '' then None
           else case read_literal (drop 2 s1) of
             None \<Rightarrow> None
           | Some (t, s2) \<Rightarrow>
               if has_prefix s2 ''), '' then map_option (apfst (Cons (d, t))) (read_tables fuel (drop 3 s2))
               else if has_prefix s2 '')'' then Some ([(d, t)], drop 1 s2)
               else None))"

lemma read_tables_join:
  assumes "tables \<noteq> []" "length tables \<le> fuel"
  shows "read_tables fuel (str_join '', '' (map table_literal tables) @ '')'') = Some (tables, '')'')"
  using assms
proof (induction tables arbitrary: fuel)
  case (Cons x tables)
  obtain d t where x: "x = (d, t)" by (cases x)
  obtain f where fuel: "fuel = Suc f" using Cons.prems(2) by (cases fuel) auto
  have lit: "read_literal (sqlString n @ c # r) = Some (n, c # r)" if "c \<noteq> QUOTE" for n c r
    using that read_body_esc [of "c # r" n] by (simp add: read_literal_def sqlString_def)
  have [simp]: "CHR '','' \<noteq> QUOTE" "CHR '')'' \<noteq> QUOTE" by (simp_all add: QUOTE_def)
  show ?case
  proof (cases "tables = []")
    case True
    then show ?thesis by (simp add: fuel x table_literal_def has_prefix_def lit)
  next
    case False
    define J where "J = str_join '', '' (map table_literal tables) @ '')''"
    have "str_join '', '' (map table_literal (x # tables)) @ '')'' =
        CHR ''('' # sqlString d @ CHR '','' # CHR '' '' # sqlString t @ CHR '')'' # CHR '','' # CHR '' '' # J"
      using False by (simp add: J_def x table_literal_def str_join_Cons)
    moreover have "read_tables f J = Some (tables, '')'')"
      using Cons False fuel by (simp add: J_def)
    ultimately show ?thesis
      by (simp only: fuel x) (simp add: has_prefix_def lit eval_nat_numeral)
  qed
qed simp

text \<open>With a limit and tables to name, the scope selects by its sub-query or by a list of literals, and
  reading that list as the server does gives back exactly the named tables, in order. (The hypothesis: there is
  a table to name.)\<close>

theorem detached_scope_tables:
  assumes "tables \<noteq> []"
  shows "\<exists>lits. DetachedScope True tables q = DetachedScope True [] q @ '' OR ('' @ q @ ''database, '' @ q @ ''table) IN ('' @ lits
    \<and> read_tables (length tables) lits = Some (tables, '')'')"
  using read_tables_join [OF assms order.refl] assms
  by (intro exI [of _ "str_join '', '' (map table_literal tables) @ '')''"]) (simp add: DetachedScope_def Let_def)

theorem detached_scope_tables_witness:
  "\<exists>lits. DetachedScope True [(''db'', ''t'')] ''p.'' = DetachedScope True [] ''p.'' @ '' OR (p.database, p.table) IN ('' @ lits
    \<and> read_tables 1 lits = Some ([(''db'', ''t'')], '')'')"
  using detached_scope_tables [of "[(''db'', ''t'')]" "''p.''"] by simp

end
