(* ===== verification/Sanitizer.thy ===== *)
theory Sanitizer
  imports Heuristics GoPath
begin

text \<open>
  Removing credentials from configuration files (\<open>internal/collection/sanitizer.go\<close>) and copying a configuration
  tree through it (\<open>internal/config/collector.go\<close>).

  What \<open>encoding/xml\<close>'s non-strict decoder reads is a parameter: the tokens of a text, each with the input offset
  after it, and the error that ended them if one did. \<open>gopkg.in/yaml.v3\<close> is a parameter as well (\<open>yaml\<close>); its
  \<open>Node\<close> is the datatype \<open>node\<close>. The package variable \<open>attrRewrites\<close> is explicit state: it outlives the call.
\<close>

section \<open>XML\<close>

datatype token = StartElement string "string list" | EndElement | CharData string | OtherToken

type_synonym decoder = "string \<Rightarrow> (token \<times> nat) list \<times> string option"
type_synonym span = "nat \<times> nat"

text \<open>\<open>(\w[\w.\-]*)=(["'])([^"']*)(["'])\<close>\<close>

definition attr_char :: "char \<Rightarrow> bool" where
  "attr_char c \<longleftrightarrow> re_word c \<or> c = CHR ''.'' \<or> c = CHR ''-''"

definition re_xml_attr :: re where
  "re_xml_attr = seqs [Grp 1 (Seq (Cls re_word) (any_star (Cls attr_char))), lit ''='', Grp 2 (Cls is_quote),
     Grp 3 (any_star (Cls (\<lambda>c. \<not> is_quote c))), Grp 4 (Cls is_quote)]"

definition redact_attr :: "string \<Rightarrow> string" where
  "redact_attr m =
     (case re_find re_xml_attr m of
        None \<Rightarrow> m
      | Some (_, _, cs) \<Rightarrow>
          if \<not> isSensitiveName (group m cs 1) then m
          else group m cs 1 @ ''='' @ group m cs 2 @ redacted @ group m cs 4)"

definition redactAttrs :: "string \<Rightarrow> string" where
  "redactAttrs tag = replace_func re_xml_attr redact_attr tag"

definition hasSensitiveAttr :: "string list \<Rightarrow> bool" where
  "hasSensitiveAttr attrs = list_ex isSensitiveName attrs"

definition replaceContentPreserveWS :: "string \<Rightarrow> string" where
  "replaceContentPreserveWS s =
     take (length s - length (trim_left is_cut_ws s)) s @ redacted @ drop (length (trim_right is_cut_ws s)) s"

record xml_walk =
  w_stack :: "string list"
  w_prev :: nat
  w_spans :: "span list"
  w_count :: nat
  w_rewrites :: "span \<rightharpoonup> string"

definition xml_step :: "string \<Rightarrow> token \<times> nat \<Rightarrow> xml_walk \<Rightarrow> xml_walk" where
  "xml_step content tc w = (case tc of (tok, cur) \<Rightarrow>
     (let sp = (w_prev w, cur); raw = slice content (w_prev w) cur in
      (case tok of
         StartElement name attrs \<Rightarrow>
           (let w = w\<lparr>w_stack := name # w_stack w\<rparr>; rewritten = redactAttrs raw in
            if hasSensitiveAttr attrs \<and> rewritten \<noteq> raw
            then w\<lparr>w_spans := w_spans w @ [sp], w_rewrites := (w_rewrites w)(sp \<mapsto> rewritten), w_count := w_count w + 1\<rparr> else w)
       | EndElement \<Rightarrow> w\<lparr>w_stack := tl (w_stack w)\<rparr>
       | CharData t \<Rightarrow>
           (case w_stack w of
              [] \<Rightarrow> w
            | name # _ \<Rightarrow>
                if isSensitiveName name \<and> trim_space t \<noteq> []
                then w\<lparr>w_spans := w_spans w @ [sp], w_count := w_count w + 1\<rparr> else w)
       | OtherToken \<Rightarrow> w)\<lparr>w_prev := cur\<rparr>))"

fun xml_splice :: "string \<Rightarrow> (span \<rightharpoonup> string) \<Rightarrow> nat \<Rightarrow> span list \<Rightarrow> string" where
  "xml_splice content rw p [] = drop p content"
| "xml_splice content rw p (sp # sps) =
     (if fst sp < p then xml_splice content rw p sps
      else slice content p (fst sp)
        @ (case rw sp of Some r \<Rightarrow> r | None \<Rightarrow> replaceContentPreserveWS (slice content (fst sp) (snd sp)))
        @ xml_splice content rw (snd sp) sps)"

definition redactXML :: "decoder \<Rightarrow> string \<Rightarrow> (span \<rightharpoonup> string) \<Rightarrow> (string + string \<times> nat) \<times> (span \<rightharpoonup> string)" where
  "redactXML dec content attrRewrites =
     (case dec content of (toks, err) \<Rightarrow>
        let w = fold (xml_step content) toks
          \<lparr>w_stack = [], w_prev = 0, w_spans = [], w_count = 0, w_rewrites = attrRewrites\<rparr> in
        case err of
          Some e \<Rightarrow> (Inl (''xml parse: '' @ e), w_rewrites w)
        | None \<Rightarrow>
            if w_spans w = [] then (Inr (content, 0), w_rewrites w)
            else (Inr (xml_splice content (w_rewrites w) 0 (sort_key fst (w_spans w)), w_count w), Map.empty))"

definition SanitizeXMLContent :: "decoder \<Rightarrow> string \<Rightarrow> (span \<rightharpoonup> string) \<Rightarrow> (string \<times> nat \<times> string option) \<times> (span \<rightharpoonup> string)" where
  "SanitizeXMLContent dec content attrRewrites =
     (case redactXML dec content attrRewrites of
        (Inl e, rw) \<Rightarrow> ((content, 0, Some e), rw)
      | (Inr (out, n), rw) \<Rightarrow> (case RedactCredentialsInText out of (final, extra) \<Rightarrow> ((final, n + extra, None), rw)))"

section \<open>YAML\<close>

datatype kind = DocumentNode | SequenceNode | MappingNode | ScalarNode | AliasNode

datatype node = Node (n_kind: kind) (n_tag: string) (n_value: string) (n_style: nat)
  (n_head: string) (n_line: string) (n_foot: string) (n_content: "node list")

record yaml =
  y_unmarshal :: "string \<Rightarrow> string + node"
  y_encode :: "node \<Rightarrow> string + string"

definition scrub :: "string \<Rightarrow> string \<times> nat" where
  "scrub comment = (if comment \<noteq> [] then RedactCredentialsInText comment else (comment, 0))"

definition scrubCommentsOn :: "node \<Rightarrow> node \<times> nat" where
  "scrubCommentsOn n = (case n of Node k t v s h l f c \<Rightarrow>
     (case scrub l of (l, a) \<Rightarrow> (case scrub h of (h, b) \<Rightarrow> (case scrub f of (f, d) \<Rightarrow> (Node k t v s h l f c, a + b + d)))))"

text \<open>\<open>redact_scalar\<close>: the assignments to \<open>Value\<close>, \<open>Tag\<close> and \<open>Style\<close>.\<close>

definition redact_scalar :: "node \<Rightarrow> node \<times> nat" where
  "redact_scalar n = (case n of Node k t v s h l f c \<Rightarrow>
     if v \<noteq> redacted then (Node k ''!!str'' redacted 0 h l f c, 1) else (n, 0))"

fun walkYAMLNode :: "bool \<Rightarrow> node \<Rightarrow> node \<times> nat"
and walk_nodes :: "bool \<Rightarrow> node list \<Rightarrow> node list \<times> nat"
and walk_pairs :: "node list \<Rightarrow> node list \<times> nat" where
  "walkYAMLNode parentIsSensitive (Node k t v s h l f c) =
     (case scrubCommentsOn (Node k t v s h l f []) of (n0, a) \<Rightarrow>
        (case (case k of
            DocumentNode \<Rightarrow> walk_nodes False c
          | MappingNode \<Rightarrow> walk_pairs c
          | SequenceNode \<Rightarrow> walk_nodes parentIsSensitive c
          | _ \<Rightarrow> (c, 0)) of (c', b) \<Rightarrow>
           let n = Node k t v s (n_head n0) (n_line n0) (n_foot n0) c' in
           if k = ScalarNode \<and> parentIsSensitive then (case redact_scalar n of (n, d) \<Rightarrow> (n, a + b + d)) else (n, a + b)))"
| "walk_nodes sens [] = ([], 0)"
| "walk_nodes sens (n # ns) =
     (case walkYAMLNode sens n of (n', a) \<Rightarrow> (case walk_nodes sens ns of (ns', b) \<Rightarrow> (n' # ns', a + b)))"
| "walk_pairs (key # val # rest) =
     (case scrubCommentsOn key of (key', a) \<Rightarrow>
        (case (if isSensitiveName (n_value key') \<and> n_kind val = ScalarNode then redact_scalar val
               else walkYAMLNode (isSensitiveName (n_value key')) val) of (val', b) \<Rightarrow>
           (case walk_pairs rest of (rest', d) \<Rightarrow> (key' # val' # rest', a + b + d))))"
| "walk_pairs ns = (ns, 0)"

definition redactYAML :: "yaml \<Rightarrow> string \<Rightarrow> string + string \<times> nat" where
  "redactYAML y content =
     (case y_unmarshal y content of
        Inl e \<Rightarrow> Inl (''yaml parse: '' @ e)
      | Inr root \<Rightarrow>
          (case walkYAMLNode False root of (root, count) \<Rightarrow>
             (case y_encode y root of Inl e \<Rightarrow> Inl (''yaml marshal: '' @ e) | Inr out \<Rightarrow> Inr (out, count))))"

definition SanitizeYAMLContent :: "yaml \<Rightarrow> string \<Rightarrow> string \<times> nat \<times> string option" where
  "SanitizeYAMLContent y content =
     (case redactYAML y content of
        Inl e \<Rightarrow> (content, 0, Some e)
      | Inr (out, n) \<Rightarrow> (case RedactCredentialsInText out of (final, extra) \<Rightarrow> (final, n + extra, None)))"

section \<open>Which files\<close>

definition is_start :: "token \<Rightarrow> bool" where
  "is_start t = (case t of StartElement _ _ \<Rightarrow> True | _ \<Rightarrow> False)"

definition IsXMLFile :: "decoder \<Rightarrow> string \<Rightarrow> string \<Rightarrow> bool" where
  "IsXMLFile dec path content =
     (to_lower (path_ext path) \<in> set [''.xml'', ''.xsd'', ''.svg'', ''.config''] \<or>
      has_prefix (trim_space content) ''<?xml'' \<or>
      list_ex (is_start \<circ> fst) (take 8 (fst (dec content))))"

definition IsYAMLFile :: "string \<Rightarrow> bool" where
  "IsYAMLFile path = (to_lower (path_ext path) \<in> set [''.yaml'', ''.yml''])"

definition ShouldSanitize :: "decoder \<Rightarrow> string \<Rightarrow> string \<Rightarrow> bool \<Rightarrow> bool" where
  "ShouldSanitize dec path content keepPasswords =
     (if keepPasswords then False else IsXMLFile dec path content \<or> IsYAMLFile path)"


section \<open>What the XML pass does: one pass over the tokens\<close>

text \<open>What stands in the output for the bytes \<open>raw\<close> of a token read under the open tags \<open>stack\<close>, and whether that is a
  redaction.\<close>

definition piece :: "string list \<Rightarrow> token \<Rightarrow> string \<Rightarrow> string \<times> nat" where
  "piece stack tok raw = (case tok of
     StartElement _ attrs \<Rightarrow> (if hasSensitiveAttr attrs \<and> redactAttrs raw \<noteq> raw then (redactAttrs raw, 1) else (raw, 0))
   | CharData t \<Rightarrow> (if stack \<noteq> [] \<and> isSensitiveName (hd stack) \<and> trim_space t \<noteq> [] then (replaceContentPreserveWS raw, 1) else (raw, 0))
   | _ \<Rightarrow> (raw, 0))"

definition next_stack :: "token \<Rightarrow> string list \<Rightarrow> string list" where
  "next_stack tok stack = (case tok of StartElement name _ \<Rightarrow> name # stack | EndElement \<Rightarrow> tl stack | _ \<Rightarrow> stack)"

fun xml_stream :: "string \<Rightarrow> string list \<Rightarrow> nat \<Rightarrow> (token \<times> nat) list \<Rightarrow> string \<times> nat" where
  "xml_stream content stack p [] = (drop p content, 0)"
| "xml_stream content stack p ((tok, cur) # toks) =
     (case piece stack tok (slice content p cur) of (out, a) \<Rightarrow>
        (case xml_stream content (next_stack tok stack) cur toks of (rest, b) \<Rightarrow> (out @ rest, a + b)))"

text \<open>Input offsets run forwards through the text, and start tags and text are not empty.\<close>

fun offsets_ok :: "nat \<Rightarrow> nat \<Rightarrow> (token \<times> nat) list \<Rightarrow> bool" where
  "offsets_ok n p [] \<longleftrightarrow> p \<le> n"
| "offsets_ok n p ((tok, cur) # toks) \<longleftrightarrow>
     p \<le> cur \<and> (case tok of StartElement _ _ \<Rightarrow> p < cur | CharData _ \<Rightarrow> p < cur | _ \<Rightarrow> True) \<and> offsets_ok n cur toks"

lemma offsets_le: "offsets_ok n p toks \<Longrightarrow> p \<le> n"
  by (induction n p toks rule: offsets_ok.induct) auto

lemma slice_split: "i \<le> j \<Longrightarrow> j \<le> k \<Longrightarrow> slice s i j @ slice s j k = slice s i k"
  using take_drop_split [of "j - i" "k - i" "drop i s"] by (simp add: slice_def)

lemma slice_drop: "i \<le> j \<Longrightarrow> slice s i j @ drop j s = drop i s"
  by (simp add: slice_def) (metis append_take_drop_id drop_drop le_add_diff_inverse2)

text \<open>One step in terms of \<open>piece\<close>.\<close>

lemma xml_step_piece:
  fixes content w tok cur
  defines "w' \<equiv> xml_step content (tok, cur) w" and "raw \<equiv> slice content (w_prev w) cur"
  assumes "piece (w_stack w) tok raw = (out, a)"
  shows "w_stack w' = next_stack tok (w_stack w)" "w_prev w' = cur" "w_count w' = w_count w + a"
    "w_spans w' = w_spans w @ (if a = 1 then [(w_prev w, cur)] else [])"
    "sp \<noteq> (w_prev w, cur) \<Longrightarrow> w_rewrites w' sp = w_rewrites w sp"
    "a \<noteq> 1 \<Longrightarrow> out = raw \<and> w_rewrites w' = w_rewrites w"
    "w_rewrites w (w_prev w, cur) = None \<Longrightarrow> a = 1 \<Longrightarrow>
      (case w_rewrites w' (w_prev w, cur) of Some r \<Rightarrow> r | None \<Rightarrow> replaceContentPreserveWS raw) = out"
    "a = 1 \<Longrightarrow> case tok of StartElement _ _ \<Rightarrow> True | CharData _ \<Rightarrow> True | _ \<Rightarrow> False"
  using assms
  by (cases tok; cases "w_stack w"; auto simp: xml_step_def piece_def next_stack_def Let_def split: if_splits)+

text \<open>Spans recorded before offset \<open>p\<close>.\<close>

definition earlier :: "nat \<Rightarrow> (span \<rightharpoonup> string) \<Rightarrow> bool" where
  "earlier p rw \<longleftrightarrow> (\<forall>a b. rw (a, b) \<noteq> None \<longrightarrow> b \<le> p \<and> a < b)"

lemma xml_walk_splice:
  assumes "offsets_ok (length content) (w_prev w) toks" "earlier (w_prev w) (w_rewrites w)"
    "xml_stream content (w_stack w) (w_prev w) toks = (out, n)"
  shows "\<exists>sps. let w' = fold (xml_step content) toks w in
    w_spans w' = w_spans w @ sps \<and> sorted (map fst sps) \<and> (\<forall>sp\<in>set sps. w_prev w \<le> fst sp) \<and>
    w_count w' = w_count w + n \<and> length sps = n \<and> (n = 0 \<longrightarrow> w_rewrites w' = w_rewrites w) \<and>
    (\<forall>a b. a < w_prev w \<longrightarrow> w_rewrites w' (a, b) = w_rewrites w (a, b)) \<and>
    (\<forall>p \<le> w_prev w. xml_splice content (w_rewrites w') p sps = slice content p (w_prev w) @ out)"
  using assms
proof (induction toks arbitrary: w out n)
  case Nil
  then show ?case by (auto simp: slice_drop)
next
  case (Cons tc toks)
  obtain tok cur where tc: "tc = (tok, cur)" by fastforce
  let ?p = "w_prev w"
  let ?w = "xml_step content (tok, cur) w"
  obtain o1 a where p: "piece (w_stack w) tok (slice content ?p cur) = (o1, a)" by fastforce
  note step = xml_step_piece [OF p]
  obtain o2 b where s: "xml_stream content (next_stack tok (w_stack w)) cur toks = (o2, b)" by fastforce
  from Cons.prems(3) have out: "out = o1 @ o2" "n = a + b" by (auto simp: tc p s)
  from Cons.prems(1) have le: "?p \<le> cur" and ok: "offsets_ok (length content) cur toks" by (simp_all add: tc)
  have lt: "?p < cur" if "a = 1" using step(8) [OF that] Cons.prems(1) by (auto simp: tc split: token.splits)
  have e: "earlier cur (w_rewrites ?w)"
    unfolding earlier_def
  proof (intro allI impI)
    fix x y assume d: "w_rewrites ?w (x, y) \<noteq> None"
    show "y \<le> cur \<and> x < y"
    proof (cases "(x, y) = (?p, cur) \<and> a = 1")
      case False
      then have "w_rewrites ?w (x, y) = w_rewrites w (x, y)" using step(5) [of "(x, y)"] step(6) by (cases "a = 1") auto
      with d Cons.prems(2) have "y \<le> ?p \<and> x < y" by (simp add: earlier_def)
      then show ?thesis using le by simp
    qed (use lt in auto)
  qed
  obtain sps where IH: "w_spans (fold (xml_step content) toks ?w) = w_spans ?w @ sps" "sorted (map fst sps)"
      "\<forall>sp\<in>set sps. cur \<le> fst sp" "w_count (fold (xml_step content) toks ?w) = w_count ?w + b" "length sps = b"
      "\<forall>x y. x < cur \<longrightarrow> w_rewrites (fold (xml_step content) toks ?w) (x, y) = w_rewrites ?w (x, y)"
      "\<forall>q\<le>cur. xml_splice content (w_rewrites (fold (xml_step content) toks ?w)) q sps = slice content q cur @ o2"
      "b = 0 \<longrightarrow> w_rewrites (fold (xml_step content) toks ?w) = w_rewrites ?w"
    using Cons.IH [of ?w o2 b] ok e s by (auto simp: step Let_def)
  let ?rw = "w_rewrites (fold (xml_step content) toks ?w)"
  have keep: "?rw (x, y) = w_rewrites w (x, y)" if "x < ?p" for x y
    using IH(6) that le step(5) [of "(x, y)"] by simp
  show ?case
  proof (cases "a = 1")
    case True
    have none: "w_rewrites w (?p, cur) = None"
      using Cons.prems(2) lt [OF True] leD by (fastforce simp: earlier_def)
    have "?rw (?p, cur) = w_rewrites ?w (?p, cur)" using IH(6) lt [OF True] by simp
    then have "xml_splice content ?rw q ((?p, cur) # sps) = slice content q ?p @ out" if "q \<le> ?p" for q
      using that step(7) [OF none True] IH(7) by (auto simp: out slice_def split: option.splits)
    then show ?thesis
      using IH(1-5) keep True le by (intro exI [of _ "(?p, cur) # sps"]) (auto simp: tc step Let_def out)
  next
    case False
    then have "a = 0" "o1 = slice content ?p cur" "w_rewrites ?w = w_rewrites w" using step(6) p
      by (auto simp: piece_def split: token.splits if_splits)
    then show ?thesis
      using IH keep le by (intro exI [of _ sps]) (auto simp: tc step Let_def out slice_split)
  qed
qed



text \<open>When a file fails after one of its start tags was rewritten, the rewrite stays behind, and the text of a later file that
  happens to span the same offsets is replaced by the other file's tag.\<close>

lemma stale_rewrite:
  fixes dec :: decoder
  defines "a \<equiv> ''<aaaaa><b token='' @ [QUOTE, CHR ''t'', QUOTE, CHR ''>'']" and "b \<equiv> ''<token>0123456789abc</token>''"
  assumes "dec a = ([(StartElement ''aaaaa'' [], 7), (StartElement ''b'' [''token''], 20)], Some ''unexpected EOF'')"
    "dec b = ([(StartElement ''token'' [], 7), (CharData ''0123456789abc'', 20), (EndElement, 28)], None)"
  shows "fst (redactXML dec b (snd (redactXML dec a Map.empty)))
    = Inr (''<token><b token='' @ QUOTE # ''REMOVED'' @ [QUOTE] @ ''></token>'', 1)"
proof -
  have tag: "redactAttrs (slice a 7 20) = ''<b token='' @ QUOTE # ''REMOVED'' @ [QUOTE, CHR ''>'']"
    and ne: "slice a 7 20 = ''<b token='' @ [QUOTE, CHR ''t'', QUOTE, CHR ''>'']"
    unfolding a_def by code_simp+
  have "isSensitiveName ''token''" "trim_space ''0123456789abc'' \<noteq> []" by code_simp+
  then show ?thesis
    using tag ne assms(3,4)
    by (simp add: redactXML_def xml_step_def hasSensitiveAttr_def Let_def b_def slice_def eval_nat_numeral)
qed

text \<open>A tag whose attribute is written with blanks around the equals sign is not rewritten, though the decoder reports its
  attribute, and a value that holds the other quote is cut there.\<close>

lemma attr_blanks_kept: "redactAttrs (''<a password = '' @ QUOTE # ''x'' @ [QUOTE, CHR ''>'']) = ''<a password = '' @ QUOTE # ''x'' @ [QUOTE, CHR ''>'']"
  by code_simp

lemma attr_inner_quote_kept:
  "redactAttrs (''password='' @ DQUOTE # ''it'' @ QUOTE # ''s'' @ [DQUOTE]) = ''password='' @ DQUOTE # ''REMOVED'' @ QUOTE # ''s'' @ [DQUOTE]"
  by code_simp

section \<open>What the YAML pass does\<close>

text \<open>The scalars of a document in order, each with the way to it from the root, nearest step first.\<close>

datatype way = Key string | Item | Doc

fun leaves :: "way list \<Rightarrow> node \<Rightarrow> (way list \<times> string) list"
and leaves_all :: "way list \<Rightarrow> node list \<Rightarrow> (way list \<times> string) list"
and leaves_pairs :: "way list \<Rightarrow> node list \<Rightarrow> (way list \<times> string) list" where
  "leaves p (Node k t v s h l f c) =
     (case k of
        ScalarNode \<Rightarrow> [(p, v)]
      | DocumentNode \<Rightarrow> leaves_all (Doc # p) c
      | SequenceNode \<Rightarrow> leaves_all (Item # p) c
      | MappingNode \<Rightarrow> leaves_pairs p c
      | AliasNode \<Rightarrow> [])"
| "leaves_all p [] = []"
| "leaves_all p (n # ns) = leaves p n @ leaves_all p ns"
| "leaves_pairs p (key # val # rest) = leaves (Key (n_value key) # p) val @ leaves_pairs p rest"
| "leaves_pairs p ns = []"

text \<open>A scalar is sensitive when the nearest key above it is; items of lists in between do not matter.\<close>

definition way_sensitive :: "way list \<Rightarrow> bool" where
  "way_sensitive p = (case dropWhile (\<lambda>w. w = Item) p of Key k # _ \<Rightarrow> isSensitiveName k | _ \<Rightarrow> False)"

definition hide :: "way list \<times> string \<Rightarrow> way list \<times> string" where
  "hide l = (if way_sensitive (fst l) then (fst l, redacted) else l)"

lemma way_sensitive_simps [simp]:
  "way_sensitive (Item # p) = way_sensitive p" "way_sensitive (Doc # p) = False" "way_sensitive [] = False"
  "way_sensitive (Key k # p) = isSensitiveName k"
  by (simp_all add: way_sensitive_def)

lemma scrub_keeps [simp]:
  "n_kind (fst (scrubCommentsOn n)) = n_kind n" "n_value (fst (scrubCommentsOn n)) = n_value n"
  by (simp_all add: scrubCommentsOn_def split: node.splits prod.splits)

lemma redact_scalar_leaves:
  "n_kind val = ScalarNode \<Longrightarrow> leaves p (fst (redact_scalar val)) = [(p, redacted)]"
  "n_kind val = ScalarNode \<Longrightarrow> leaves p val = [(p, n_value val)]"
  by (cases val; simp add: redact_scalar_def)+

lemma walk_leaves:
  "way_sensitive p = sens \<Longrightarrow> leaves p (fst (walkYAMLNode sens n)) = map hide (leaves p n)"
  "way_sensitive p = sens \<Longrightarrow> leaves_all p (fst (walk_nodes sens ns)) = map hide (leaves_all p ns)"
  "leaves_pairs p (fst (walk_pairs ns)) = map hide (leaves_pairs p ns)"
proof (induction sens n and sens ns and ns arbitrary: p and p and p rule: walkYAMLNode_walk_nodes_walk_pairs.induct)
  case (1 sens k t v s h l f c)
  obtain n0 a where n0: "scrubCommentsOn (Node k t v s h l f []) = (n0, a)" by fastforce
  obtain c1 b1 where c1: "walk_nodes False c = (c1, b1)" by fastforce
  obtain c2 b2 where c2: "walk_nodes sens c = (c2, b2)" by fastforce
  obtain c3 b3 where c3: "walk_pairs c = (c3, b3)" by fastforce
  note IH = "1.IH" [OF n0 [symmetric], unfolded c1 c2 c3 fst_conv]
  show ?case
  proof (cases k)
    case DocumentNode
    then show ?thesis using IH(1) [of "Doc # p"] n0 c1 by simp
  next
    case SequenceNode
    then show ?thesis using IH [of "Item # p"] "1.prems" n0 c2 by simp
  next
    case MappingNode
    then show ?thesis using IH [of p] n0 c3 by simp
  qed (use "1.prems" n0 in \<open>simp_all add: hide_def redact_scalar_def split: prod.splits\<close>)
next
  case (3 sens n ns)
  obtain n' a where n: "walkYAMLNode sens n = (n', a)" by fastforce
  obtain ns' b where ns: "walk_nodes sens ns = (ns', b)" by fastforce
  show ?case using "3.IH"(1) [of p] "3.IH"(2) [OF n [symmetric], of p] "3.prems" by (simp add: n ns)
next
  case (4 key val rest)
  obtain key' a where k: "scrubCommentsOn key = (key', a)" by fastforce
  then have name: "n_value key' = n_value key" using scrub_keeps(2) [of key] by simp
  let ?sens = "isSensitiveName (n_value key)"
  obtain val' b where v: "(if ?sens \<and> n_kind val = ScalarNode then redact_scalar val else walkYAMLNode ?sens val) = (val', b)"
    by fastforce
  then have v': "(val', b) = (if isSensitiveName (n_value key') \<and> n_kind val = ScalarNode then redact_scalar val
      else walkYAMLNode (isSensitiveName (n_value key')) val)" by (simp only: name)
  obtain rest' d where r: "walk_pairs rest = (rest', d)" by fastforce
  have "leaves (Key (n_value key) # p) val' = map hide (leaves (Key (n_value key) # p) val)"
  proof (cases "?sens \<and> n_kind val = ScalarNode")
    case True
    then show ?thesis
      using v redact_scalar_leaves [of val "Key (n_value key) # p"] by (auto simp: hide_def)
  next
    case False
    then show ?thesis
      using v "4.IH"(1) [of key' a "Key (n_value key) # p"] by (auto simp: k name)
  qed
  moreover have "leaves_pairs p rest' = map hide (leaves_pairs p rest)"
    using "4.IH"(2) [OF k [symmetric] v', of p] by (simp add: r)
  ultimately show ?case by (simp only: walk_pairs.simps k r v prod.case name fst_conv leaves_pairs.simps map_append)
qed simp_all


text \<open>The walk is told that the value of a sensitive key is a mapping, but does not look: what stands under the inner keys is
  kept.\<close>

lemma nested_mapping_kept:
  assumes "isSensitiveName key" "\<not> isSensitiveName inner"
  shows "leaves [] (fst (walkYAMLNode False (Node MappingNode t v s h l f
      [Node ScalarNode t1 key s1 h1 l1 f1 [],
       Node MappingNode t2 v2 s2 h2 l2 f2 [Node ScalarNode t3 inner s3 h3 l3 f3 [], Node ScalarNode t4 secret s4 h4 l4 f4 []]])))
    = [([Key inner, Key key], secret)]"
  using assms by (subst walk_leaves(1)) (simp_all add: hide_def)

section \<open>Copying a configuration tree\<close>

text \<open>What \<open>filepath.Walk\<close> reports below \<open>configDir\<close>, by the path relative to it; the file system's answers; and what
  the collector did.\<close>

datatype walked = WalkError string | WalkDir | WalkFile string

record cfg_env =
  ce_stat :: "string \<Rightarrow> bool"
  ce_read :: "string \<Rightarrow> string + string"
  ce_mkdir :: "string \<Rightarrow> string option"
  ce_write :: "string \<Rightarrow> string \<Rightarrow> string option"

datatype cfg_io = CfgMkdir string | CfgWrite string string

record cfg_state =
  cs_rewrites :: "span \<rightharpoonup> string"
  cs_io :: "cfg_io list"
  cs_files :: nat
  cs_passwords :: nat

text \<open>\<open>None\<close>: the file is skipped.\<close>

definition sanitize_file :: "decoder \<Rightarrow> yaml \<Rightarrow> bool \<Rightarrow> string \<Rightarrow> string \<Rightarrow> (span \<rightharpoonup> string)
    \<Rightarrow> (string \<times> nat) option \<times> (span \<rightharpoonup> string)" where
  "sanitize_file dec y keepPasswords path content rw =
     (if ShouldSanitize dec path content keepPasswords then
        (case (if IsYAMLFile path then (SanitizeYAMLContent y content, rw) else SanitizeXMLContent dec content rw) of
           ((_, _, Some _), rw) \<Rightarrow> (None, rw)
         | ((out, n, None), rw) \<Rightarrow> (Some (out, n), rw))
      else (Some (content, 0), rw))"

definition collect_file :: "decoder \<Rightarrow> yaml \<Rightarrow> cfg_env \<Rightarrow> bool \<Rightarrow> string \<Rightarrow> string \<Rightarrow> string \<Rightarrow> cfg_state \<Rightarrow> cfg_state" where
  "collect_file dec y env keepPasswords configDir destDir relPath st =
     (let path = path_join [configDir, relPath] in
      case ce_read env path of
        Inl _ \<Rightarrow> st
      | Inr content \<Rightarrow>
          (case sanitize_file dec y keepPasswords path content (cs_rewrites st) of (res, rw) \<Rightarrow>
             let st = st\<lparr>cs_rewrites := rw\<rparr> in
             (case res of
                None \<Rightarrow> st
              | Some (sanitized, n) \<Rightarrow>
                  let st = st\<lparr>cs_passwords := cs_passwords st + n\<rparr>;
                      destPath = path_join [destDir, relPath];
                      dir = path_dir destPath;
                      st = st\<lparr>cs_io := cs_io st @ [CfgMkdir dir]\<rparr> in
                  if ce_mkdir env dir \<noteq> None then st
                  else let st = st\<lparr>cs_io := cs_io st @ [CfgWrite destPath sanitized]\<rparr> in
                    if ce_write env destPath sanitized \<noteq> None then st else st\<lparr>cs_files := cs_files st + 1\<rparr>)))"

fun collect_walk :: "decoder \<Rightarrow> yaml \<Rightarrow> cfg_env \<Rightarrow> bool \<Rightarrow> string \<Rightarrow> string \<Rightarrow> walked list \<Rightarrow> cfg_state \<Rightarrow> string option \<times> cfg_state" where
  "collect_walk dec y env keep configDir destDir [] st = (None, st)"
| "collect_walk dec y env keep configDir destDir (WalkError e # ws) st = (Some e, st)"
| "collect_walk dec y env keep configDir destDir (WalkDir # ws) st = collect_walk dec y env keep configDir destDir ws st"
| "collect_walk dec y env keep configDir destDir (WalkFile rel # ws) st =
     collect_walk dec y env keep configDir destDir ws (collect_file dec y env keep configDir destDir rel st)"

text \<open>\<open>Collect\<close>: \<open>rw\<close> is what earlier calls left in \<open>attrRewrites\<close>.\<close>

definition ConfigCollect :: "decoder \<Rightarrow> yaml \<Rightarrow> cfg_env \<Rightarrow> string \<Rightarrow> string \<Rightarrow> bool \<Rightarrow> walked list \<Rightarrow> (span \<rightharpoonup> string)
    \<Rightarrow> string option \<times> cfg_state" where
  "ConfigCollect dec y env configDir destDir keepPasswords walk rw =
     (let st = \<lparr>cs_rewrites = rw, cs_io = [], cs_files = 0, cs_passwords = 0\<rparr> in
      if \<not> ce_stat env configDir then (None, st)
      else let st = st\<lparr>cs_io := [CfgMkdir destDir]\<rparr> in
        (case ce_mkdir env destDir of
           Some e \<Rightarrow> (Some (''error creating configuration directory: '' @ e), st)
         | None \<Rightarrow>
             (case collect_walk dec y env keepPasswords configDir destDir walk st of
                (Some e, st) \<Rightarrow> (Some (''error walking through config directory: '' @ e), st)
              | (None, st) \<Rightarrow> (None, st))))"

text \<open>What may be written: below the destination, under the file's own name, the text the sanitizer let through.\<close>

definition copied :: "decoder \<Rightarrow> yaml \<Rightarrow> bool \<Rightarrow> string \<Rightarrow> string \<Rightarrow> string \<Rightarrow> bool" where
  "copied dec y keep path content out \<longleftrightarrow>
     (if ShouldSanitize dec path content keep
      then \<exists>clean. out = fst (RedactCredentialsInText clean) \<and>
        (if IsYAMLFile path then \<exists>n. redactYAML y content = Inr (clean, n)
         else \<exists>n rw. fst (redactXML dec content rw) = Inr (clean, n))
      else out = content)"

definition copy_ok :: "decoder \<Rightarrow> yaml \<Rightarrow> cfg_env \<Rightarrow> bool \<Rightarrow> string \<Rightarrow> string \<Rightarrow> walked list \<Rightarrow> cfg_io \<Rightarrow> bool" where
  "copy_ok dec y env keep configDir destDir walk io = (case io of
     CfgMkdir _ \<Rightarrow> True
   | CfgWrite dest out \<Rightarrow> \<exists>rel content. WalkFile rel \<in> set walk \<and> dest = path_join [destDir, rel] \<and>
       ce_read env (path_join [configDir, rel]) = Inr content \<and> copied dec y keep (path_join [configDir, rel]) content out)"

lemma sanitize_file_ok:
  assumes "sanitize_file dec y keep path content rw = (Some (out, n), rw')"
  shows "copied dec y keep path content out"
proof (cases "ShouldSanitize dec path content keep")
  case True
  show ?thesis
  proof (cases "IsYAMLFile path")
    case yaml: True
    from assms True yaml obtain clean m where "redactYAML y content = Inr (clean, m)" "out = fst (RedactCredentialsInText clean)"
      by (auto simp: sanitize_file_def SanitizeYAMLContent_def split: sum.splits prod.splits option.splits)
    with True yaml show ?thesis by (auto simp: copied_def)
  next
    case False
    from assms True False obtain clean m where "fst (redactXML dec content rw) = Inr (clean, m)" "out = fst (RedactCredentialsInText clean)"
      by (auto simp: sanitize_file_def SanitizeXMLContent_def split: sum.splits prod.splits option.splits)
    with True False show ?thesis by (auto simp: copied_def)
  qed
qed (use assms in \<open>simp add: sanitize_file_def copied_def\<close>)

lemma collect_file_io:
  "\<exists>io. cs_io (collect_file dec y env keep configDir destDir rel st) = cs_io st @ io \<and>
    list_all (copy_ok dec y env keep configDir destDir [WalkFile rel]) io"
proof -
  let ?path = "path_join [configDir, rel]" and ?dest = "path_join [destDir, rel]"
  show ?thesis
  proof (cases "ce_read env ?path")
    case (Inr content)
    obtain res rw where f: "sanitize_file dec y keep ?path content (cs_rewrites st) = (res, rw)" by fastforce
    show ?thesis
    proof (cases res)
      case (Some r)
      obtain out n where r: "r = (out, n)" by fastforce
      have "copy_ok dec y env keep configDir destDir [WalkFile rel] (CfgWrite ?dest out)"
        using sanitize_file_ok [OF f [unfolded Some r]] Inr by (auto simp: copy_ok_def intro!: exI [of _ rel])
      moreover have "copy_ok dec y env keep configDir destDir [WalkFile rel] (CfgMkdir d)" for d by (simp add: copy_ok_def)
      ultimately show ?thesis using Inr f Some r by (auto simp: collect_file_def Let_def)
    qed (simp add: collect_file_def Inr f)
  qed (simp add: collect_file_def)
qed

lemma copy_ok_mono:
  assumes "set ws \<subseteq> set ws'" "list_all (copy_ok dec y env keep c d ws) ios"
  shows "list_all (copy_ok dec y env keep c d ws') ios"
proof -
  have "copy_ok dec y env keep c d ws io \<Longrightarrow> copy_ok dec y env keep c d ws' io" for io
    using assms(1) by (cases io) (auto simp: copy_ok_def)
  with assms(2) show ?thesis by (auto simp: list_all_iff)
qed

lemma collect_walk_io:
  "\<exists>io. cs_io (snd (collect_walk dec y env keep c d ws st)) = cs_io st @ io \<and> list_all (copy_ok dec y env keep c d ws) io"
proof (induction dec y env keep c d ws st rule: collect_walk.induct)
  case (4 dec y env keep c d rel ws st)
  obtain io1 where 1: "cs_io (collect_file dec y env keep c d rel st) = cs_io st @ io1"
      "list_all (copy_ok dec y env keep c d [WalkFile rel]) io1"
    using collect_file_io by meson
  from "4.IH" obtain io2 where 2: "cs_io (snd (collect_walk dec y env keep c d ws (collect_file dec y env keep c d rel st)))
      = cs_io (collect_file dec y env keep c d rel st) @ io2" "list_all (copy_ok dec y env keep c d ws) io2" by blast
  have "list_all (copy_ok dec y env keep c d (WalkFile rel # ws)) (io1 @ io2)"
    unfolding list_all_append using 1(2) 2(2) by (auto elim!: copy_ok_mono [rotated])
  with 1(1) 2(1) show ?case by (intro exI [of _ "io1 @ io2"]) simp
next
  case (3 dec y env keep c d ws st)
  then show ?case by (metis copy_ok_mono set_subset_Cons collect_walk.simps(3))
qed simp_all

text \<open>C11: Fail closed: whatever the files hold and however parsing, reading and writing fail, every file the collector writes lies
  at the place of a file of the tree, and if that file is to be sanitized it holds the text the structural pass
  accepted and redacted, after the heuristic pass; a file whose parse failed is not written.\<close>

theorem config_fail_closed:
  "list_all (copy_ok dec y env keepPasswords configDir destDir walk)
    (cs_io (snd (ConfigCollect dec y env configDir destDir keepPasswords walk rw)))"
proof -
  let ?st = "\<lparr>cs_rewrites = rw, cs_io = [CfgMkdir destDir], cs_files = 0, cs_passwords = 0\<rparr>"
  obtain r st' where w: "collect_walk dec y env keepPasswords configDir destDir walk ?st = (r, st')" by fastforce
  have "list_all (copy_ok dec y env keepPasswords configDir destDir walk) (cs_io st')"
    using collect_walk_io [of dec y env keepPasswords configDir destDir walk ?st] w by (auto simp: copy_ok_def)
  with w show ?thesis
    by (cases r) (auto simp: ConfigCollect_def Let_def copy_ok_def split: option.splits)
qed

end
