(* ===== verification/LogFiles.thy ===== *)
theory LogFiles
  imports RunLog GoPath "HOL-Library.List_Lexorder" "HOL-Library.Char_ord" "HOL-Library.Multiset"
begin

text \<open>
  Copying the server's log files (\<open>internal/logfiles/logfiles.go\<close>): which directories, which files, under which
  name, and the tail that is kept of a large file. Comments of configuration files are removed first
  (\<open>internal/config/xml.go\<close>).

  The directories and files are a parameter (\<open>log_env\<close>), the output directory is a map from names to contents.
\<close>

section \<open>Log paths in the configuration\<close>

text \<open>\<open>(?s)<!--.*?-->\<close> and \<open>(?is)<(log|errorlog)>\s*([^<\s][^<]*?)\s*</(?:log|errorlog)>\<close>\<close>

definition re_xml_comment :: re where
  "re_xml_comment = seqs [lit ''<!--'', lazy_star (Cls (\<lambda>_. True)), lit ''-->'']"

definition StripComments :: "string \<Rightarrow> string" where
  "StripComments b = replace_all re_xml_comment [] b"

definition re_log_path :: re where
  "re_log_path = seqs [lit ''<'', Grp 1 (alts [ilit ''log'', ilit ''errorlog'']), lit ''>'', any_star (Cls re_space),
     Grp 2 (Seq (Cls (\<lambda>c. c \<noteq> CHR ''<'' \<and> \<not> re_space c)) (lazy_star (Cls (\<lambda>c. c \<noteq> CHR ''<'')))),
     any_star (Cls re_space), lit ''</'', alts [ilit ''log'', ilit ''errorlog''], lit ''>'']"

text \<open>A directory entry: its name, whether it is a directory, whether it is a regular file.\<close>

record dirent =
  d_name :: string
  d_isdir :: bool
  d_regular :: bool

text \<open>What \<open>copyTail\<close> meets when it opens a file: the size at \<open>Stat\<close>, the bytes there are to read (an active log may have
  more by then, a rotated one less), and the errors of the calls in their order.\<close>

record opened =
  of_open :: "string option"
  of_stat :: "string option"
  of_regular :: bool
  of_size :: int
  of_bytes :: string
  of_create :: "string option"
  of_seek :: "string option"
  of_read :: "string option"
  of_reseek :: "string option"
  of_header :: "string option"
  of_copy :: "string option"
  of_close :: "string option"

record log_env =
  le_isdir :: "string \<Rightarrow> bool"
  le_readdir :: "string \<Rightarrow> string + dirent list"
  le_readfile :: "string \<Rightarrow> string + string"
  le_mkdir :: "string \<Rightarrow> string option"
  le_file :: "string \<Rightarrow> opened"

record Options =
  o_Dir :: string
  o_ConfigDir :: string
  o_IncludeArchives :: bool
  o_MaxBytesPerFile :: int

record Result =
  r_Dirs :: "string list"
  r_Copied :: "string list"
  r_Truncated :: "string list"
  r_TotalBytes :: int
  r_Notes :: "string list"

definition no_result :: Result where
  "no_result = \<lparr>r_Dirs = [], r_Copied = [], r_Truncated = [], r_TotalBytes = 0, r_Notes = []\<rparr>"

definition DefaultLogDir :: string where "DefaultLogDir = ''/var/log/clickhouse-server''"
definition defaultMaxBytes :: int where "defaultMaxBytes = 50 * 2 ^ 20"

definition config_name :: "string \<Rightarrow> bool" where
  "config_name n \<longleftrightarrow> has_suffix (to_lower n) ''.xml'' \<or> has_suffix (to_lower n) ''.conf''"

text \<open>The paths one file declares, in order, unresolved substitutions and relative paths left out.\<close>

definition declared_paths :: "string \<Rightarrow> string list" where
  "declared_paths blob =
     (let s = StripComments blob in
      filter (\<lambda>p. p \<noteq> [] \<and> \<not> contains p ''{'' \<and> is_abs p)
        (map (\<lambda>(_, _, cs). trim_space (group s cs 2)) (find_all_sub re_log_path s)))"

definition paths_in :: "log_env \<Rightarrow> string \<Rightarrow> string list" where
  "paths_in env dir =
     (case le_readdir env dir of
        Inl _ \<Rightarrow> []
      | Inr entries \<Rightarrow> concat (map (\<lambda>e.
          if d_isdir e \<or> \<not> config_name (d_name e) then []
          else (case le_readfile env (path_join [dir, d_name e]) of Inl _ \<Rightarrow> [] | Inr blob \<Rightarrow> declared_paths blob)) entries))"

text \<open>The directories scanned: only beside a \<open>*.d\<close> directory is the parent one of them.\<close>

definition config_roots :: "string \<Rightarrow> string list" where
  "config_roots configDir =
     configDir #
       (if has_suffix (path_base (path_clean configDir)) ''.d'' \<and> path_dir (path_clean configDir) \<noteq> ''.''
        then [path_dir (path_clean configDir)] else [])"

definition LogPathsFromConfig :: "log_env \<Rightarrow> string \<Rightarrow> string list" where
  "LogPathsFromConfig env configDir =
     (if configDir = [] then [] else sort (dedup (concat (map (paths_in env) (config_roots configDir)))))"

section \<open>Directories and names\<close>

definition add_dir :: "log_env \<Rightarrow> string \<Rightarrow> string list \<Rightarrow> string list" where
  "add_dir env d dirs =
     (let d = path_clean d in if d = [] \<or> d \<in> set dirs \<or> \<not> le_isdir env d then dirs else dirs @ [d])"

definition DiscoverDirs :: "log_env \<Rightarrow> Options \<Rightarrow> Result \<Rightarrow> string list \<times> Result" where
  "DiscoverDirs env opts res =
     (if o_Dir opts \<noteq> [] then
        (if le_isdir env (o_Dir opts) then ([path_clean (o_Dir opts)], res)
         else ([], res\<lparr>r_Notes := r_Notes res @ [''-logs-dir '' @ go_quote (o_Dir opts) @ '' is not a readable directory'']\<rparr>))
      else
        (add_dir env DefaultLogDir (fold (\<lambda>p. add_dir env (path_dir p)) (LogPathsFromConfig env (o_ConfigDir opts)) []), res))"

definition wanted :: "string \<Rightarrow> bool \<Rightarrow> bool" where
  "wanted name includeArchives =
     (let l = to_lower name in
      if has_suffix l ''.log'' then True else includeArchives \<and> (has_suffix l ''.gz'' \<or> has_suffix l ''.zst''))"

definition candidate :: "string \<Rightarrow> nat \<Rightarrow> string" where
  "candidate name i = (let ext = path_ext name in trim_suffix name ext @ ''-'' @ nat_str i @ ext)"

text \<open>\<open>taken\<close>: the names in the output directory.\<close>

definition uniqueName :: "(string \<Rightarrow> bool) \<Rightarrow> string \<Rightarrow> string" where
  "uniqueName taken name =
     (if \<not> taken name then name
      else case first_some (\<lambda>i. if \<not> taken (candidate name i) then Some (candidate name i) else None) [2..<100] of
        Some c \<Rightarrow> c
      | None \<Rightarrow> name)"

section \<open>The tail of a file\<close>

text \<open>\<open>lengthToNewline\<close>: \<open>rest\<close> is what is left to read, \<open>got\<close> what was read; buffers of 8 KiB, within 64 KiB.\<close>

function newline_from :: "nat \<Rightarrow> string \<Rightarrow> nat" where
  "newline_from got rest =
     (if got \<ge> 65536 then 65536
      else if rest = [] then got
      else case index_byte (take 8192 rest) NL of
        Some i \<Rightarrow> got + i + 1
      | None \<Rightarrow> newline_from (got + length (take 8192 rest)) (drop 8192 rest))"
  by auto

termination by (relation "measure (length \<circ> snd)") auto

declare newline_from.simps [simp del]

definition lengthToNewline :: "string \<Rightarrow> nat" where
  "lengthToNewline rest = newline_from 0 rest"

definition truncation_header :: "int \<Rightarrow> int \<Rightarrow> string" where
  "truncation_header orig limit =
     ''### support-diagnostic: TRUNCATED '' @ em_dash @ '' original '' @ int_str orig @ '' bytes, kept last '' @ int_str limit @
     '' bytes (tail) ###'' @ [NL]"

text \<open>\<open>io.LimitReader\<close>: nothing for a limit that is not positive.\<close>

definition limited :: "int \<Rightarrow> string \<Rightarrow> string" where
  "limited limit s = take (nat limit) s"

text \<open>\<open>copyTail\<close>: what it returns, and the output file it leaves (\<open>None\<close>: none, or removed; unchanged if it was never
  created).\<close>

datatype outfile = Untouched | Removed | Kept string

definition close_out :: "opened \<Rightarrow> string \<Rightarrow> int \<times> bool \<times> string option \<Rightarrow> (int \<times> bool \<times> string option) \<times> outfile" where
  "close_out f out r = (case r of (written, truncated, err) \<Rightarrow>
     let err = (if err = None then of_close f else err) in
     ((written, truncated, err), if err = None then Kept out else Removed))"

definition copyTail :: "opened \<Rightarrow> string \<Rightarrow> int \<Rightarrow> (int \<times> bool \<times> string option) \<times> outfile" where
  "copyTail f src maxb =
     (if of_open f \<noteq> None then ((0, False, of_open f), Untouched)
      else if of_stat f \<noteq> None then ((0, False, of_stat f), Untouched)
      else if \<not> of_regular f then ((0, False, Some (src @ '': not a regular file'')), Untouched)
      else if of_create f \<noteq> None then ((0, False, of_create f), Untouched)
      else if of_size f > maxb then
        (let start = of_size f - maxb in
         if of_seek f \<noteq> None then close_out f [] (0, True, of_seek f)
         else if of_read f \<noteq> None then close_out f [] (0, True, of_read f)
         else let skip = int (lengthToNewline (drop (nat start) (of_bytes f))) in
           if of_reseek f \<noteq> None then close_out f [] (0, True, of_reseek f)
           else let limit = of_size f - (start + skip); header = truncation_header (of_size f) limit in
             if of_header f \<noteq> None then close_out f [] (0, True, of_header f)
             else let out = limited limit (drop (nat (start + skip)) (of_bytes f)) in
               close_out f (header @ out) (int (length header) + int (length out), True, of_copy f))
      else let out = limited (of_size f) (of_bytes f) in close_out f out (int (length out), False, of_copy f))"

section \<open>The collection\<close>

type_synonym outdir = "string \<rightharpoonup> string"

definition store :: "string \<Rightarrow> outfile \<Rightarrow> outdir \<Rightarrow> outdir" where
  "store name f out = (case f of Untouched \<Rightarrow> out | Removed \<Rightarrow> out(name := None) | Kept s \<Rightarrow> out(name \<mapsto> s))"

definition collect_entry :: "log_env \<Rightarrow> Options \<Rightarrow> string \<Rightarrow> dirent \<Rightarrow> Result \<times> outdir \<Rightarrow> Result \<times> outdir" where
  "collect_entry env opts dir e st = (case st of (res, out) \<Rightarrow>
     if d_isdir e \<or> \<not> wanted (d_name e) (o_IncludeArchives opts) then st
     else let src = path_join [dir, d_name e] in
       if \<not> d_regular e then (res\<lparr>r_Notes := r_Notes res @ [src @ '': skipped (not a regular file)'']\<rparr>, out)
       else let dst = uniqueName (\<lambda>n. out n \<noteq> None) (d_name e) in
         (case copyTail (le_file env src) src (o_MaxBytesPerFile opts) of ((n, truncated, err), f) \<Rightarrow>
            let out = store dst f out in
            (case err of
               Some x \<Rightarrow> (res\<lparr>r_Notes := r_Notes res @ [src @ '': '' @ x]\<rparr>, out)
             | None \<Rightarrow>
                 (res\<lparr>r_Copied := r_Copied res @ [dst], r_TotalBytes := r_TotalBytes res + n,
                    r_Truncated := r_Truncated res @ (if truncated then [dst] else [])\<rparr>, out))))"

definition collect_dir :: "log_env \<Rightarrow> Options \<Rightarrow> string \<Rightarrow> Result \<times> outdir \<Rightarrow> Result \<times> outdir" where
  "collect_dir env opts dir st =
     (case le_readdir env dir of
        Inl e \<Rightarrow> ((fst st)\<lparr>r_Notes := r_Notes (fst st) @ [dir @ '': '' @ e]\<rparr>, snd st)
      | Inr entries \<Rightarrow> fold (collect_entry env opts dir) entries st)"

definition LogCollect :: "log_env \<Rightarrow> Options \<Rightarrow> string \<Rightarrow> outdir \<Rightarrow> (Result \<times> string option) \<times> outdir" where
  "LogCollect env opts destDir out =
     (let opts = (if o_MaxBytesPerFile opts \<le> 0 then opts\<lparr>o_MaxBytesPerFile := defaultMaxBytes\<rparr> else opts) in
      case DiscoverDirs env opts no_result of (dirs, res) \<Rightarrow>
        if dirs = [] then
          ((res\<lparr>r_Notes := r_Notes res @ [''no readable ClickHouse log directory found '' @ em_dash @
             '' run on the ClickHouse host, or pass -logs-dir'']\<rparr>, None), out)
        else let res = res\<lparr>r_Dirs := dirs\<rparr> in
          (case le_mkdir env (path_join [destDir, ''logs'']) of
             Some e \<Rightarrow> ((res, Some (''create logs output dir: '' @ e)), out)
           | None \<Rightarrow>
               (case fold (collect_dir env opts) dirs (res, out) of (res, out) \<Rightarrow>
                  ((res\<lparr>r_Copied := sort (r_Copied res)\<rparr>, None), out))))"

definition LogSummary :: "Result \<Rightarrow> string" where
  "LogSummary r =
     (if r_Copied r = [] then ''  no log files collected'' @ [NL]
      else ''  collected '' @ nat_str (length (r_Copied r)) @ '' log file(s), '' @
        fmt_fixed 1 (f_div (f_of_int (r_TotalBytes r)) (Fin (2 ^ 20))) @ '' MiB, from: '' @ str_join '', '' (r_Dirs r) @ [NL] @
        (if r_Truncated r \<noteq> [] then ''  tail-truncated (size cap): '' @ str_join '', '' (r_Truncated r) @ [NL] else [])) @
     concat (map (\<lambda>n. ''  note: '' @ n @ [NL]) (r_Notes r))"

section \<open>The tail starts at a line\<close>

lemma index_byte_of_append:
  "index_byte (a @ b) c = (case index_byte a c of Some i \<Rightarrow> Some i | None \<Rightarrow> map_option (\<lambda>i. length a + i) (index_byte b c))"
proof (induction a)
  case Nil
  show ?case by (cases "index_byte b c") (simp_all del: index_byte_None)
next
  case (Cons x a)
  show ?case
  proof (cases "index_byte a c")
    case None
    then show ?thesis using Cons by (cases "index_byte b c") (simp_all del: index_byte_None)
  qed (use Cons in simp)
qed

lemma newline_from_Nil: "got \<le> 65536 \<Longrightarrow> newline_from got [] = got"
  by (subst newline_from.simps) simp

lemma newline_from_index:
  "got + n * 8192 = 65536 \<Longrightarrow> newline_from got rest =
    (case index_byte (take (n * 8192) rest) NL of Some i \<Rightarrow> got + i + 1 | None \<Rightarrow> got + min (length rest) (n * 8192))"
proof (induction n arbitrary: got rest)
  case (Suc n)
  let ?c = "take 8192 rest" and ?r = "drop 8192 rest"
  have t: "take (Suc n * 8192) rest = ?c @ take (n * 8192) ?r" by (simp add: take_add)
  have got: "got < 65536" using Suc.prems by simp
  show ?case
  proof (cases "rest = []")
    case False
    show ?thesis
    proof (cases "index_byte ?c NL")
      case (Some i)
      then show ?thesis unfolding t index_byte_of_append newline_from.simps [of got] using False got by simp
    next
      case None
      then have step: "newline_from got rest = newline_from (got + length ?c) ?r"
        using False got by (subst newline_from.simps) (simp del: index_byte_None)
      show ?thesis
      proof (cases "length rest < 8192")
        case True
        then have r: "?r = []" by simp
        have "newline_from (got + length rest) [] = got + length rest" using True Suc.prems by (subst newline_from.simps) simp
        then show ?thesis unfolding t index_byte_of_append r step using None True by (simp del: index_byte_None)
      next
        case big: False
        then have "newline_from (got + length ?c) ?r = (case index_byte (take (n * 8192) ?r) NL of Some i \<Rightarrow> got + 8192 + i + 1
            | None \<Rightarrow> got + 8192 + min (length ?r) (n * 8192))"
          using Suc.prems Suc.IH [of "got + 8192" ?r] newline_from_Nil [of "got + 8192"] by (simp add: min_def)
        then show ?thesis unfolding t index_byte_of_append step using None big
          by (cases "index_byte (take (n * 8192) ?r) NL") (simp_all del: index_byte_None)
      qed
    qed
  qed (use got in \<open>simp add: newline_from.simps\<close>)
qed (simp add: newline_from.simps)

lemma lengthToNewline_index:
  "lengthToNewline rest = (case index_byte (take 65536 rest) NL of Some i \<Rightarrow> i + 1 | None \<Rightarrow> min (length rest) 65536)"
proof -
  have "8 * 8192 = (65536::nat)" by simp
  with newline_from_index [of 0 8 rest] show ?thesis unfolding lengthToNewline_def by (simp only: add_0)
qed

text \<open>A regular file that does not change while it is copied, with no call failing.\<close>

definition quiet :: "opened \<Rightarrow> bool" where
  "quiet f \<longleftrightarrow> of_regular f \<and> of_size f = int (length (of_bytes f)) \<and>
     list_all (\<lambda>e. e = None) [of_open f, of_stat f, of_create f, of_seek f, of_read f, of_reseek f, of_header f, of_copy f, of_close f]"

text \<open>Where the kept tail starts: after the first newline of the last \<open>maxb\<close> bytes, or 64 KiB in if there is none so far.\<close>

definition tail_start :: "string \<Rightarrow> nat \<Rightarrow> nat \<Rightarrow> bool" where
  "tail_start bytes start k \<longleftrightarrow>
     NL \<notin> set (slice bytes start (k - 1)) \<and> start < k \<and> k \<le> start + 65536 \<and> k \<le> length bytes \<and>
     (bytes ! (k - 1) = NL \<or> k = length bytes \<or> k = start + 65536)"

lemma tail_start_newline:
  assumes "start < length bytes"
  shows "tail_start bytes start (start + lengthToNewline (drop start bytes))"
proof (cases "index_byte (take 65536 (drop start bytes)) NL")
  case None
  then have "NL \<notin> set (take 65536 (drop start bytes))" by simp
  moreover have "set (slice bytes start (start + min (length bytes - start) 65536 - 1)) \<subseteq> set (take 65536 (drop start bytes))"
    unfolding slice_def by (rule set_take_subset_set_take) simp
  moreover have "lengthToNewline (drop start bytes) = min (length bytes - start) 65536"
    unfolding lengthToNewline_index None by simp
  ultimately show ?thesis using assms by (auto simp: tail_start_def min_def)
next
  case (Some i)
  note i = index_byte_Some [OF this]
  then have b: "i < 65536" "i < length bytes - start" by simp_all
  with i have "bytes ! (start + i) = NL" "start + i < length bytes" by auto
  note this b
  moreover from i b have "NL \<notin> set (take i (drop start bytes))" by (auto simp: min_def)
  moreover have "lengthToNewline (drop start bytes) = i + 1" unfolding lengthToNewline_index Some by simp
  ultimately show ?thesis by (simp add: tail_start_def slice_def)
qed



section \<open>The report is honest\<close>

lemma candidate_inject: "candidate name i = candidate name j \<longleftrightarrow> i = j"
  by (auto simp: candidate_def Let_def dest: arg_cong [where f = "digits_val 0"] simp: digits_val_nat_str)

text \<open>While fewer than 98 names are taken, \<open>uniqueName\<close> gives a free one.\<close>

lemma free_candidate:
  assumes "finite {n. taken n}" "card {n. taken n} < m - 2"
  shows "\<exists>c. first_some (\<lambda>i. if \<not> taken (candidate name i) then Some (candidate name i) else None) [2..<m] = Some c \<and> \<not> taken c"
proof -
  let ?attempt = "\<lambda>i. if \<not> taken (candidate name i) then Some (candidate name i) else None"
  have "\<exists>i\<in>set [2..<m]. \<not> taken (candidate name i)"
  proof (rule ccontr)
    assume "\<not> ?thesis"
    then have "candidate name ` {2..<m} \<subseteq> {n. taken n}" by auto
    then have "card (candidate name ` {2..<m}) \<le> card {n. taken n}" using assms(1) by (rule card_mono [rotated])
    moreover have "card (candidate name ` {2..<m}) = m - 2"
      by (subst card_image) (simp_all add: inj_on_def candidate_inject)
    ultimately show False using assms(2) by simp
  qed
  then have "first_some ?attempt [2..<m] \<noteq> None" by (auto simp: first_some_None)
  then obtain c where c: "first_some ?attempt [2..<m] = Some c" by blast
  then have "\<not> taken c" by (auto dest: first_some_Some split: if_splits)
  with c show ?thesis by blast
qed

lemma uniqueName_free:
  assumes "finite {n. taken n}" "card {n. taken n} < 98"
  shows "\<not> taken (uniqueName taken name)"
  using free_candidate [OF assms(1), of 100 name] assms(2) by (auto simp: uniqueName_def simp del: upt_rec_numeral)

lemma copyTail_err: "copyTail f src m = ((n, t, Some e), out) \<Longrightarrow> out = Untouched \<or> out = Removed"
  by (auto simp: copyTail_def close_out_def Let_def split: if_splits)

lemma copyTail_ok: "copyTail f src m = ((n, t, None), out) \<Longrightarrow> \<exists>s. out = Kept s \<and> n = int (length s)"
  by (auto simp: copyTail_def close_out_def Let_def split: if_splits)

text \<open>The report against the output directory.\<close>

definition honest :: "nat \<Rightarrow> Result \<times> outdir \<Rightarrow> bool" where
  "honest m st \<longleftrightarrow> (case st of (res, out) \<Rightarrow>
     distinct (r_Copied res) \<and> dom out = set (r_Copied res) \<and> length (r_Copied res) \<le> m \<and>
     set (r_Truncated res) \<subseteq> set (r_Copied res) \<and>
     r_TotalBytes res = (\<Sum>n\<leftarrow>r_Copied res. int (length (the (out n)))))"

lemma honest_entry:
  assumes "honest m (res, out)" "m < 98"
  shows "honest (Suc m) (collect_entry env opts dir e (res, out))"
proof -
  let ?src = "path_join [dir, d_name e]" and ?dst = "uniqueName (\<lambda>n. out n \<noteq> None) (d_name e)"
  obtain n t err f where c: "copyTail (le_file env ?src) ?src (o_MaxBytesPerFile opts) = ((n, t, err), f)"
    by (metis prod.exhaust)
  have "card {n. out n \<noteq> None} = length (r_Copied res)"
    using assms(1) by (simp add: honest_def dom_def flip: distinct_card)
  then have free: "out ?dst = None"
    using uniqueName_free [of "\<lambda>n. out n \<noteq> None" "d_name e"] assms
    by (auto simp: honest_def dom_def) 
  have weak: "honest (Suc m) (res\<lparr>r_Notes := ns\<rparr>, out)" "honest (Suc m) (res, out)" for ns
    using assms(1) by (simp_all add: honest_def)
  show ?thesis
  proof (cases err)
    case (Some x)
    with c copyTail_err [of _ _ _ n t x f] have "f = Untouched \<or> f = Removed" by blast
    then have "store ?dst f out = out" using free by (auto simp: store_def)
    then show ?thesis using weak c Some by (auto simp: collect_entry_def Let_def)
  next
    case None
    with c copyTail_ok [of _ _ _ n t f] obtain s where s: "f = Kept s" "n = int (length s)" by blast
    have "?dst \<notin> set (r_Copied res)" using free assms(1) by (auto simp: honest_def)
    then have "(\<Sum>n\<leftarrow>r_Copied res. int (length (the ((out(?dst \<mapsto> s)) n)))) = (\<Sum>n\<leftarrow>r_Copied res. int (length (the (out n))))"
      by (intro arg_cong [where f = sum_list] map_cong) auto
    then have "honest (Suc m) (res\<lparr>r_Copied := r_Copied res @ [?dst], r_TotalBytes := r_TotalBytes res + n,
        r_Truncated := r_Truncated res @ (if t then [?dst] else [])\<rparr>, out(?dst \<mapsto> s))"
      using assms(1) \<open>?dst \<notin> _\<close> s by (auto simp: honest_def)
    then show ?thesis using weak c None s by (auto simp: collect_entry_def Let_def store_def)
  qed
qed

lemma honest_entries:
  "honest m st \<Longrightarrow> m + length es \<le> 98 \<Longrightarrow> honest (m + length es) (fold (collect_entry env opts dir) es st)"
proof (induction es arbitrary: m st)
  case (Cons e es)
  obtain res out where "st = (res, out)" by fastforce
  with Cons.prems honest_entry [of m res out env opts dir e]
  have "honest (Suc m) (collect_entry env opts dir e st)" by simp
  with Cons.IH [of "Suc m"] Cons.prems(2) show ?case by simp
qed simp

definition listed :: "log_env \<Rightarrow> string \<Rightarrow> nat" where
  "listed env dir = (case le_readdir env dir of Inl _ \<Rightarrow> 0 | Inr es \<Rightarrow> length es)"

lemma honest_dirs:
  "honest m st \<Longrightarrow> m + sum_list (map (listed env) dirs) \<le> 98 \<Longrightarrow>
    honest (m + sum_list (map (listed env) dirs)) (fold (collect_dir env opts) dirs st)"
proof (induction dirs arbitrary: m st)
  case (Cons d dirs)
  have "honest (m + listed env d) (collect_dir env opts d st)"
    using Cons.prems honest_entries [of m st _ env opts d]
    by (cases st) (auto simp: collect_dir_def listed_def honest_def split: sum.splits)
  with Cons.IH [of "m + listed env d"] Cons.prems(2) show ?case by (simp add: add.assoc)
qed simp

lemma sum_list_sort: "(\<Sum>x\<leftarrow>sort xs. f x) = (\<Sum>x\<leftarrow>xs. (f x :: int))"
  by (metis mset_map mset_sort sum_mset_sum_list)



end
