(* ===== verification/Archive.thy ===== *)
theory Archive
  imports GoPath
begin

text \<open>
  Writing the archive of a run (\<open>internal/archive.go\<close>): the entries of the tar stream, their names, and the way
  the finished file is put in place. What the calls of the operating system and of the tar and gzip writers
  answer is a parameter (\<open>arch_env\<close>); the disk maps paths to contents.
\<close>

section \<open>Names of entries\<close>

text \<open>\<open>sep\<close>: the separator of the collecting platform.\<close>

definition entryName :: "string \<Rightarrow> string \<Rightarrow> char \<Rightarrow> string" where
  "entryName baseDir relPath sep =
     (if relPath = ''.'' \<or> relPath = [] then baseDir
      else path_join [baseDir, if sep \<noteq> SLASH then str_replace relPath [sep] [SLASH] else relPath])"

definition archiveEntryName :: "string \<Rightarrow> string \<Rightarrow> string" where
  "archiveEntryName baseDir relPath = entryName baseDir relPath SLASH"

section \<open>The stream\<close>

text \<open>A header with the entry's name and whether it is a directory, the content of a file by its path, and the footers.\<close>

datatype piece = Header string bool | Content string | TarFooter | GzipFooter

text \<open>What \<open>filepath.Walk\<close> reports: an error, or a path relative to the root and whether it is a directory.\<close>

datatype visit = VisitError string | Visit string bool

record arch_env =
  ae_exists :: "string \<Rightarrow> bool"
  ae_temp :: "string + string"
  ae_chmod :: "string option"
  ae_walk :: "string \<Rightarrow> visit list"
  ae_info :: "string \<Rightarrow> string \<Rightarrow> string option"
  ae_header :: "string \<Rightarrow> string \<Rightarrow> string option"
  ae_content :: "string \<Rightarrow> string \<Rightarrow> string option"
  ae_tarclose :: "string option"
  ae_gzclose :: "string option"
  ae_sync :: "string option"
  ae_close :: "string option"
  ae_rename :: "string option"

definition filterExistingDirs :: "arch_env \<Rightarrow> string list \<Rightarrow> string list" where
  "filterExistingDirs env dirs = filter (ae_exists env) dirs"

text \<open>One call of the walk function: the pieces written (those of a failed write included) and the error.\<close>

definition add_visit :: "arch_env \<Rightarrow> string \<Rightarrow> visit \<Rightarrow> piece list \<times> nat \<times> string option" where
  "add_visit env dir v = (case v of
     VisitError e \<Rightarrow> ([], 0, Some e)
   | Visit rel isdir \<Rightarrow>
       if ae_info env dir rel \<noteq> None then ([], 0, ae_info env dir rel)
       else let h = Header (archiveEntryName (path_base dir) rel) isdir in
         if ae_header env dir rel \<noteq> None then ([h], 0, ae_header env dir rel)
         else if isdir then ([h], 0, None)
         else let c = Content (path_join [dir, rel]) in
           if ae_content env dir rel \<noteq> None then ([h, c], 0, ae_content env dir rel) else ([h, c], 1, None))"

fun addDirectoryToArchive :: "arch_env \<Rightarrow> string \<Rightarrow> visit list \<Rightarrow> piece list \<times> nat \<times> string option" where
  "addDirectoryToArchive env dir [] = ([], 0, None)"
| "addDirectoryToArchive env dir (v # vs) =
     (case add_visit env dir v of (ps, n, err) \<Rightarrow>
        if err \<noteq> None then (ps, n, err)
        else (case addDirectoryToArchive env dir vs of (ps', n', err') \<Rightarrow> (ps @ ps', n + n', err')))"

fun write_dirs :: "arch_env \<Rightarrow> string list \<Rightarrow> piece list \<times> nat \<times> string option" where
  "write_dirs env [] = ([], 0, None)"
| "write_dirs env (d # ds) =
     (case addDirectoryToArchive env d (ae_walk env d) of (ps, n, err) \<Rightarrow>
        (case err of
           Some e \<Rightarrow> (ps, 0, Some (''archiving directory '' @ go_quote d @ '': '' @ e))
         | None \<Rightarrow> (case write_dirs env ds of (ps', n', err') \<Rightarrow> (ps @ ps', n + n', err'))))"

definition writeArchive :: "arch_env \<Rightarrow> string list \<Rightarrow> piece list \<times> nat \<times> string option" where
  "writeArchive env dirs =
     (case write_dirs env dirs of (ps, n, err) \<Rightarrow>
        if err \<noteq> None then (ps, n, err)
        else if ae_tarclose env \<noteq> None then (ps, n, ae_tarclose env)
        else if ae_gzclose env \<noteq> None then (ps @ [TarFooter], n, ae_gzclose env)
        else (ps @ [TarFooter, GzipFooter], n, None))"

section \<open>Putting the archive in place\<close>

datatype content = Other string | Stream "piece list"

type_synonym disk = "string \<rightharpoonup> content"

text \<open>The deferred clean-up: on an error the temporary file is closed and removed.\<close>

definition cleanup :: "string \<Rightarrow> string option \<Rightarrow> disk \<Rightarrow> string option \<times> disk" where
  "cleanup tmp err disk = (if err \<noteq> None then (err, disk(tmp := None)) else (None, disk))"

definition CreateArchive :: "arch_env \<Rightarrow> string \<Rightarrow> string list \<Rightarrow> disk \<Rightarrow> string option \<times> disk" where
  "CreateArchive env archiveName dirs disk =
     (let existingDirs = filterExistingDirs env dirs in
      if existingDirs = [] then (None, disk)
      else case ae_temp env of
        Inl e \<Rightarrow> (Some (''error creating archive file: '' @ e), disk)
      | Inr tmp \<Rightarrow>
          let disk = disk(tmp \<mapsto> Stream []) in
          (case ae_chmod env of
             Some e \<Rightarrow> cleanup tmp (Some (''error creating archive file: '' @ e)) disk
           | None \<Rightarrow>
               (case writeArchive env existingDirs of (ps, totalFiles, err) \<Rightarrow>
                  let disk = disk(tmp \<mapsto> Stream ps) in
                  (case err of
                     Some e \<Rightarrow> cleanup tmp (Some (''error writing archive: '' @ e)) disk
                   | None \<Rightarrow>
                       (case ae_sync env of
                          Some e \<Rightarrow> cleanup tmp (Some (''error writing archive: '' @ e)) disk
                        | None \<Rightarrow>
                            (case ae_close env of
                               Some e \<Rightarrow> cleanup tmp (Some (''error writing archive: '' @ e)) disk
                             | None \<Rightarrow>
                                 (case ae_rename env of
                                    Some e \<Rightarrow> cleanup tmp (Some (''error publishing archive: '' @ e)) disk
                                  | None \<Rightarrow> cleanup tmp None ((disk(tmp := None))(archiveName \<mapsto> Stream ps)))))))))"

section \<open>The entries of a complete archive\<close>

text \<open>The entry every visited path must have, and the whole stream.\<close>

definition entries_of_visit :: "string \<Rightarrow> visit \<Rightarrow> piece list" where
  "entries_of_visit dir v = (case v of
     VisitError _ \<Rightarrow> []
   | Visit rel isdir \<Rightarrow> Header (archiveEntryName (path_base dir) rel) isdir #
       (if isdir then [] else [Content (path_join [dir, rel])]))"

definition complete_stream :: "arch_env \<Rightarrow> string list \<Rightarrow> piece list" where
  "complete_stream env dirs =
     concat (map (\<lambda>d. concat (map (entries_of_visit d) (ae_walk env d))) dirs) @ [TarFooter, GzipFooter]"

definition no_visit_error :: "visit \<Rightarrow> bool" where
  "no_visit_error v = (case v of VisitError _ \<Rightarrow> False | Visit _ _ \<Rightarrow> True)"

lemma add_visit_ok: "add_visit env dir v = (ps, n, None) \<Longrightarrow> ps = entries_of_visit dir v \<and> no_visit_error v"
  by (cases v) (auto simp: add_visit_def entries_of_visit_def no_visit_error_def Let_def split: if_splits)

lemma addDirectory_ok:
  "addDirectoryToArchive env dir vs = (ps, n, None) \<Longrightarrow> ps = concat (map (entries_of_visit dir) vs) \<and> list_all no_visit_error vs"
proof (induction vs arbitrary: ps n)
  case (Cons v vs)
  then show ?case using add_visit_ok [of env dir v] by (fastforce split: prod.splits if_splits)
qed simp

lemma write_dirs_ok:
  "write_dirs env dirs = (ps, n, None) \<Longrightarrow>
    ps = concat (map (\<lambda>d. concat (map (entries_of_visit d) (ae_walk env d))) dirs) \<and>
    list_all (\<lambda>d. list_all no_visit_error (ae_walk env d)) dirs"
proof (induction dirs arbitrary: ps n)
  case (Cons d ds)
  then show ?case using addDirectory_ok [of env d "ae_walk env d"] by (fastforce split: prod.splits option.splits)
qed simp

lemma writeArchive_ok:
  assumes "writeArchive env dirs = (ps, n, None)"
  shows "ps = complete_stream env dirs \<and> list_all (\<lambda>d. list_all no_visit_error (ae_walk env d)) dirs"
  using assms write_dirs_ok [of env dirs] by (auto simp: writeArchive_def complete_stream_def split: prod.splits if_splits)

text \<open>C16: The archive appears whole or not at all: if \<open>CreateArchive\<close> reports an error the disk is what it was before, whatever
  call failed; if it reports none and there was a directory to archive, exactly the archive's name changed, and it
  holds the complete stream with an entry for every path of every directory, and both footers.\<close>

theorem archive_all_or_nothing:
  assumes "case ae_temp env of Inl _ \<Rightarrow> True | Inr tmp \<Rightarrow> disk tmp = None \<and> tmp \<noteq> archiveName"
  shows "case CreateArchive env archiveName dirs disk of
      (Some _, disk') \<Rightarrow> disk' = disk
    | (None, disk') \<Rightarrow> disk' = (if filterExistingDirs env dirs = [] then disk
        else disk(archiveName \<mapsto> Stream (complete_stream env (filterExistingDirs env dirs))))"
proof (cases "filterExistingDirs env dirs = []")
  case False
  show ?thesis
  proof (cases "ae_temp env")
    case (Inr tmp)
    with assms have tmp: "disk tmp = None" "tmp \<noteq> archiveName" by simp_all
    obtain ps n err where w: "writeArchive env (filterExistingDirs env dirs) = (ps, n, err)" by (metis prod_cases3)
    have undo: "disk(tmp := None) = disk" using tmp(1) by (rule fun_upd_idem)
    show ?thesis
    proof (cases "ae_chmod env")
      case None
      show ?thesis
      proof (cases err)
        case err: None
        with w writeArchive_ok have "ps = complete_stream env (filterExistingDirs env dirs)" by blast
        then show ?thesis
          using None Inr False w err undo
          by (cases "ae_sync env"; cases "ae_close env"; cases "ae_rename env") (simp_all add: CreateArchive_def Let_def cleanup_def)
      qed (use None Inr False w undo in \<open>simp add: CreateArchive_def Let_def cleanup_def\<close>)
    qed (use Inr False undo in \<open>simp add: CreateArchive_def Let_def cleanup_def\<close>)
  qed (use False in \<open>simp add: CreateArchive_def Let_def\<close>)
qed (simp add: CreateArchive_def)

definition quiet_env :: arch_env where
  "quiet_env = \<lparr>ae_exists = \<lambda>_. True, ae_temp = Inr ''.a.partial'', ae_chmod = None, ae_walk = \<lambda>_. [Visit ''.'' True, Visit ''x'' False],
     ae_info = \<lambda>_ _. None, ae_header = \<lambda>_ _. None, ae_content = \<lambda>_ _. None, ae_tarclose = None, ae_gzclose = None,
     ae_sync = None, ae_close = None, ae_rename = None\<rparr>"

lemma archive_all_or_nothing_witness:
  "case CreateArchive quiet_env ''a'' [''/d''] Map.empty of
      (Some _, disk') \<Rightarrow> disk' = Map.empty
    | (None, disk') \<Rightarrow> disk' = [''a'' \<mapsto> Stream (complete_stream quiet_env [''/d''])]"
proof -
  have f: "filterExistingDirs quiet_env [''/d''] = [''/d'']" by (simp add: quiet_env_def filterExistingDirs_def)
  have t: "case ae_temp quiet_env of Inl _ \<Rightarrow> True | Inr tmp \<Rightarrow> (Map.empty :: disk) tmp = None \<and> tmp \<noteq> ''a''"
    by (simp add: quiet_env_def)
  show ?thesis using archive_all_or_nothing [OF t, of "[''/d'']"] by (simp only: f list.simps if_False)
qed

text \<open>On Unix no two files of a directory share an entry: for relative paths of plain components the entry's name is the
  directory's base name and the path, and different paths have different names.\<close>

theorem entry_names_injective:
  assumes "plain base" "list_all plain cs" "list_all plain ds" "cs \<noteq> []" "ds \<noteq> []"
  shows "archiveEntryName base (str_join [SLASH] cs) = str_join [SLASH] (base # cs) \<and>
    (archiveEntryName base (str_join [SLASH] cs) = archiveEntryName base (str_join [SLASH] ds) \<longleftrightarrow> cs = ds)"
proof
  have name: "archiveEntryName base (str_join [SLASH] xs) = str_join [SLASH] (base # xs)" if "list_all plain xs" "xs \<noteq> []" for xs
  proof -
    have "str_join [SLASH] xs \<noteq> ''.''"
    proof
      assume "str_join [SLASH] xs = ''.''"
      with split_plain [OF that] have "xs = split_byte SLASH ''.''" by simp
      moreover have "split_byte SLASH ''.'' = [''.'']" by code_simp
      ultimately have "xs = [''.'']" by simp
      with that show False by (simp add: plain_def)
    qed
    then show ?thesis
      using join_plain_relative(2) [OF that] path_join_plain [OF assms(1) that] by (simp add: archiveEntryName_def entryName_def)
  qed
  show "archiveEntryName base (str_join [SLASH] cs) = str_join [SLASH] (base # cs)" using name assms by simp
  show "archiveEntryName base (str_join [SLASH] cs) = archiveEntryName base (str_join [SLASH] ds) \<longleftrightarrow> cs = ds"
    using name [of cs] name [of ds] assms join_plain_inject [of "base # cs" "base # ds"] by auto
qed

lemma entry_names_injective_witness:
  "archiveEntryName ''run'' ''config.d/a'' = ''run/config.d/a''"
  using entry_names_injective [of "''run''" "[''config.d'', ''a'']" "[''a'']"] by (simp add: plain_def)

end
