(* ===== verification/GoJson.thy ===== *)
theory GoJson
  imports SqlRedact GoFloat "HOL-Library.Char_ord" "HOL-Library.List_Lexorder"
begin

text \<open>
  What the source uses of \<open>encoding/json\<close> to read documents into \<open>any\<close>, and \<open>%v\<close> on such values. A number keeps its
  literal (\<open>UseNumber\<close>). The nesting limit of 10000 and the replacement of invalid UTF-8 are not modelled.
\<close>

datatype json = JNull | JBool bool | JNum string | JStr string | JArr "json list" | JObj "(string \<times> json) list"

text \<open>A Go map built from the members: the last value of a key counts.\<close>

definition jmap :: "(string \<times> json) list \<Rightarrow> string \<Rightarrow> json option" where
  "jmap ms k = map_of (rev ms) k"

section \<open>Reading\<close>

definition json_ws :: "char \<Rightarrow> bool" where
  "json_ws c \<longleftrightarrow> c = CHR '' '' \<or> c = TAB \<or> c = NL \<or> c = CR"

definition skip_ws :: "string \<Rightarrow> string" where
  "skip_ws s = dropWhile json_ws s"

definition parse_jstring :: "string \<Rightarrow> (string \<times> string) option" where
  "parse_jstring s = (case s of
     [] \<Rightarrow> None
   | c # cs \<Rightarrow>
       if c \<noteq> DQUOTE then None
       else case json_string_length cs of
         None \<Rightarrow> None
       | Some n \<Rightarrow> (case json_unescape (take (Suc n) cs) of None \<Rightarrow> None | Some v \<Rightarrow> Some (v, drop (Suc n) cs)))"

text \<open>The optional fraction and exponent: what they consume.\<close>

definition frac_part :: "string \<Rightarrow> string option" where
  "frac_part s = (case s of
     c # cs \<Rightarrow> if c = CHR ''.'' then (case takeWhile is_digit cs of [] \<Rightarrow> None | ds \<Rightarrow> Some (c # ds)) else Some []
   | [] \<Rightarrow> Some [])"

definition exp_part :: "string \<Rightarrow> string option" where
  "exp_part s = (case s of
     c # cs \<Rightarrow>
       if c = CHR ''e'' \<or> c = CHR ''E'' then
         (let sign = (case cs of d # _ \<Rightarrow> if d = CHR ''+'' \<or> d = CHR ''-'' then [d] else [] | [] \<Rightarrow> []);
              ds = takeWhile is_digit (drop (length sign) cs)
          in if ds = [] then None else Some (c # sign @ ds))
       else Some []
   | [] \<Rightarrow> Some [])"

definition parse_jnumber :: "string \<Rightarrow> (string \<times> string) option" where
  "parse_jnumber s =
     (let sign = (if has_prefix s ''-'' then ''-'' else []); r = drop (length sign) s;
          ip = (case r of c # _ \<Rightarrow> if c = CHR ''0'' then [c] else takeWhile is_digit r | [] \<Rightarrow> []) in
      if ip = [] then None
      else let r = drop (length ip) r in
        (case frac_part r of
           None \<Rightarrow> None
         | Some f \<Rightarrow> (case exp_part (drop (length f) r) of
             None \<Rightarrow> None
           | Some e \<Rightarrow> Some (sign @ ip @ f @ e, drop (length f + length e) r))))"

definition parse_jword :: "string \<Rightarrow> (json \<times> string) option" where
  "parse_jword s =
     (if has_prefix s ''null'' then Some (JNull, drop 4 s)
      else if has_prefix s ''true'' then Some (JBool True, drop 4 s)
      else if has_prefix s ''false'' then Some (JBool False, drop 5 s)
      else case parse_jnumber s of None \<Rightarrow> None | Some (n, r) \<Rightarrow> Some (JNum n, r))"

lemma length_skip_ws: "length (skip_ws s) \<le> length s"
  by (simp add: skip_ws_def length_dropWhile_le)

lemma skip_ws_Cons: "skip_ws s = c # cs \<Longrightarrow> length cs < length s"
  using length_skip_ws [of s] by simp

lemma length_parse_jstring: "parse_jstring s = Some (v, r) \<Longrightarrow> length r < length s"
  by (auto simp: parse_jstring_def split: list.splits if_splits option.splits)

text \<open>The reader. A value consumes at least one byte, so the tests of the remaining length never fail; they are there for the
  termination proof.\<close>

function parse_json :: "string \<Rightarrow> (json \<times> string) option"
  and parse_elems :: "string \<Rightarrow> (json list \<times> string) option"
  and parse_members :: "string \<Rightarrow> ((string \<times> json) list \<times> string) option" where
  "parse_json s = (case skip_ws s of
     [] \<Rightarrow> None
   | c # cs \<Rightarrow>
       if c = CHR ''{'' then
         (case skip_ws cs of
            [] \<Rightarrow> None
          | d # ds \<Rightarrow> if d = CHR ''}'' then Some (JObj [], ds)
              else (case parse_members (d # ds) of None \<Rightarrow> None | Some (ms, r) \<Rightarrow> Some (JObj ms, r)))
       else if c = CHR ''['' then
         (case skip_ws cs of
            [] \<Rightarrow> None
          | d # ds \<Rightarrow> if d = CHR '']'' then Some (JArr [], ds)
              else (case parse_elems (d # ds) of None \<Rightarrow> None | Some (vs, r) \<Rightarrow> Some (JArr vs, r)))
       else if c = DQUOTE then (case parse_jstring (c # cs) of None \<Rightarrow> None | Some (v, r) \<Rightarrow> Some (JStr v, r))
       else parse_jword (c # cs))"
| "parse_elems s = (case parse_json s of
     None \<Rightarrow> None
   | Some (v, r) \<Rightarrow> (case skip_ws r of
       [] \<Rightarrow> None
     | c # cs \<Rightarrow>
         if c = CHR '']'' then Some ([v], cs)
         else if c = CHR '','' \<and> length cs < length s then
           (case parse_elems cs of None \<Rightarrow> None | Some (vs, r) \<Rightarrow> Some (v # vs, r))
         else None))"
| "parse_members s = (case parse_jstring (skip_ws s) of
     None \<Rightarrow> None
   | Some (k, r) \<Rightarrow> (case skip_ws r of
       [] \<Rightarrow> None
     | c # cs \<Rightarrow>
         if c \<noteq> CHR '':'' then None
         else (case parse_json cs of
             None \<Rightarrow> None
           | Some (v, r) \<Rightarrow> (case skip_ws r of
               [] \<Rightarrow> None
             | c # cs \<Rightarrow>
                 if c = CHR ''}'' then Some ([(k, v)], cs)
                 else if c = CHR '','' \<and> length cs < length s then
                   (case parse_members cs of None \<Rightarrow> None | Some (ms, r) \<Rightarrow> Some ((k, v) # ms, r))
                 else None))))"
  by pat_completeness auto

termination
proof (relation "measure (\<lambda>x. case x of Inl s \<Rightarrow> 2 * length s | Inr (Inl s) \<Rightarrow> 2 * length s + 1 | Inr (Inr s) \<Rightarrow> 2 * length s + 1)",
    goal_cases)
  case (2 s c cs d ds)
  then show ?case using skip_ws_Cons [of s] skip_ws_Cons [of cs] by fastforce
next
  case (3 s c cs d ds)
  then show ?case using skip_ws_Cons [of s] skip_ws_Cons [of cs] by fastforce
next
  case (6 s x k r c cs)
  then show ?case using length_parse_jstring [of "skip_ws s" k r] length_skip_ws [of s] skip_ws_Cons [of r c cs] by simp
qed auto

declare parse_json.simps [simp del] parse_elems.simps [simp del] parse_members.simps [simp del]

lemma length_jnumber:
  assumes "parse_jnumber s = Some (n, r)"
  shows "length r < length s"
proof -
  define sign where "sign = (if has_prefix s ''-'' then ''-'' else [])"
  define t where "t = drop (length sign) s"
  define ip where "ip = (case t of c # _ \<Rightarrow> if c = CHR ''0'' then [c] else takeWhile is_digit t | [] \<Rightarrow> [])"
  have p: "parse_jnumber s = (if ip = [] then None
      else let u = drop (length ip) t in
        (case frac_part u of None \<Rightarrow> None
         | Some f \<Rightarrow> (case exp_part (drop (length f) u) of None \<Rightarrow> None
           | Some e \<Rightarrow> Some (sign @ ip @ f @ e, drop (length f + length e) u))))"
    unfolding parse_jnumber_def Let_def sign_def [symmetric] t_def [symmetric] ip_def [symmetric] ..
  from assms obtain k where r: "r = drop k (drop (length ip) t)" and ip: "ip \<noteq> []"
    unfolding p by (auto simp: Let_def split: if_splits option.splits)
  from ip have "t \<noteq> []" by (cases t) (simp_all add: ip_def)
  moreover have "length t \<le> length s" by (simp add: t_def)
  ultimately show ?thesis using ip unfolding r by (cases ip; cases t) simp_all
qed

lemma length_jword: "parse_jword s = Some (v, r) \<Longrightarrow> length r < length s"
  using length_jnumber [of s] by (auto simp: parse_jword_def has_prefix_iff split: if_splits option.splits)

lemma parse_consumes:
  "parse_json s = Some (v, r) \<Longrightarrow> length r < length s"
  "parse_elems s = Some (vs, r) \<Longrightarrow> length r < length s"
  "parse_members s = Some (ms, r) \<Longrightarrow> length r < length s"
proof (induction s and s and s arbitrary: v r and vs r and ms r rule: parse_json_parse_elems_parse_members.induct)
  case (1 s)
  obtain c cs where cs: "skip_ws s = c # cs" using "1.prems" by (subst (asm) parse_json.simps) (auto split: list.splits)
  note lt = skip_ws_Cons [OF cs]
  show ?case
  proof (cases "c = CHR ''{'' \<or> c = CHR ''[''")
    case True
    then obtain d ds where ds: "skip_ws cs = d # ds"
      using "1.prems" cs by (subst (asm) parse_json.simps) (auto split: list.splits)
    have "length (d # ds) \<le> length cs" using length_skip_ws [of cs] ds by simp
    then show ?thesis using "1.prems" "1.IH" cs ds lt True
      by (subst (asm) parse_json.simps) (fastforce split: if_splits option.splits)
  next
    case False
    have "length (c # cs) \<le> length s" using length_skip_ws [of s] cs by simp
    then show ?thesis
      using "1.prems" cs False length_parse_jstring [of "c # cs"] length_jword [of "c # cs"]
      by (subst (asm) parse_json.simps) (fastforce split: if_splits option.splits)
  qed
next
  case (2 s)
  obtain w t where w: "parse_json s = Some (w, t)" using "2.prems" by (subst (asm) parse_elems.simps) (auto split: option.splits)
  have t: "length t < length s" using "2.IH"(1) w by blast
  obtain c cs where cs: "skip_ws t = c # cs" using "2.prems" w by (subst (asm) parse_elems.simps) (auto split: list.splits)
  note lt = skip_ws_Cons [OF cs]
  show ?case
  proof (cases "c = CHR '']''")
    case True
    with "2.prems" w cs have "r = cs" by (subst (asm) parse_elems.simps) simp
    with t lt show ?thesis by simp
  next
    case False
    with "2.prems" w cs obtain vs' where "parse_elems cs = Some (vs', r)" "c = CHR '',''"
      by (subst (asm) parse_elems.simps) (auto split: if_splits option.splits)
    with "2.IH"(2) [OF w refl cs False] t lt show ?thesis by simp
  qed
next
  case (3 s)
  obtain k t where k: "parse_jstring (skip_ws s) = Some (k, t)"
    using "3.prems" by (subst (asm) parse_members.simps) (auto split: option.splits)
  have t: "length t < length s" using length_parse_jstring [OF k] length_skip_ws [of s] by simp
  obtain c cs where c: "skip_ws t = c # cs" "c = CHR '':''"
    using "3.prems" k by (subst (asm) parse_members.simps) (auto split: list.splits if_splits)
  note lt = skip_ws_Cons [OF c(1)]
  obtain w u where w: "parse_json cs = Some (w, u)"
    using "3.prems" k c by (subst (asm) parse_members.simps) (auto split: option.splits)
  have u: "length u < length cs" using "3.IH"(1) k c w by simp
  obtain d ds where d: "skip_ws u = d # ds"
    using "3.prems" k c w by (subst (asm) parse_members.simps) (auto split: list.splits)
  note lt2 = skip_ws_Cons [OF d]
  show ?case
  proof (cases "d = CHR ''}''")
    case True
    with "3.prems" k c w d have "r = ds" by (subst (asm) parse_members.simps) simp
    with t lt u lt2 show ?thesis by simp
  next
    case False
    with "3.prems" k c w d obtain ms' where m: "parse_members ds = Some (ms', r)" "d = CHR '',''"
      by (subst (asm) parse_members.simps) (auto split: if_splits option.splits)
    have "length r < length ds" using "3.IH"(2) [OF k refl c(1) _ w refl d False _ m(1)] c(2) m(2) t lt u lt2 by simp
    with t lt u lt2 show ?thesis by simp
  qed
qed

text \<open>\<open>json.Unmarshal\<close>: the whole text is one value. \<open>Decoder.Decode\<close> reads the first value and leaves the rest.\<close>

definition json_unmarshal :: "string \<Rightarrow> json option" where
  "json_unmarshal s = (case parse_json s of Some (v, r) \<Rightarrow> if skip_ws r = [] then Some v else None | None \<Rightarrow> None)"

definition json_decode :: "string \<Rightarrow> json option" where
  "json_decode s = map_option fst (parse_json s)"

section \<open>Printing with \<open>%v\<close>\<close>

fun json_v :: "json \<Rightarrow> string" where
  "json_v JNull = ''<nil>''"
| "json_v (JBool b) = (if b then ''true'' else ''false'')"
| "json_v (JNum n) = n"
| "json_v (JStr s) = s"
| "json_v (JArr vs) = CHR ''['' # str_join '' '' (map json_v vs) @ '']''"
| "json_v (JObj ms) =
     (let vs = map (\<lambda>(k, v). (k, json_v v)) ms in
      ''map['' @ str_join '' '' (map (\<lambda>k. k @ '':'' @ the (map_of (rev vs) k)) (sort (remdups (map fst vs)))) @ '']'')"

end
