(* ===== verification/GoValue.thy ===== *)
theory GoValue
  imports GoJson
begin

text \<open>
  Values of type \<open>any\<close> that rows of alerts hold, and \<open>%v\<close> on them: \<open>json_val\<close> is what \<open>json.Unmarshal\<close> leaves in
  an \<open>any\<close> (numbers as \<open>float64\<close>; one that is out of range is \<open>nil\<close>).
\<close>

datatype val = VNil | VBool bool | VStr string | VInt int | VFloat float64 | VList "val list" | VMap "(string \<times> val) list"

section \<open>Decimal text of a \<open>float64\<close>\<close>

text \<open>The exponent of the leading decimal digit of a positive rational.\<close>

definition dec_exp :: "rat \<Rightarrow> int" where
  "dec_exp r =
     (if r \<ge> 1 then int (length (nat_str (nat \<lfloor>r\<rfloor>))) - 1
      else case first_some (\<lambda>j. if r * 10 ^ j \<ge> 1 then Some j else None) [1..<400] of Some j \<Rightarrow> - int j | None \<Rightarrow> 0)"

definition pow10 :: "int \<Rightarrow> rat" where
  "pow10 e = (if 0 \<le> e then 10 ^ nat e else 1 / 10 ^ nat (- e))"

text \<open>The decimal of \<open>p\<close> digits nearest to a positive rational: its digits as a number, and the exponent of its last digit.\<close>

definition nearest_dec :: "nat \<Rightarrow> rat \<Rightarrow> int \<times> int" where
  "nearest_dec p r = (let e = dec_exp r - int p + 1 in (round_half_even (r / pow10 e), e))"

text \<open>The shortest one that reads back as the same \<open>float64\<close>: digits without trailing zeros, and the exponent of the first.\<close>

definition shortest_dec :: "rat \<Rightarrow> string \<times> int" where
  "shortest_dec r =
     (let attempt = (\<lambda>p. case nearest_dec p r of (m, e) \<Rightarrow> if round64 (of_int m * pow10 e) = Fin r then Some (m, e) else None);
          (m, e) = (case first_some attempt [1..<18] of Some x \<Rightarrow> x | None \<Rightarrow> nearest_dec 17 r);
          ds = nat_str (nat m)
      in (trim_right (\<lambda>c. c = CHR ''0'') ds, e + int (length ds) - 1))"

definition exp_text :: "int \<Rightarrow> string" where
  "exp_text x = (if x < 0 then ''e-'' else ''e+'') @ pad_nat 2 (nat \<bar>x\<bar>)"

text \<open>\<open>%v\<close>: \<open>%g\<close> with the shortest digits, an exponent below -4 or from 6 on being \<open>%e\<close>.\<close>

definition fmt_float_v :: "float64 \<Rightarrow> string" where
  "fmt_float_v x = (case x of
     NaN \<Rightarrow> ''NaN'' | PInf \<Rightarrow> ''+Inf'' | MInf \<Rightarrow> ''-Inf''
   | Fin r \<Rightarrow>
       if r = 0 then ''0''
       else let (ds, ex) = shortest_dec \<bar>r\<bar>; sign = (if r < 0 then ''-'' else []) in
         sign @
          (if ex < - 4 \<or> ex \<ge> 6 then
             take 1 ds @ (if length ds > 1 then ''.'' @ drop 1 ds else []) @ exp_text ex
           else if ex < 0 then ''0.'' @ replicate (nat (- ex - 1)) (CHR ''0'') @ ds
           else if length ds \<le> nat ex + 1 then ds @ replicate (nat ex + 1 - length ds) (CHR ''0'')
           else take (nat ex + 1) ds @ ''.'' @ drop (nat ex + 1) ds))"

section \<open>Values\<close>

text \<open>\<open>strconv.ParseFloat\<close> without an error: a decimal number in range, an infinity or NaN.\<close>

definition float_syntax :: "string \<Rightarrow> bool" where
  "float_syntax s \<longleftrightarrow> (case split_sign s of (_, body) \<Rightarrow>
     to_lower s = ''nan'' \<or> to_lower body = ''inf'' \<or> to_lower body = ''infinity'' \<or>
     (let (ip, r1) = read_digits body;
          (fp, r2) = (case r1 of c # cs \<Rightarrow> if c = CHR ''.'' then read_digits cs else ([], r1) | [] \<Rightarrow> ([], []))
      in ip @ fp \<noteq> [] \<and> read_exp r2 \<noteq> None \<and> parse_float s \<noteq> PInf \<and> parse_float s \<noteq> MInf))"

fun json_val :: "json \<Rightarrow> val" where
  "json_val JNull = VNil"
| "json_val (JBool b) = VBool b"
| "json_val (JNum n) = (if float_syntax n then VFloat (parse_float n) else VNil)"
| "json_val (JStr s) = VStr s"
| "json_val (JArr vs) = VList (map json_val vs)"
| "json_val (JObj ms) = VMap (map (\<lambda>(k, v). (k, json_val v)) ms)"

fun val_v :: "val \<Rightarrow> string" where
  "val_v VNil = ''<nil>''"
| "val_v (VBool b) = (if b then ''true'' else ''false'')"
| "val_v (VStr s) = s"
| "val_v (VInt i) = int_str i"
| "val_v (VFloat f) = fmt_float_v f"
| "val_v (VList vs) = CHR ''['' # str_join '' '' (map val_v vs) @ '']''"
| "val_v (VMap ms) =
     (let vs = map (\<lambda>(k, v). (k, val_v v)) ms in
      ''map['' @ str_join '' '' (map (\<lambda>k. k @ '':'' @ the (map_of (rev vs) k)) (sort (remdups (map fst vs)))) @ '']'')"

text \<open>A row: column and value, the last one of a column counts.\<close>

type_synonym vrow = "(string \<times> val) list"

definition vget :: "vrow \<Rightarrow> string \<Rightarrow> val option" where
  "vget r k = map_of (rev r) k"

end
