(* ===== verification/Bundle.thy ===== *)
theory Bundle
  imports GoValue GoPath
begin

text \<open>
  Reading back what the collectors saved (\<open>internal/bundle/bundle.go\<close>). The run directory is a parameter
  (\<open>run_dir\<close>); its files do not change while they are read. The mutex is not modelled; the cache is.
\<close>

section \<open>Rows and their columns\<close>

text \<open>A row: the members of a JSON object (none for \<open>null\<close>).\<close>

type_synonym Row = "(string \<times> json) list"

definition Row_Str :: "Row \<Rightarrow> string \<Rightarrow> string" where
  "Row_Str r k = (case jmap r k of None \<Rightarrow> [] | Some v \<Rightarrow> (case v of JNull \<Rightarrow> [] | JStr s \<Rightarrow> s | JNum n \<Rightarrow> n | _ \<Rightarrow> json_v v))"

definition Row_Int :: "Row \<Rightarrow> string \<Rightarrow> int" where
  "Row_Int r k =
     (let s = Row_Str r k in
      case parse_int64 s of
        (n, None) \<Rightarrow> n
      | _ \<Rightarrow> if float_syntax s then f_to_int64 (parse_float s) else if jmap r k = Some (JBool True) then 1 else 0)"

definition max_uint64 :: int where "max_uint64 = 18446744073709551615"

definition parse_uint64 :: "string \<Rightarrow> int option" where
  "parse_uint64 s =
     (if s = [] \<or> \<not> list_all is_digit s then None
      else let n = int (digits_val 0 s) in if n \<le> max_uint64 then Some n else None)"

definition Row_Uint :: "Row \<Rightarrow> string \<Rightarrow> int" where
  "Row_Uint r k =
     (case parse_uint64 (Row_Str r k) of
        Some n \<Rightarrow> n
      | None \<Rightarrow> if Row_Int r k > 0 then Row_Int r k else 0)"

definition Row_Float :: "Row \<Rightarrow> string \<Rightarrow> float64" where
  "Row_Float r k = parse_float (Row_Str r k)"

definition Row_Map :: "Row \<Rightarrow> string \<Rightarrow> string \<Rightarrow> int option" where
  "Row_Map r k = (case jmap r k of Some (JObj ms) \<Rightarrow> (\<lambda>key. map_option (\<lambda>v. Row_Int [(''v'', v)] ''v'') (jmap ms key)) | _ \<Rightarrow> Map.empty)"

section \<open>Collected files\<close>

record Status =
  st_State :: string
  st_Reason :: string

datatype rows_error = NotCollected string string string | ReadError string

definition not_collected_text :: "string \<Rightarrow> string \<Rightarrow> string \<Rightarrow> string" where
  "not_collected_text collector state reason =
     (if reason = [] then collector @ '' '' @ state else collector @ '' '' @ state @ '': '' @ reason)"

definition rows_error_text :: "rows_error \<Rightarrow> string" where
  "rows_error_text e = (case e of NotCollected c s r \<Rightarrow> not_collected_text c s r | ReadError t \<Rightarrow> t)"

text \<open>The directory's entries in order (none when it cannot be read), the files' contents, and the text of the JSON library's
  error for a line.\<close>

record run_dir =
  rd_entries :: "string list"
  rd_read :: "string \<Rightarrow> string + string"
  rd_json_error :: "string \<Rightarrow> string"

record Bundle =
  b_dir :: string
  b_status :: "string \<rightharpoonup> Status"
  b_cache :: "string \<rightharpoonup> Row list"
  b_end :: time

definition OpenBundle :: "string \<Rightarrow> (string \<rightharpoonup> Status) \<Rightarrow> Bundle" where
  "OpenBundle dir status = \<lparr>b_dir = dir, b_status = status, b_cache = Map.empty, b_end = zero_time\<rparr>"

definition WithWindowEnd :: "time \<Rightarrow> Bundle \<Rightarrow> Bundle" where
  "WithWindowEnd t b = b\<lparr>b_end := t\<rparr>"

text \<open>\<open>^(.+)_(\d{8}_\d{6})\.jsonl$\<close>\<close>

definition re_run_file :: re where
  "re_run_file = seqs [Bot, Grp 1 (plus_of (Cls (\<lambda>c. c \<noteq> NL))), lit ''_'',
     Grp 2 (seqs [times 8 (Cls is_digit), lit ''_'', times 6 (Cls is_digit)]), lit ''.jsonl'', Eot]"

definition run_file_of :: "string \<Rightarrow> string option" where
  "run_file_of name = (case re_find re_run_file name of None \<Rightarrow> None | Some (_, _, cs) \<Rightarrow> Some (group name cs 1))"

definition collector_path :: "run_dir \<Rightarrow> string \<Rightarrow> string \<Rightarrow> string" where
  "collector_path rd dir collector =
     (case first_some (\<lambda>n. if run_file_of n = Some collector then Some n else None) (rd_entries rd) of
        Some n \<Rightarrow> path_join [dir, n]
      | None \<Rightarrow> [])"

definition Has :: "run_dir \<Rightarrow> Bundle \<Rightarrow> string \<Rightarrow> bool" where
  "Has rd b collector \<longleftrightarrow> collector_path rd (b_dir b) collector \<noteq> []"

text \<open>The lines of \<open>bufio.Scanner\<close> with a buffer of 64 MiB.\<close>

definition scan_lines :: "string \<Rightarrow> string list" where
  "scan_lines s = (let ls = split_byte NL s in if last ls = [] then butlast ls else ls)"

definition max_line :: nat where "max_line = 64 * 2 ^ 20"

definition as_row :: "json \<Rightarrow> Row option" where
  "as_row v = (case v of JObj ms \<Rightarrow> Some ms | JNull \<Rightarrow> Some [] | _ \<Rightarrow> None)"

definition read_row :: "string \<Rightarrow> Row option" where
  "read_row line = Option.bind (json_decode line) as_row"

fun read_rows :: "run_dir \<Rightarrow> string \<Rightarrow> string list \<Rightarrow> rows_error + Row list" where
  "read_rows rd base [] = Inr []"
| "read_rows rd base (l # ls) =
     (if length l \<ge> max_line then Inl (ReadError (base @ '': bufio.Scanner: token too long''))
      else let line = trim_space l in
        if line = [] then read_rows rd base ls
        else (case read_row line of
          None \<Rightarrow> Inl (ReadError (base @ '': '' @ rd_json_error rd line))
        | Some r \<Rightarrow> (case read_rows rd base ls of Inl e \<Rightarrow> Inl e | Inr rs \<Rightarrow> Inr (r # rs))))"

text \<open>\<open>Rows\<close>, without and with the cache.\<close>

definition fresh_rows :: "run_dir \<Rightarrow> Bundle \<Rightarrow> string \<Rightarrow> rows_error + Row list" where
  "fresh_rows rd b collector =
     (case b_status b collector of
        Some st \<Rightarrow>
          if st_State st = ''failed'' then Inl (NotCollected collector (st_State st) (st_Reason st))
          else if \<not> Has rd b collector then Inl (NotCollected collector (st_State st) (st_Reason st))
          else (case rd_read rd (collector_path rd (b_dir b) collector) of
             Inl e \<Rightarrow> Inl (ReadError e)
           | Inr s \<Rightarrow> read_rows rd (path_base (collector_path rd (b_dir b) collector)) (scan_lines s))
      | None \<Rightarrow>
          if \<not> Has rd b collector then Inl (NotCollected collector ''not collected'' [])
          else (case rd_read rd (collector_path rd (b_dir b) collector) of
             Inl e \<Rightarrow> Inl (ReadError e)
           | Inr s \<Rightarrow> read_rows rd (path_base (collector_path rd (b_dir b) collector)) (scan_lines s)))"

definition Rows :: "run_dir \<Rightarrow> string \<Rightarrow> Bundle \<Rightarrow> (rows_error + Row list) \<times> Bundle" where
  "Rows rd collector b =
     (case b_cache b collector of
        Some rows \<Rightarrow> (Inr rows, b)
      | None \<Rightarrow>
          (case fresh_rows rd b collector of
             Inl e \<Rightarrow> (Inl e, b)
           | Inr rows \<Rightarrow> (Inr rows, b\<lparr>b_cache := (b_cache b)(collector \<mapsto> rows)\<rparr>)))"

section \<open>The cache cannot be seen\<close>

definition cache_ok :: "run_dir \<Rightarrow> Bundle \<Rightarrow> bool" where
  "cache_ok rd b \<longleftrightarrow> (\<forall>c rows. b_cache b c = Some rows \<longrightarrow> fresh_rows rd b c = Inr rows)"

lemma fresh_rows_cong:
  assumes "b_dir b = b_dir b'" "b_status b = b_status b'"
  shows "fresh_rows rd b c = fresh_rows rd b' c"
  unfolding fresh_rows_def Has_def assms ..

lemma fresh_rows_cache [simp]: "fresh_rows rd (b\<lparr>b_cache := m\<rparr>) c = fresh_rows rd b c"
  by (rule fresh_rows_cong) simp_all

lemma cache_ok_open [simp]: "cache_ok rd (OpenBundle dir status)"
  by (simp add: cache_ok_def OpenBundle_def)

lemma fresh_rows_end [simp]: "fresh_rows rd (b\<lparr>b_end := t\<rparr>) c = fresh_rows rd b c"
  by (rule fresh_rows_cong) simp_all

lemma cache_ok_end [simp]: "cache_ok rd (WithWindowEnd t b) = cache_ok rd b"
  by (simp add: cache_ok_def WithWindowEnd_def)

lemma Rows_fresh: "cache_ok rd b \<Longrightarrow> fst (Rows rd c b) = fresh_rows rd b c"
  by (auto simp: Rows_def cache_ok_def split: option.splits sum.splits)

lemma Rows_cache_ok: "cache_ok rd b \<Longrightarrow> cache_ok rd (snd (Rows rd c b))"
  by (auto simp: Rows_def cache_ok_def split: option.splits sum.splits)

lemma Rows_same: "b_status (snd (Rows rd c b)) = b_status b" "b_dir (snd (Rows rd c b)) = b_dir b" "b_end (snd (Rows rd c b)) = b_end b"
  by (auto simp: Rows_def split: option.splits sum.splits)

lemma fresh_rows_after: "fresh_rows rd (snd (Rows rd c b)) d = fresh_rows rd b d"
  by (rule fresh_rows_cong) (simp_all add: Rows_same)

text \<open>What stands behind an answer with rows.\<close>

definition collected :: "run_dir \<Rightarrow> Bundle \<Rightarrow> string \<Rightarrow> Row list \<Rightarrow> bool" where
  "collected rd b c rows \<longleftrightarrow>
     Has rd b c \<and> (case b_status b c of None \<Rightarrow> True | Some st \<Rightarrow> st_State st \<noteq> ''failed'') \<and>
     (\<exists>s. rd_read rd (collector_path rd (b_dir b) c) = Inr s \<and>
        map Some rows = map read_row (filter (\<lambda>l. l \<noteq> []) (map trim_space (scan_lines s))))"

lemma read_rows_lines:
  "read_rows rd base ls = Inr rows \<Longrightarrow> map Some rows = map read_row (filter (\<lambda>l. l \<noteq> []) (map trim_space ls))"
  by (induction ls arbitrary: rows) (auto simp: Let_def split: if_splits option.splits sum.splits)

lemma fresh_rows_collected: "fresh_rows rd b c = Inr rows \<Longrightarrow> collected rd b c rows"
  by (auto simp: fresh_rows_def collected_def dest: read_rows_lines split: option.splits if_splits sum.splits)

definition after_reads :: "run_dir \<Rightarrow> string list \<Rightarrow> Bundle \<Rightarrow> Bundle" where
  "after_reads rd ds b = fold (\<lambda>d b. snd (Rows rd d b)) ds b"

lemma after_reads_ok: "cache_ok rd b \<Longrightarrow> cache_ok rd (after_reads rd ds b) \<and> fresh_rows rd (after_reads rd ds b) c = fresh_rows rd b c"
  by (induction ds arbitrary: b) (simp_all add: after_reads_def Rows_cache_ok fresh_rows_after)

text \<open>C17: However many collectors were read before from a newly opened bundle, \<open>Rows\<close> answers what it answers on the new one.
  It gives rows only for a collector that has a file and that the execution log does not call failed, one row for
  every non-blank line, each read as a JSON object or null; it never turns a missing or broken file into no rows.\<close>

theorem rows_only_if_collected:
  "fst (Rows rd c (after_reads rd ds (OpenBundle dir status))) = fst (Rows rd c (OpenBundle dir status)) \<and>
    (case fst (Rows rd c (OpenBundle dir status)) of Inl _ \<Rightarrow> True | Inr rows \<Rightarrow> collected rd (OpenBundle dir status) c rows)"
proof -
  have "fst (Rows rd c (after_reads rd ds (OpenBundle dir status))) = fresh_rows rd (OpenBundle dir status) c"
    using after_reads_ok [of rd "OpenBundle dir status"] Rows_fresh by simp
  moreover have "fst (Rows rd c (OpenBundle dir status)) = fresh_rows rd (OpenBundle dir status) c" by (simp add: Rows_fresh)
  ultimately show ?thesis by (auto intro: fresh_rows_collected split: sum.splits)
qed

section \<open>64-bit numbers\<close>

lemma parse_uint64_nat_str: "int n \<le> max_uint64 \<Longrightarrow> parse_uint64 (nat_str n) = Some (int n)"
  by (simp add: parse_uint64_def digits_nat_str digits_val_nat_str)

text \<open>64-bit integers are read exactly, as a quoted string and as a number alike: \<open>Int\<close> the whole range of \<open>int64\<close>, \<open>Uint\<close> that of
  \<open>uint64\<close>.\<close>

theorem wide_integers_exact:
  assumes "jmap r k = Some (JStr s) \<or> jmap r k = Some (JNum s)"
  shows "(min_int64 \<le> i \<and> i \<le> max_int64 \<and> s = int_str i \<longrightarrow> Row_Int r k = i) \<and>
    (int n \<le> max_uint64 \<and> s = nat_str n \<longrightarrow> Row_Uint r k = int n)"
proof -
  have s: "Row_Str r k = s" using assms by (auto simp: Row_Str_def)
  show ?thesis by (auto simp: Row_Int_def Row_Uint_def s parse_uint64_nat_str parse_int64_int_str)
qed

lemma wide_integers_exact_witness:
  "Row_Uint [(''bytes'', JStr ''18446744073709551615'')] ''bytes'' = 18446744073709551615"
  using wide_integers_exact [of "[(''bytes'', JStr ''18446744073709551615'')]" "''bytes''" "''18446744073709551615''" 0 18446744073709551615]
  by (simp add: jmap_def max_uint64_def nat_str_eval)

end
