(* ===== verification/AlertEngine.thy ===== *)
theory AlertEngine
  imports Bundle Executor
begin

text \<open>
  Evaluating alert rules (\<open>internal/alert/alert.go\<close>, \<open>internal/alert/checks.go\<close>): the gates a rule passes, the
  queries it sends, its result, and the counts reported.

  Parameters: the rule files, \<open>yaml.Unmarshal\<close> of them, the answers of the server to a query, the registered Go
  checks, and what \<open>stop()\<close> says. The queries sent are part of the result; console messages are left out.
\<close>

section \<open>Rules and results\<close>

record InvestigateQuery =
  iq_Title :: string
  iq_Query :: string

record Definition =
  df_Name :: string
  df_Title :: string
  df_Severity :: string
  df_Description :: string
  df_Query :: string
  df_Message :: string
  df_Tags :: "string list"
  df_Modes :: "string list"
  df_Investigate :: "InvestigateQuery list"
  df_Tier :: string
  df_Needs :: string
  df_Source :: "string list"
  df_Check :: string

record Investigation =
  in_Title :: string
  in_Query :: string

record AlertResult =
  ar_Name :: string
  ar_Title :: string
  ar_Severity :: string
  ar_Description :: string
  ar_Message :: string
  ar_Tags :: "string list"
  ar_Rows :: "vrow list"
  ar_FiredAt :: string
  ar_Error :: string
  ar_File :: string
  ar_Skipped :: bool
  ar_Reason :: string
  ar_DurationMs :: int
  ar_Query :: string
  ar_Investigate :: "Investigation list"

definition SeverityWarning :: string where "SeverityWarning = ''warning''"

definition no_alert :: AlertResult where
  "no_alert = \<lparr>ar_Name = [], ar_Title = [], ar_Severity = [], ar_Description = [], ar_Message = [], ar_Tags = [], ar_Rows = [],
     ar_FiredAt = [], ar_Error = [], ar_File = [], ar_Skipped = False, ar_Reason = [], ar_DurationMs = 0, ar_Query = [],
     ar_Investigate = []\<rparr>"

definition Notable :: "AlertResult \<Rightarrow> bool" where
  "Notable r \<longleftrightarrow> ar_Rows r \<noteq> [] \<or> ar_Error r \<noteq> []"

text \<open>One message, its columns substituted in the order in which the map of the row is iterated.\<close>

definition formatted_message :: "string \<Rightarrow> vrow \<Rightarrow> string" where
  "formatted_message msg row = fold (\<lambda>(k, v) m. str_replace m (CHR ''{'' # k @ ''}'') (val_v v)) row msg"

definition FormattedMessages :: "(vrow \<Rightarrow> vrow) \<Rightarrow> AlertResult \<Rightarrow> string list" where
  "FormattedMessages order r = map (\<lambda>row. formatted_message (ar_Message r) (order row)) (ar_Rows r)"

section \<open>Counting\<close>

definition summarize_step :: "AlertResult \<Rightarrow> nat \<times> nat \<times> nat \<Rightarrow> nat \<times> nat \<times> nat" where
  "summarize_step r c = (case c of (fired, errored, skipped) \<Rightarrow>
     if ar_Skipped r then (fired, errored, skipped + 1)
     else if ar_Error r \<noteq> [] then (fired, errored + 1, skipped)
     else if ar_Rows r \<noteq> [] then (fired + 1, errored, skipped)
     else c)"

definition Summarize :: "AlertResult list \<Rightarrow> int \<times> int \<times> int \<times> int" where
  "Summarize results =
     (case fold summarize_step results (0, 0, 0) of (fired, errored, skipped) \<Rightarrow>
        (int (length results) - int skipped - int errored, int fired, int errored, int skipped))"

text \<open>The state an entry of \<open>alerts_summary.json\<close> gets, and the note of that file; its rows are never part of it.\<close>

definition summary_state :: "AlertResult \<Rightarrow> string" where
  "summary_state r =
     (if ar_Skipped r then ''skipped'' else if ar_Error r \<noteq> [] then ''error''
      else if ar_Rows r \<noteq> [] then ''fired'' else ''clean'')"

record summary_entry =
  se_Name :: string
  se_Title :: string
  se_Severity :: string
  se_File :: string
  se_State :: string
  se_Count :: nat
  se_Reason :: string
  se_Error :: string
  se_FiredAt :: string

definition summary_entry_of :: "AlertResult \<Rightarrow> summary_entry" where
  "summary_entry_of r = \<lparr>se_Name = ar_Name r, se_Title = ar_Title r, se_Severity = ar_Severity r, se_File = ar_File r,
     se_State = summary_state r, se_Count = length (ar_Rows r), se_Reason = ar_Reason r, se_Error = ar_Error r,
     se_FiredAt = ar_FiredAt r\<rparr>"

definition summaryNote :: "string \<Rightarrow> string" where
  "summaryNote mode =
     (if to_lower mode = ''gov'' then
        ''gov mode: rule outcomes and instance counts only; matched rows are omitted '' @
        ''because their columns can contain unhashed identifiers''
      else
        ''rule outcomes and instance counts only, written because the HTML dashboard was '' @
        ''not generated for this run; matched rows are omitted '' @ em_dash @ '' re-run without --skip-dashboard '' @
        ''(or resolve the dashboard generation error above) for row-level detail'')"

text \<open>What \<open>WriteSummaryJSON\<close> marshals: the counts, the note and the entries.\<close>

definition alert_summary :: "AlertResult list \<Rightarrow> string \<Rightarrow> (int \<times> int \<times> int \<times> int) \<times> string \<times> summary_entry list" where
  "alert_summary results mode = (Summarize results, summaryNote mode, map summary_entry_of results)"

section \<open>Modes\<close>

definition knownModes :: "string list" where
  "knownModes = [''cloud'', ''onprem'', ''gov'']"

definition validateModes :: "Definition \<Rightarrow> string option" where
  "validateModes d =
     first_some (\<lambda>m. if to_lower (trim_space m) \<in> set knownModes then None
       else Some (''modes: unknown mode '' @ go_quote m @ '' (known: cloud, onprem, gov)'')) (df_Modes d)"

definition appliesTo :: "Definition \<Rightarrow> string \<Rightarrow> bool" where
  "appliesTo d mode \<longleftrightarrow> df_Modes d = [] \<or> list_ex (\<lambda>m. equal_fold (trim_space m) (trim_space mode)) (df_Modes d)"

section \<open>Answers of the server\<close>

text \<open>\<open>parseJSONCompact\<close>: the names of \<open>meta\<close>, and for each array of \<open>data\<close> a row of the columns it has. \<open>jerr\<close> is the text
  of the JSON library's error. (\<open>rows\<close> is only a capacity; a negative one, which ClickHouse does not send, is not
  modelled. Member names are matched exactly.)\<close>

definition meta_name :: "json \<Rightarrow> string option" where
  "meta_name j = (case j of
     JObj ms \<Rightarrow> (case jmap ms ''name'' of None \<Rightarrow> Some [] | Some JNull \<Rightarrow> Some [] | Some (JStr s) \<Rightarrow> Some s | _ \<Rightarrow> None)
   | JNull \<Rightarrow> Some []
   | _ \<Rightarrow> None)"

definition arr_of :: "json option \<Rightarrow> json list option" where
  "arr_of j = (case j of None \<Rightarrow> Some [] | Some JNull \<Rightarrow> Some [] | Some (JArr vs) \<Rightarrow> Some vs | _ \<Rightarrow> None)"

definition int_ok :: "json option \<Rightarrow> bool" where
  "int_ok j = (case j of None \<Rightarrow> True | Some JNull \<Rightarrow> True | Some (JNum n) \<Rightarrow> snd (parse_int64 n) = None | _ \<Rightarrow> False)"

definition all_some :: "'a option list \<Rightarrow> 'a list option" where
  "all_some xs = (if None \<in> set xs then None else Some (map the xs))"

definition compact_doc :: "string \<Rightarrow> (string list \<times> json list list) option" where
  "compact_doc raw =
     (case json_unmarshal raw of
        Some JNull \<Rightarrow> Some ([], [])
      | Some (JObj ms) \<Rightarrow>
          (case (Option.bind (arr_of (jmap ms ''meta'')) (\<lambda>vs. all_some (map meta_name vs)),
                 Option.bind (arr_of (jmap ms ''data'')) (\<lambda>vs. all_some (map (\<lambda>v. arr_of (Some v)) vs))) of
             (Some names, Some rows) \<Rightarrow> if int_ok (jmap ms ''rows'') then Some (names, rows) else None
           | _ \<Rightarrow> None)
      | _ \<Rightarrow> None)"

definition parseJSONCompact :: "(string \<Rightarrow> string) \<Rightarrow> string \<Rightarrow> string + vrow list" where
  "parseJSONCompact jerr raw =
     (case compact_doc raw of
        None \<Rightarrow> Inl (''json unmarshal: '' @ jerr raw @ '' ('' @ take 120 raw @ '')'')
      | Some (names, rows) \<Rightarrow> Inr (map (\<lambda>row. zip names (map json_val row)) rows))"

definition isMissingTable :: "string \<Rightarrow> bool" where
  "isMissingTable err = contains err ''UNKNOWN_TABLE''"

text \<open>\<open>Table ([A-Za-z_][\w.]*) (?:doesn'?t|does not) exist\<close>\<close>

definition re_missing_table :: re where
  "re_missing_table = seqs [lit ''Table '', Grp 1 (Seq (Cls (\<lambda>c. is_alpha c \<or> c = CHR ''_'')) (any_star (Cls placeholder_char))), lit '' '',
     Alt (seqs [lit ''doesn'', opt_of (Cls (\<lambda>c. c = QUOTE)), lit ''t'']) (lit ''does not''), lit '' exist'']"

definition count_sql :: "string \<Rightarrow> string" where
  "count_sql cond = ''SELECT count() AS c FROM clusterAllReplicas(default, system.tables) WHERE '' @ cond"

text \<open>The count a probe gives, if it answers with one.\<close>

definition probe_count :: "(string \<Rightarrow> string) \<Rightarrow> (string \<Rightarrow> string + string) \<Rightarrow> string \<Rightarrow> int option" where
  "probe_count jerr ask cond =
     (case ask (count_sql cond) of
        Inl _ \<Rightarrow> None
      | Inr raw \<Rightarrow> (case parseJSONCompact jerr raw of
          Inl _ \<Rightarrow> None
        | Inr [] \<Rightarrow> None
        | Inr (r # _) \<Rightarrow>
            (case parse_int64 (trim_space (val_v (case vget r ''c'' of None \<Rightarrow> VNil | Some v \<Rightarrow> v))) of
               (n, None) \<Rightarrow> Some n | _ \<Rightarrow> None)))"

text \<open>The database and the name the error names.\<close>

definition missing_table :: "string \<Rightarrow> (string \<times> string) option" where
  "missing_table err =
     (case re_find re_missing_table err of
        None \<Rightarrow> None
      | Some (_, _, cs) \<Rightarrow>
          let name = group err cs 1 in
          Some (case last_index name ''.'' of Some i \<Rightarrow> (take i name, drop (i + 1) name) | None \<Rightarrow> (''system'', name)))"

definition db_cond :: "string \<Rightarrow> string" where
  "db_cond db = ''database='' @ QUOTE # db @ [QUOTE]"

definition table_cond :: "string \<Rightarrow> string \<Rightarrow> string" where
  "table_cond db name = db_cond db @ '' AND name='' @ QUOTE # name @ [QUOTE]"

text \<open>\<open>notApplicable\<close>, with the probes it sends.\<close>

definition notApplicable :: "(string \<Rightarrow> string) \<Rightarrow> (string \<Rightarrow> string + string) \<Rightarrow> string \<Rightarrow> string \<Rightarrow> bool \<times> string list" where
  "notApplicable jerr ask mode err =
     (if \<not> isMissingTable err then (False, [])
      else if mode \<noteq> ''cloud'' then (True, [])
      else case missing_table err of
        None \<Rightarrow> (False, [])
      | Some (db, name) \<Rightarrow>
          (case probe_count jerr ask (db_cond db) of
             None \<Rightarrow> (False, [count_sql (db_cond db)])
           | Some n \<Rightarrow>
               if n = 0 then (False, [count_sql (db_cond db)])
               else (probe_count jerr ask (table_cond db name) = Some 0, [count_sql (db_cond db), count_sql (table_cond db name)])))"

section \<open>Evaluating one rule\<close>

type_synonym Check = "run_dir \<Rightarrow> string \<Rightarrow> Bundle \<Rightarrow> (rows_error + vrow list) \<times> Bundle"

record Evaluator =
  ev_mode :: string
  ev_essential :: bool
  ev_detachedScope :: string
  ev_keeperDown :: string

text \<open>\<open>al_now\<close>: the time of the evaluation in RFC 3339; \<open>al_stop\<close>: what \<open>stop()\<close> returns when it is asked.\<close>

record alert_env =
  al_read :: "string \<Rightarrow> string + string"
  al_yaml :: "string \<Rightarrow> string + Definition"
  al_ask :: "string \<Rightarrow> string + string"
  al_jerr :: "string \<Rightarrow> string"
  al_checks :: "string \<rightharpoonup> Check"
  al_rd :: run_dir
  al_now :: string
  al_stop :: bool

definition NewEvaluator :: "string \<Rightarrow> Evaluator" where
  "NewEvaluator mode = \<lparr>ev_mode = to_lower mode, ev_essential = False, ev_detachedScope = [], ev_keeperDown = []\<rparr>"

definition alert_WithEssential :: "bool \<Rightarrow> Evaluator \<Rightarrow> Evaluator" where
  "alert_WithEssential on ev = ev\<lparr>ev_essential := on\<rparr>"

definition alert_WithDetachedScope :: "string \<Rightarrow> Evaluator \<Rightarrow> Evaluator" where
  "alert_WithDetachedScope scope ev = ev\<lparr>ev_detachedScope := scope\<rparr>"

definition alert_WithKeeperDown :: "string \<Rightarrow> Evaluator \<Rightarrow> Evaluator" where
  "alert_WithKeeperDown reason ev = ev\<lparr>ev_keeperDown := reason\<rparr>"

definition RegisterCheck :: "string \<Rightarrow> Check \<Rightarrow> (string \<rightharpoonup> Check) \<Rightarrow> (string \<rightharpoonup> Check)" where
  "RegisterCheck name c checks = checks(name \<mapsto> c)"

definition expandQuery :: "Evaluator \<Rightarrow> string \<Rightarrow> string" where
  "expandQuery ev sql = ApplyVars sql \<lparr>v_Mode = ev_mode ev, v_QueryID = [], v_NormalizedQueryHash = [], v_From = zero_time,
     v_To = zero_time, v_GovSalt = [], v_MaxLookback = 0, v_DetachedScope = ev_detachedScope ev, v_DetachedScopeP = []\<rparr>"

definition lookupCheck :: "(string \<rightharpoonup> Check) \<Rightarrow> string \<Rightarrow> string + Check" where
  "lookupCheck checks spec =
     (case (if has_prefix spec ''go:'' then checks (drop 3 spec) else None) of
        Some c \<Rightarrow> Inr c
      | None \<Rightarrow> Inl (''unknown check '' @ go_quote spec @ '' (want go:<registered name>)''))"

definition rule_error :: "AlertResult \<Rightarrow> string \<Rightarrow> AlertResult" where
  "rule_error r e = r\<lparr>ar_Error := e\<rparr>"

definition rule_skipped :: "AlertResult \<Rightarrow> string \<Rightarrow> AlertResult" where
  "rule_skipped r why = r\<lparr>ar_Skipped := True, ar_Reason := why\<rparr>"

definition rule_shown :: "AlertResult \<Rightarrow> string \<Rightarrow> Investigation list \<Rightarrow> AlertResult" where
  "rule_shown r sql followUps = r\<lparr>ar_Query := sql, ar_Investigate := followUps\<rparr>"

definition rule_rows :: "AlertResult \<Rightarrow> vrow list \<Rightarrow> string \<Rightarrow> Investigation list \<Rightarrow> AlertResult" where
  "rule_rows r rows sql followUps =
     (let r = r\<lparr>ar_Rows := rows\<rparr> in if rows \<noteq> [] then rule_shown r sql followUps else r)"

text \<open>The early returns before the rule's SQL is looked at.\<close>

definition rule_gates :: "Evaluator \<Rightarrow> bool \<Rightarrow> bool \<Rightarrow> Definition \<Rightarrow> AlertResult \<Rightarrow> AlertResult option" where
  "rule_gates ev hasBundle stopped def r =
     (let live = (df_Check def = [] \<or> \<not> hasBundle) in
      if df_Tier def \<noteq> [] \<and> df_Tier def \<noteq> ''essential'' \<and> df_Tier def \<noteq> ''full'' then
        Some (rule_error r (''unknown tier '' @ go_quote (df_Tier def) @ '' (want essential or full)''))
      else if validateModes def \<noteq> None then Some (rule_error r (the (validateModes def)))
      else if \<not> appliesTo def (ev_mode ev) then
        Some (rule_skipped r (''not applicable in '' @ ev_mode ev @ '' mode (rule modes: '' @ str_join '', '' (df_Modes def) @ '')''))
      else if live \<and> stopped then Some (rule_skipped r (''not run: the collection'' @ QUOTE # ''s time budget was spent''))
      else if live \<and> ev_keeperDown ev \<noteq> [] \<and> df_Needs def = ''keeper'' then
        Some (rule_skipped r (''not run: it needs a live Keeper session '' @ em_dash @ '' '' @ ev_keeperDown ev))
      else if live \<and> ev_essential ev \<and> df_Tier def = ''full'' then
        Some (rule_skipped r ''not run in an essential collection (it scans per-table data)'')
      else None)"

text \<open>The follow-up queries, expanded; the first that is not read-only is an error.\<close>

fun follow_ups :: "Evaluator \<Rightarrow> nat \<Rightarrow> InvestigateQuery list \<Rightarrow> string + Investigation list" where
  "follow_ups ev i [] = Inr []"
| "follow_ups ev i (iq # iqs) =
     (let q = expandQuery ev (iq_Query iq) in
      case validate_query_content q of
        Some e \<Rightarrow> Inl (''security: investigate['' @ nat_str i @ '']: '' @ validation_text e)
      | None \<Rightarrow> (case follow_ups ev (Suc i) iqs of
          Inl e \<Rightarrow> Inl e
        | Inr fs \<Rightarrow> Inr (\<lparr>in_Title = iq_Title iq, in_Query = trim_space q\<rparr> # fs)))"

definition evalCheck :: "Evaluator \<Rightarrow> alert_env \<Rightarrow> Bundle option \<Rightarrow> Definition \<Rightarrow> AlertResult \<Rightarrow> string \<Rightarrow> Investigation list
    \<Rightarrow> AlertResult \<times> Bundle option" where
  "evalCheck ev env bundle def r sql followUps =
     (case lookupCheck (al_checks env) (df_Check def) of
        Inl e \<Rightarrow> (rule_error r e, bundle)
      | Inr c \<Rightarrow> (case bundle of
          None \<Rightarrow> (rule_error r ''no collected data to evaluate the rule over'', bundle)
        | Some b \<Rightarrow>
            (case c (al_rd env) (ev_mode ev) b of (res, b) \<Rightarrow>
               ((case res of
                   Inl (NotCollected c s why) \<Rightarrow> rule_skipped r (''not applicable: its source '' @ not_collected_text c s why)
                 | Inl (ReadError e) \<Rightarrow> rule_shown (rule_error r (''check: '' @ e)) sql followUps
                 | Inr rows \<Rightarrow> rule_rows r rows sql followUps), Some b))))"

definition evalQuery :: "Evaluator \<Rightarrow> alert_env \<Rightarrow> AlertResult \<Rightarrow> string \<Rightarrow> Investigation list \<Rightarrow> AlertResult \<times> string list" where
  "evalQuery ev env r sql followUps =
     (case al_ask env sql of
        Inl err \<Rightarrow>
          (case notApplicable (al_jerr env) (al_ask env) (ev_mode ev) err of (na, probes) \<Rightarrow>
             (if na then rule_skipped r ''table not present''
              else rule_shown (rule_error r (''query: '' @ err)) sql followUps, sql # probes))
      | Inr resp \<Rightarrow>
          ((case parseJSONCompact (al_jerr env) resp of
              Inl e \<Rightarrow> rule_error r (''parse: '' @ e)
            | Inr rows \<Rightarrow> rule_rows r rows sql followUps), [sql]))"

definition rule_result :: "string \<Rightarrow> string \<Rightarrow> Definition \<Rightarrow> AlertResult" where
  "rule_result now path def = no_alert\<lparr>ar_Name := df_Name def, ar_Title := df_Title def,
     ar_Severity := (if df_Severity def = [] then SeverityWarning else df_Severity def), ar_Description := df_Description def,
     ar_Message := df_Message def, ar_Tags := df_Tags def, ar_File := path_base path, ar_FiredAt := now\<rparr>"

definition unread_rule :: "string \<Rightarrow> string \<Rightarrow> string \<Rightarrow> AlertResult" where
  "unread_rule now path e =
     (let base = trim_suffix (path_base path) (path_ext path) in
      no_alert\<lparr>ar_Name := base, ar_Title := base, ar_Severity := SeverityWarning, ar_File := path_base path, ar_Error := e,
        ar_FiredAt := now\<rparr>)"

definition evalFile :: "Evaluator \<Rightarrow> alert_env \<Rightarrow> Bundle option \<Rightarrow> string \<Rightarrow> AlertResult \<times> string list \<times> Bundle option" where
  "evalFile ev env bundle path =
     (case al_read env path of
        Inl e \<Rightarrow> (unread_rule (al_now env) path (''read: '' @ e), [], bundle)
      | Inr raw \<Rightarrow> (case al_yaml env raw of
          Inl e \<Rightarrow> (unread_rule (al_now env) path (''yaml: '' @ e), [], bundle)
        | Inr def \<Rightarrow>
            let r = rule_result (al_now env) path def in
            (case rule_gates ev (bundle \<noteq> None) (al_stop env) def r of
               Some early \<Rightarrow> (early, [], bundle)
             | None \<Rightarrow>
                 let sql = expandQuery ev (df_Query def) in
                 (case validate_query_content sql of
                    Some e \<Rightarrow> (rule_error r (''security: '' @ validation_text e), [], bundle)
                  | None \<Rightarrow> (case follow_ups ev 0 (df_Investigate def) of
                      Inl e \<Rightarrow> (rule_error r e, [], bundle)
                    | Inr followUps \<Rightarrow>
                        if df_Check def \<noteq> [] \<and> bundle \<noteq> None then
                          (case evalCheck ev env bundle def r sql followUps of (r, bundle) \<Rightarrow> (r, [], bundle))
                        else (case evalQuery ev env r sql followUps of (r, sent) \<Rightarrow> (r, sent, bundle)))))))"

text \<open>\<open>RunAll\<close>: \<open>files\<close> is the answer of \<open>FindVersionedFiles\<close> (\<open>None\<close>: the directory does not exist), \<open>envs\<close> what each rule
  meets, \<open>took\<close> how many milliseconds it took.\<close>

fun run_rules :: "Evaluator \<Rightarrow> (nat \<Rightarrow> alert_env) \<Rightarrow> (nat \<Rightarrow> int) \<Rightarrow> QueryFile list \<Rightarrow> Bundle option \<Rightarrow> (AlertResult \<times> string list) list" where
  "run_rules ev envs took [] bundle = []"
| "run_rules ev envs took (f # fs) bundle =
     (case evalFile ev (envs 0) bundle (FullPath f) of (r, sent, bundle) \<Rightarrow>
        let r = r\<lparr>ar_DurationMs := took 0\<rparr>;
            r = (if DirName f \<noteq> [] then r\<lparr>ar_File := DirName f @ ''/'' @ Name f\<rparr> else r)
        in (r, sent) # run_rules ev (\<lambda>i. envs (Suc i)) (\<lambda>i. took (Suc i)) fs bundle)"

definition RunAll :: "Evaluator \<Rightarrow> (nat \<Rightarrow> alert_env) \<Rightarrow> (nat \<Rightarrow> int) \<Rightarrow> (string + QueryFile list) option \<Rightarrow> Bundle option
    \<Rightarrow> (AlertResult \<times> string list) list" where
  "RunAll ev envs took files bundle =
     (case files of None \<Rightarrow> [] | Some (Inl _) \<Rightarrow> [] | Some (Inr fs) \<Rightarrow> run_rules ev envs took fs bundle)"

section \<open>Every result has one outcome\<close>

definition one_outcome :: "AlertResult \<Rightarrow> bool" where
  "one_outcome r \<longleftrightarrow>
     (ar_Skipped r \<longrightarrow> ar_Reason r \<noteq> [] \<and> ar_Error r = [] \<and> ar_Rows r = []) \<and>
     (ar_Error r \<noteq> [] \<longrightarrow> ar_Rows r = []) \<and>
     (ar_Query r \<noteq> [] \<or> ar_Investigate r \<noteq> [] \<longrightarrow> Notable r)"

definition fresh_result :: "AlertResult \<Rightarrow> bool" where
  "fresh_result r \<longleftrightarrow> \<not> ar_Skipped r \<and> ar_Error r = [] \<and> ar_Rows r = [] \<and> ar_Query r = [] \<and> ar_Investigate r = []"

lemma outcome_steps:
  assumes "fresh_result r"
  shows "e \<noteq> [] \<Longrightarrow> one_outcome (rule_error r e)" "e \<noteq> [] \<Longrightarrow> one_outcome (rule_skipped r e)"
    "e \<noteq> [] \<Longrightarrow> one_outcome (rule_shown (rule_error r e) sql fs)" "one_outcome (rule_rows r rows sql fs)"
  using assms
  by (auto simp: fresh_result_def one_outcome_def rule_error_def rule_skipped_def rule_shown_def rule_rows_def Notable_def Let_def)

lemma fresh_rule [simp]: "fresh_result (rule_result now path def)"
  by (simp add: fresh_result_def rule_result_def no_alert_def)

lemma modes_error: "validateModes d = Some e \<Longrightarrow> e \<noteq> []"
  unfolding validateModes_def by (drule first_some_Some) (auto split: if_splits)

lemma gates_outcome: "fresh_result r \<Longrightarrow> rule_gates ev hb stopped def r = Some early \<Longrightarrow> one_outcome early"
  by (auto simp: rule_gates_def Let_def intro!: outcome_steps dest: modes_error split: if_splits)

lemma follow_ups_error: "follow_ups ev i invs = Inl e \<Longrightarrow> e \<noteq> []"
  by (induction ev i invs rule: follow_ups.induct) (auto simp: Let_def split: option.splits sum.splits)

lemma evalCheck_outcome: "fresh_result r \<Longrightarrow> one_outcome (fst (evalCheck ev env bundle def r sql fs))"
  by (auto simp: evalCheck_def lookupCheck_def intro!: outcome_steps split: sum.splits option.splits prod.splits rows_error.splits if_splits)

lemma evalQuery_outcome: "fresh_result r \<Longrightarrow> one_outcome (fst (evalQuery ev env r sql fs))"
  by (auto simp: evalQuery_def intro!: outcome_steps split: sum.splits prod.splits)

lemma evalFile_outcome: "one_outcome (fst (evalFile ev env bundle path))"
proof -
  have unread: "e \<noteq> [] \<Longrightarrow> one_outcome (unread_rule now path e)" for now e
    by (simp add: unread_rule_def one_outcome_def no_alert_def Notable_def Let_def)
  show ?thesis
    unfolding evalFile_def Let_def
    using evalCheck_outcome [OF fresh_rule] evalQuery_outcome [OF fresh_rule]
    by (auto intro!: unread outcome_steps dest: gates_outcome [OF fresh_rule] follow_ups_error
        split: sum.splits option.splits prod.splits if_splits) (metis fst_conv)+
qed

lemma timed_outcome [simp]:
  "one_outcome (r\<lparr>ar_DurationMs := d\<rparr>) = one_outcome r" "one_outcome (r\<lparr>ar_File := n\<rparr>) = one_outcome r"
  "one_outcome (r\<lparr>ar_DurationMs := d, ar_File := n\<rparr>) = one_outcome r"
  by (simp_all add: one_outcome_def Notable_def)

lemma run_rules_outcome: "list_all (one_outcome \<circ> fst) (run_rules ev envs took fs bundle)"
proof (induction fs arbitrary: envs took "bundle")
  case (Cons f fs)
  obtain r sent b where e: "evalFile ev (envs 0) bundle (FullPath f) = (r, sent, b)" by (metis prod_cases3)
  with evalFile_outcome [of ev "envs 0" "bundle" "FullPath f"] have "one_outcome r" by simp
  with Cons.IH show ?case by (simp add: e Let_def)
qed simp

definition in_state :: "string list \<Rightarrow> AlertResult list \<Rightarrow> nat" where
  "in_state states rs = length (filter (\<lambda>r. summary_state r \<in> set states) rs)"

lemma summarize_fold:
  "fold summarize_step rs (f, e, k) = (f + in_state [''fired''] rs, e + in_state [''error''] rs, k + in_state [''skipped''] rs)"
  by (induction rs arbitrary: f e k) (auto simp: summarize_step_def in_state_def summary_state_def)

lemma states_cover: "in_state [''skipped''] rs + in_state [''error''] rs + in_state [''fired'', ''clean''] rs = length rs"
  by (induction rs) (auto simp: in_state_def summary_state_def)

text \<open>C18: Whatever the rules, the server and the checks do, every rule ends as exactly one of skipped (with a reason), errored, fired or
  clean, and shows its SQL only when it fired or failed; the counts reported are those of the four states, so a rule
  that was skipped or failed is never counted as evaluated nor as fired.\<close>

theorem alerts_counted_by_outcome:
  "let rs = map fst (RunAll ev envs took files bundle) in
    list_all one_outcome rs \<and>
    Summarize rs = (int (in_state [''fired'', ''clean''] rs), int (in_state [''fired''] rs), int (in_state [''error''] rs),
      int (in_state [''skipped''] rs))"
proof -
  let ?rs = "map fst (RunAll ev envs took files bundle)"
  have "list_all one_outcome ?rs"
    using run_rules_outcome by (cases files) (auto simp: RunAll_def list.pred_map split: sum.splits)
  moreover have "Summarize ?rs = (int (in_state [''fired'', ''clean''] ?rs), int (in_state [''fired''] ?rs),
      int (in_state [''error''] ?rs), int (in_state [''skipped''] ?rs))"
    using states_cover [of ?rs] by (simp add: Summarize_def summarize_fold)
  ultimately show ?thesis by (simp add: Let_def)
qed

section \<open>What a rule may send\<close>

definition may_run :: "Evaluator \<Rightarrow> bool \<Rightarrow> bool \<Rightarrow> Definition \<Rightarrow> bool" where
  "may_run ev hasBundle stopped def \<longleftrightarrow>
     df_Tier def \<in> set [[], ''essential'', ''full''] \<and> list_all (\<lambda>m. to_lower (trim_space m) \<in> set knownModes) (df_Modes def) \<and>
     appliesTo def (ev_mode ev) \<and> (df_Check def = [] \<or> \<not> hasBundle) \<and> \<not> stopped \<and>
     \<not> (ev_keeperDown ev \<noteq> [] \<and> df_Needs def = ''keeper'') \<and> \<not> (ev_essential ev \<and> df_Tier def = ''full'') \<and>
     list_all (\<lambda>q. validate_query_content (expandQuery ev q) = None) (df_Query def # map iq_Query (df_Investigate def))"

definition probes_of :: "string \<Rightarrow> string list \<Rightarrow> bool" where
  "probes_of err sent \<longleftrightarrow> sent = [] \<or>
     (\<exists>db name. missing_table err = Some (db, name) \<and>
        (sent = [count_sql (db_cond db)] \<or> sent = [count_sql (db_cond db), count_sql (table_cond db name)]))"

lemma follow_ups_ok:
  "follow_ups ev i invs = Inr fs \<Longrightarrow> list_all (\<lambda>q. validate_query_content (expandQuery ev q) = None) (map iq_Query invs)"
  by (induction ev i invs arbitrary: fs rule: follow_ups.induct) (auto simp: Let_def split: option.splits sum.splits)

lemma no_gate_may_run:
  assumes "rule_gates ev hb stopped def r = None" "df_Check def = [] \<or> \<not> hb" "validate_query_content (expandQuery ev (df_Query def)) = None"
    "follow_ups ev 0 (df_Investigate def) = Inr fs"
  shows "may_run ev hb stopped def"
proof -
  have "validateModes def = None" using assms(1) by (auto simp: rule_gates_def Let_def split: if_splits)
  then have "list_all (\<lambda>m. to_lower (trim_space m) \<in> set knownModes) (df_Modes def)"
    by (auto simp: validateModes_def first_some_None list_all_iff split: if_splits)
  with assms follow_ups_ok [OF assms(4)] show ?thesis
    by (auto simp: rule_gates_def may_run_def Let_def split: if_splits)
qed

text \<open>C19: A rule sends nothing unless its tier and modes are well formed, it applies to the run's mode, it is no check over collected
  data, no budget, Keeper or essential gate holds it back, and its query and all its follow-ups passed the read-only
  check; what it then sends is that query and, after a failure that names a missing table in cloud mode, the two
  counts of that table.\<close>

theorem rule_sends_only_when_allowed:
  "case evalFile ev env bundle path of (r, sent, bundle') \<Rightarrow>
     sent = [] \<or>
     (\<exists>raw def rest. al_read env path = Inr raw \<and> al_yaml env raw = Inr def \<and>
        may_run ev (bundle \<noteq> None) (al_stop env) def \<and> sent = expandQuery ev (df_Query def) # rest \<and>
        (rest = [] \<or> ev_mode ev = ''cloud'' \<and> (\<exists>err. al_ask env (hd sent) = Inl err \<and> isMissingTable err \<and> probes_of err rest)))"
proof -
  obtain r sent b where e: "evalFile ev env bundle path = (r, sent, b)" by (metis prod_cases3)
  show ?thesis
  proof (cases "sent = []")
    case False
    with e obtain raw "def" fs where d: "al_read env path = Inr raw" "al_yaml env raw = Inr def"
        "rule_gates ev (bundle \<noteq> None) (al_stop env) def (rule_result (al_now env) path def) = None"
        "validate_query_content (expandQuery ev (df_Query def)) = None" "follow_ups ev 0 (df_Investigate def) = Inr fs"
        "df_Check def = [] \<or> bundle = None"
        "snd (evalQuery ev env (rule_result (al_now env) path def) (expandQuery ev (df_Query def)) fs) = sent"
      unfolding evalFile_def Let_def by (auto split: sum.splits option.splits prod.splits if_splits)
    have "may_run ev (bundle \<noteq> None) (al_stop env) def" using no_gate_may_run [OF d(3) _ d(4,5)] d(6) by auto
    moreover have "\<exists>rest. sent = expandQuery ev (df_Query def) # rest \<and>
        (rest = [] \<or> ev_mode ev = ''cloud'' \<and> (\<exists>err. al_ask env (hd sent) = Inl err \<and> isMissingTable err \<and> probes_of err rest))"
      using d(7)
      by (auto simp: evalQuery_def notApplicable_def probes_of_def split: sum.splits prod.splits if_splits option.splits)
    ultimately show ?thesis using e d(1,2) by auto
  qed (simp add: e)
qed

text \<open>In cloud mode a rule is called not applicable exactly when the error names a missing table, the database of that table is
  visible (its count is not zero) and the count of the table itself over all replicas is zero; anything less certain
  surfaces the error.\<close>

theorem cloud_not_applicable_iff:
  "fst (notApplicable jerr ask ''cloud'' err) \<longleftrightarrow>
    isMissingTable err \<and> (\<exists>db name n. missing_table err = Some (db, name) \<and> probe_count jerr ask (db_cond db) = Some n \<and> n \<noteq> 0 \<and>
      probe_count jerr ask (table_cond db name) = Some 0)"
  by (auto simp: notApplicable_def split: option.splits prod.splits)

text \<open>A value that looks like another column's placeholder is replaced or kept depending on the order of the map.\<close>

lemma message_depends_on_order:
  "formatted_message ''{a}'' [(''a'', VStr ''{b}''), (''b'', VStr ''x'')] = ''x''"
  "formatted_message ''{a}'' [(''b'', VStr ''x''), (''a'', VStr ''{b}'')] = ''{b}''"
  by code_simp+

end
