(* ===== verification/CheckUtil.thy ===== *)
theory CheckUtil
  imports AlertEngine "HOL-Library.Product_Lexorder"
begin

text \<open>
  What the Go checks share (\<open>internal/alert/checks_util.go\<close>). A check reads collectors one after the other and may
  stop with an error: \<open>reader\<close> passes the bundle with its cache along, \<open>andThen\<close> is the \<open>if err != nil\<close> return and
  \<open>attempt\<close> a read whose error is looked at. Locations (the time zone database) are a parameter: the offset from UTC in
  seconds at an instant and the span of seconds it holds for.
\<close>

section \<open>Reading collectors\<close>

type_synonym 'a reader = "run_dir \<Rightarrow> Bundle \<Rightarrow> (rows_error + 'a) \<times> Bundle"

definition give :: "'a \<Rightarrow> 'a reader" where
  "give x = (\<lambda>rd b. (Inr x, b))"

definition stop_with :: "rows_error \<Rightarrow> 'a reader" where
  "stop_with e = (\<lambda>rd b. (Inl e, b))"

definition andThen :: "'a reader \<Rightarrow> ('a \<Rightarrow> 'b reader) \<Rightarrow> 'b reader" where
  "andThen m f = (\<lambda>rd b. case m rd b of (Inl e, b) \<Rightarrow> (Inl e, b) | (Inr x, b) \<Rightarrow> f x rd b)"

definition attempt :: "'a reader \<Rightarrow> (rows_error + 'a) reader" where
  "attempt m = (\<lambda>rd b. case m rd b of (r, b) \<Rightarrow> (Inr r, b))"

definition read_collector :: "string \<Rightarrow> Row list reader" where
  "read_collector c = (\<lambda>rd b. Rows rd c b)"

definition window_end :: "time reader" where
  "window_end = (\<lambda>rd b. (Inr (b_end b), b))"

section \<open>Numbers and sizes\<close>

definition f_abs :: "float64 \<Rightarrow> float64" where
  "f_abs x = (case x of Fin r \<Rightarrow> Fin \<bar>r\<bar> | NaN \<Rightarrow> NaN | _ \<Rightarrow> PInf)"

definition f_lit :: "rat \<Rightarrow> float64" where
  "f_lit r = round64 r"

definition f_round_even :: "float64 \<Rightarrow> float64" where
  "f_round_even x = (case x of Fin r \<Rightarrow> Fin (of_int (round_half_even r)) | _ \<Rightarrow> x)"

fun readable_size :: "float64 \<Rightarrow> string list \<Rightarrow> string" where
  "readable_size n [] = fmt_fixed 2 n @ '' ''"
| "readable_size n [u] = fmt_fixed 2 n @ '' '' @ u"
| "readable_size n (u # v # us) =
     (if f_ge (f_abs n) (Fin 1024) then readable_size (f_div n (Fin 1024)) (v # us) else fmt_fixed 2 n @ '' '' @ u)"

definition formatReadableSize :: "float64 \<Rightarrow> string" where
  "formatReadableSize n = readable_size n [''B'', ''KiB'', ''MiB'', ''GiB'', ''TiB'', ''PiB'', ''EiB'']"

definition roundTo :: "float64 \<Rightarrow> nat \<Rightarrow> float64" where
  "roundTo x d = f_div (f_round_even (f_mul x (Fin (10 ^ d)))) (Fin (10 ^ d))"

definition f_less :: "float64 \<Rightarrow> float64 \<Rightarrow> bool" where
  "f_less x y = f_gt y x"

definition f_max :: "float64 \<Rightarrow> float64 \<Rightarrow> float64" where
  "f_max a b = (if f_gt a b then a else b)"

text \<open>Stable sorting by a strict order, the result of \<open>sort.SliceStable\<close> (and of \<open>sort.Slice\<close> where no two elements are alike).\<close>

fun insert_sorted :: "('a \<Rightarrow> 'a \<Rightarrow> bool) \<Rightarrow> 'a \<Rightarrow> 'a list \<Rightarrow> 'a list" where
  "insert_sorted lt x [] = [x]"
| "insert_sorted lt x (y # ys) = (if lt y x then y # insert_sorted lt x ys else x # y # ys)"

definition stable_sort :: "('a \<Rightarrow> 'a \<Rightarrow> bool) \<Rightarrow> 'a list \<Rightarrow> 'a list" where
  "stable_sort lt xs = foldr (insert_sorted lt) xs []"

definition float_before :: "float64 \<Rightarrow> float64 \<Rightarrow> bool" where
  "float_before x y \<longleftrightarrow> f_less x y \<or> x = NaN \<and> y \<noteq> NaN"

definition medianHigh :: "float64 list \<Rightarrow> float64" where
  "medianHigh xs = (if xs = [] then Fin 0 else stable_sort float_before xs ! (length xs div 2))"

section \<open>Time\<close>

type_synonym location = "int \<Rightarrow> int \<times> int \<times> int"

definition UTC :: location where
  "UTC s = (0, min_int64, max_int64)"

text \<open>\<open>time.Date\<close> in a location: the offset valid at the wall clock read as UTC, or at the instant that offset gives when it is not
  valid there.\<close>

definition in_location :: "location \<Rightarrow> (int \<times> int \<times> int) \<times> int \<Rightarrow> time" where
  "in_location loc wall = (case wall of (ymd, ns) \<Rightarrow>
     let t = instant ymd ns 0; unix = unix_seconds t in
     (case loc unix of (off, start, stop) \<Rightarrow>
        if off = 0 then t
        else let utc = unix - off; off = (if utc < start \<or> utc \<ge> stop then fst (loc utc) else off) in t - off * Second))"

definition parse_in_location :: "(string \<Rightarrow> string option) \<Rightarrow> location \<Rightarrow> string \<Rightarrow> time option" where
  "parse_in_location sep loc s = map_option (in_location loc) (parse_wall sep s)"

text \<open>The second layout of the code, with six decimals, accepts nothing that the first does not.\<close>

definition parseTime :: "string \<Rightarrow> location \<Rightarrow> time option" where
  "parseTime s loc = (case parse_in_location take_blank loc s of Some t \<Rightarrow> Some t | None \<Rightarrow> parse_in_location (take_lit ''T'') loc s)"

definition fmt_in :: "location \<Rightarrow> time \<Rightarrow> string" where
  "fmt_in loc t = fmt_datetime (t + fst (loc (unix_seconds t)) * Second)"

text \<open>\<open>t.Sub(u)\<close>, which saturates, and \<open>t.Truncate(time.Hour)\<close>.\<close>

definition time_sub :: "time \<Rightarrow> time \<Rightarrow> duration" where
  "time_sub t u = max min_int64 (min max_int64 (t - u))"

definition truncate_hour :: "time \<Rightarrow> time" where
  "truncate_hour t = t - (t - zero_time) mod Hour"

definition dateDiffHours :: "time \<Rightarrow> time \<Rightarrow> int" where
  "dateDiffHours a b = go_div (time_sub (truncate_hour b) (truncate_hour a)) Hour"

section \<open>The server's clock, host and version\<close>

record check_env =
  ce_zone :: "string \<Rightarrow> location option"
  ce_time_error :: "string \<Rightarrow> string"
  ce_order :: "nat \<Rightarrow> nat list"

definition collectedAt :: "check_env \<Rightarrow> (time \<times> location) reader" where
  "collectedAt env = andThen (read_collector ''system.version'') (\<lambda>rows.
     case rows of
       [] \<Rightarrow> stop_with (ReadError ''system.version has no collected_at (collected by an older version of the tool)'')
     | r # _ \<Rightarrow>
         if Row_Str r ''collected_at'' = [] then
           stop_with (ReadError ''system.version has no collected_at (collected by an older version of the tool)'')
         else
           let loc = (if Row_Str r ''timezone'' = [] then UTC
                      else case ce_zone env (Row_Str r ''timezone'') of Some l \<Rightarrow> l | None \<Rightarrow> UTC)
           in (case parse_in_location take_blank loc (Row_Str r ''collected_at'') of
                 None \<Rightarrow> stop_with (ReadError (''system.version collected_at: '' @ ce_time_error env (Row_Str r ''collected_at'')))
               | Some now \<Rightarrow> give (now, loc)))"

definition serverClock :: "check_env \<Rightarrow> (time \<times> location) reader" where
  "serverClock env = andThen (collectedAt env) (\<lambda>(now, loc). andThen window_end (\<lambda>stop.
     give (if \<not> is_zero stop \<and> stop < now then stop else now, loc)))"

definition serverHost :: "string reader" where
  "serverHost = andThen (attempt (read_collector ''system.version'')) (\<lambda>res.
     give (case res of Inr (r # _) \<Rightarrow> Row_Str r ''hostname'' | _ \<Rightarrow> []))"

text \<open>\<open>fmt.Sscanf(version, "%d.%d", ...)\<close>\<close>

definition scan_space :: "char \<Rightarrow> bool" where
  "scan_space c \<longleftrightarrow> code c \<in> {9, 11, 12, 13, 32}"

definition scan_int :: "string \<Rightarrow> (int \<times> string) option" where
  "scan_int s =
     (let s = dropWhile scan_space s;
          sign = (case s of c # _ \<Rightarrow> if c = CHR ''+'' \<or> c = CHR ''-'' then [c] else [] | [] \<Rightarrow> []);
          body = drop (length sign) s;
          tok = sign @ takeWhile is_digit body
      in (case parse_int64 tok of (n, None) \<Rightarrow> Some (n, dropWhile is_digit body) | _ \<Rightarrow> None))"

definition scan_version :: "string \<Rightarrow> (int \<times> int) option" where
  "scan_version s =
     Option.bind (scan_int s) (\<lambda>(ma, r).
     Option.bind (take_lit ''.'' r) (\<lambda>r.
     map_option (\<lambda>(mi, _). (ma, mi)) (scan_int r)))"

definition serverAtLeast :: "int \<Rightarrow> int \<Rightarrow> bool reader" where
  "serverAtLeast major minor = andThen (attempt (read_collector ''system.version'')) (\<lambda>res.
     give (case res of
        Inr (r # _) \<Rightarrow> (case scan_version (Row_Str r ''version'') of
            None \<Rightarrow> False
          | Some (ma, mi) \<Rightarrow> ma > major \<or> ma = major \<and> mi \<ge> minor)
      | _ \<Rightarrow> False))"

section \<open>Grouping\<close>

text \<open>A Go map filled in a loop: keys in the order of their first use. \<open>ce_order\<close> is the order in which ranging over a map of
  that many keys visits them.\<close>

fun upsert :: "'k \<Rightarrow> ('a \<Rightarrow> 'a) \<Rightarrow> 'a \<Rightarrow> ('k \<times> 'a) list \<Rightarrow> ('k \<times> 'a) list" where
  "upsert k f z [] = [(k, f z)]"
| "upsert k f z ((k', a) # m) = (if k = k' then (k', f a) # m else (k', a) # upsert k f z m)"

definition group_rows :: "('r \<Rightarrow> 'k) \<Rightarrow> ('r \<Rightarrow> 'a \<Rightarrow> 'a) \<Rightarrow> 'a \<Rightarrow> 'r list \<Rightarrow> ('k \<times> 'a) list" where
  "group_rows key step z rs = fold (\<lambda>r. upsert (key r) (step r) z) rs []"

definition map_range :: "check_env \<Rightarrow> 'a list \<Rightarrow> 'a list" where
  "map_range env m = map (\<lambda>i. m ! i) (ce_order env (length m))"

definition some_order :: "check_env \<Rightarrow> bool" where
  "some_order env \<longleftrightarrow> (\<forall>n. mset (ce_order env n) = mset [0..<n])"

section \<open>What grouping and sorting keep\<close>

lemma upsert_get: "map_of (upsert k f z m) j = (if j = k then Some (case map_of m k of Some a \<Rightarrow> f a | None \<Rightarrow> f z) else map_of m j)"
  by (induction k f z m rule: upsert.induct) auto

lemma upsert_keys: "fst ` set (upsert k f z m) = insert k (fst ` set m)" "distinct (map fst m) \<Longrightarrow> distinct (map fst (upsert k f z m))"
  by (induction k f z m rule: upsert.induct) (auto simp: image_iff)

lemma group_snoc: "group_rows key step z (rs @ [r]) = upsert (key r) (step r) z (group_rows key step z rs)"
  by (simp add: group_rows_def)

lemma group_get:
  "map_of (group_rows key step z rs) k =
    (if k \<in> key ` set rs then Some (fold step (filter (\<lambda>r. key r = k) rs) z) else None)"
proof (induction rs rule: rev_induct)
  case (snoc r rs)
  have "k \<notin> key ` set rs \<Longrightarrow> filter (\<lambda>r. key r = k) rs = []" by (auto simp: filter_empty_conv)
  then show ?case by (cases "key r = k"; cases "k \<in> key ` set rs") (simp_all add: group_snoc upsert_get snoc.IH)
qed (simp add: group_rows_def)

lemma group_keys: "fst ` set (group_rows key step z rs) = key ` set rs" "distinct (map fst (group_rows key step z rs))"
proof -
  show "fst ` set (group_rows key step z rs) = key ` set rs"
    by (induction rs rule: rev_induct) (simp_all add: group_snoc upsert_keys, simp add: group_rows_def)
  show "distinct (map fst (group_rows key step z rs))"
    by (induction rs rule: rev_induct) (simp_all add: group_snoc upsert_keys, simp add: group_rows_def)
qed

text \<open>The entries of the map: one per key, holding the fold over the rows of that key.\<close>

lemma group_entries:
  "(k, a) \<in> set (group_rows key step z rs) \<longleftrightarrow> k \<in> key ` set rs \<and> a = fold step (filter (\<lambda>r. key r = k) rs) z"
  unfolding map_of_eq_Some_iff [OF group_keys(2), symmetric] group_get by auto

lemma mset_map_range: "some_order env \<Longrightarrow> mset (map_range env m) = mset m"
proof -
  assume "some_order env"
  then have "image_mset (\<lambda>i. m ! i) (mset (ce_order env (length m))) = image_mset (\<lambda>i. m ! i) (mset [0..<length m])"
    by (simp add: some_order_def)
  then have "mset (map (\<lambda>i. m ! i) (ce_order env (length m))) = mset (map (\<lambda>i. m ! i) [0..<length m])"
    unfolding mset_map .
  then show ?thesis by (simp add: map_range_def map_nth del: mset_map)
qed

lemma mset_insert_sorted [simp]: "mset (insert_sorted lt x ys) = add_mset x (mset ys)"
  by (induction lt x ys rule: insert_sorted.induct) auto

lemma mset_stable_sort [simp]: "mset (stable_sort lt xs) = mset xs"
  by (induction xs) (simp_all add: stable_sort_def)

lemma set_stable_sort [simp]: "set (stable_sort lt xs) = set xs"
  by (rule mset_eq_setD) simp

lemma length_stable_sort [simp]: "length (stable_sort lt xs) = length xs"
  by (rule mset_eq_length) simp

definition weak_order :: "('a \<Rightarrow> 'a \<Rightarrow> bool) \<Rightarrow> bool" where
  "weak_order lt \<longleftrightarrow> (\<forall>x y. lt x y \<longrightarrow> \<not> lt y x) \<and> (\<forall>x y z. \<not> lt y x \<longrightarrow> \<not> lt z y \<longrightarrow> \<not> lt z x)"

lemma weak_order_key: "weak_order (\<lambda>x y. key x < (key y :: 'b::linorder))" "weak_order (\<lambda>x y. key x > (key y :: 'b::linorder))"
  by (auto simp: weak_order_def)

lemma stable_sort_sorted:
  assumes "weak_order lt"
  shows "sorted_wrt (\<lambda>x y. \<not> lt y x) (stable_sort lt xs)"
proof -
  have le: "\<not> lt y x" if "lt x y" for x y using assms that unfolding weak_order_def by blast
  have trans: "\<not> lt z x" if "\<not> lt y x" "\<not> lt z y" for x y z using assms that unfolding weak_order_def by blast
  have set: "set (insert_sorted lt x ys) = insert x (set ys)" for x ys
    using mset_eq_setD [of "insert_sorted lt x ys" "x # ys"] by simp
  have "sorted_wrt (\<lambda>x y. \<not> lt y x) (insert_sorted lt x ys)" if "sorted_wrt (\<lambda>x y. \<not> lt y x) ys" for x ys
    using that by (induction ys) (auto simp: set le dest: trans)
  then show ?thesis by (induction xs) (simp_all add: stable_sort_def)
qed

text \<open>Where no two elements are alike the result does not depend on the order they came in.\<close>

lemma sorted_unique:
  assumes "sorted_wrt (\<lambda>x y. \<not> lt y x) xs" "sorted_wrt (\<lambda>x y. \<not> lt y x) ys" "mset xs = mset ys"
    and total: "\<And>x y. x \<in> set xs \<Longrightarrow> y \<in> set xs \<Longrightarrow> \<not> lt x y \<Longrightarrow> \<not> lt y x \<Longrightarrow> x = y"
  shows "xs = ys"
  using assms
proof (induction xs arbitrary: ys)
  case (Cons x xs)
  then obtain y zs where ys: "ys = y # zs" by (cases ys) auto
  have set: "set (x # xs) = set (y # zs)" using Cons.prems(3) ys mset_eq_setD by blast
  have "x = y"
  proof (rule ccontr)
    assume ne: "x \<noteq> y"
    then have "y \<in> set xs" "x \<in> set zs" using set by auto
    with Cons.prems(1,2) ys have "\<not> lt y x" "\<not> lt x y" by auto
    with Cons.prems(4) [of x y] ne \<open>y \<in> set xs\<close> show False by simp
  qed
  with Cons ys show ?case by simp
qed simp

lemma stable_sort_cong:
  assumes "weak_order lt" "mset xs = mset ys"
    and "\<And>x y. x \<in> set xs \<Longrightarrow> y \<in> set xs \<Longrightarrow> \<not> lt x y \<Longrightarrow> \<not> lt y x \<Longrightarrow> x = y"
  shows "stable_sort lt xs = stable_sort lt ys"
  using sorted_unique [OF stable_sort_sorted [OF assms(1)] stable_sort_sorted [OF assms(1)], of xs ys] assms(2,3) by simp

end
