(* ===== verification/AlertChecks.thy ===== *)
theory AlertChecks
  imports CheckUtil
begin

text \<open>
  The Go checks over the collected storage files and the hourly log files (\<open>internal/alert/checks_storage.go\<close>,
  \<open>internal/alert/checks_logs.go\<close>): what each reads, and a function of the rows read that gives the rows of the alert.
\<close>

section \<open>Disks\<close>

definition systemDBs :: "string list" where
  "systemDBs = [''system'', ''information_schema'', ''INFORMATION_SCHEMA'']"

definition user_policies :: "Row list \<Rightarrow> string list" where
  "user_policies tables =
     map (\<lambda>t. Row_Str t ''storage_policy'')
       (filter (\<lambda>t. \<not> (Row_Str t ''database'' \<in> set systemDBs \<or> Row_Int t ''is_system_db'' = 1) \<and> Row_Str t ''storage_policy'' \<noteq> [])
         tables)"

definition policy_disks :: "string list \<Rightarrow> Row list \<Rightarrow> string list" where
  "policy_disks policies sp =
     concat (map (\<lambda>p. if Row_Str p ''policy_name'' \<in> set policies
                      then (case jmap p ''disks'' of Some (JArr ds) \<Rightarrow> map json_v ds | _ \<Rightarrow> []) else []) sp)"

definition data_disks :: "string list reader" where
  "data_disks = andThen (attempt (read_collector ''system.tables'')) (\<lambda>res.
     case res of
       Inl _ \<Rightarrow> give []
     | Inr tables \<Rightarrow> andThen (attempt (read_collector ''system.storage_policies'')) (\<lambda>res.
         give (case res of Inl _ \<Rightarrow> [] | Inr sp \<Rightarrow> policy_disks (user_policies tables) sp)))"

definition low_disk :: "string list \<Rightarrow> Row \<Rightarrow> bool" where
  "low_disk data d \<longleftrightarrow>
     (let total = Row_Float d ''total_bytes''; free = Row_Float d ''free_bytes'' in
      \<not> (f_le total (Fin 0) \<or> f_ge (f_div free total) (f_lit (15 / 100))) \<and> \<not> (data \<noteq> [] \<and> Row_Str d ''name'' \<notin> set data))"

definition disk_row :: "string \<Rightarrow> Row \<Rightarrow> vrow" where
  "disk_row host d =
     (let total = Row_Float d ''total_bytes''; free = Row_Float d ''free_bytes''; h = Row_Str d ''hostname'' in
      [(''hostname'', VStr (if h = [] then host else h)), (''disk_name'', VStr (Row_Str d ''name'')),
       (''free_space'', VStr (formatReadableSize free)), (''total_space'', VStr (formatReadableSize total)),
       (''free_pct'', VFloat (roundTo (f_mul (f_div free total) (Fin 100)) 1))])"

definition float_at :: "string \<Rightarrow> vrow \<Rightarrow> float64" where
  "float_at k r = (case vget r k of Some (VFloat f) \<Rightarrow> f | _ \<Rightarrow> NaN)"

definition int_at :: "string \<Rightarrow> vrow \<Rightarrow> int" where
  "int_at k r = (case vget r k of Some (VInt i) \<Rightarrow> i | _ \<Rightarrow> 0)"

definition text_at :: "string \<Rightarrow> vrow \<Rightarrow> string" where
  "text_at k r = (case vget r k of Some (VStr s) \<Rightarrow> s | _ \<Rightarrow> [])"

definition checkDiskSpaceLow :: "vrow list reader" where
  "checkDiskSpaceLow = andThen (read_collector ''system.disks'') (\<lambda>disks.
     andThen data_disks (\<lambda>data. andThen serverHost (\<lambda>host.
       give (stable_sort (\<lambda>x y. f_less (float_at ''free_pct'' x) (float_at ''free_pct'' y))
         (map (disk_row host) (filter (low_disk data) disks))))))"

section \<open>Parts\<close>

definition by_count :: "string \<Rightarrow> vrow list \<Rightarrow> vrow list" where
  "by_count k = stable_sort (\<lambda>x y. int_at k x > int_at k y)"

definition parts_row :: "Row \<Rightarrow> vrow" where
  "parts_row p = [(''database'', VStr (Row_Str p ''database'')), (''table'', VStr (Row_Str p ''table'')),
     (''partition_id'', VStr (Row_Str p ''partition_id'')), (''parts_count'', VInt (Row_Int p ''parts''))]"

definition checkTooManyParts :: "vrow list reader" where
  "checkTooManyParts = andThen (read_collector ''system.parts_by_partition'') (\<lambda>parts.
     give (by_count ''parts_count'' (map parts_row (filter (\<lambda>p. Row_Int p ''parts'' > 300) parts))))"

definition large_part :: "Row \<Rightarrow> bool" where
  "large_part p \<longleftrightarrow> \<not> (Row_Int p ''active'' \<noteq> 1 \<or> f_le (Row_Float p ''bytes_on_disk'') (Fin (150 * 1024 * 1024 * 1024)))"

definition large_part_row :: "Row \<Rightarrow> vrow" where
  "large_part_row p =
     (let bytes = Row_Float p ''bytes_on_disk''; c = Row_Float p ''data_compressed_bytes'';
          ratio = (if f_gt c (Fin 0) then roundTo (f_div (Row_Float p ''data_uncompressed_bytes'') c) 2 else Fin 0) in
      [(''database'', VStr (Row_Str p ''database'')), (''table'', VStr (Row_Str p ''table'')), (''part_name'', VStr (Row_Str p ''name'')),
       (''disk_name'', VStr (Row_Str p ''disk_name'')), (''size_on_disk'', VStr (formatReadableSize bytes)),
       (''bytes_on_disk'', VInt (f_to_int64 bytes)),
       (''uncompressed_size'', VStr (formatReadableSize (Row_Float p ''data_uncompressed_bytes''))), (''compression_ratio'', VFloat ratio),
       (''rows'', VInt (Row_Int p ''rows'')), (''modification_time'', VStr (Row_Str p ''modification_time''))])"

definition checkLargeParts :: "vrow list reader" where
  "checkLargeParts = andThen (read_collector ''system.parts'') (\<lambda>parts.
     give (by_count ''bytes_on_disk'' (map large_part_row (filter large_part parts))))"

section \<open>Detached parts\<close>

record detached_agg =
  da_db :: string
  da_tb :: string
  da_n :: int
  da_bytes :: float64
  da_reasons :: "string list"
  da_sized :: bool

definition NUL :: char where "NUL = CHR 0x00"

definition table_key :: "Row \<Rightarrow> string" where
  "table_key r = Row_Str r ''database'' @ [NUL] @ Row_Str r ''table''"

text \<open>The rows that are counted: no system databases, and in cloud mode each path once.\<close>

fun counted_parts :: "string \<Rightarrow> string list \<Rightarrow> Row list \<Rightarrow> Row list" where
  "counted_parts mode seen [] = []"
| "counted_parts mode seen (r # rs) =
     (let p = Row_Str r ''path'' in
      if Row_Str r ''database'' \<in> set systemDBs then counted_parts mode seen rs
      else if mode = ''cloud'' \<and> p \<noteq> [] then
        (if p \<in> set seen then counted_parts mode seen rs else r # counted_parts mode (p # seen) rs)
      else r # counted_parts mode seen rs)"

definition no_detached :: detached_agg where
  "no_detached = \<lparr>da_db = [], da_tb = [], da_n = 0, da_bytes = Fin 0, da_reasons = [], da_sized = False\<rparr>"

definition detached_step :: "Row \<Rightarrow> detached_agg \<Rightarrow> detached_agg" where
  "detached_step r a =
     (let a = (if da_n a = 0 then a\<lparr>da_db := Row_Str r ''database'', da_tb := Row_Str r ''table''\<rparr> else a);
          a = a\<lparr>da_n := da_n a + 1\<rparr>;
          a = (if jmap r ''bytes_on_disk'' \<noteq> None
               then a\<lparr>da_sized := True, da_bytes := f_add (da_bytes a) (Row_Float r ''bytes_on_disk'')\<rparr> else a)
      in a\<lparr>da_reasons := da_reasons a @ [Row_Str r ''reason'']\<rparr>)"

definition detached_row :: "detached_agg \<Rightarrow> vrow" where
  "detached_row a = [(''database'', VStr (da_db a)), (''table'', VStr (da_tb a)), (''detached_count'', VInt (da_n a)),
     (''reasons'', VList (map VStr (da_reasons a)))] @ (if da_sized a then [(''total_size'', VStr (formatReadableSize (da_bytes a)))] else [])"

definition detached_order :: "detached_agg \<Rightarrow> float64" where
  "detached_order a = (if da_sized a then da_bytes a else f_of_int (da_n a))"

definition detached_rows :: "string \<Rightarrow> Row list \<Rightarrow> vrow list" where
  "detached_rows mode rows =
     map detached_row (stable_sort (\<lambda>x y. f_gt (detached_order x) (detached_order y))
       (map snd (group_rows table_key detached_step no_detached (counted_parts mode [] rows))))"

definition checkDetachedParts :: "string \<Rightarrow> vrow list reader" where
  "checkDetachedParts mode = andThen (read_collector ''system.detached_parts'') (\<lambda>rows. give (detached_rows mode rows))"

section \<open>Crashes, the replication queue, mutations and replicas\<close>

definition newest_first :: "string \<Rightarrow> Row list \<Rightarrow> Row list" where
  "newest_first k = stable_sort (\<lambda>x y. Row_Str x k > Row_Str y k)"

definition text_cols :: "string list \<Rightarrow> Row \<Rightarrow> vrow" where
  "text_cols ks r = map (\<lambda>k. (k, VStr (Row_Str r k))) ks"

text \<open>\<open>sort.SliceStable\<close> sorts the slice that the bundle keeps.\<close>

definition keep_sorted :: "string \<Rightarrow> Row list \<Rightarrow> unit reader" where
  "keep_sorted c rows = (\<lambda>rd b. (Inr (), b\<lparr>b_cache := (b_cache b)(c \<mapsto> rows)\<rparr>))"

definition crash_presence :: "rows_error \<Rightarrow> vrow list reader" where
  "crash_presence err = andThen (attempt (read_collector ''system.crash_log_presence'')) (\<lambda>res.
     case res of
       Inl _ \<Rightarrow> stop_with err
     | Inr pres \<Rightarrow>
         let hosts = map (\<lambda>p. Row_Str p ''hostname'') (filter (\<lambda>p. Row_Int p ''has_crash_log'' > 0) pres) in
         if hosts = [] then
           stop_with (NotCollected ''system.crash_log'' ''not collected'' ''no replica has system.crash_log (none has crashed)'')
         else stop_with (ReadError (''system.crash_log exists on '' @ nat_str (length hosts) @ '' replica(s) ('' @ str_join '', '' hosts @
           '') but could not be read: '' @ rows_error_text err)))"

definition checkCrashLog :: "string \<Rightarrow> vrow list reader" where
  "checkCrashLog mode = andThen (attempt (read_collector ''system.crash_log'')) (\<lambda>res.
     case res of
       Inl (NotCollected c s w) \<Rightarrow> if mode = ''cloud'' then crash_presence (NotCollected c s w) else stop_with (NotCollected c s w)
     | Inl e \<Rightarrow> stop_with e
     | Inr rows \<Rightarrow>
         let rows = newest_first ''event_time'' rows in
         andThen (keep_sorted ''system.crash_log'' rows) (\<lambda>_.
           give (map (text_cols [''event_time'', ''signal'', ''thread_id'', ''query_id'', ''version'']) (take 20 rows))))"

definition queue_row :: "Row \<Rightarrow> vrow" where
  "queue_row r = text_cols [''database'', ''table'', ''replica_name'', ''type'', ''create_time''] r @
     [(''num_tries'', VInt (Row_Int r ''num_tries'')), (''last_exception'', VStr (Row_Str r ''last_exception''))]"

definition checkReplicationQueueErrors :: "vrow list reader" where
  "checkReplicationQueueErrors = andThen (read_collector ''system.replication_queue'') (\<lambda>rows.
     give (map queue_row (take 50 (newest_first ''create_time'' (filter (\<lambda>r. Row_Str r ''last_exception'' \<noteq> []) rows)))))"

definition mutation_key :: "Row \<Rightarrow> string" where
  "mutation_key r = table_key r @ [NUL] @ Row_Str r ''mutation_id''"

definition mutation_row :: "int \<Rightarrow> Row \<Rightarrow> vrow" where
  "mutation_row h r = text_cols [''database'', ''table'', ''mutation_id'', ''command''] r @
     [(''create_time_str'', VStr (Row_Str r ''create_time'')), (''hours_running'', VInt h), (''parts_to_do'', VInt (Row_Int r ''parts_to_do''))]"

fun long_mutations :: "time \<Rightarrow> location \<Rightarrow> string list \<Rightarrow> Row list \<Rightarrow> (int \<times> Row) list" where
  "long_mutations now loc seen [] = []"
| "long_mutations now loc seen (r # rs) =
     (if Row_Int r ''parts_to_do'' \<le> 0 \<or> Row_Int r ''is_killed'' = 1 \<or> mutation_key r \<in> set seen then long_mutations now loc seen rs
      else case parseTime (Row_Str r ''create_time'') loc of
        None \<Rightarrow> long_mutations now loc seen rs
      | Some created \<Rightarrow>
          let h = dateDiffHours created now in
          if h \<le> 3 then long_mutations now loc seen rs
          else (h, r) # long_mutations now loc (mutation_key r # seen) rs)"

definition checkMutationsTooLong :: "check_env \<Rightarrow> vrow list reader" where
  "checkMutationsTooLong env = andThen (read_collector ''system.mutations'') (\<lambda>rows.
     andThen (collectedAt env) (\<lambda>(now, loc).
       give (by_count ''hours_running'' (map (\<lambda>(h, r). mutation_row h r) (long_mutations now loc [] rows)))))"

definition replica_key :: "Row \<Rightarrow> string" where
  "replica_key r = Row_Str r ''hostname'' @ [NUL] @ table_key r"

definition replica_row :: "(string \<rightharpoonup> string \<times> string) \<Rightarrow> Row \<Rightarrow> vrow" where
  "replica_row counts r =
     (case (case counts (replica_key r) of Some c \<Rightarrow> c | None \<Rightarrow> (''?'', ''?'')) of (up, of_all) \<Rightarrow>
       text_cols [''database'', ''table''] r @
       [(''is_session_expired'', VInt (Row_Int r ''is_session_expired'')), (''absolute_delay'', VInt (Row_Int r ''absolute_delay'')),
        (''active_replicas'', VStr up), (''total_replicas'', VStr of_all)] @
       (if Row_Str r ''hostname'' \<noteq> [] then [(''hostname'', VStr (Row_Str r ''hostname''))] else []))"

definition checkReplicaReadonly :: "vrow list reader" where
  "checkReplicaReadonly = andThen (read_collector ''system.replicas'') (\<lambda>rows.
     andThen (attempt (read_collector ''system.replicas_problem_tables'')) (\<lambda>res.
       let counts = (case res of
             Inl _ \<Rightarrow> Map.empty
           | Inr pt \<Rightarrow> map_of (rev (map (\<lambda>p. (replica_key p, Row_Str p ''active_replicas'', Row_Str p ''total_replicas'')) pt)))
       in give (map (replica_row counts) (filter (\<lambda>r. Row_Int r ''is_readonly'' = 1) rows))))"

section \<open>Hourly log files\<close>

definition inWindow :: "string \<Rightarrow> time \<Rightarrow> location \<Rightarrow> duration \<Rightarrow> Row \<Rightarrow> time option" where
  "inWindow col now loc d r =
     (case parseTime (Row_Str r col) loc of
        None \<Rightarrow> None
      | Some t \<Rightarrow> if t + Hour > now - d \<and> t \<le> now then Some t else None)"

definition window_rows :: "time \<Rightarrow> location \<Rightarrow> duration \<Rightarrow> Row list \<Rightarrow> (string \<times> Row) list" where
  "window_rows now loc d rows = List.map_filter (\<lambda>r. map_option (\<lambda>t. (fmt_in loc t, r)) (inWindow ''time'' now loc d r)) rows"

record merge_agg =
  ma_new :: int
  ma_merges :: int
  ma_failed :: int

definition no_merges :: merge_agg where "no_merges = \<lparr>ma_new = 0, ma_merges = 0, ma_failed = 0\<rparr>"

definition merge_step :: "string \<times> Row \<Rightarrow> merge_agg \<Rightarrow> merge_agg" where
  "merge_step hr a =
     (let r = snd hr; n = Row_Int r ''count''; ev = Row_Str r ''event_type'' in
      if ev = ''NewPart'' then a\<lparr>ma_new := wrap64 (ma_new a + n)\<rparr>
      else if ev = ''MergeParts'' then
        (if Row_Int r ''error'' = 0 then a\<lparr>ma_merges := wrap64 (ma_merges a + n)\<rparr> else a\<lparr>ma_failed := wrap64 (ma_failed a + n)\<rparr>)
      else a)"

definition merge_key :: "string \<times> Row \<Rightarrow> string \<times> string" where
  "merge_key hr = (Row_Str (snd hr) ''hostname'', fst hr)"

definition merge_row :: "(string \<times> string) \<times> merge_agg \<Rightarrow> vrow" where
  "merge_row ka = (case ka of ((host, hour), a) \<Rightarrow>
     [(''hostname'', VStr host), (''hour'', VStr hour), (''new_parts'', VInt (ma_new a)), (''merges'', VInt (ma_merges a)),
      (''failed_merges'', VInt (ma_failed a))])"

definition by_hour_host :: "vrow \<Rightarrow> vrow \<Rightarrow> bool" where
  "by_hour_host x y \<longleftrightarrow>
     (if text_at ''hour'' x \<noteq> text_at ''hour'' y then text_at ''hour'' x < text_at ''hour'' y
      else text_at ''hostname'' x < text_at ''hostname'' y)"

definition stalled_rows :: "check_env \<Rightarrow> time \<Rightarrow> location \<Rightarrow> Row list \<Rightarrow> vrow list" where
  "stalled_rows env now loc rows =
     (let m = group_rows merge_key merge_step no_merges (window_rows now loc (24 * Hour) rows) in
      stable_sort by_hour_host
        (map merge_row (filter (\<lambda>(k, a). ma_new a > 100 \<and> ma_merges a = 0) (map_range env m))))"

definition checkMergesStalled :: "check_env \<Rightarrow> vrow list reader" where
  "checkMergesStalled env = andThen (read_collector ''system.part_log_3_days'') (\<lambda>rows.
     andThen (serverClock env) (\<lambda>(now, loc). give (stalled_rows env now loc rows)))"

text \<open>Count and example message of one group.\<close>

definition exc_step :: "string \<times> Row \<Rightarrow> int \<times> string \<Rightarrow> int \<times> string" where
  "exc_step hr a = (wrap64 (fst a + Row_Int (snd hr) ''count''), if snd a = [] then Row_Str (snd hr) ''exception'' else snd a)"

definition failure_row :: "(string \<times> string \<times> int) \<times> int \<times> string \<Rightarrow> vrow" where
  "failure_row ka = (case ka of ((hour, ev, c), n, msg) \<Rightarrow>
     [(''hour'', VStr hour), (''event_type'', VStr ev), (''error'', VInt c), (''failures'', VInt n), (''example_message'', VStr msg)])"

definition failure_rows :: "check_env \<Rightarrow> time \<Rightarrow> location \<Rightarrow> Row list \<Rightarrow> vrow list" where
  "failure_rows env now loc rows =
     (let m = group_rows (\<lambda>hr. (fst hr, Row_Str (snd hr) ''event_type'', Row_Int (snd hr) ''error'')) exc_step (0, [])
        (window_rows now loc (24 * Hour) (filter (\<lambda>r. Row_Int r ''error'' \<noteq> 0) rows)) in
      take 24 (by_count ''failures'' (map failure_row (filter (\<lambda>(k, n, msg). n > 50) (map_range env m)))))"

definition checkBackgroundFailures :: "check_env \<Rightarrow> vrow list reader" where
  "checkBackgroundFailures env = andThen (read_collector ''system.part_log_3_days'') (\<lambda>rows.
     andThen (serverClock env) (\<lambda>(now, loc). give (failure_rows env now loc rows)))"

definition exceptions_in :: "time \<Rightarrow> location \<Rightarrow> duration \<Rightarrow> (Row \<Rightarrow> bool) \<Rightarrow> Row list \<Rightarrow> ((string \<times> string) \<times> int \<times> string) list" where
  "exceptions_in now loc window keep rows =
     group_rows (\<lambda>hr. (fst hr, Row_Str (snd hr) ''exception_code'')) exc_step (0, []) (window_rows now loc window (filter keep rows))"

definition exceptionsByHour :: "check_env \<Rightarrow> duration \<Rightarrow> (Row \<Rightarrow> bool) \<Rightarrow> ((string \<times> string) \<times> int \<times> string) list reader" where
  "exceptionsByHour env window keep = andThen (read_collector ''system.query_log_exceptions_1_day'') (\<lambda>rows.
     andThen (serverClock env) (\<lambda>(now, loc). give (exceptions_in now loc window keep rows)))"

definition rate_row :: "(string \<times> string) \<times> int \<times> string \<Rightarrow> vrow" where
  "rate_row ka = (case ka of ((hour, c), n, msg) \<Rightarrow>
     [(''hour'', VStr hour), (''exception_code'', VInt (Row_Int [(''c'', JStr c)] ''c'')), (''error_count'', VInt n),
      (''example_message'', VStr msg)])"

definition checkHighExceptionRate :: "check_env \<Rightarrow> vrow list reader" where
  "checkHighExceptionRate env =
     andThen (exceptionsByHour env (24 * Hour) (\<lambda>r. Row_Int r ''exception_code'' \<noteq> 0 \<and> Row_Str r ''type'' = ''ExceptionWhileProcessing''))
       (\<lambda>m. give (take 24 (by_count ''error_count'' (map rate_row (filter (\<lambda>(k, n, msg). n > 50) (map_range env m))))))"

definition spike_row :: "(string \<times> string) \<times> int \<times> string \<Rightarrow> vrow" where
  "spike_row ka = (case ka of ((hour, c), n, msg) \<Rightarrow>
     [(''hour'', VStr hour), (''error_count'', VInt n), (''example_message'', VStr msg)])"

definition checkKeeperExceptionSpike :: "check_env \<Rightarrow> vrow list reader" where
  "checkKeeperExceptionSpike env =
     andThen (exceptionsByHour env (24 * Hour) (\<lambda>r. Row_Int r ''exception_code'' = 999 \<and> Row_Str r ''type'' = ''ExceptionWhileProcessing''))
       (\<lambda>m. give (stable_sort (\<lambda>x y. text_at ''hour'' x < text_at ''hour'' y)
          (map spike_row (filter (\<lambda>(k, n, msg). n > 20) (map_range env m)))))"

definition refused_rows :: "check_env \<Rightarrow> ((string \<times> string) \<times> int \<times> string) list \<Rightarrow> vrow list" where
  "refused_rows env m =
     (case fold (\<lambda>(k, n, msg) (total, m). (wrap64 (total + n), if m = [] then msg else m)) (map_range env m) (0, []) of
        (n, msg) \<Rightarrow> if n \<le> 10 then [] else [[(''error_count'', VInt n), (''example_message'', VStr msg)]])"

definition checkTooManySimultaneous :: "check_env \<Rightarrow> vrow list reader" where
  "checkTooManySimultaneous env = andThen (exceptionsByHour env Hour (\<lambda>r. Row_Int r ''exception_code'' = 202))
     (\<lambda>m. give (refused_rows env m))"

end
