(* ===== verification/KeeperChecks.thy ===== *)
theory KeeperChecks
  imports AlertChecks
begin

text \<open>
  The Go checks over the hourly metric log, the Keeper connections and the parts' block numbers
  (\<open>internal/alert/checks_keeper.go\<close>), and the registry of all checks. A \<open>time.Time\<close> carries its location.
\<close>

section \<open>Hours of the metric log\<close>

record hostHour =
  hh_host :: string
  hh_hour :: time
  hh_loc :: location
  hh_r :: Row

definition metric_source :: "string \<Rightarrow> string" where
  "metric_source mode = (if mode = ''cloud'' then ''system.metric_log_by_host_3_days'' else ''system.metric_log_7_days'')"

definition host_of :: "string \<Rightarrow> string \<Rightarrow> Row \<Rightarrow> string" where
  "host_of mode host r = (if mode = ''cloud'' then Row_Str r ''hostname'' else host)"

definition metricHours :: "check_env \<Rightarrow> string \<Rightarrow> duration \<Rightarrow> hostHour list reader" where
  "metricHours env mode window = andThen (read_collector (metric_source mode)) (\<lambda>rows.
     andThen (serverClock env) (\<lambda>(now, loc). andThen serverHost (\<lambda>host.
       give (List.map_filter (\<lambda>r. map_option (\<lambda>t. \<lparr>hh_host = host_of mode host r, hh_hour = t, hh_loc = loc, hh_r = r\<rparr>)
         (inWindow ''time'' now loc window r)) rows))))"

section \<open>Keeper hours\<close>

definition usual_tx :: "hostHour list \<Rightarrow> string \<Rightarrow> float64" where
  "usual_tx hours host = medianHigh (map (\<lambda>h. Row_Float (hh_r h) ''zk_transactions'') (filter (\<lambda>h. hh_host h = host) hours))"

definition by_hour_then_host :: "hostHour \<Rightarrow> hostHour \<Rightarrow> bool" where
  "by_hour_then_host x y \<longleftrightarrow> (if hh_hour x \<noteq> hh_hour y then hh_hour x < hh_hour y else hh_host x < hh_host y)"

definition keeper_hit :: "bool \<Rightarrow> (string \<Rightarrow> float64) \<Rightarrow> hostHour \<Rightarrow> bool" where
  "keeper_hit degraded usual h \<longleftrightarrow>
     (let u = usual (hh_host h); t = Row_Float (hh_r h) ''zk_transactions'' in
      \<not> (f_le u (Fin 0) \<or> Row_Int (hh_r h) ''zk_hw_exceptions'' \<le> 1000 \<or> f_less t (f_mul (f_lit (1 / 2)) u) \<noteq> degraded))"

definition keeper_row :: "bool \<Rightarrow> (string \<Rightarrow> float64) \<Rightarrow> hostHour \<Rightarrow> vrow" where
  "keeper_row degraded usual h =
     (let u = usual (hh_host h); t = Row_Float (hh_r h) ''zk_transactions'' in
      [(''hostname'', VStr (hh_host h)), (''hour'', VStr (fmt_in (hh_loc h) (hh_hour h))),
       (''hw_exceptions'', VInt (Row_Int (hh_r h) ''zk_hw_exceptions'')), (''transactions'', VInt (Row_Int (hh_r h) ''zk_transactions'')),
       (''pct_of_usual'', VFloat (roundTo (f_div (f_mul (Fin 100) t) (f_max u (Fin 1))) 0))] @
      (if degraded then [(''usual_transactions'', VFloat (roundTo u 0))] else []))"

text \<open>At most \<open>k\<close> hours of each host.\<close>

fun capped_hours :: "nat \<Rightarrow> (hostHour \<Rightarrow> bool) \<Rightarrow> (string \<Rightarrow> nat) \<Rightarrow> hostHour list \<Rightarrow> hostHour list" where
  "capped_hours k hit perHost [] = []"
| "capped_hours k hit perHost (h # hs) =
     (if \<not> hit h \<or> perHost (hh_host h) = k then capped_hours k hit perHost hs
      else h # capped_hours k hit (perHost(hh_host h := perHost (hh_host h) + 1)) hs)"

definition keeper_rows :: "bool \<Rightarrow> hostHour list \<Rightarrow> vrow list" where
  "keeper_rows degraded hours =
     (let usual = usual_tx hours in
      map (keeper_row degraded usual)
        (capped_hours 168 (keeper_hit degraded usual) (\<lambda>_. 0) (stable_sort by_hour_then_host hours)))"

definition checkKeeperHours :: "check_env \<Rightarrow> string \<Rightarrow> bool \<Rightarrow> vrow list reader" where
  "checkKeeperHours env mode degraded = andThen (metricHours env mode (7 * 24 * Hour)) (\<lambda>hours. give (keeper_rows degraded hours))"

section \<open>Background pools\<close>

definition live_size :: "string \<Rightarrow> string \<Rightarrow> hostHour list \<Rightarrow> string \<Rightarrow> float64" where
  "live_size mode sizeCol hours host =
     fold (\<lambda>h s. if mode = ''cloud'' \<and> f_gt (Row_Float (hh_r h) sizeCol) s then Row_Float (hh_r h) sizeCol else s)
       (filter (\<lambda>h. hh_host h = host) hours) (Fin 0)"

definition configured_size :: "string \<Rightarrow> Row list \<Rightarrow> float64" where
  "configured_size setting rows =
     fold (\<lambda>r s. if Row_Str r ''name'' = setting \<and> f_gt (Row_Float r ''value'') s then Row_Float r ''value'' else s) rows (Fin 0)"

definition poolSizes :: "string \<Rightarrow> hostHour list \<Rightarrow> string \<Rightarrow> string \<Rightarrow> (string \<Rightarrow> float64) reader" where
  "poolSizes mode hours setting sizeCol =
     (let sizes = live_size mode sizeCol hours in
      if list_all (\<lambda>h. sizes (hh_host h) \<noteq> Fin 0) hours then give sizes
      else andThen (if mode \<noteq> ''cloud'' then serverAtLeast 23 3 else give True) (\<lambda>recent.
        andThen (read_collector (if mode \<noteq> ''cloud'' \<and> \<not> recent then ''system.settings'' else ''system.server_settings'')) (\<lambda>rows.
          give (\<lambda>host. if sizes host = Fin 0 then configured_size setting rows else sizes host))))"

definition saturated :: "string \<Rightarrow> float64 \<Rightarrow> (string \<Rightarrow> float64) \<Rightarrow> hostHour \<Rightarrow> bool" where
  "saturated taskCol share sizes h \<longleftrightarrow>
     (let size = sizes (hh_host h) in
      \<not> (f_le size (Fin 0) \<or> f_less (Row_Float (hh_r h) taskCol) (f_mul share size)))"

definition pool_step :: "string \<Rightarrow> hostHour \<Rightarrow> int \<times> float64 \<Rightarrow> int \<times> float64" where
  "pool_step taskCol h a = (fst a + 1, f_add (snd a) (Row_Float (hh_r h) taskCol))"

definition pool_row :: "(string \<Rightarrow> float64) \<Rightarrow> string \<times> int \<times> float64 \<Rightarrow> vrow" where
  "pool_row sizes ka = (case ka of (host, n, sm) \<Rightarrow>
     let avg = f_div sm (f_of_int n) in
     [(''hostname'', VStr host), (''hours_saturated'', VInt n), (''avg_tasks_in_pool'', VFloat (roundTo avg 1)),
      (''pool_size'', VInt (f_to_int64 (sizes host))),
      (''pct_of_size'', VFloat (roundTo (f_div (f_mul (Fin 100) avg) (f_max (sizes host) (Fin 1))) 0))])"

definition more_then_host :: "string \<Rightarrow> vrow \<Rightarrow> vrow \<Rightarrow> bool" where
  "more_then_host k x y \<longleftrightarrow>
     (if int_at k x \<noteq> int_at k y then int_at k x > int_at k y else text_at ''hostname'' x < text_at ''hostname'' y)"

definition saturated_rows :: "check_env \<Rightarrow> string \<Rightarrow> float64 \<Rightarrow> (string \<Rightarrow> float64) \<Rightarrow> hostHour list \<Rightarrow> vrow list" where
  "saturated_rows env taskCol share sizes hours =
     (let m = group_rows hh_host (pool_step taskCol) (0, Fin 0) (filter (saturated taskCol share sizes) hours) in
      take 100 (stable_sort (more_then_host ''hours_saturated'')
        (map (pool_row sizes) (filter (\<lambda>(host, n, total). \<not> n < 3) (map_range env m)))))"

definition checkPoolSaturated :: "check_env \<Rightarrow> string \<Rightarrow> string \<Rightarrow> string \<Rightarrow> string \<Rightarrow> float64 \<Rightarrow> vrow list reader" where
  "checkPoolSaturated env mode taskCol setting sizeCol share = andThen (metricHours env mode (24 * Hour)) (\<lambda>hours.
     andThen (poolSizes mode hours setting sizeCol) (\<lambda>sizes. give (saturated_rows env taskCol share sizes hours)))"

section \<open>Keeper session ids\<close>

definition xidMax :: int where "xidMax = 2147483647"

record keeper_conn =
  kc_sessions :: int
  kc_name :: string
  kc_host :: string
  kc_xid :: int

definition no_conn :: keeper_conn where "no_conn = \<lparr>kc_sessions = 0, kc_name = [], kc_host = [], kc_xid = 0\<rparr>"

definition conn_step :: "Row \<Rightarrow> keeper_conn \<Rightarrow> keeper_conn" where
  "conn_step r c =
     (let c = (if kc_sessions c = 0 then c\<lparr>kc_name := Row_Str r ''name'', kc_host := Row_Str r ''host''\<rparr> else c);
          c = c\<lparr>kc_sessions := kc_sessions c + 1\<rparr>
      in if Row_Int r ''xid'' > kc_xid c then c\<lparr>kc_xid := Row_Int r ''xid''\<rparr> else c)"

record keeper_rate =
  kr_tx :: float64
  kr_first :: time
  kr_last :: time

definition no_rate :: keeper_rate where "no_rate = \<lparr>kr_tx = Fin 0, kr_first = zero_time, kr_last = zero_time\<rparr>"

definition rate_step :: "location \<Rightarrow> hostHour \<Rightarrow> keeper_rate \<Rightarrow> keeper_rate" where
  "rate_step loc h r =
     (let r = r\<lparr>kr_tx := f_add (kr_tx r) (Row_Float (hh_r h) ''zk_transactions'')\<rparr>;
          r = (case parseTime (Row_Str (hh_r h) ''first_sample'') loc of
                 Some f \<Rightarrow> if is_zero (kr_first r) \<or> f < kr_first r then r\<lparr>kr_first := f\<rparr> else r
               | None \<Rightarrow> r)
      in case parseTime (Row_Str (hh_r h) ''last_sample'') loc of
           Some l \<Rightarrow> if l > kr_last r then r\<lparr>kr_last := l\<rparr> else r
         | None \<Rightarrow> r)"

definition rate_covered :: "keeper_rate \<Rightarrow> float64" where
  "rate_covered r =
     (if \<not> is_zero (kr_first r) \<and> kr_last r > kr_first r then dur_seconds (time_sub (kr_last r) (kr_first r)) else Fin 0)"

definition xid_per_s :: "keeper_rate \<Rightarrow> float64" where
  "xid_per_s r = f_div (kr_tx r) (rate_covered r)"

definition xid_left :: "keeper_conn \<Rightarrow> keeper_rate \<Rightarrow> float64" where
  "xid_left c r = f_div (f_of_int (xidMax - kc_xid c)) (xid_per_s r)"

definition xid_due :: "keeper_conn \<Rightarrow> keeper_rate \<Rightarrow> bool" where
  "xid_due c r \<longleftrightarrow>
     \<not> (kc_sessions c \<noteq> 1 \<or> kc_xid c \<le> 0 \<or> kc_xid c \<ge> xidMax \<or> f_less (rate_covered r) (Fin 7200) \<or> f_le (kr_tx r) (Fin 0)) \<and>
     \<not> f_ge (xid_left c r) (Fin 86400)"

definition xid_row :: "string \<Rightarrow> keeper_conn \<Rightarrow> keeper_rate \<Rightarrow> vrow" where
  "xid_row h c r =
     [(''hostname'', VStr h), (''connection_name'', VStr (kc_name c)), (''keeper_host'', VStr (kc_host c)), (''xid'', VInt (kc_xid c)),
      (''tx_per_s'', VFloat (roundTo (xid_per_s r) 2)), (''measured_over_h'', VFloat (roundTo (f_div (rate_covered r) (Fin 3600)) 1)),
      (''headroom_h'', VFloat (roundTo (f_div (xid_left c r) (Fin 3600)) 1)),
      (''period_at_this_rate_h'', VFloat (roundTo (f_div (f_div (f_of_int xidMax) (xid_per_s r)) (Fin 3600)) 1))]"

definition xid_rows :: "check_env \<Rightarrow> (string \<times> keeper_conn) list \<Rightarrow> (string \<rightharpoonup> keeper_rate) \<Rightarrow> vrow list" where
  "xid_rows env cs rs =
     take 100 (stable_sort (\<lambda>x y. f_less (float_at ''headroom_h'' x) (float_at ''headroom_h'' y))
       (List.map_filter (\<lambda>(h, c). case rs h of
           Some r \<Rightarrow> if xid_due c r then Some (xid_row h c r) else None
         | None \<Rightarrow> None) (map_range env cs)))"

definition checkKeeperXid :: "check_env \<Rightarrow> string \<Rightarrow> vrow list reader" where
  "checkKeeperXid env mode = andThen (read_collector ''system.zookeeper_connection'') (\<lambda>conns.
     andThen (metricHours env mode (24 * Hour)) (\<lambda>hours. andThen serverHost (\<lambda>host.
       andThen (collectedAt env) (\<lambda>(_, loc).
         give (xid_rows env
           (group_rows (host_of mode host) conn_step no_conn (filter (\<lambda>r. Row_Int r ''is_expired'' = 0) conns))
           (map_of (group_rows hh_host (rate_step loc) no_rate hours)))))))"

section \<open>Parts that lag\<close>

record lag_agg =
  la_partitions :: int
  la_notFetched :: int
  la_maxBehind :: int
  la_maxSkew :: int
  la_worst :: string
  la_seen :: "string list"

text \<open>One call of \<open>add\<close>.\<close>

record lag_event =
  le_host :: string
  le_part :: string
  le_behind :: int
  le_skew :: int
  le_missing :: bool

definition no_lag :: lag_agg where
  "no_lag = \<lparr>la_partitions = 0, la_notFetched = 0, la_maxBehind = - 1, la_maxSkew = 0, la_worst = [], la_seen = []\<rparr>"

definition lag_step :: "lag_event \<Rightarrow> lag_agg \<Rightarrow> lag_agg" where
  "lag_step e a =
     (if le_part e \<in> set (la_seen a) then a
      else
        let a = a\<lparr>la_seen := le_part e # la_seen a, la_partitions := la_partitions a + 1\<rparr>;
            a = (if le_missing e then a\<lparr>la_notFetched := la_notFetched a + 1\<rparr> else a);
            a = (if le_behind e > la_maxBehind a then a\<lparr>la_maxBehind := le_behind e, la_worst := le_part e\<rparr> else a)
        in if le_skew e > la_maxSkew a then a\<lparr>la_maxSkew := le_skew e\<rparr> else a)"

definition lag_part :: "Row \<Rightarrow> string" where
  "lag_part r = Row_Str r ''database'' @ ''.'' @ Row_Str r ''table'' @ '' / '' @ Row_Str r ''partition_id''"

definition behind_event :: "Row \<Rightarrow> lag_event list" where
  "behind_event r =
     (if Row_Int r ''blocks_behind'' \<ge> 32 then
        [\<lparr>le_host = Row_Str r ''hostname'', le_part = lag_part r, le_behind = Row_Int r ''blocks_behind'',
          le_skew = Row_Int r ''newest_part_skew_s'', le_missing = False\<rparr>]
      else [])"

definition missing_events :: "time \<Rightarrow> location \<Rightarrow> Row \<Rightarrow> lag_event list" where
  "missing_events now loc r =
     (case parseTime (Row_Str r ''cluster_last_part_time'') loc of
        None \<Rightarrow> []
      | Some l \<Rightarrow>
          if \<not> l > now - 24 * Hour then []
          else (case jmap r ''replicas_missing_partition'' of
              Some (JArr hs) \<Rightarrow>
                List.map_filter (\<lambda>h. case h of
                    JStr s \<Rightarrow> if trim_space s \<noteq> [] then
                      Some \<lparr>le_host = s, le_part = lag_part r, le_behind = Row_Int r ''cluster_max_block'', le_skew = 0, le_missing = True\<rparr>
                      else None
                  | _ \<Rightarrow> None) hs
            | _ \<Rightarrow> []))"

fun lag_events :: "time \<Rightarrow> location \<Rightarrow> string list \<Rightarrow> Row list \<Rightarrow> lag_event list" where
  "lag_events now loc seen [] = []"
| "lag_events now loc seen (r # rs) =
     behind_event r @
     (if lag_part r \<in> set seen then lag_events now loc seen rs
      else missing_events now loc r @ lag_events now loc (lag_part r # seen) rs)"

definition lag_row :: "string \<times> lag_agg \<Rightarrow> vrow" where
  "lag_row ha = (case ha of (host, a) \<Rightarrow>
     [(''hostname'', VStr host), (''partitions_affected'', VInt (la_partitions a)), (''partitions_not_fetched'', VInt (la_notFetched a)),
      (''max_blocks_behind'', VInt (la_maxBehind a)), (''worst_partition'', VStr (la_worst a)),
      (''max_newest_part_skew_s'', VInt (la_maxSkew a))])"

definition lag_rows :: "check_env \<Rightarrow> time \<Rightarrow> location \<Rightarrow> Row list \<Rightarrow> vrow list" where
  "lag_rows env now loc rows =
     take 100 (stable_sort (more_then_host ''max_blocks_behind'')
       (map lag_row (map_range env (group_rows le_host lag_step no_lag (lag_events now loc [] rows)))))"

definition checkPartsPropagationLag :: "check_env \<Rightarrow> vrow list reader" where
  "checkPartsPropagationLag env = andThen (read_collector ''system.parts_max_block_by_replica'') (\<lambda>rows.
     andThen (collectedAt env) (\<lambda>(now, loc). give (lag_rows env now loc rows)))"

section \<open>The registry\<close>

definition fetch_pool :: "check_env \<Rightarrow> string \<Rightarrow> vrow list reader" where
  "fetch_pool env mode = checkPoolSaturated env mode ''avg_fetch_pool_tasks'' ''background_fetches_pool_size''
     ''max(CurrentMetric_BackgroundFetchesPoolSize)'' (f_lit (9 / 10))"

definition schedule_pool :: "check_env \<Rightarrow> string \<Rightarrow> vrow list reader" where
  "schedule_pool env mode = checkPoolSaturated env mode ''avg_schedule_pool_tasks'' ''background_schedule_pool_size''
     ''max(CurrentMetric_BackgroundSchedulePoolSize)'' (f_lit (95 / 100))"

definition registered :: "check_env \<Rightarrow> (string \<times> (string \<Rightarrow> vrow list reader)) list" where
  "registered env =
    [(''disk_space_low'', \<lambda>mode. checkDiskSpaceLow), (''too_many_parts'', \<lambda>mode. checkTooManyParts),
     (''large_parts'', \<lambda>mode. checkLargeParts), (''detached_parts_exist'', checkDetachedParts), (''crash_log_entries'', checkCrashLog),
     (''replication_queue_errors'', \<lambda>mode. checkReplicationQueueErrors), (''mutation_running_too_long'', \<lambda>mode. checkMutationsTooLong env),
     (''replica_readonly'', \<lambda>mode. checkReplicaReadonly), (''merges_stalled'', \<lambda>mode. checkMergesStalled env),
     (''background_operation_failures'', \<lambda>mode. checkBackgroundFailures env), (''high_exception_rate'', \<lambda>mode. checkHighExceptionRate env),
     (''keeper_exception_spike'', \<lambda>mode. checkKeeperExceptionSpike env),
     (''too_many_simultaneous_queries'', \<lambda>mode. checkTooManySimultaneous env),
     (''keeper_health'', \<lambda>mode. checkKeeperHours env mode True), (''keeper_connection_blips'', \<lambda>mode. checkKeeperHours env mode False),
     (''fetch_pool_saturated'', fetch_pool env), (''schedule_pool_saturated'', schedule_pool env),
     (''keeper_xid_renewal_due'', checkKeeperXid env), (''parts_propagation_lag'', \<lambda>mode. checkPartsPropagationLag env)]"

definition registered_checks :: "check_env \<Rightarrow> string \<rightharpoonup> Check" where
  "registered_checks env = fold (\<lambda>(name, c). RegisterCheck name (\<lambda>rd mode. c mode rd)) (registered env) Map.empty"

end
