(* ===== verification/CheckContracts.thy ===== *)
theory CheckContracts
  imports KeeperChecks
begin

text \<open>
  What every check promises: its answer depends only on what was collected, not on the checks that ran before it on the same
  bundle (the interface \<open>check_registry\<close>, interpreted on the registry of the code), and a source that it needs and that was not
  collected is an error, never an empty answer. Then the properties of single checks.
\<close>

section \<open>Bundles that answer alike\<close>

text \<open>The rows of the crash log may be in another order (a check sorts the slice that the bundle keeps).\<close>

definition seen_rows :: "run_dir \<Rightarrow> Bundle \<Rightarrow> string \<Rightarrow> rows_error + Row list" where
  "seen_rows rd b c =
     (case fst (Rows rd c b) of
        Inl e \<Rightarrow> Inl e
      | Inr rows \<Rightarrow> Inr (if c = ''system.crash_log'' then newest_first ''event_time'' rows else rows))"

definition same_rows :: "run_dir \<Rightarrow> Bundle \<Rightarrow> Bundle \<Rightarrow> bool" where
  "same_rows rd b b' \<longleftrightarrow> b_end b = b_end b' \<and> seen_rows rd b = seen_rows rd b'"

lemma same_rows_equiv:
  "same_rows rd b b" "same_rows rd b b' \<Longrightarrow> same_rows rd b' b" "same_rows rd b b' \<Longrightarrow> same_rows rd b' b'' \<Longrightarrow> same_rows rd b b''"
  by (simp_all add: same_rows_def)

lemma Rows_stable: "fst (Rows rd c (snd (Rows rd d b))) = fst (Rows rd c b)"
  by (auto simp: Rows_def fresh_rows_after split: option.splits sum.splits)

lemma same_rows_read: "same_rows rd b (snd (Rows rd d b))"
  by (simp add: same_rows_def Rows_same seen_rows_def Rows_stable fun_eq_iff)

lemma same_rows_get: "same_rows rd b b' \<Longrightarrow> c \<noteq> ''system.crash_log'' \<Longrightarrow> fst (Rows rd c b) = fst (Rows rd c b')"
  unfolding same_rows_def seen_rows_def fun_eq_iff
  by (cases "fst (Rows rd c b)"; cases "fst (Rows rd c b')") (auto dest!: spec [of _ c])

definition steady :: "'a reader \<Rightarrow> bool" where
  "steady m \<longleftrightarrow> (\<forall>rd b b'. same_rows rd b b' \<longrightarrow> fst (m rd b) = fst (m rd b') \<and> same_rows rd b (snd (m rd b)))"

named_theorems steadies

lemma steady_simple [steadies]: "steady (give x)" "steady (stop_with e)" "steady window_end"
  by (simp_all add: steady_def give_def stop_with_def window_end_def same_rows_def)

lemma steady_read [steadies]: "c \<noteq> ''system.crash_log'' \<Longrightarrow> steady (read_collector c)"
  by (simp add: steady_def read_collector_def same_rows_get same_rows_read)

lemma steady_attempt [steadies]: "steady m \<Longrightarrow> steady (attempt m)"
  by (simp add: steady_def attempt_def split_beta)

lemma andThen_unfold:
  "andThen m f rd b = (case fst (m rd b) of Inl e \<Rightarrow> (Inl e, snd (m rd b)) | Inr x \<Rightarrow> f x rd (snd (m rd b)))"
  by (simp add: andThen_def split_beta split: sum.split)

lemma steady_andThen [steadies]:
  assumes m: "steady m" and f: "\<And>x. steady (f x)"
  shows "steady (andThen m f)"
  unfolding steady_def
proof (intro allI impI)
  fix rd b b'
  assume eq: "same_rows rd b b'"
  then have eq': "same_rows rd b' b'" using same_rows_equiv by blast
  have fst: "fst (m rd b) = fst (m rd b')" and s: "same_rows rd b (snd (m rd b))" "same_rows rd b' (snd (m rd b'))"
    using m eq eq' unfolding steady_def by blast+
  then have ss: "same_rows rd (snd (m rd b)) (snd (m rd b'))" using eq same_rows_equiv by blast
  show "fst (andThen m f rd b) = fst (andThen m f rd b') \<and> same_rows rd b (snd (andThen m f rd b))"
  proof (cases "fst (m rd b)")
    case (Inl e)
    then show ?thesis using fst s by (simp add: andThen_unfold)
  next
    case (Inr x)
    have "fst (f x rd (snd (m rd b))) = fst (f x rd (snd (m rd b')))" "same_rows rd (snd (m rd b)) (snd (f x rd (snd (m rd b))))"
      using f [of x] ss unfolding steady_def by blast+
    moreover have "fst (m rd b') = Inr x" using fst Inr by simp
    ultimately show ?thesis using Inr same_rows_equiv(3) [OF s(1)] by (simp add: andThen_unfold)
  qed
qed

lemma steady_cases [steadies]:
  "(\<And>x. steady (f x)) \<Longrightarrow> (\<And>y. steady (g y)) \<Longrightarrow> steady (case r of Inl x \<Rightarrow> f x | Inr y \<Rightarrow> g y)"
  "(\<And>x y. steady (h x y)) \<Longrightarrow> steady (case p of (x, y) \<Rightarrow> h x y)"
  "steady k \<Longrightarrow> steady l \<Longrightarrow> steady (if c then k else l)"
  by (simp_all split: sum.split prod.split)

lemma steady_clock [steadies]: "steady (collectedAt env)" "steady (serverClock env)" "steady serverHost" "steady (serverAtLeast i j)"
proof -
  show c: "steady (collectedAt env)"
    unfolding collectedAt_def by (intro steadies) (auto intro!: steadies simp: Let_def split: list.split option.split)
  show "steady (serverClock env)" unfolding serverClock_def by (intro steadies c)
  show "steady serverHost" "steady (serverAtLeast i j)" unfolding serverHost_def serverAtLeast_def by (intro steadies; simp)+
qed

lemma steady_hours [steadies]: "steady (metricHours env mode window)"
  unfolding metricHours_def by (intro steadies) (simp_all add: metric_source_def)

lemma steady_pools [steadies]: "steady (poolSizes mode hours setting sizeCol)"
  unfolding poolSizes_def Let_def by (intro steadies) simp_all

lemma steady_data [steadies]: "steady data_disks"
  unfolding data_disks_def by (intro steadies) simp_all

lemma steady_exceptions [steadies]: "steady (exceptionsByHour env window keep)"
  unfolding exceptionsByHour_def by (intro steadies) simp_all

section \<open>The registry of checks as an interface\<close>

text \<open>Sorting a sorted slice again changes nothing, so the check that sorts the cached crash log may run any number of times.\<close>

lemma insert_sorted_first: "sorted_wrt (\<lambda>x y. \<not> lt y x) (x # ys) \<Longrightarrow> insert_sorted lt x ys = x # ys"
  by (cases ys) auto

lemma stable_sort_id: "sorted_wrt (\<lambda>x y. \<not> lt y x) xs \<Longrightarrow> stable_sort lt xs = xs"
  by (induction xs) (auto simp: stable_sort_def insert_sorted_first)

lemma newest_first_again: "newest_first k (newest_first k rows) = newest_first k rows"
  unfolding newest_first_def by (rule stable_sort_id [OF stable_sort_sorted [OF weak_order_key(2)]])

lemma Rows_cached: "fst (Rows rd c (b\<lparr>b_cache := (b_cache b)(d \<mapsto> rows)\<rparr>)) = (if c = d then Inr rows else fst (Rows rd c b))"
  by (auto simp: Rows_def split: option.splits sum.splits)

lemma same_rows_sorted:
  assumes "fst (Rows rd ''system.crash_log'' b) = Inr rows"
  shows "same_rows rd b (snd (keep_sorted ''system.crash_log'' (newest_first ''event_time'' rows) rd b))"
proof -
  let ?rs = "newest_first ''event_time'' rows"
  let ?b = "b\<lparr>b_cache := (b_cache b)(''system.crash_log'' \<mapsto> ?rs)\<rparr>"
  have "seen_rows rd b c = seen_rows rd ?b c" for c
  proof (cases "c = ''system.crash_log''")
    case True
    show ?thesis unfolding seen_rows_def Rows_cached True assms sum.case if_True simp_thms newest_first_again ..
  next
    case False
    then show ?thesis unfolding seen_rows_def Rows_cached by (simp only: if_False)
  qed
  then have "seen_rows rd b = seen_rows rd ?b" by (rule ext)
  then show ?thesis unfolding same_rows_def keep_sorted_def snd_conv by (intro conjI) simp_all
qed

lemma steady_presence: "steady (crash_presence err)"
  unfolding crash_presence_def Let_def by (intro steadies) simp_all

lemma steady_crash: "steady (checkCrashLog mode)"
  unfolding steady_def
proof (intro allI impI)
  fix rd b b'
  let ?c = "''system.crash_log''"
  let ?B = "\<lambda>b. snd (Rows rd ?c b)"
  assume eq: "same_rows rd b b'"
  have B: "same_rows rd (?B b) (?B b')"
    by (rule same_rows_equiv(3) [OF same_rows_equiv(2) [OF same_rows_read] same_rows_equiv(3) [OF eq same_rows_read]])
  have seen: "seen_rows rd b ?c = seen_rows rd b' ?c" using eq by (simp add: same_rows_def)
  have unfold: "checkCrashLog mode rd b =
      (case fst (Rows rd ?c b) of
         Inl (NotCollected c s w) \<Rightarrow>
           if mode = ''cloud'' then crash_presence (NotCollected c s w) rd (?B b) else stop_with (NotCollected c s w) rd (?B b)
       | Inl (ReadError e) \<Rightarrow> stop_with (ReadError e) rd (?B b)
       | Inr rows \<Rightarrow> let rows = newest_first ''event_time'' rows in
           (Inr (map (text_cols [''event_time'', ''signal'', ''thread_id'', ''query_id'', ''version'']) (take 20 rows)),
            snd (keep_sorted ?c rows rd (?B b))))" for b
    by (simp add: checkCrashLog_def andThen_unfold attempt_def read_collector_def split_beta Let_def give_def keep_sorted_def
        split: sum.split rows_error.split)
  show "fst (checkCrashLog mode rd b) = fst (checkCrashLog mode rd b') \<and> same_rows rd b (snd (checkCrashLog mode rd b))"
  proof (cases "fst (Rows rd ?c b)")
    case (Inl e)
    then have e': "fst (Rows rd ?c b') = Inl e" using seen by (auto simp: seen_rows_def split: sum.splits)
    have "fst (crash_presence e rd (?B b)) = fst (crash_presence e rd (?B b'))"
        "same_rows rd (?B b) (snd (crash_presence e rd (?B b)))"
      using steady_presence [of e] B unfolding steady_def by blast+
    then show ?thesis
      using Inl e' same_rows_equiv(3) [OF same_rows_read [of rd b ?c]] same_rows_read [of rd b ?c]
      by (cases e) (auto simp: unfold stop_with_def)
  next
    case (Inr rows)
    then obtain rows' where r: "fst (Rows rd ?c b') = Inr rows'" "newest_first ''event_time'' rows = newest_first ''event_time'' rows'"
      using seen by (auto simp: seen_rows_def split: sum.splits)
    have "same_rows rd (?B b) (snd (keep_sorted ?c (newest_first ''event_time'' rows) rd (?B b)))"
      by (rule same_rows_sorted) (simp add: Rows_stable Inr)
    then show ?thesis using Inr r same_rows_equiv(3) [OF same_rows_read [of rd b ?c]] by (simp add: unfold Let_def)
  qed
qed

lemma steady_registered: "list_all (\<lambda>(name, c). \<forall>mode. steady (c mode)) (registered env)"
  unfolding registered_def list.pred_inject prod.case
  by (intro conjI allI TrueI steady_crash)
    (simp_all add: checkDiskSpaceLow_def checkTooManyParts_def checkLargeParts_def checkDetachedParts_def
      checkReplicationQueueErrors_def checkMutationsTooLong_def checkReplicaReadonly_def checkMergesStalled_def checkBackgroundFailures_def
      checkHighExceptionRate_def checkKeeperExceptionSpike_def checkTooManySimultaneous_def checkKeeperHours_def fetch_pool_def
      schedule_pool_def checkPoolSaturated_def checkKeeperXid_def checkPartsPropagationLag_def Let_def steadies)

lemma registered_checks_in: "registered_checks env name = Some chk \<Longrightarrow> \<exists>c. (name, c) \<in> set (registered env) \<and> chk = (\<lambda>rd mode. c mode rd)"
proof -
  have "fold (\<lambda>(name, c). RegisterCheck name (\<lambda>rd mode. c mode rd)) cs m name = Some chk \<Longrightarrow>
      (\<exists>c. (name, c) \<in> set cs \<and> chk = (\<lambda>rd mode. c mode rd)) \<or> m name = Some chk" for cs m
  proof (induction cs arbitrary: m)
    case (Cons x cs)
    obtain n c where x: "x = (n, c)" by fastforce
    from Cons.IH [of "RegisterCheck n (\<lambda>rd mode. c mode rd) m"] Cons.prems
    show ?case by (auto simp: x RegisterCheck_def split: if_splits)
  qed simp
  then show "registered_checks env name = Some chk \<Longrightarrow> ?thesis" unfolding registered_checks_def by fastforce
qed

locale check_registry =
  fixes alike :: "run_dir \<Rightarrow> Bundle \<Rightarrow> Bundle \<Rightarrow> bool"
    and checks :: "string \<Rightarrow> Check option"
  assumes alike_refl: "alike rd b b"
    and alike_trans: "alike rd b b' \<Longrightarrow> alike rd b' b'' \<Longrightarrow> alike rd b b''"
    and check_answer: "checks name = Some chk \<Longrightarrow> alike rd b b' \<Longrightarrow> fst (chk rd mode b) = fst (chk rd mode b')"
    and check_keeps: "checks name = Some chk \<Longrightarrow> alike rd b (snd (chk rd mode b))"
begin

definition run_check :: "run_dir \<Rightarrow> string \<times> string \<Rightarrow> Bundle \<Rightarrow> Bundle" where
  "run_check rd nm b = (case checks (fst nm) of Some chk \<Rightarrow> snd (chk rd (snd nm) b) | None \<Rightarrow> b)"

lemma alike_run: "alike rd b (fold (run_check rd) nms b)"
proof (induction nms arbitrary: b)
  case (Cons nm nms)
  have "alike rd b (run_check rd nm b)" by (auto simp: run_check_def alike_refl check_keeps split: option.split)
  from alike_trans [OF this Cons.IH] show ?case by simp
qed (simp add: alike_refl)

lemma independent: "checks name = Some chk \<Longrightarrow> fst (chk rd mode (fold (run_check rd) nms b)) = fst (chk rd mode b)"
  using check_answer [OF _ alike_run] by metis

end

interpretation reg: check_registry same_rows "registered_checks env" for env
proof
  show "same_rows rd b b" for rd b by (simp add: same_rows_equiv)
  show "same_rows rd b b' \<Longrightarrow> same_rows rd b' b'' \<Longrightarrow> same_rows rd b b''" for rd b b' b'' by (rule same_rows_equiv)
  fix name chk rd b b' mode
  assume "registered_checks env name = Some chk"
  then obtain c where c: "(name, c) \<in> set (registered env)" "chk = (\<lambda>rd mode. c mode rd)" by (meson registered_checks_in)
  then have "steady (c mode)" using steady_registered [of env] by (auto simp: list_all_iff)
  then show "same_rows rd b b' \<Longrightarrow> fst (chk rd mode b) = fst (chk rd mode b')" "same_rows rd b (snd (chk rd mode b))"
    using c(2) same_rows_equiv(1) unfolding steady_def by blast+
qed

text \<open>C21: Whatever checks ran before it on the same bundle, and in whatever order and mode, a registered check gives the same rows or the
  same error: the rules of a run may be evaluated in any order, although one check sorts rows that the bundle keeps.\<close>

theorem checks_independent:
  "case registered_checks env name of
     None \<Rightarrow> True
   | Some chk \<Rightarrow>
       fst (chk rd mode (fold (\<lambda>(n, m) b. case registered_checks env n of Some c \<Rightarrow> snd (c rd m b) | None \<Rightarrow> b) earlier b)) =
       fst (chk rd mode b)"
proof -
  have run: "reg.run_check env rd = (\<lambda>(n, m) b. case registered_checks env n of Some c \<Rightarrow> snd (c rd m b) | None \<Rightarrow> b)"
    by (auto simp: reg.run_check_def fun_eq_iff split: option.split)
  show ?thesis
  proof (cases "registered_checks env name")
    case (Some chk)
    from reg.independent [OF Some, of rd mode earlier b] show ?thesis unfolding run Some by simp
  qed simp
qed

section \<open>No answer without the sources\<close>

definition answered :: "run_dir \<Rightarrow> Bundle \<Rightarrow> string \<Rightarrow> bool" where
  "answered rd b c \<longleftrightarrow> (case fst (Rows rd c b) of Inl _ \<Rightarrow> False | Inr _ \<Rightarrow> True)"

lemma answered_same: "same_rows rd b b' \<Longrightarrow> answered rd b c = answered rd b' c"
  unfolding same_rows_def seen_rows_def answered_def fun_eq_iff
  by (cases "fst (Rows rd c b)"; cases "fst (Rows rd c b')") (auto dest!: spec [of _ c])

definition needs :: "'a reader \<Rightarrow> string \<Rightarrow> bool" where
  "needs m c \<longleftrightarrow> (\<forall>rd b x. fst (m rd b) = Inr x \<longrightarrow> answered rd b c)"

lemma needs_read: "needs (read_collector c) c"
  by (simp add: needs_def read_collector_def answered_def)

lemma needs_first: "needs m c \<Longrightarrow> needs (andThen m f) c"
  by (auto simp: needs_def andThen_unfold split: sum.splits)

lemma needs_later:
  assumes "steady m" "\<And>x. needs (f x) c"
  shows "needs (andThen m f) c"
  unfolding needs_def
proof (intro allI impI)
  fix rd b x
  assume "fst (andThen m f rd b) = Inr x"
  then obtain y where "fst (f y rd (snd (m rd b))) = Inr x" by (auto simp: andThen_unfold split: sum.splits)
  then have "answered rd (snd (m rd b)) c" using assms(2) unfolding needs_def by blast
  moreover have "same_rows rd b (snd (m rd b))" using assms(1) same_rows_equiv(1) unfolding steady_def by blast
  ultimately show "answered rd b c" by (simp add: answered_same)
qed

lemma needs_prod: "(\<And>x y. needs (h x y) c) \<Longrightarrow> needs (case p of (x, y) \<Rightarrow> h x y) c"
  by (simp split: prod.split)

lemma needs_clock: "needs (collectedAt env) ''system.version''" "needs (serverClock env) ''system.version''"
  unfolding serverClock_def collectedAt_def by (intro needs_first needs_read)+

lemma needs_second:
  assumes "c \<noteq> ''system.crash_log''"
  shows "needs (andThen (read_collector c) (\<lambda>rows. andThen (serverClock env) (g rows))) ''system.version''"
    and "needs (andThen (read_collector c) (\<lambda>rows. andThen (collectedAt env) (h rows))) ''system.version''"
  by (rule needs_later [OF steady_read [OF assms] needs_first [OF needs_clock(2)]])
    (rule needs_later [OF steady_read [OF assms] needs_first [OF needs_clock(1)]])

lemma metric_not_crash: "metric_source mode \<noteq> ''system.crash_log''"
  by (simp add: metric_source_def)

lemma needs_hours: "needs (metricHours env mode w) (metric_source mode)" "needs (metricHours env mode w) ''system.version''"
  unfolding metricHours_def by (rule needs_first [OF needs_read]) (rule needs_second(1) [OF metric_not_crash])

lemma needs_exceptions:
  "needs (exceptionsByHour env w keep) ''system.query_log_exceptions_1_day''" "needs (exceptionsByHour env w keep) ''system.version''"
  unfolding exceptionsByHour_def by (rule needs_first [OF needs_read]) (rule needs_second(1), simp)

lemma needs_xid: "needs (checkKeeperXid env mode) (metric_source mode)" "needs (checkKeeperXid env mode) ''system.version''"
  unfolding checkKeeperXid_def
  by (rule needs_later [OF steady_read needs_first [OF needs_hours(1)]], simp)
    (rule needs_later [OF steady_read needs_first [OF needs_hours(2)]], simp)

lemma needs_xid_conns: "needs (checkKeeperXid env mode) ''system.zookeeper_connection''"
  unfolding checkKeeperXid_def by (rule needs_first [OF needs_read])

lemma needs_crash: "needs (checkCrashLog mode) ''system.crash_log''"
  unfolding needs_def answered_def
  by (auto simp: checkCrashLog_def crash_presence_def andThen_unfold attempt_def read_collector_def stop_with_def split_beta Let_def
      split: sum.splits rows_error.splits if_splits)

text \<open>The collectors without which a check has no answer.\<close>

definition required :: "string \<Rightarrow> string \<Rightarrow> string list" where
  "required name mode =
     (case map_of
        [(''disk_space_low'', [''system.disks'']), (''too_many_parts'', [''system.parts_by_partition'']), (''large_parts'', [''system.parts'']),
         (''detached_parts_exist'', [''system.detached_parts'']), (''crash_log_entries'', [''system.crash_log'']),
         (''replication_queue_errors'', [''system.replication_queue'']),
         (''mutation_running_too_long'', [''system.mutations'', ''system.version'']), (''replica_readonly'', [''system.replicas'']),
         (''merges_stalled'', [''system.part_log_3_days'', ''system.version'']),
         (''background_operation_failures'', [''system.part_log_3_days'', ''system.version'']),
         (''high_exception_rate'', [''system.query_log_exceptions_1_day'', ''system.version'']),
         (''keeper_exception_spike'', [''system.query_log_exceptions_1_day'', ''system.version'']),
         (''too_many_simultaneous_queries'', [''system.query_log_exceptions_1_day'', ''system.version'']),
         (''keeper_health'', [metric_source mode, ''system.version'']), (''keeper_connection_blips'', [metric_source mode, ''system.version'']),
         (''fetch_pool_saturated'', [metric_source mode, ''system.version'']),
         (''schedule_pool_saturated'', [metric_source mode, ''system.version'']),
         (''keeper_xid_renewal_due'', [''system.zookeeper_connection'', metric_source mode, ''system.version'']),
         (''parts_propagation_lag'', [''system.parts_max_block_by_replica'', ''system.version''])] name of
       Some srcs \<Rightarrow> srcs
     | None \<Rightarrow> [])"

lemmas needs_rules = needs_first needs_read needs_clock needs_second needs_hours needs_exceptions needs_crash needs_xid needs_xid_conns

lemma required_needed: "list_all (\<lambda>(name, c). \<forall>mode. list_all (needs (c mode)) (required name mode)) (registered env)"
  unfolding registered_def list.pred_inject prod.case
  by (intro conjI allI TrueI)
    (simp_all add: required_def checkDiskSpaceLow_def checkTooManyParts_def checkLargeParts_def checkDetachedParts_def
      checkReplicationQueueErrors_def checkMutationsTooLong_def checkReplicaReadonly_def checkMergesStalled_def checkBackgroundFailures_def
      checkHighExceptionRate_def checkKeeperExceptionSpike_def checkTooManySimultaneous_def checkKeeperHours_def fetch_pool_def
      schedule_pool_def checkPoolSaturated_def checkPartsPropagationLag_def needs_rules)

lemma check_answer_sources:
  assumes "registered_checks env name = Some chk" "fst (chk rd mode b) = Inr rows"
  shows "list_all (answered rd b) (required name mode)"
proof -
  obtain c where c: "(name, c) \<in> set (registered env)" "chk = (\<lambda>rd mode. c mode rd)" using registered_checks_in [OF assms(1)] by blast
  then have "list_all (needs (c mode)) (required name mode)" using required_needed [of env] by (auto simp: list_all_iff)
  then show ?thesis using assms(2) c(2) by (auto simp: needs_def list_all_iff)
qed

definition no_verdict :: "AlertResult \<Rightarrow> bool" where
  "no_verdict r \<longleftrightarrow> summary_state r = ''skipped'' \<or> summary_state r = ''error''"

lemma no_verdict_iff: "no_verdict r \<longleftrightarrow> ar_Skipped r \<or> ar_Error r \<noteq> []"
  by (simp add: no_verdict_def summary_state_def)

lemma gate_no_verdict: "rule_gates ev hb stopped def r = Some early \<Longrightarrow> no_verdict early"
  by (auto simp: rule_gates_def Let_def no_verdict_iff rule_error_def rule_skipped_def dest: modes_error split: if_splits)

lemma evalCheck_sources:
  assumes "al_checks env = registered_checks cenv"
  shows "no_verdict (fst (evalCheck ev env (Some b) def r sql fs)) \<or>
    (\<exists>name. df_Check def = ''go:'' @ name \<and> list_all (answered (al_rd env) b) (required name (ev_mode ev)))"
proof (cases "lookupCheck (al_checks env) (df_Check def)")
  case (Inl e)
  then have "e \<noteq> []" by (auto simp: lookupCheck_def split: option.splits)
  then show ?thesis by (simp add: evalCheck_def Inl no_verdict_iff rule_error_def)
next
  case (Inr c)
  then obtain name where name: "df_Check def = ''go:'' @ name" "registered_checks cenv name = Some c"
    using assms by (auto simp: lookupCheck_def has_prefix_iff split: option.splits if_splits)
  show ?thesis
  proof (cases "fst (c (al_rd env) (ev_mode ev) b)")
    case (Inl e)
    then show ?thesis
      by (cases e) (auto simp: evalCheck_def Inr no_verdict_iff rule_error_def rule_skipped_def rule_shown_def split_beta)
  next
    case (Inr rows)
    from check_answer_sources [OF name(2) this] name(1) show ?thesis by blast
  qed
qed

text \<open>C20: A rule that names a Go check and is evaluated over collected data is fired or clean only if every collector that the check
  needs was read: a source that was not collected, or not readable, always ends as skipped or as an error, for each of
  the registered checks.\<close>

theorem rule_answer_needs_sources:
  "case evalFile ev (env\<lparr>al_checks := registered_checks cenv\<rparr>) (Some b) path of (r, sent, b') \<Rightarrow>
     no_verdict r \<or>
     (\<exists>raw def. al_read env path = Inr raw \<and> al_yaml env raw = Inr def \<and>
        (df_Check def = [] \<or>
         (\<exists>name. df_Check def = ''go:'' @ name \<and> list_all (answered (al_rd env) b) (required name (ev_mode ev)))))"
proof -
  let ?env = "env\<lparr>al_checks := registered_checks cenv\<rparr>"
  have unread: "no_verdict (unread_rule now path (c # e))" for now c e
    by (simp add: unread_rule_def no_verdict_iff Let_def)
  show ?thesis
  proof (cases "al_read env path")
    case (Inl e)
    then show ?thesis by (simp add: evalFile_def unread)
  next
    case raw: (Inr raw)
    show ?thesis
    proof (cases "al_yaml env raw")
      case (Inl e)
      then show ?thesis by (simp add: evalFile_def raw unread)
    next
      case yaml: (Inr "def")
      let ?r = "rule_result (al_now env) path def"
      have error: "no_verdict (rule_error r e)" if "e \<noteq> []" for r e using that by (simp add: no_verdict_iff rule_error_def)
      have check: "no_verdict (fst (evalCheck ev ?env (Some b) def ?r sql fs)) \<or>
          (\<exists>name. df_Check def = ''go:'' @ name \<and> list_all (answered (al_rd env) b) (required name (ev_mode ev)))" for sql fs
        using evalCheck_sources [of ?env cenv ev b "def" ?r sql fs] by simp
      show ?thesis
      proof (cases "rule_gates ev True (al_stop env) def ?r")
        case (Some early)
        then show ?thesis by (simp add: evalFile_def raw yaml gate_no_verdict)
      next
        case None
        show ?thesis
          using check [of "expandQuery ev (df_Query def)"]
          by (auto simp: evalFile_def raw yaml None error split_beta Let_def dest!: follow_ups_error split: option.split sum.split)
      qed
    qed
  qed
qed

section \<open>Single checks\<close>

lemma set_map_range: "some_order env \<Longrightarrow> set (map_range env m) = set m"
  by (rule mset_eq_setD [OF mset_map_range])

definition hour_failed :: "Row list \<Rightarrow> time \<Rightarrow> location \<Rightarrow> string \<times> string \<Rightarrow> merge_agg" where
  "hour_failed rows now loc k =
     fold merge_step (filter (\<lambda>hr. merge_key hr = k) (window_rows now loc (24 * Hour) rows)) no_merges"

lemma by_hour_host_key: "by_hour_host = (\<lambda>x y. (text_at ''hour'' x, text_at ''hostname'' x) < (text_at ''hour'' y, text_at ''hostname'' y))"
proof (intro ext)
  fix x y
  show "by_hour_host x y = ((text_at ''hour'' x, text_at ''hostname'' x) < (text_at ''hour'' y, text_at ''hostname'' y))"
    unfolding by_hour_host_def less_prod_simp
    by (cases "text_at ''hour'' x = text_at ''hour'' y") (simp_all only: if_True if_False simp_thms order_refl less_irrefl le_less, blast)
qed

lemma merge_row_at [simp]: "text_at ''hour'' (merge_row ((h, t), a)) = t" "text_at ''hostname'' (merge_row ((h, t), a)) = h"
  by (simp_all add: text_at_def merge_row_def vget_def)

text \<open>The stalled merges are exactly the (host, hour) pairs of the window whose totals show more than 100 new parts and no successful
  merge, in order of hour and host; the order in which the map is visited cannot be seen.\<close>

theorem stalled_merges_exact:
  assumes "some_order env" "some_order env'"
  shows "stalled_rows env now loc rows = stalled_rows env' now loc rows \<and>
    set (stalled_rows env now loc rows) =
      {merge_row (k, hour_failed rows now loc k) | k.
         k \<in> merge_key ` set (window_rows now loc (24 * Hour) rows) \<and>
         ma_new (hour_failed rows now loc k) > 100 \<and> ma_merges (hour_failed rows now loc k) = 0}"
proof -
  let ?m = "group_rows merge_key merge_step no_merges (window_rows now loc (24 * Hour) rows)"
  let ?p = "\<lambda>(k, a). ma_new a > 100 \<and> ma_merges a = 0"
  let ?rows = "\<lambda>env. map merge_row (filter ?p (map_range env ?m))"
  have in_m: "(k, a) \<in> set (map_range e ?m) \<longleftrightarrow> k \<in> merge_key ` set (window_rows now loc (24 * Hour) rows) \<and> a = hour_failed rows now loc k"
    if "some_order e" for e k a
    unfolding set_map_range [OF that] hour_failed_def group_entries ..
  have alike: "x = y" if "x \<in> set (?rows env)" "y \<in> set (?rows env)" "\<not> by_hour_host x y" "\<not> by_hour_host y x" for x y
    using that in_m [OF assms(1)] unfolding by_hour_host_key by auto
  have "stalled_rows env now loc rows = stalled_rows env' now loc rows"
    unfolding stalled_rows_def Let_def
  proof (rule stable_sort_cong)
    show "weak_order by_hour_host" unfolding by_hour_host_key by (rule weak_order_key)
    show "mset (?rows env) = mset (?rows env')"
      unfolding mset_map mset_filter mset_map_range [OF assms(1)] mset_map_range [OF assms(2)] ..
  qed (fact alike)
  moreover have "set (stalled_rows env now loc rows) =
      {merge_row (k, hour_failed rows now loc k) | k.
         k \<in> merge_key ` set (window_rows now loc (24 * Hour) rows) \<and>
         ma_new (hour_failed rows now loc k) > 100 \<and> ma_merges (hour_failed rows now loc k) = 0}"
    using in_m [OF assms(1)] by (force simp: stalled_rows_def Let_def)
  ultimately show ?thesis by blast
qed

lemma stalled_merges_exact_witness:
  "stalled_rows \<lparr>ce_zone = Map.empty, ce_time_error = \<lambda>s. s, ce_order = \<lambda>n. rev [0..<n]\<rparr> 0 UTC [[(''time'', JStr ''1970-01-01 00:00:00'')]] =
   stalled_rows \<lparr>ce_zone = Map.empty, ce_time_error = \<lambda>s. s, ce_order = \<lambda>n. [0..<n]\<rparr> 0 UTC [[(''time'', JStr ''1970-01-01 00:00:00'')]]"
  by (rule stalled_merges_exact [THEN conjunct1]) (simp_all add: some_order_def)

text \<open>The example message of the refused queries is the first in the order of the map; so is the choice among equal counts when a
  check keeps the 24 largest.\<close>

lemma example_depends_on_order:
  "refused_rows \<lparr>ce_zone = Map.empty, ce_time_error = id, ce_order = \<lambda>n. [0..<n]\<rparr> [((''10'', ''202''), 6, ''a''), ((''11'', ''202''), 7, ''b'')] =
    [[(''error_count'', VInt 13), (''example_message'', VStr ''a'')]]"
  "refused_rows \<lparr>ce_zone = Map.empty, ce_time_error = id, ce_order = \<lambda>n. rev [0..<n]\<rparr> [((''10'', ''202''), 6, ''a''), ((''11'', ''202''), 7, ''b'')] =
    [[(''error_count'', VInt 13), (''example_message'', VStr ''b'')]]"
  by code_simp+

definition user_row :: "Row \<Rightarrow> bool" where
  "user_row r \<longleftrightarrow> Row_Str r ''database'' \<notin> set systemDBs"

lemma counted_cloud:
  "filter (\<lambda>p. p \<noteq> []) (map (\<lambda>r. Row_Str r ''path'') (counted_parts ''cloud'' seen rows)) =
    dedup_seen seen (filter (\<lambda>p. p \<noteq> []) (map (\<lambda>r. Row_Str r ''path'') (filter user_row rows)))"
  by (induction "''cloud''" seen rows rule: counted_parts.induct) (auto simp: user_row_def Let_def)

lemma counted_elsewhere: "mode \<noteq> ''cloud'' \<Longrightarrow> counted_parts mode seen rows = filter user_row rows"
  by (induction mode seen rows rule: counted_parts.induct) (auto simp: user_row_def Let_def)

lemma detached_fold:
  "da_n (fold detached_step rs a) = da_n a + int (length rs)"
  "da_reasons (fold detached_step rs a) = da_reasons a @ map (\<lambda>r. Row_Str r ''reason'') rs"
  by (induction rs arbitrary: a) (simp_all add: detached_step_def Let_def)

text \<open>The detached parts reported for a table are exactly the rows of the user tables, counted with their reasons in order; in cloud mode,
  where every replica lists the parts of shared storage, each path is counted once, and a part without a path always.\<close>

theorem detached_parts_once:
  "list_all (\<lambda>(k, a). da_n a = int (length (filter (\<lambda>r. table_key r = k) (counted_parts mode [] rows))) \<and>
       da_reasons a = map (\<lambda>r. Row_Str r ''reason'') (filter (\<lambda>r. table_key r = k) (counted_parts mode [] rows)))
     (group_rows table_key detached_step no_detached (counted_parts mode [] rows)) \<and>
   filter (\<lambda>p. p \<noteq> []) (map (\<lambda>r. Row_Str r ''path'') (counted_parts ''cloud'' [] rows)) =
     dedup (filter (\<lambda>p. p \<noteq> []) (map (\<lambda>r. Row_Str r ''path'') (filter user_row rows))) \<and>
   counted_parts mode [] rows = (if mode = ''cloud'' then counted_parts ''cloud'' [] rows else filter user_row rows)"
proof -
  have "list_all (\<lambda>(k, a). da_n a = int (length (filter (\<lambda>r. table_key r = k) rs)) \<and>
       da_reasons a = map (\<lambda>r. Row_Str r ''reason'') (filter (\<lambda>r. table_key r = k) rs))
     (group_rows table_key detached_step no_detached rs)" for rs
    by (auto simp: list_all_iff group_entries detached_fold no_detached_def)
  then show ?thesis by (simp add: counted_cloud counted_elsewhere)
qed

section \<open>Lagging replicas\<close>

definition lag_ok :: "lag_event list \<Rightarrow> lag_agg \<Rightarrow> bool" where
  "lag_ok es a \<longleftrightarrow> distinct (la_seen a) \<and> set (la_seen a) = le_part ` set es \<and> la_partitions a = int (length (la_seen a)) \<and>
     0 \<le> la_notFetched a \<and> la_notFetched a \<le> la_partitions a \<and> 0 \<le> la_maxSkew a"

lemma lag_ok_step: "lag_ok es a \<Longrightarrow> lag_ok (e # es) (lag_step e a)"
  by (auto simp: lag_ok_def lag_step_def Let_def)

lemma lag_ok_fold: "lag_ok es a \<Longrightarrow> lag_ok (rev xs @ es) (fold lag_step xs a)"
  by (induction xs arbitrary: es a) (auto dest: lag_ok_step)

text \<open>A replica is reported as lagging with the number of different partitions named in its events, of which at most all were not fetched: a
  partition that both lags and is missing, or is listed by several rows, is counted once.\<close>

theorem lag_counts_partitions:
  "list_all (\<lambda>(h, a). la_partitions a = int (card (le_part ` {e \<in> set (lag_events now loc [] rows). le_host e = h})) \<and>
       0 \<le> la_notFetched a \<and> la_notFetched a \<le> la_partitions a)
     (group_rows le_host lag_step no_lag (lag_events now loc [] rows))"
proof -
  have "la_partitions a = int (card (le_part ` {e \<in> set es. le_host e = h})) \<and> 0 \<le> la_notFetched a \<and> la_notFetched a \<le> la_partitions a"
    if "(h, a) \<in> set (group_rows le_host lag_step no_lag es)" for es h a
  proof -
    have "lag_ok [] no_lag" by (simp add: lag_ok_def no_lag_def)
    from lag_ok_fold [OF this, of "filter (\<lambda>e. le_host e = h) es"] have ok: "lag_ok (rev (filter (\<lambda>e. le_host e = h) es)) a"
      using that by (simp add: group_entries)
    then have "set (la_seen a) = le_part ` {e \<in> set es. le_host e = h}" by (auto simp: lag_ok_def)
    with ok show ?thesis using distinct_card [of "la_seen a"] by (simp add: lag_ok_def)
  qed
  then show ?thesis by (auto simp: list_all_iff)
qed

section \<open>The columns of the alerts\<close>

text \<open>The code reads some columns back with type assertions, which panic on a value of another type, and fills the placeholders of the
  messages by name. \<open>schema\<close> gives the columns that each check always sets and those it may set.\<close>

datatype col_type = TText | TInt | TFloat | TTexts

fun has_type :: "col_type \<Rightarrow> val \<Rightarrow> bool" where
  "has_type TText (VStr s) = True"
| "has_type TInt (VInt i) = True"
| "has_type TFloat (VFloat f) = True"
| "has_type TTexts (VList vs) = list_all (has_type TText) vs"
| "has_type t v = False"

type_synonym schema = "(string \<times> col_type) list \<times> (string \<times> col_type) list"

definition row_typed :: "schema \<Rightarrow> vrow \<Rightarrow> bool" where
  "row_typed s r \<longleftrightarrow> distinct (map fst r) \<and>
     list_all (\<lambda>(c, v). case map_of (fst s @ snd s) c of Some t \<Rightarrow> has_type t v | None \<Rightarrow> False) r \<and>
     list_all (\<lambda>(c, t). c \<in> set (map fst r)) (fst s)"

definition texts :: "string list \<Rightarrow> (string \<times> col_type) list" where
  "texts = map (\<lambda>c. (c, TText))"

definition ints :: "string list \<Rightarrow> (string \<times> col_type) list" where
  "ints = map (\<lambda>c. (c, TInt))"

definition floats :: "string list \<Rightarrow> (string \<times> col_type) list" where
  "floats = map (\<lambda>c. (c, TFloat))"

definition keeper_schema :: "bool \<Rightarrow> schema" where
  "keeper_schema degraded = (texts [''hostname'', ''hour''] @ ints [''hw_exceptions'', ''transactions''] @ floats [''pct_of_usual''] @
     (if degraded then floats [''usual_transactions''] else []), [])"

definition pool_schema :: schema where
  "pool_schema = (texts [''hostname''] @ ints [''hours_saturated'', ''pool_size''] @ floats [''avg_tasks_in_pool'', ''pct_of_size''], [])"

definition schema :: "string \<Rightarrow> schema" where
  "schema name =
     (case map_of
        [(''disk_space_low'', (texts [''hostname'', ''disk_name'', ''free_space'', ''total_space''] @ floats [''free_pct''], [])),
         (''too_many_parts'', (texts [''database'', ''table'', ''partition_id''] @ ints [''parts_count''], [])),
         (''large_parts'', (texts [''database'', ''table'', ''part_name'', ''disk_name'', ''size_on_disk'', ''uncompressed_size'', ''modification_time''] @
            ints [''bytes_on_disk'', ''rows''] @ floats [''compression_ratio''], [])),
         (''detached_parts_exist'', (texts [''database'', ''table''] @ ints [''detached_count''] @ [(''reasons'', TTexts)], texts [''total_size''])),
         (''crash_log_entries'', (texts [''event_time'', ''signal'', ''thread_id'', ''query_id'', ''version''], [])),
         (''replication_queue_errors'', (texts [''database'', ''table'', ''replica_name'', ''type'', ''create_time'', ''last_exception''] @
            ints [''num_tries''], [])),
         (''mutation_running_too_long'', (texts [''database'', ''table'', ''mutation_id'', ''command'', ''create_time_str''] @
            ints [''hours_running'', ''parts_to_do''], [])),
         (''replica_readonly'', (texts [''database'', ''table'', ''active_replicas'', ''total_replicas''] @
            ints [''is_session_expired'', ''absolute_delay''], texts [''hostname''])),
         (''merges_stalled'', (texts [''hostname'', ''hour''] @ ints [''new_parts'', ''merges'', ''failed_merges''], [])),
         (''background_operation_failures'', (texts [''hour'', ''event_type'', ''example_message''] @ ints [''error'', ''failures''], [])),
         (''high_exception_rate'', (texts [''hour'', ''example_message''] @ ints [''exception_code'', ''error_count''], [])),
         (''keeper_exception_spike'', (texts [''hour'', ''example_message''] @ ints [''error_count''], [])),
         (''too_many_simultaneous_queries'', (texts [''example_message''] @ ints [''error_count''], [])),
         (''keeper_health'', keeper_schema True), (''keeper_connection_blips'', keeper_schema False),
         (''fetch_pool_saturated'', pool_schema), (''schedule_pool_saturated'', pool_schema),
         (''keeper_xid_renewal_due'', (texts [''hostname'', ''connection_name'', ''keeper_host''] @ ints [''xid''] @
            floats [''tx_per_s'', ''measured_over_h'', ''headroom_h'', ''period_at_this_rate_h''], [])),
         (''parts_propagation_lag'', (texts [''hostname'', ''worst_partition''] @
            ints [''partitions_affected'', ''partitions_not_fetched'', ''max_blocks_behind'', ''max_newest_part_skew_s''], []))] name of
       Some s \<Rightarrow> s | None \<Rightarrow> ([], []))"

definition yields :: "'a reader \<Rightarrow> ('a \<Rightarrow> bool) \<Rightarrow> bool" where
  "yields m P \<longleftrightarrow> (\<forall>rd b x. fst (m rd b) = Inr x \<longrightarrow> P x)"

lemma yields_last: "(\<And>x. yields (f x) P) \<Longrightarrow> yields (andThen m f) P"
  by (fastforce simp: yields_def andThen_unfold split: sum.splits)

lemma yields_give: "P x \<Longrightarrow> yields (give x) P"
  by (simp add: yields_def give_def)

lemma yields_stop: "yields (stop_with e) P"
  by (simp add: yields_def stop_with_def)

lemma yields_prod: "(\<And>x y. yields (h x y) P) \<Longrightarrow> yields (case p of (x, y) \<Rightarrow> h x y) P"
  by (simp split: prod.split)

lemma list_all_take: "list_all P xs \<Longrightarrow> list_all P (take n xs)"
  using set_take_subset by (fastforce simp: list_all_iff)

lemma list_all_sorted: "list_all P xs \<Longrightarrow> list_all P (stable_sort lt xs)"
  by (simp add: list_all_iff)

lemma list_all_rows: "(\<And>x. P (f x)) \<Longrightarrow> list_all P (map f xs)"
  by (simp add: list_all_iff)

lemmas yields_rules = yields_last yields_give yields_stop yields_prod list_all_take list_all_sorted list_all_rows

lemmas column_defs = row_typed_def texts_def ints_def floats_def text_cols_def

lemma typed_rows:
  "row_typed (schema ''disk_space_low'') (disk_row h r)"
  "row_typed (schema ''too_many_parts'') (parts_row r)"
  "row_typed (schema ''large_parts'') (large_part_row r)"
  "row_typed (schema ''detached_parts_exist'') (detached_row d)"
  "row_typed (schema ''crash_log_entries'') (text_cols [''event_time'', ''signal'', ''thread_id'', ''query_id'', ''version''] r)"
  "row_typed (schema ''replication_queue_errors'') (queue_row r)"
  "row_typed (schema ''mutation_running_too_long'') (mutation_row i r)"
  "row_typed (schema ''replica_readonly'') (replica_row m r)"
  "row_typed (schema ''merges_stalled'') (merge_row ma)"
  "row_typed (schema ''background_operation_failures'') (failure_row fa)"
  "row_typed (schema ''high_exception_rate'') (rate_row ea)"
  "row_typed (schema ''keeper_exception_spike'') (spike_row ea)"
  "row_typed (keeper_schema deg) (keeper_row deg u hh)"
  "row_typed pool_schema (pool_row sz pa)"
  "row_typed (schema ''keeper_xid_renewal_due'') (xid_row h c kr)"
  "row_typed (schema ''parts_propagation_lag'') (lag_row la)"
  by (simp_all add: schema_def column_defs keeper_schema_def pool_schema_def disk_row_def parts_row_def large_part_row_def
      detached_row_def queue_row_def mutation_row_def replica_row_def merge_row_def failure_row_def rate_row_def spike_row_def
      keeper_row_def pool_row_def xid_row_def lag_row_def Let_def list_all_rows split_beta)

lemma schema_pools [simp]:
  "schema ''keeper_health'' = keeper_schema True" "schema ''keeper_connection_blips'' = keeper_schema False"
  "schema ''fetch_pool_saturated'' = pool_schema" "schema ''schedule_pool_saturated'' = pool_schema"
  by (simp_all add: schema_def)

lemma typed_refused: "list_all (row_typed (schema ''too_many_simultaneous_queries'')) (refused_rows env m)"
  by (simp add: refused_rows_def schema_def column_defs split: prod.split)

lemma typed_sorted: "(\<And>x. row_typed s (f x)) \<Longrightarrow> list_all (row_typed s) (stable_sort lt (map f xs))"
  by (simp add: list_all_iff)

lemma typed_xid: "list_all (row_typed (schema ''keeper_xid_renewal_due'')) (xid_rows env cs rs)"
  unfolding xid_rows_def
  by (intro list_all_take list_all_sorted) (auto simp: list_all_iff set_map_filter_ex typed_rows split: option.splits if_splits)

lemma typed_crash: "yields (checkCrashLog mode) (list_all (row_typed (schema ''crash_log_entries'')))"
  unfolding checkCrashLog_def crash_presence_def Let_def
  by (rule yields_last)
    (auto intro!: yields_rules typed_rows(5) split: sum.split rows_error.split)

lemma typed_registered: "list_all (\<lambda>(name, c). \<forall>mode. yields (c mode) (list_all (row_typed (schema name)))) (registered env)"
  unfolding registered_def list.pred_inject prod.case
  by (intro conjI allI TrueI typed_crash)
    (auto simp: checkDiskSpaceLow_def checkTooManyParts_def checkLargeParts_def checkDetachedParts_def
      checkReplicationQueueErrors_def checkMutationsTooLong_def checkReplicaReadonly_def checkMergesStalled_def checkBackgroundFailures_def
      checkHighExceptionRate_def checkKeeperExceptionSpike_def checkTooManySimultaneous_def checkKeeperHours_def fetch_pool_def
      schedule_pool_def checkPoolSaturated_def checkKeeperXid_def checkPartsPropagationLag_def by_count_def detached_rows_def
      stalled_rows_def failure_rows_def keeper_rows_def saturated_rows_def lag_rows_def Let_def
      simp: typed_rows intro!: yields_rules typed_rows typed_refused typed_xid)


end
