(* ===== verification/GoSha256.thy ===== *)
theory GoSha256
  imports GoStrings "HOL-Library.Word"
begin

text \<open>
  \<open>crypto/sha256\<close> and \<open>encoding/hex\<close> as the source uses them: the digest of a byte string (FIPS 180-4) over 32-bit words,
  whose addition wraps, and its upper-case hexadecimal text.
\<close>

type_synonym w32 = "32 word"

unbundle bit_operations_syntax

text \<open>The constants: the first 32 bits of the fractional parts of the cube roots of the first 64 primes, and of the square roots of
  the first 8.\<close>

definition sha_primes :: "nat list" where
  "sha_primes = filter (\<lambda>p. list_all (\<lambda>d. p mod d \<noteq> 0) [2..<p]) [2..<312]"

definition int_root :: "nat \<Rightarrow> int \<Rightarrow> int" where
  "int_root k n = fold (\<lambda>b r. if (r + 2 ^ b) ^ k \<le> n then r + 2 ^ b else r) (rev [0..<40]) 0"

definition sha_k :: "w32 list" where
  "sha_k = map (\<lambda>p. word_of_int (int_root 3 (int p * 2 ^ 96) mod 2 ^ 32)) sha_primes"

definition sha_init :: "w32 list" where
  "sha_init = map (\<lambda>p. word_of_int (int_root 2 (int p * 2 ^ 64) mod 2 ^ 32)) (take 8 sha_primes)"

definition small0 :: "w32 \<Rightarrow> w32" where "small0 x = word_rotr 7 x XOR word_rotr 18 x XOR drop_bit 3 x"
definition small1 :: "w32 \<Rightarrow> w32" where "small1 x = word_rotr 17 x XOR word_rotr 19 x XOR drop_bit 10 x"
definition big0 :: "w32 \<Rightarrow> w32" where "big0 x = word_rotr 2 x XOR word_rotr 13 x XOR word_rotr 22 x"
definition big1 :: "w32 \<Rightarrow> w32" where "big1 x = word_rotr 6 x XOR word_rotr 11 x XOR word_rotr 25 x"
definition ch_bits :: "w32 \<Rightarrow> w32 \<Rightarrow> w32 \<Rightarrow> w32" where "ch_bits x y z = (x AND y) XOR (NOT x AND z)"
definition majority :: "w32 \<Rightarrow> w32 \<Rightarrow> w32 \<Rightarrow> w32" where "majority x y z = (x AND y) XOR (x AND z) XOR (y AND z)"

text \<open>The message schedule, newest word first.\<close>

primrec schedule :: "nat \<Rightarrow> w32 list \<Rightarrow> w32 list" where
  "schedule 0 ws = ws"
| "schedule (Suc n) ws = schedule n ((small1 (ws ! 1) + ws ! 6 + small0 (ws ! 14) + ws ! 15) # ws)"

fun sha_round :: "w32 \<times> w32 \<Rightarrow> w32 list \<Rightarrow> w32 list" where
  "sha_round (k, w) [a, b, c, d, e, f, g, h] =
     (let t1 = h + big1 e + ch_bits e f g + k + w; t2 = big0 a + majority a b c
      in [t1 + t2, a, b, c, d + t1, e, f, g])"
| "sha_round kw st = st"

definition sha_block :: "w32 list \<Rightarrow> w32 list \<Rightarrow> w32 list" where
  "sha_block block st = map2 (+) st (fold sha_round (zip sha_k (rev (schedule 48 (rev block)))) st)"

definition be_word :: "int list \<Rightarrow> w32" where
  "be_word bs = word_of_int (foldl (\<lambda>n b. n * 256 + b) 0 bs)"

fun be_words :: "int list \<Rightarrow> w32 list" where
  "be_words (a # b # c # d # bs) = be_word [a, b, c, d] # be_words bs"
| "be_words bs = []"

definition be_bytes :: "nat \<Rightarrow> int \<Rightarrow> int list" where
  "be_bytes k n = rev (map (\<lambda>i. n div 256 ^ i mod 256) [0..<k])"

definition sha_pad :: "int list \<Rightarrow> int list" where
  "sha_pad bs = bs @ [128] @ replicate ((119 - length bs mod 64) mod 64) 0 @ be_bytes 8 (8 * int (length bs) mod 2 ^ 64)"

fun sha_blocks :: "nat \<Rightarrow> w32 list \<Rightarrow> w32 list \<Rightarrow> w32 list" where
  "sha_blocks 0 ws st = st"
| "sha_blocks (Suc n) ws st = sha_blocks n (drop 16 ws) (sha_block (take 16 ws) st)"

definition sha256 :: "string \<Rightarrow> int list" where
  "sha256 s = (let ws = be_words (sha_pad (map of_char s)) in
     concat (map (\<lambda>w. be_bytes 4 (uint w)) (sha_blocks (length ws div 16) ws sha_init)))"

text \<open>\<open>strings.ToUpper(hex.EncodeToString(...))\<close>\<close>

definition hex_upper :: "int list \<Rightarrow> string" where
  "hex_upper bs = to_upper (concat (map (\<lambda>b. [hex_digits (nat (b div 16)), hex_digits (nat (b mod 16))]) bs))"

end
