(* ===== verification/KeeperProbe.thy ===== *)
theory KeeperProbe
  imports LogFiles GoSha256
begin

text \<open>
  Asking the Keeper members for their four-letter reports (\<open>internal/keeper/fourletter.go\<close>): which members, the
  conversation with one of them, what a gov bundle may hold of a reply, and the file and outcome of each member. The network
  is a parameter (\<open>conversation\<close>); the members are asked in parallel but do not share anything, so the outcomes are a list in
  the order of the targets.
\<close>

section \<open>Commands and flags\<close>

definition KeeperDir :: string where "KeeperDir = ''keeper''"

definition Commands :: "string list" where
  "Commands = [''ruok'', ''isro'', ''lgif'', ''srvr'', ''mntr'', ''conf'', ''dirs'']"

definition coreCommands :: "string list" where
  "coreCommands = [''ruok'', ''srvr'', ''mntr'']"

definition notServingMsg :: string where
  "notServingMsg = ''This instance is not currently serving requests''"

text \<open>\<open>^This (ZooKeeper )?instance is not currently serving requests$\<close>\<close>

definition re_not_serving :: re where
  "re_not_serving = seqs [Bot, lit ''This '', opt_of (Grp 1 (lit ''ZooKeeper '')), lit ''instance is not currently serving requests'', Eot]"

definition IsNotServing :: "string \<Rightarrow> bool" where
  "IsNotServing reply = match_string re_not_serving (trim_space reply)"

record Target =
  t_Host :: string
  t_Port :: string
  t_Ensemble :: string

record KeeperOptions =
  k_GovSalt :: string
  k_DialTimeout :: duration
  k_ReadTimeout :: duration

record Outcome =
  oc_Target :: Target
  oc_Label :: string
  oc_File :: string
  oc_Status :: string
  oc_Bytes :: int
  oc_Err :: string

text \<open>\<open>Resolve\<close>: skip, warning, error.\<close>

definition ResolveKeeper :: "string \<Rightarrow> string \<Rightarrow> bool \<times> string \<times> string option" where
  "ResolveKeeper setting mode =
     (let mode = to_lower (trim_space mode); s = to_lower (trim_space setting) in
      if s = ''off'' then (True, [], None)
      else if s = ''on'' then
        (False, if mode = ''cloud'' then ''Warning: -keeper-mntr=on in cloud mode '' @ em_dash @ '' a managed service'' @ QUOTE #
           ''s Keeper is not reachable from outside; this only yields files when the tool runs beside a self-managed cluster.'' else [], None)
      else if s = ''auto'' \<or> s = [] then (mode = ''cloud'', [], None)
      else (True, [], Some (''-keeper-mntr must be auto, on or off (got '' @ go_quote setting @ '')'')))"

section \<open>Targets\<close>

definition TargetsQuery :: string where
  "TargetsQuery = ''SELECT DISTINCT name, host, toString(port) FROM system.zookeeper_connection WHERE host != '' @ [QUOTE, QUOTE] @
     '' ORDER BY name, host, port FORMAT TSV''"

definition DefaultPort :: string where "DefaultPort = ''2181''"

text \<open>\<open>(?is)<tag\b[^>]*>(.*?)</tag>\<close> and \<open>(?is)<tag>\s*([^<]*?)\s*</tag>\<close>\<close>

definition re_element :: "string \<Rightarrow> re" where
  "re_element tag = seqs [ilit (CHR ''<'' # tag), WordB, any_star (Cls (\<lambda>c. c \<noteq> CHR ''>'')), lit ''>'',
     Grp 1 (lazy_star (Cls (\<lambda>_. True))), ilit (''</'' @ tag @ ''>'')]"

definition re_value :: "string \<Rightarrow> re" where
  "re_value tag = seqs [ilit (CHR ''<'' # tag @ ''>''), any_star (Cls re_space), Grp 1 (lazy_star (Cls (\<lambda>c. c \<noteq> CHR ''<''))),
     any_star (Cls re_space), ilit (''</'' @ tag @ ''>'')]"

definition sub_groups :: "re \<Rightarrow> string \<Rightarrow> string list" where
  "sub_groups r s = map (\<lambda>(_, _, cs). group s cs 1) (find_all_sub r s)"

definition first_group :: "re \<Rightarrow> string \<Rightarrow> string option" where
  "first_group r s = map_option (\<lambda>(_, _, cs). group s cs 1) (re_find r s)"

definition node_target :: "string \<Rightarrow> Target option" where
  "node_target node =
     (case first_group (re_value ''host'') node of
        None \<Rightarrow> None
      | Some h \<Rightarrow>
          if h = [] \<or> contains h ''{'' then None
          else Some \<lparr>t_Host = h,
            t_Port = (case first_group (re_value ''port'') node of
                Some p \<Rightarrow> if p \<noteq> [] \<and> \<not> contains p ''{'' then p else DefaultPort
              | None \<Rightarrow> DefaultPort),
            t_Ensemble = ''default''\<rparr>)"

definition targets_of :: "string \<Rightarrow> Target list" where
  "targets_of blob =
     (let cfg = replace_all (re_element ''auxiliary_zookeepers'') [] (StripComments blob) in
      concat (map (\<lambda>block. List.map_filter node_target (sub_groups (re_element ''node'') block)) (sub_groups (re_element ''zookeeper'') cfg)))"

definition targets_in :: "log_env \<Rightarrow> string \<Rightarrow> Target list" where
  "targets_in env dir =
     (case le_readdir env dir of
        Inl _ \<Rightarrow> []
      | Inr entries \<Rightarrow> concat (map (\<lambda>e.
          if d_isdir e \<or> \<not> config_name (d_name e) then []
          else (case le_readfile env (path_join [dir, d_name e]) of Inl _ \<Rightarrow> [] | Inr blob \<Rightarrow> targets_of blob)) entries))"

definition TargetsFromConfig :: "log_env \<Rightarrow> string \<Rightarrow> Target list" where
  "TargetsFromConfig env configDir =
     (if configDir = [] then [] else dedup (concat (map (targets_in env) (config_roots configDir))))"

definition MergeTargets :: "Target list \<Rightarrow> Target list \<Rightarrow> Target list" where
  "MergeTargets joined declared = dedup (joined @ declared)"

definition parse_target :: "string \<Rightarrow> Target option" where
  "parse_target line =
     (let cols = split_byte TAB (trim_space line);
          cols = (if length cols = 2 then ''default'' # cols else cols)
      in case cols of
        [name, host, port] \<Rightarrow>
          if host = [] \<or> port = [] then None
          else Some \<lparr>t_Host = host, t_Port = port, t_Ensemble = (if name = [] then ''default'' else name)\<rparr>
      | _ \<Rightarrow> None)"

definition ParseTargets :: "string \<Rightarrow> Target list" where
  "ParseTargets tsv = dedup (List.map_filter parse_target (split_byte NL (trim_space tsv)))"

section \<open>One conversation\<close>

text \<open>A network error: its text and whether it is a timeout. A conversation: the errors of dialling, of setting the deadline and of
  sending, then the bytes that arrive and how the reading ends.\<close>

record net_error =
  ne_text :: string
  ne_timeout :: bool

record conversation =
  cv_dial :: "net_error option"
  cv_deadline :: "net_error option"
  cv_send :: "net_error option"
  cv_bytes :: string
  cv_read :: "net_error option"

definition FourLetter :: "conversation \<Rightarrow> string \<times> net_error option" where
  "FourLetter cv =
     (case cv_dial cv of Some e \<Rightarrow> ([], Some e)
      | None \<Rightarrow> (case cv_deadline cv of Some e \<Rightarrow> ([], Some e)
      | None \<Rightarrow> (case cv_send cv of Some e \<Rightarrow> ([], Some e)
      | None \<Rightarrow> (case cv_read cv of
          Some e \<Rightarrow> if ne_timeout e then (cv_bytes cv, Some e) else if cv_bytes cv = [] then ([], Some e) else (cv_bytes cv, None)
        | None \<Rightarrow> (cv_bytes cv, None)))))"

section \<open>What a gov bundle may hold\<close>

text \<open>\<open>(\d{1,3}\.){3}\d{1,3}:\d+|\[[0-9a-fA-F:.%A-Za-z0-9_-]+\]:\d+\<close>\<close>

definition digits_1_3 :: re where
  "digits_1_3 = Seq (Cls is_digit) (upto_n 2 (Cls is_digit))"

definition re_client_addr :: re where
  "re_client_addr = alts [
     seqs [times 3 (Grp 1 (Seq digits_1_3 (lit ''.''))), digits_1_3, lit '':'', plus_of (Cls is_digit)],
     seqs [lit ''['', plus_of (Cls (\<lambda>c. is_alnum c \<or> c \<in> set '':.%_-'')), lit '']:'', plus_of (Cls is_digit)]]"

definition govFilter :: "string \<Rightarrow> string" where
  "govFilter reply = str_join [NL] (filter (\<lambda>l. \<not> match_string re_client_addr l) (split_byte NL reply))"

text \<open>\<open>^(-?[0-9]+(\.[0-9]+)?|true|false|[A-Za-z_][A-Za-z0-9_,*]*)$\<close> and \<open>^[A-Za-z_ ]*:?\s*$\<close>\<close>

definition re_conf_plain :: re where
  "re_conf_plain = seqs [Bot, Grp 1 (alts [
       seqs [opt_of (lit ''-''), plus_of (Cls is_digit), opt_of (Grp 2 (Seq (lit ''.'') (plus_of (Cls is_digit))))],
       lit ''true'', lit ''false'',
       Seq (Cls (\<lambda>c. is_alpha c \<or> c = CHR ''_'')) (any_star (Cls (\<lambda>c. is_alnum c \<or> c \<in> set ''_,*'')))]), Eot]"

definition re_conf_label :: re where
  "re_conf_label = seqs [Bot, any_star (Cls (\<lambda>c. is_alpha c \<or> c \<in> set ''_ '')), opt_of (lit '':''), any_star (Cls re_space), Eot]"

text \<open>\<open>strings.Cut\<close>\<close>

definition cut :: "string \<Rightarrow> string \<Rightarrow> (string \<times> string) option" where
  "cut s sep = map_option (\<lambda>i. (take i s, drop (i + length sep) s)) (str_index s sep)"

definition removed_key :: "string \<Rightarrow> bool" where
  "removed_key k \<longleftrightarrow> k \<in> set [''dataDir'', ''dataLogDir''] \<or> has_suffix k ''_path'' \<or> has_suffix k ''_disk'' \<or> has_prefix k ''server.''"

definition gov_conf_line :: "string \<Rightarrow> string option" where
  "gov_conf_line l =
     (case cut l ''='' of
        None \<Rightarrow> if match_string re_conf_label l then Some l else None
      | Some (k, v) \<Rightarrow>
          let k = trim_space k in
          if removed_key k \<or> \<not> match_string re_conf_plain (trim_space v) then Some (k @ ''=REMOVED'') else Some l)"

definition govConf :: "string \<Rightarrow> string" where
  "govConf reply = str_join [NL] (List.map_filter gov_conf_line (split_byte NL reply))"

definition filtered :: "string \<Rightarrow> string \<Rightarrow> string \<Rightarrow> string" where
  "filtered cmd reply govSalt =
     (if govSalt = [] then reply
      else let reply = govFilter reply in if cmd = ''conf'' then govConf reply else reply)"

section \<open>One member\<close>

definition KeeperLabel :: "string \<Rightarrow> string \<Rightarrow> string" where
  "KeeperLabel host govSalt = (if govSalt = [] then host else hex_upper (sha256 (host @ govSalt)))"

text \<open>\<open>strings.Map\<close> goes over runes: the bytes of a rune that is not ASCII become one underscore (a byte that is no UTF-8 becomes one
  by itself; only well-formed text is modelled).\<close>

definition safe_char :: "char \<Rightarrow> bool" where
  "safe_char c \<longleftrightarrow> is_alnum c \<or> c \<in> set ''.-_''"

definition continuation :: "char \<Rightarrow> bool" where
  "continuation c \<longleftrightarrow> 128 \<le> code c \<and> code c < 192"

definition fileName :: "string \<Rightarrow> string \<Rightarrow> string" where
  "fileName label port =
     map (\<lambda>c. if safe_char c then c else CHR ''_'') (filter (\<lambda>c. \<not> continuation c) label) @ ''_'' @ port @ ''.txt''"

record probe =
  pr_text :: string
  pr_core :: nat
  pr_answered :: nat
  pr_refused :: nat
  pr_timedOut :: nat
  pr_notServing :: nat
  pr_lastErr :: string
  pr_stopped :: string

definition put_text :: "string \<Rightarrow> probe \<Rightarrow> probe" where
  "put_text s p = p\<lparr>pr_text := pr_text p @ s\<rparr>"

definition no_newline_end :: "string \<Rightarrow> string" where
  "no_newline_end = trim_right (\<lambda>c. c = NL)"

text \<open>An error: what arrived before a timeout is kept and marked.\<close>

definition probe_error :: "KeeperOptions \<Rightarrow> string \<Rightarrow> string \<Rightarrow> net_error \<Rightarrow> probe \<Rightarrow> probe" where
  "probe_error opts cmd reply e p =
     (let p = p\<lparr>pr_lastErr := ne_text e\<rparr>;
          part = (if reply = [] then [] else no_newline_end (filtered cmd reply (k_GovSalt opts)));
          p = (if part = [] then p else put_text (part @ [NL]) p);
          cut_off = (if part = [] then [] else '' '' @ em_dash @ '' reply truncated'')
      in if ne_timeout e then
           (put_text (''error: timeout after '' @ dur_string (k_ReadTimeout opts) @ cut_off @ [NL]) p)
             \<lparr>pr_timedOut := pr_timedOut p + 1, pr_stopped := cmd @ '' timed out''\<rparr>
         else if contains (ne_text e) ''connection refused'' then
           (put_text (''error: connection refused'' @ [NL]) p)\<lparr>pr_refused := pr_refused p + 1, pr_stopped := ''connection refused''\<rparr>
         else
           (put_text (if k_GovSalt opts \<noteq> [] then ''error: (message withheld in gov mode)'' @ [NL] else ''error: '' @ ne_text e @ [NL]) p)
             \<lparr>pr_stopped := cmd @ '' failed''\<rparr>)"

definition probe_reply :: "KeeperOptions \<Rightarrow> string \<Rightarrow> string \<Rightarrow> probe \<Rightarrow> probe" where
  "probe_reply opts cmd reply p =
     (let reply = no_newline_end (filtered cmd reply (k_GovSalt opts)) in
      if reply = [] then
        put_text (''(empty reply '' @ em_dash @ '' command not enabled in four_letter_word_white_list, or not known to this Keeper version)'' @ [NL]) p
      else
        let p = put_text (reply @ [NL]) p in
        if IsNotServing reply then p\<lparr>pr_notServing := pr_notServing p + 1\<rparr>
        else p\<lparr>pr_answered := pr_answered p + 1, pr_core := (if cmd \<in> set coreCommands then pr_core p + 1 else pr_core p)\<rparr>)"

text \<open>One command: after the first network failure the rest is skipped.\<close>

definition probe_step :: "KeeperOptions \<Rightarrow> (string \<Rightarrow> conversation) \<Rightarrow> string \<Rightarrow> probe \<Rightarrow> probe" where
  "probe_step opts net cmd p =
     (let p = put_text ([NL] @ ''## '' @ cmd @ [NL]) p in
      if pr_stopped p \<noteq> [] then put_text (''skipped '' @ em_dash @ '' '' @ pr_stopped p @ [NL]) p
      else (case FourLetter (net cmd) of
          (reply, Some e) \<Rightarrow> probe_error opts cmd reply e p
        | (reply, None) \<Rightarrow> probe_reply opts cmd reply p))"

definition ensemble_shown :: "KeeperOptions \<Rightarrow> Target \<Rightarrow> string" where
  "ensemble_shown opts t =
     (let ens = (if t_Ensemble t = [] then ''default'' else t_Ensemble t) in
      if ens \<noteq> ''default'' then KeeperLabel ens (k_GovSalt opts) else ens)"

definition probe_header :: "KeeperOptions \<Rightarrow> Target \<Rightarrow> time \<Rightarrow> string" where
  "probe_header opts t now =
     ''# clickhouse-diagnostic '' @ em_dash @ '' Keeper four-letter commands'' @ [NL] @
     ''# target: '' @ KeeperLabel (t_Host t) (k_GovSalt opts) @ '':'' @ t_Port t @ [NL] @
     ''# ensemble: '' @ ensemble_shown opts t @ [NL] @
     ''# collected_at: '' @ fmt_rfc3339 now @ [NL] @
     ''# commands: '' @ str_join '', '' Commands @ '' (stat/cons are never sent '' @ em_dash @ '' they list client addresses)'' @ [NL]"

definition fresh_probe :: "string \<Rightarrow> probe" where
  "fresh_probe header = \<lparr>pr_text = header, pr_core = 0, pr_answered = 0, pr_refused = 0, pr_timedOut = 0, pr_notServing = 0,
     pr_lastErr = [], pr_stopped = []\<rparr>"

definition run_probe :: "KeeperOptions \<Rightarrow> (string \<Rightarrow> conversation) \<Rightarrow> Target \<Rightarrow> time \<Rightarrow> probe" where
  "run_probe opts net t now = fold (probe_step opts net) Commands (fresh_probe (probe_header opts t now))"

definition probe_status :: "probe \<Rightarrow> string" where
  "probe_status p =
     (if pr_notServing p > 0 then ''not serving''
      else if pr_core p = length coreCommands then ''ok''
      else if pr_answered p > 0 then ''partial''
      else if pr_refused p > 0 then ''refused''
      else if pr_timedOut p > 0 then ''timeout''
      else ''failed'')"

definition probe_err :: "KeeperOptions \<Rightarrow> probe \<Rightarrow> string" where
  "probe_err opts p =
     (let status = probe_status p in
      if status = ''ok'' then []
      else let err = (if status = ''not serving'' then notServingMsg else pr_lastErr p) in
        if k_GovSalt opts \<noteq> [] \<and> err \<noteq> [] then status else err)"

definition probe_name :: "KeeperOptions \<Rightarrow> Target \<Rightarrow> string" where
  "probe_name opts t =
     (let label = KeeperLabel (t_Host t) (k_GovSalt opts); ens = ensemble_shown opts t in
      if ens \<noteq> ''default'' then fileName (ens @ ''__'' @ label) (t_Port t) else fileName label (t_Port t))"

text \<open>The outcome and the file written, with the error of writing it.\<close>

definition collectOne :: "KeeperOptions \<Rightarrow> (string \<Rightarrow> string option) \<Rightarrow> string \<Rightarrow> (Target \<Rightarrow> string \<Rightarrow> conversation) \<Rightarrow> time \<Rightarrow> Target
    \<Rightarrow> Outcome \<times> (string \<times> string) option" where
  "collectOne opts write_err dir net now t =
     (let p = run_probe opts (net t) t now; path = path_join [dir, probe_name opts t];
          oc = \<lparr>oc_Target = t, oc_Label = KeeperLabel (t_Host t) (k_GovSalt opts), oc_File = [], oc_Status = probe_status p, oc_Bytes = 0,
                oc_Err = probe_err opts p\<rparr>
      in case write_err path of
           Some e \<Rightarrow> (oc\<lparr>oc_Status := ''failed'', oc_Err := ''write '' @ path_base path @ '': '' @ e\<rparr>, None)
         | None \<Rightarrow> (oc\<lparr>oc_File := path, oc_Bytes := int (length (pr_text p))\<rparr>, Some (path, pr_text p)))"

definition default_timeouts :: "KeeperOptions \<Rightarrow> KeeperOptions" where
  "default_timeouts opts = opts\<lparr>
     k_DialTimeout := (if k_DialTimeout opts \<le> 0 then 3 * Second else k_DialTimeout opts),
     k_ReadTimeout := (if k_ReadTimeout opts \<le> 0 then 10 * Second else k_ReadTimeout opts)\<rparr>"

definition KeeperCollect :: "(string \<Rightarrow> string option) \<Rightarrow> (string \<Rightarrow> string option) \<Rightarrow> (Target \<Rightarrow> string \<Rightarrow> conversation) \<Rightarrow> (Target \<Rightarrow> time)
    \<Rightarrow> string \<Rightarrow> Target list \<Rightarrow> KeeperOptions \<Rightarrow> string + (Outcome \<times> (string \<times> string) option) list" where
  "KeeperCollect mkdir_err write_err net clock destDir targets opts =
     (if targets = [] then Inr []
      else let dir = path_join [destDir, KeeperDir] in
        case mkdir_err dir of
          Some e \<Rightarrow> Inl (''create '' @ dir @ '': '' @ e)
        | None \<Rightarrow> Inr (map (\<lambda>t. collectOne (default_timeouts opts) write_err dir net (clock t) t) targets))"

definition keeper_line :: "Outcome \<Rightarrow> string" where
  "keeper_line oc =
     ''  '' @ oc_Label oc @ '':'' @ t_Port (oc_Target oc) @ '' '' @ em_dash @ '' '' @ oc_Status oc @
     (if oc_File oc \<noteq> [] then '' ('' @ KeeperDir @ ''/'' @ path_base (oc_File oc) @ '')'' else []) @
     (if oc_Err oc \<noteq> [] \<and> oc_Status oc \<noteq> ''ok'' then '' '' @ em_dash @ '' '' @ oc_Err oc else []) @ [NL]"

definition KeeperSummary :: "Outcome list \<Rightarrow> string" where
  "KeeperSummary ocs =
     (if ocs = [] then ''  no Keeper members listed in system.zookeeper_connection'' @ [NL] else concat (map keeper_line ocs))"

section \<open>What is left of a reply in a gov bundle\<close>

text \<open>The bytes a pattern can read: those of its classes.\<close>

primrec alphabet :: "re \<Rightarrow> char \<Rightarrow> bool" where
  "alphabet (Cls p) c = p c"
| "alphabet Eps c = False"
| "alphabet (Seq a b) c = (alphabet a c \<or> alphabet b c)"
| "alphabet (Alt a b) c = (alphabet a c \<or> alphabet b c)"
| "alphabet (Star g r) c = alphabet r c"
| "alphabet (Grp n r) c = alphabet r c"
| "alphabet Bot c = False"
| "alphabet Bol c = False"
| "alphabet Eol c = False"
| "alphabet Eot c = False"
| "alphabet WordB c = False"

definition reads :: "(char \<Rightarrow> bool) \<Rightarrow> mst \<Rightarrow> mst \<Rightarrow> bool" where
  "reads p st t \<longleftrightarrow> (\<exists>w. mrest st = w @ mrest t \<and> list_all p w)"

lemma reads_refl: "reads p st st"
  by (simp add: reads_def)

lemma reads_trans: "reads p st t \<Longrightarrow> reads p t u \<Longrightarrow> reads p st u"
  by (fastforce simp: reads_def)

lemma reads_mono: "reads p st t \<Longrightarrow> (\<And>c. p c \<Longrightarrow> q c) \<Longrightarrow> reads q st t"
  by (fastforce simp: reads_def list_all_iff)

lemma star_reads:
  assumes "\<And>st t. t \<in> set (f st) \<Longrightarrow> reads p st t"
  shows "t \<in> set (star_list g f n st) \<Longrightarrow> reads p st t"
proof (induction n arbitrary: st)
  case (Suc n)
  then consider "t = st" | u where "u \<in> set (f st)" "t \<in> set (star_list g f n u)"
    by (auto simp: Let_def split: if_splits)
  then show ?case using assms Suc.IH reads_trans reads_refl by cases blast+
qed (simp add: reads_refl)

lemma matches_reads: "t \<in> set (matches r st) \<Longrightarrow> reads (alphabet r) st t"
proof (induction r arbitrary: st t)
  case (Cls p)
  then show ?case by (cases "mrest st") (auto simp: reads_def intro: exI [of _ "[hd (mrest st)]"] split: if_splits)
next
  case (Seq a b)
  from Seq.prems obtain u where "u \<in> set (matches a st)" "t \<in> set (matches b u)" by auto
  then have "reads (alphabet a) st u" "reads (alphabet b) u t" using Seq.IH by blast+
  then have "reads (alphabet (Seq a b)) st u" "reads (alphabet (Seq a b)) u t" using reads_mono by fastforce+
  then show ?case by (rule reads_trans)
next
  case (Alt a b)
  then show ?case using reads_mono [of _ st t "alphabet (Alt a b)"] by fastforce
next
  case (Star g r)
  then show ?case using star_reads [of "matches r" "alphabet r"] by (simp add: reads_def)
next
  case (Grp n r)
  then obtain u where "u \<in> set (matches r st)" "mrest t = mrest u" by auto
  then have "reads (alphabet r) st u" "mrest t = mrest u" using Grp.IH by blast+
  then show ?case by (simp add: reads_def)
qed (auto simp: reads_def split: if_splits)

lemma match_whole_alts:
  assumes "match_string (seqs [Bot, Grp n (alts rs), Eot]) s"
  shows "\<exists>r\<in>set rs. list_all (alphabet r) s"
proof -
  have "\<exists>t. t \<in> set (matches (alts rs) (M 0 None s [])) \<and> mrest t = []"
    using assms by (auto simp: match_string_iff split: if_splits)
  then obtain t r where "r \<in> set rs" "t \<in> set (matches r (M 0 None s []))" "mrest t = []" by (auto simp: matches_alts)
  then show ?thesis using matches_reads [of t r] by (fastforce simp: reads_def)
qed

text \<open>A pattern without anchors that matches a piece of a text matches the text.\<close>

primrec anchor_free :: "re \<Rightarrow> bool" where
  "anchor_free (Cls p) = True"
| "anchor_free Eps = True"
| "anchor_free (Seq a b) = (anchor_free a \<and> anchor_free b)"
| "anchor_free (Alt a b) = (anchor_free a \<and> anchor_free b)"
| "anchor_free (Star g r) = anchor_free r"
| "anchor_free (Grp n r) = anchor_free r"
| "anchor_free Bot = False"
| "anchor_free Bol = False"
| "anchor_free Eol = False"
| "anchor_free Eot = False"
| "anchor_free WordB = False"

definition longer :: "nat \<Rightarrow> string \<Rightarrow> mst \<Rightarrow> mst \<Rightarrow> bool" where
  "longer d x st st' \<longleftrightarrow> mpos st' = mpos st + d \<and> mrest st' = mrest st @ x"

lemma star_longer:
  assumes "\<And>st st' t. longer d x st st' \<Longrightarrow> t \<in> set (f st) \<Longrightarrow> \<exists>t'\<in>set (f st'). longer d x t t'"
  shows "longer d x st st' \<Longrightarrow> t \<in> set (star_list g f n st) \<Longrightarrow> \<exists>t'\<in>set (star_list g f (n + m) st'). longer d x t t'"
proof (induction n arbitrary: st st')
  case 0
  then show ?case by (cases m) (auto simp: Let_def)
next
  case (Suc n)
  from Suc.prems(2) consider "t = st" | u where "u \<in> set (f st)" "mpos st < mpos u" "t \<in> set (star_list g f n u)"
    by (auto simp: Let_def split: if_splits)
  then show ?case
  proof cases
    case 1
    with Suc.prems(1) show ?thesis by (auto simp: Let_def)
  next
    case 2
    then obtain u' where u': "u' \<in> set (f st')" "longer d x u u'" using assms Suc.prems(1) by blast
    then obtain t' where "t' \<in> set (star_list g f (n + m) u')" "longer d x t t'" using Suc.IH 2(3) by blast
    moreover have "mpos st' < mpos u'" using u'(2) Suc.prems(1) 2(2) by (simp add: longer_def)
    ultimately show ?thesis using u'(1) by (auto simp: Let_def)
  qed
qed

lemma matches_longer:
  "anchor_free r \<Longrightarrow> longer d x st st' \<Longrightarrow> t \<in> set (matches r st) \<Longrightarrow> \<exists>t'\<in>set (matches r st'). longer d x t t'"
proof (induction r arbitrary: st st' t)
  case (Cls p)
  then show ?case by (cases "mrest st") (auto simp: longer_def split: if_splits)
next
  case (Seq a b)
  then show ?case by (fastforce simp del: matches.simps(1))
next
  case (Alt a b)
  then show ?case by fastforce
next
  case (Star g r)
  have "length (mrest st') = length (mrest st) + length x" using Star.prems(2) by (simp add: longer_def)
  with Star star_longer [of d x "matches r"] show ?case by simp
next
  case (Grp n r)
  then obtain u where u: "u \<in> set (matches r st)" "t = M (mpos u) (mprev u) (mrest u) ((n, mpos st, mpos u) # mcaps u)" by auto
  then obtain u' where "u' \<in> set (matches r st')" "longer d x u u'" using Grp.IH Grp.prems by force
  then show ?case using u(2) by (fastforce simp: longer_def)
qed (auto simp: longer_def)

lemma match_longer:
  assumes "anchor_free r" "match_string r s"
  shows "match_string r (a @ s @ b)"
proof -
  obtain k where k: "k \<le> length s" "matches r (M k (if k = 0 then None else Some (s ! (k - 1))) (drop k s) []) \<noteq> []"
    using assms(2) by (auto simp: match_string_iff)
  let ?i = "length a + k" let ?s = "a @ s @ b"
  have "longer (length a) b (M k (if k = 0 then None else Some (s ! (k - 1))) (drop k s) [])
      (M ?i (if ?i = 0 then None else Some (?s ! (?i - 1))) (drop ?i ?s) [])"
    using k(1) by (simp add: longer_def)
  with k(2) matches_longer [OF assms(1)] have "matches r (M ?i (if ?i = 0 then None else Some (?s ! (?i - 1))) (drop ?i ?s) []) \<noteq> []"
    by (metis (no_types, lifting) last_in_set list.set(1) empty_iff)
  moreover have "?i \<le> length ?s" using k(1) by simp
  ultimately show ?thesis unfolding match_string_iff by blast
qed

section \<open>Gov replies\<close>

lemma alphabet_lit: "alphabet (lit s) c \<longleftrightarrow> c \<in> set s"
  by (induction s rule: lit.induct) auto

definition number_char :: "char \<Rightarrow> bool" where
  "number_char c \<longleftrightarrow> is_digit c \<or> c \<in> set ''-.''"

definition plain_char :: "char \<Rightarrow> bool" where
  "plain_char c \<longleftrightarrow> is_alnum c \<or> c \<in> set ''_,*''"

definition label_char :: "char \<Rightarrow> bool" where
  "label_char c \<longleftrightarrow> is_alpha c \<or> c \<in> set ''_: '' \<or> re_space c"

definition gov_line_shape :: "string \<Rightarrow> bool" where
  "gov_line_shape l \<longleftrightarrow>
     (case cut l ''='' of
        None \<Rightarrow> list_all label_char l
      | Some (k, v) \<Rightarrow> v = ''REMOVED''
          \<or> \<not> removed_key (trim_space k) \<and>
            (list_all number_char (trim_space v) \<or> list_all plain_char (trim_space v)))"

lemma plain_words: "list_all plain_char ''true''" "list_all plain_char ''false''"
  by code_simp+

lemma conf_plain_chars:
  assumes "match_string re_conf_plain v"
  shows "list_all number_char v \<or> list_all plain_char v"
proof -
  let ?num = "seqs [opt_of (lit ''-''), plus_of (Cls is_digit), opt_of (Grp 2 (Seq (lit ''.'') (plus_of (Cls is_digit))))]"
  let ?name = "Seq (Cls (\<lambda>c. is_alpha c \<or> c = CHR ''_'')) (any_star (Cls (\<lambda>c. is_alnum c \<or> c \<in> set ''_,*'')))"
  have num: "number_char c" if "alphabet ?num c" for c using that by (auto simp: number_char_def)
  have name: "plain_char c" if "alphabet ?name c" for c using that by (auto simp: plain_char_def is_alnum_def)
  have word: "plain_char c" if "alphabet (lit w) c" "w = ''true'' \<or> w = ''false''" for c w
    using that plain_words unfolding alphabet_lit by (auto simp only: list_all_iff)
  obtain r where r: "r \<in> set [?num, lit ''true'', lit ''false'', ?name]" "list_all (alphabet r) v"
    using match_whole_alts [OF assms [unfolded re_conf_plain_def]] by blast
  from r(1) consider "r = ?num" | w where "r = lit w" "w = ''true'' \<or> w = ''false''" | "r = ?name"
    unfolding list.set insert_iff by blast
  then have "(\<forall>c. alphabet r c \<longrightarrow> number_char c) \<or> (\<forall>c. alphabet r c \<longrightarrow> plain_char c)"
    by cases (use num name word in blast)+
  with r(2) show ?thesis unfolding list_all_iff by blast
qed


lemma conf_label_chars:
  assumes "match_string re_conf_label l"
  shows "list_all label_char l"
proof -
  obtain k t where k: "k \<le> length l" "t \<in> set (matches re_conf_label (M k (if k = 0 then None else Some (l ! (k - 1))) (drop k l) []))"
    using assms unfolding match_string_iff by (metis last_in_set)
  then have "k = 0" "mrest t = []" by (auto simp: re_conf_label_def simp del: matches.simps(1,4,5) split: if_splits)
  with matches_reads [OF k(2)] have "list_all (alphabet re_conf_label) l" by (simp add: reads_def)
  then show ?thesis by (auto simp: list_all_iff re_conf_label_def label_char_def)
qed

lemma trim_both_set: "c \<in> set (trim_both p s) \<Longrightarrow> c \<in> set s"
  unfolding trim_both_def trim_left_def trim_right_def by (metis set_dropWhileD set_rev)

lemma trim_space_set: "c \<in> set (trim_space s) \<Longrightarrow> c \<in> set s"
  by (auto simp: trim_space_def dest: trim_both_set)

lemma trim_space_infix: "\<exists>a b. s = a @ trim_space s @ b"
proof -
  let ?l = "dropWhile is_space s"
  have "s = takeWhile is_space s @ ?l" by simp
  moreover have "?l = rev (dropWhile is_space (rev ?l)) @ rev (takeWhile is_space (rev ?l))"
    by (metis rev_append rev_rev_ident takeWhile_dropWhile_id)
  ultimately show ?thesis unfolding trim_space_def trim_both_def trim_left_def trim_right_def by metis
qed

lemma str_index_byte: "str_index l [c] = index_byte l c"
  by (induction l) (auto simp: has_prefix_def)

lemma index_byte_hit: "c \<notin> set k \<Longrightarrow> index_byte (k @ c # v) c = Some (length k)"
  by (induction k) auto

lemma cut_byte_None: "cut l [c] = None \<longleftrightarrow> c \<notin> set l"
  by (simp add: cut_def str_index_byte)

lemma cut_byte_Some: "cut l [c] = Some (k, v) \<longleftrightarrow> l = k @ c # v \<and> c \<notin> set k"
proof
  assume "cut l [c] = Some (k, v)"
  then obtain i where i: "index_byte l c = Some i" "k = take i l" "v = drop (Suc i) l" by (auto simp: cut_def str_index_byte)
  then show "l = k @ c # v \<and> c \<notin> set k" using index_byte_Some [OF i(1)] id_take_nth_drop [of i l] by simp
next
  assume "l = k @ c # v \<and> c \<notin> set k"
  then show "cut l [c] = Some (k, v)" by (simp add: cut_def str_index_byte index_byte_hit)
qed

lemma gov_conf_line_shape:
  assumes "gov_conf_line l = Some l'"
  shows "gov_line_shape l' \<and> (NL \<notin> set l \<longrightarrow> NL \<notin> set l')"
proof (cases "cut l ''=''")
  case None
  with assms show ?thesis by (auto simp: gov_conf_line_def gov_line_shape_def conf_label_chars split: if_splits)
next
  case (Some kv)
  then obtain k v where kv: "cut l ''='' = Some (k, v)" by (cases kv) auto
  then have l: "l = k @ CHR ''='' # v" "CHR ''='' \<notin> set k" by (simp_all add: cut_byte_Some)
  have no_eq: "CHR ''='' \<notin> set (trim_space k)" using l(2) trim_space_set by blast
  then have "cut (trim_space k @ ''=REMOVED'') ''='' = Some (trim_space k, ''REMOVED'')" by (simp add: cut_byte_Some)
  moreover have "NL \<notin> set ''REMOVED''" by (simp add: go_defs)
  ultimately show ?thesis
    using assms kv l conf_plain_chars [of "trim_space v"] trim_space_set [of NL k]
    by (auto simp: gov_conf_line_def gov_line_shape_def Let_def go_defs split: if_splits)
qed

lemma split_join_lines:
  assumes "\<And>l. l \<in> set ls \<Longrightarrow> NL \<notin> set l"
  shows "split_byte NL (str_join [NL] ls) = (if ls = [] then [[]] else ls)"
  using assms by (simp add: split_join_byte)


lemma no_addr_empty: "\<not> match_string re_client_addr []"
  by (simp add: match_string_iff re_client_addr_def digits_1_3_def numeral_3_eq_3)

lemma no_addr_piece: "match_string re_client_addr s \<Longrightarrow> match_string re_client_addr (a @ s @ b)"
proof -
  have "anchor_free re_client_addr" by code_simp
  then show "match_string re_client_addr s \<Longrightarrow> match_string re_client_addr (a @ s @ b)" by (rule match_longer)
qed

lemma govFilter_lines:
  assumes "l \<in> set (split_byte NL (govFilter reply))"
  shows "NL \<notin> set l \<and> \<not> match_string re_client_addr l"
proof -
  have "split_byte NL (govFilter reply) =
      (let ls = filter (\<lambda>l. \<not> match_string re_client_addr l) (split_byte NL reply) in if ls = [] then [[]] else ls)"
    unfolding govFilter_def Let_def by (rule split_join_lines) (auto dest: split_byte_parts)
  with assms have "l = [] \<or> l \<in> set (split_byte NL reply) \<and> \<not> match_string re_client_addr l"
    by (auto simp: Let_def split: if_splits)
  then show ?thesis using no_addr_empty split_byte_parts by auto
qed

lemma map_filter_set: "y \<in> set (List.map_filter f xs) \<longleftrightarrow> (\<exists>x\<in>set xs. f x = Some y)"
  by (induction xs) (auto simp: List.map_filter_simps split: option.splits)

lemma gov_conf_no_addr:
  assumes "\<not> match_string re_client_addr l" "gov_conf_line l = Some l'" "cut l' ''='' = Some (k, v)"
  shows "\<not> match_string re_client_addr (trim_space k)"
proof (cases "l' = l")
  case True
  obtain a b where ab: "k = a @ trim_space k @ b" using trim_space_infix by blast
  have "l = k @ CHR ''='' # v" using assms(3) True by (simp add: cut_byte_Some)
  then have "l = a @ trim_space k @ (b @ CHR ''='' # v)" using ab by (metis append.assoc)
  with no_addr_piece assms(1) show ?thesis by metis
next
  case False
  with assms(2) obtain k0 v0 where c: "cut l ''='' = Some (k0, v0)" "l' = trim_space k0 @ ''=REMOVED''"
    by (auto simp: gov_conf_line_def Let_def split: option.splits if_splits)
  have no: "CHR ''='' \<notin> set (trim_space k0)" using c(1) trim_space_set by (fastforce simp: cut_byte_Some)
  then have "cut l' ''='' = Some (trim_space k0, ''REMOVED'')" by (simp add: c(2) cut_byte_Some)
  with assms(3) have k: "k = trim_space k0" by simp
  obtain a b where ab: "k = a @ trim_space k @ b" using trim_space_infix by blast
  obtain a0 b0 where ab0: "k0 = a0 @ trim_space k0 @ b0" using trim_space_infix by blast
  have "l = k0 @ CHR ''='' # v0" using c(1) by (simp add: cut_byte_Some)
  then have "l = (a0 @ a) @ trim_space k @ (b @ b0 @ CHR ''='' # v0)" using ab ab0 k by (metis append.assoc)
  with no_addr_piece assms(1) show ?thesis by metis
qed

definition gov_line_ok :: "string \<Rightarrow> bool" where
  "gov_line_ok l \<longleftrightarrow> gov_line_shape l
     \<and> (case cut l ''='' of None \<Rightarrow> True | Some (k, v) \<Rightarrow> \<not> match_string re_client_addr (trim_space k))"

lemma gov_reply_line:
  assumes "l \<in> set (split_byte NL (filtered cmd reply (c # salt)))"
  shows "if cmd = ''conf'' then gov_line_ok l else \<not> match_string re_client_addr l"
proof (cases "cmd = ''conf''")
  case False
  with assms govFilter_lines show ?thesis by (auto simp: filtered_def Let_def)
next
  case True
  let ?ls = "split_byte NL (govFilter reply)"
  let ?out = "List.map_filter gov_conf_line ?ls"
  have "filtered cmd reply (c # salt) = str_join [NL] ?out" using True by (simp add: filtered_def govConf_def Let_def)
  moreover have "split_byte NL (str_join [NL] ?out) = (if ?out = [] then [[]] else ?out)"
    using govFilter_lines gov_conf_line_shape by (intro split_join_lines) (auto simp: map_filter_set)
  ultimately have "l = [] \<or> l \<in> set ?out" using assms by (auto split: if_splits)
  moreover have "gov_line_ok []" by (simp add: gov_line_ok_def gov_line_shape_def cut_def)
  moreover have "gov_line_ok l" if mem: "l \<in> set ?out"
  proof -
    obtain m where m: "m \<in> set ?ls" "gov_conf_line m = Some l" using mem unfolding map_filter_set by blast
    show ?thesis unfolding gov_line_ok_def
      using gov_conf_line_shape [OF m(2)] gov_conf_no_addr [OF conjunct2 [OF govFilter_lines [OF m(1)]] m(2)]
      by (auto split: option.split)
  qed
  ultimately show ?thesis using True by auto
qed

text \<open>In a gov bundle no line kept of a Keeper reply holds a client address; of the \<open>conf\<close> reply a line is either a label or a
  setting whose key holds no client address, and the value of a setting is withheld unless its key names no location and the value is a number or a plain word.\<close>

theorem gov_reply_lines:
  "list_all (\<lambda>l. if cmd = ''conf'' then gov_line_ok l else \<not> match_string re_client_addr l)
     (split_byte NL (filtered cmd reply (c # salt)))"
  unfolding list_all_iff using gov_reply_line by blast


text \<open>The same network failures with their messages hidden: whether it was a timeout, a refused connection or had a message at all stays.\<close>

definition hide_message :: "net_error \<Rightarrow> net_error" where
  "hide_message e = e\<lparr>ne_text := (if contains (ne_text e) ''connection refused'' then ''connection refused''
     else if ne_text e = [] then [] else ''hidden'')\<rparr>"

definition hide_messages :: "conversation \<Rightarrow> conversation" where
  "hide_messages cv = cv\<lparr>cv_dial := map_option hide_message (cv_dial cv), cv_deadline := map_option hide_message (cv_deadline cv),
     cv_send := map_option hide_message (cv_send cv), cv_read := map_option hide_message (cv_read cv)\<rparr>"

lemma hide_message_simps:
  "ne_timeout (hide_message e) = ne_timeout e"
  "contains (ne_text (hide_message e)) ''connection refused'' = contains (ne_text e) ''connection refused''"
  "ne_text (hide_message e) = [] \<longleftrightarrow> ne_text e = []"
proof -
  have c: "contains ''connection refused'' ''connection refused''" "\<not> contains ''hidden'' ''connection refused''"
    "\<not> contains [] ''connection refused''" by (simp_all add: contains_def has_prefix_def)
  show "ne_timeout (hide_message e) = ne_timeout e" by (simp add: hide_message_def)
  show "contains (ne_text (hide_message e)) ''connection refused'' = contains (ne_text e) ''connection refused''"
    using c by (simp add: hide_message_def)
  show "ne_text (hide_message e) = [] \<longleftrightarrow> ne_text e = []" using c by (auto simp: hide_message_def)
qed

lemma FourLetter_hidden: "FourLetter (hide_messages cv) = map_prod id (map_option hide_message) (FourLetter cv)"
  by (simp add: FourLetter_def hide_messages_def hide_message_simps split: option.split)

definition alike :: "probe \<Rightarrow> probe \<Rightarrow> bool" where
  "alike p q \<longleftrightarrow> q = p\<lparr>pr_lastErr := pr_lastErr q\<rparr> \<and> (pr_lastErr p = [] \<longleftrightarrow> pr_lastErr q = [])"

lemma alike_put: "alike p q \<Longrightarrow> alike (put_text s p) (put_text s q)"
  by (cases p; cases q) (simp add: alike_def put_text_def)

lemma alike_stopped: "alike p q \<Longrightarrow> pr_stopped q = pr_stopped p"
  by (cases p; cases q) (simp add: alike_def)

lemma alike_reply: "alike p q \<Longrightarrow> alike (probe_reply opts cmd reply p) (probe_reply opts cmd reply q)"
  by (cases p; cases q) (simp add: alike_def put_text_def probe_reply_def Let_def)

lemma alike_error:
  "k_GovSalt opts \<noteq> [] \<Longrightarrow> alike p q \<Longrightarrow> alike (probe_error opts cmd reply e p) (probe_error opts cmd reply (hide_message e) q)"
  using hide_message_simps [of e] by (cases p; cases q) (simp add: alike_def put_text_def probe_error_def Let_def)

lemma alike_step:
  assumes "k_GovSalt opts \<noteq> []" "alike p q"
  shows "alike (probe_step opts net cmd p) (probe_step opts (hide_messages \<circ> net) cmd q)"
proof -
  have "alike (put_text s p) (put_text s q)" for s using assms(2) by (rule alike_put)
  then show ?thesis
    using assms(1) alike_stopped [OF alike_put [OF assms(2)]]
    by (simp add: probe_step_def Let_def FourLetter_hidden alike_put alike_reply alike_error split: prod.split option.split)
qed

lemma alike_probe: "k_GovSalt opts \<noteq> [] \<Longrightarrow> alike (run_probe opts net t now) (run_probe opts (hide_messages \<circ> net) t now)"
proof -
  assume gov: "k_GovSalt opts \<noteq> []"
  have "alike p q \<Longrightarrow> alike (fold (probe_step opts net) cmds p) (fold (probe_step opts (hide_messages \<circ> net)) cmds q)" for cmds p q
    by (induction cmds arbitrary: p q) (simp_all add: alike_step [OF gov])
  then show ?thesis by (simp add: run_probe_def alike_def)
qed

text \<open>In a gov bundle the message of a network failure, which can name hosts and addresses, reaches neither the file nor the outcome:
  both are the same when the messages are hidden beforehand.\<close>

theorem gov_errors_withheld:
  "collectOne (opts\<lparr>k_GovSalt := c # salt\<rparr>) write_err dir (\<lambda>t. hide_messages \<circ> net t) now t =
   collectOne (opts\<lparr>k_GovSalt := c # salt\<rparr>) write_err dir net now t"
proof -
  let ?o = "opts\<lparr>k_GovSalt := c # salt\<rparr>"
  have "alike (run_probe ?o (net t) t now) (run_probe ?o (hide_messages \<circ> net t) t now)" by (rule alike_probe) simp
  then have "pr_text (run_probe ?o (hide_messages \<circ> net t) t now) = pr_text (run_probe ?o (net t) t now)"
    "probe_status (run_probe ?o (hide_messages \<circ> net t) t now) = probe_status (run_probe ?o (net t) t now)"
    "probe_err ?o (run_probe ?o (hide_messages \<circ> net t) t now) = probe_err ?o (run_probe ?o (net t) t now)"
    by (cases "run_probe ?o (net t) t now"; cases "run_probe ?o (hide_messages \<circ> net t) t now";
        auto simp: alike_def probe_status_def probe_err_def Let_def)+
  then show ?thesis by (simp only: collectOne_def Let_def)
qed

section \<open>Divergences\<close>

text \<open>The comment of \<open>govConf\<close> says host names are removed whatever the key; a host name of one label passes as a plain word.\<close>

lemma gov_conf_keeps_short_host:
  "govConf ''host=kp1'' = ''host=kp1''"
  "govConf ''host=kp1.eu'' = ''host=REMOVED''"
  by code_simp+

text \<open>The comment of \<open>fileName\<close> says the name is safe for every file system; the port, read from a configuration file, is used as it is.\<close>

lemma file_name_port_unsafe: "fileName ''k1'' ''../x'' = ''k1_../x.txt''"
  by code_simp

end
