(* ===== verification/KeeperMembers.thy ===== *)
theory KeeperMembers
  imports KeeperProbe
begin

text \<open>
  Reading the files of the Keeper members back (\<open>internal/keeper/members.go\<close>): what each member reported, the verdicts drawn
  over an ensemble, and the ensembles without a leader. A number that was not reported is \<open>None\<close>.
\<close>

section \<open>One file\<close>

function split_str :: "string \<Rightarrow> string \<Rightarrow> string list" where
  "split_str sep s =
     (case str_index s sep of
        None \<Rightarrow> [s]
      | Some i \<Rightarrow> if sep = [] then [s] else take i s # split_str sep (drop (i + length sep) s))"
  by pat_completeness auto
termination
proof (relation "measure (\<lambda>(sep, s). length s)", goal_cases)
  case (2 sep s i)
  then show ?case using str_index_Some [of s sep i] by (cases sep) auto
qed simp

declare split_str.simps [simp del]

record Flag =
  fl_Severity :: string
  fl_Check :: string
  fl_Text :: string

record Member =
  m_Member :: string
  m_Ensemble :: string
  m_State :: string
  m_Role :: string
  m_Version :: string
  m_FirstLogIdx :: "int option"
  m_LastLogIdx :: "int option"
  m_LastCommitted :: "int option"
  m_LeaderCommitted :: "int option"
  m_LastSnapshotIdx :: "int option"
  m_SnapshotSize :: "int option"
  m_ZnodeCount :: "int option"
  m_ChunkSize :: "int option"
  m_Format :: "int option"
  m_SnapDirSize :: "int option"
  m_LogDirSize :: "int option"
  m_Flags :: "Flag list"
  m_versionMM :: "int \<times> int"

definition non_space :: "char \<Rightarrow> bool" where
  "non_space c \<longleftrightarrow> \<not> re_space c"

text \<open>\<open>(?m)^# target: (\S+)\<close>, \<open>(?m)^# ensemble: (\S+)\<close>, \<open>(?m)^Mode: (\S+)\<close>\<close>

definition re_line_field :: "string \<Rightarrow> re" where
  "re_line_field p = seqs [Bol, lit p, Grp 1 (plus_of (Cls non_space))]"

text \<open>\<open>(?m)^ClickHouse Keeper version: v?(\d+\.\d+[\w.]*)\<close>, \<open>^v?(\d+)\.(\d+)\<close>, \<open>^v?(\d+(?:\.\d+)+)\<close>\<close>

definition re_srvr_ver :: re where
  "re_srvr_ver = seqs [Bol, lit ''ClickHouse Keeper version: '', opt_of (lit ''v''),
     Grp 1 (seqs [plus_of (Cls is_digit), lit ''.'', plus_of (Cls is_digit), any_star (Cls (\<lambda>c. re_word c \<or> c = CHR ''.''))])]"

definition re_ver_mm :: re where
  "re_ver_mm = seqs [Bot, opt_of (lit ''v''), Grp 1 (plus_of (Cls is_digit)), lit ''.'', Grp 2 (plus_of (Cls is_digit))]"

definition re_ver_num :: re where
  "re_ver_num = seqs [Bot, opt_of (lit ''v''), Grp 1 (Seq (plus_of (Cls is_digit)) (plus_of (Seq (lit ''.'') (plus_of (Cls is_digit)))))]"

text \<open>The sections of a file; the last one of a name counts. \<open>get\<close> reads a map with \<open>""\<close> for a missing key.\<close>

definition get :: "(string \<times> string) list \<Rightarrow> string \<Rightarrow> string" where
  "get m k = (case map_of (rev m) k of Some v \<Rightarrow> v | None \<Rightarrow> [])"

definition section_of :: "string \<Rightarrow> string \<times> string" where
  "section_of part = (case cut part [NL] of
     Some (name, body) \<Rightarrow> (trim_space name, trim_space body)
   | None \<Rightarrow> (trim_space part, []))"

definition sections :: "string \<Rightarrow> (string \<times> string) list" where
  "sections txt = map section_of (tl (split_str ([NL] @ ''## '') ([NL] @ txt)))"

definition has_error_line :: "string \<Rightarrow> bool" where
  "has_error_line b \<longleftrightarrow> list_ex (\<lambda>l. has_prefix l ''error:'') (split_byte NL b)"

definition answered_section :: "string \<Rightarrow> bool" where
  "answered_section b \<longleftrightarrow> \<not> (b = [] \<or> IsNotServing b \<or> has_prefix b ''skipped'' \<or> has_prefix b ''(empty reply'') \<and> \<not> has_error_line b"

definition command_values :: "(string \<times> string) list \<Rightarrow> string \<times> string \<Rightarrow> (string \<times> string) list" where
  "command_values sec cs = (case cs of (cmd, sep) \<Rightarrow>
     if answered_section (get sec cmd) then
       List.map_filter (\<lambda>l. map_option (\<lambda>(k, v). (cmd @ ''.'' @ trim_space k, trim_space v)) (cut l sep)) (split_byte NL (get sec cmd))
     else [])"

definition member_values :: "(string \<times> string) list \<Rightarrow> (string \<times> string) list" where
  "member_values sec = concat (map (command_values sec) [(''lgif'', [TAB]), (''mntr'', [TAB]), (''conf'', ''=''), (''dirs'', '':'')])"

definition member_state :: "(string \<times> string) list \<Rightarrow> string" where
  "member_state sec =
     (let bodies = map (get sec) (dedup (map fst sec)) in
      if list_ex IsNotServing bodies then ''not serving''
      else if answered_section (get sec ''srvr'') \<or> answered_section (get sec ''mntr'') then ''serving''
      else if list_ex has_error_line bodies then ''probe failed''
      else ''unknown'')"

definition member_role :: "(string \<times> string) list \<Rightarrow> (string \<times> string) list \<Rightarrow> string" where
  "member_role sec kv =
     (if get kv ''mntr.zk_server_state'' = [] \<and> answered_section (get sec ''srvr'') then
        (case first_group (re_line_field ''Mode: '') (get sec ''srvr'') of Some r \<Rightarrow> r | None \<Rightarrow> [])
      else get kv ''mntr.zk_server_state'')"

definition trim_prefix :: "string \<Rightarrow> string \<Rightarrow> string" where
  "trim_prefix s p = (if has_prefix s p then drop (length p) s else s)"

definition member_version :: "(string \<times> string) list \<Rightarrow> (string \<times> string) list \<Rightarrow> string" where
  "member_version sec kv =
     (let v = trim_prefix (get kv ''mntr.zk_version'') ''v'';
          v = (if v = [] \<and> answered_section (get sec ''srvr'') then
                 (case first_group re_srvr_ver (get sec ''srvr'') of Some r \<Rightarrow> r | None \<Rightarrow> v) else v)
      in case first_group re_ver_num v of Some n \<Rightarrow> n | None \<Rightarrow> v)"

definition version_mm :: "string \<Rightarrow> int \<times> int" where
  "version_mm v = (case re_find re_ver_mm v of
     None \<Rightarrow> (0, 0)
   | Some (_, _, cs) \<Rightarrow> (fst (parse_int64 (group v cs 1)), fst (parse_int64 (group v cs 2))))"

definition num_of :: "(string \<times> string) list \<Rightarrow> string \<Rightarrow> int option" where
  "num_of kv k = (case parse_int64 (get kv k) of (n, None) \<Rightarrow> Some n | _ \<Rightarrow> None)"

definition parseMember :: "string \<Rightarrow> string \<Rightarrow> Member" where
  "parseMember txt fallback =
     (let sec = sections txt; kv = member_values sec; v = member_version sec kv in
      \<lparr>m_Member = (case first_group (re_line_field ''# target: '') txt of Some t \<Rightarrow> t | None \<Rightarrow> fallback),
       m_Ensemble = (case first_group (re_line_field ''# ensemble: '') txt of Some e \<Rightarrow> e | None \<Rightarrow> []),
       m_State = member_state sec, m_Role = member_role sec kv, m_Version = v,
       m_FirstLogIdx = num_of kv ''lgif.first_log_idx'', m_LastLogIdx = num_of kv ''lgif.last_log_idx'',
       m_LastCommitted = num_of kv ''lgif.last_committed_log_idx'', m_LeaderCommitted = num_of kv ''lgif.leader_committed_log_idx'',
       m_LastSnapshotIdx = num_of kv ''lgif.last_snapshot_idx'', m_SnapshotSize = num_of kv ''mntr.zk_latest_snapshot_size'',
       m_ZnodeCount = num_of kv ''mntr.zk_znode_count'', m_ChunkSize = num_of kv ''conf.snapshot_transfer_chunk_size'',
       m_Format = num_of kv ''conf.write_snapshot_version'', m_SnapDirSize = num_of kv ''dirs.snapshot_dir_size'',
       m_LogDirSize = num_of kv ''dirs.log_dir_size'', m_Flags = [], m_versionMM = version_mm v\<rparr>)"

section \<open>Verdicts\<close>

definition int32Max :: int where "int32Max = 2 ^ 31 - 1"

definition NUL_key :: char where "NUL_key = CHR 0x00"

definition group_key :: "Member \<Rightarrow> string" where
  "group_key m = (if m_Ensemble m = [] then NUL_key # m_Member m else m_Ensemble m)"

definition is_leader :: "Member \<Rightarrow> bool" where
  "is_leader m \<longleftrightarrow> m_Role m = ''leader'' \<and> m_State m = ''serving''"

text \<open>The only leader of a group, by its place; the largest snapshot of the group.\<close>

definition group_leader :: "Member list \<Rightarrow> string \<Rightarrow> nat option" where
  "group_leader ms key =
     (case filter (\<lambda>i. group_key (ms ! i) = key \<and> is_leader (ms ! i)) [0..<length ms] of [i] \<Rightarrow> Some i | _ \<Rightarrow> None)"

definition group_snap :: "Member list \<Rightarrow> string \<Rightarrow> int" where
  "group_snap ms key =
     fold (\<lambda>m s. case m_SnapshotSize m of Some n \<Rightarrow> if n > s then n else s | None \<Rightarrow> s) (filter (\<lambda>m. group_key m = key) ms) 0"

definition state_flags :: "Member \<Rightarrow> Flag list" where
  "state_flags m =
     (if m_State m = ''not serving'' then
        [\<lparr>fl_Severity = ''warning'', fl_Check = ''HC-3.18'', fl_Text = ''answers '' @ QUOTE # ''not currently serving requests'' @ QUOTE # '' '' @ em_dash @
          '' no leader, or still loading its snapshot''\<rparr>]
      else if m_State m = ''probe failed'' then
        [\<lparr>fl_Severity = ''warning'', fl_Check = ''HC-3.18'', fl_Text = ''probe failed (collector timeout or refusal) '' @ em_dash @
          '' says nothing about the voters'' @ QUOTE # '' own links''\<rparr>]
      else [])"

definition behind_leader :: "Member list \<Rightarrow> nat \<Rightarrow> bool" where
  "behind_leader ms i \<longleftrightarrow>
     (let m = ms ! i; key = group_key m in
      \<not> has_prefix key [NUL_key] \<and>
      (case group_leader ms key of
         None \<Rightarrow> False
       | Some l \<Rightarrow> i \<noteq> l \<and>
           (case (m_FirstLogIdx (ms ! l), m_LastLogIdx m) of (Some f, Some x) \<Rightarrow> x < f | _ \<Rightarrow> False)))"

definition behind_flags :: "Member list \<Rightarrow> nat \<Rightarrow> Flag list" where
  "behind_flags ms i =
     (if behind_leader ms i then
        [\<lparr>fl_Severity = ''critical'', fl_Check = ''HC-3.19/P-61'', fl_Text = ''behind the leader'' @ QUOTE # ''s retained log '' @ em_dash @
          '' can rejoin only through a full snapshot''\<rparr>]
      else [])"

definition chunk_flags :: "int \<Rightarrow> Member \<Rightarrow> Flag list" where
  "chunk_flags snap m =
     (if m_ChunkSize m = Some 0 \<and> snap > 2 ^ 30 then
        (if snap > int32Max then
           [\<lparr>fl_Severity = ''critical'', fl_Check = ''HC-3.20/P-61'', fl_Text = ''snapshot over 2 GiB sent unchunked (snapshot_transfer_chunk_size = 0) '' @
             em_dash @ '' the transfer to a lagging member fails''\<rparr>]
         else
           [\<lparr>fl_Severity = ''warning'', fl_Check = ''HC-3.20/P-61'', fl_Text = ''snapshot over 1 GiB sent unchunked (snapshot_transfer_chunk_size = 0) '' @
             em_dash @ '' fails past 2 GiB''\<rparr>])
      else [])"

definition format_flags :: "Member \<Rightarrow> Flag list" where
  "format_flags m =
     (case m_Format m of
        Some f \<Rightarrow>
          if f < 7 then
            (case m_versionMM m of (v0, v1) \<Rightarrow>
              [if v0 > 26 \<or> v0 = 26 \<and> v1 \<ge> 8 then
                 \<lparr>fl_Severity = ''warning'', fl_Check = ''HC-3.20'', fl_Text = ''snapshot format below 7 pinned below the 26.8 default of 8 '' @ em_dash @
                   '' 32-bit sequential counters''\<rparr>
               else if v0 > 0 then
                 \<lparr>fl_Severity = ''info'', fl_Check = ''HC-3.20'', fl_Text = ''snapshot format below 7, the default before 26.8 '' @ em_dash @
                   '' 32-bit sequential counters''\<rparr>
               else
                 \<lparr>fl_Severity = ''info'', fl_Check = ''HC-3.20'', fl_Text = ''snapshot format below 7 '' @ em_dash @ '' Keeper version not reported''\<rparr>])
          else []
      | None \<Rightarrow> [])"

definition member_flags :: "Member list \<Rightarrow> nat \<Rightarrow> Flag list" where
  "member_flags ms i =
     (let m = ms ! i in
      state_flags m @ behind_flags ms i @ chunk_flags (group_snap ms (group_key m)) m @ format_flags m)"

definition flagMembers :: "Member list \<Rightarrow> Member list" where
  "flagMembers ms = map (\<lambda>i. (ms ! i)\<lparr>m_Flags := m_Flags (ms ! i) @ member_flags ms i\<rparr>) [0..<length ms]"

text \<open>\<open>files\<close>: the paths of the \<open>.txt\<close> files and their contents, \<open>None\<close> for one that cannot be read.\<close>

definition ReadMembers :: "(string \<times> string option) list \<Rightarrow> Member list" where
  "ReadMembers files =
     flagMembers (List.map_filter (\<lambda>(p, txt). map_option (\<lambda>t. parseMember t (path_base p)) txt) (sort_key fst files))"

section \<open>Ensembles without a leader\<close>

definition Leaderless :: "Member list \<Rightarrow> string list" where
  "Leaderless ms =
     (let order = dedup (filter (\<lambda>e. e \<noteq> []) (map m_Ensemble ms));
          count = (\<lambda>e s. length (filter (\<lambda>m. m_Ensemble m = e \<and> m_State m = s) ms))
      in filter (\<lambda>e. count e ''not serving'' \<ge> 2 \<and> count e ''serving'' = 0) order)"


section \<open>A file read back\<close>

text \<open>The bytes before a section, the name of its command and the bytes below it.\<close>

abbreviation mark :: string where "mark \<equiv> NL # ''## ''"

lemma put_text_simps [simp]:
  "pr_text (put_text s p) = pr_text p @ s" "pr_stopped (put_text s p) = pr_stopped p" "pr_notServing (put_text s p) = pr_notServing p"
  "pr_core (put_text s p) = pr_core p" "pr_answered (put_text s p) = pr_answered p" "pr_refused (put_text s p) = pr_refused p"
  "pr_timedOut (put_text s p) = pr_timedOut p" "pr_lastErr (put_text s p) = pr_lastErr p"
  by (simp_all add: put_text_def)

definition body_of :: "KeeperOptions \<Rightarrow> string \<Rightarrow> conversation \<Rightarrow> string \<Rightarrow> string" where
  "body_of opts cmd cv stop =
     (if stop \<noteq> [] then ''skipped '' @ em_dash @ '' '' @ stop @ [NL]
      else (case FourLetter cv of
          (reply, Some e) \<Rightarrow> pr_text (probe_error opts cmd reply e (fresh_probe []))
        | (reply, None) \<Rightarrow> pr_text (probe_reply opts cmd reply (fresh_probe []))))"

definition stop_of :: "KeeperOptions \<Rightarrow> string \<Rightarrow> conversation \<Rightarrow> string \<Rightarrow> string" where
  "stop_of opts cmd cv stop =
     (if stop \<noteq> [] then stop
      else (case FourLetter cv of
          (reply, Some e) \<Rightarrow> pr_stopped (probe_error opts cmd reply e (fresh_probe []))
        | (reply, None) \<Rightarrow> []))"

lemma probe_error_text: "pr_text (probe_error opts cmd reply e p) = pr_text p @ pr_text (probe_error opts cmd reply e (fresh_probe []))"
  by (simp add: probe_error_def Let_def fresh_probe_def)

lemma probe_reply_text: "pr_text (probe_reply opts cmd reply p) = pr_text p @ pr_text (probe_reply opts cmd reply (fresh_probe []))"
  by (simp add: probe_reply_def Let_def fresh_probe_def)

lemma probe_error_stop: "pr_stopped (probe_error opts cmd reply e p) = pr_stopped (probe_error opts cmd reply e (fresh_probe []))"
  by (simp add: probe_error_def Let_def)

lemma probe_reply_stop: "pr_stopped (probe_reply opts cmd reply p) = pr_stopped p"
  by (simp add: probe_reply_def Let_def)

lemma step_text: "pr_text (probe_step opts net cmd p) = pr_text p @ mark @ cmd @ NL # body_of opts cmd (net cmd) (pr_stopped p)"
  by (simp add: probe_step_def body_of_def Let_def probe_error_text [where p = "put_text _ _"] probe_reply_text [where p = "put_text _ _"]
      split: prod.split option.split)

lemma step_stopped: "pr_stopped (probe_step opts net cmd p) = stop_of opts cmd (net cmd) (pr_stopped p)"
  by (simp add: probe_step_def stop_of_def Let_def probe_error_stop [where p = "put_text _ _"] probe_reply_stop
      split: prod.split option.split)

primrec bodies :: "KeeperOptions \<Rightarrow> (string \<Rightarrow> conversation) \<Rightarrow> string \<Rightarrow> string list \<Rightarrow> (string \<times> string) list" where
  "bodies opts net stop [] = []"
| "bodies opts net stop (cmd # cmds) =
     (cmd, body_of opts cmd (net cmd) stop) # bodies opts net (stop_of opts cmd (net cmd) stop) cmds"

definition block_of :: "string \<times> string \<Rightarrow> string" where
  "block_of cb = mark @ fst cb @ NL # snd cb"

lemma run_text: "pr_text (fold (probe_step opts net) cmds p) = pr_text p @ concat (map block_of (bodies opts net (pr_stopped p) cmds))"
  by (induction cmds arbitrary: p) (simp_all add: step_text step_stopped block_of_def)

lemma bodies_names: "map fst (bodies opts net stop cmds) = cmds"
  by (induction cmds arbitrary: stop) simp_all

text \<open>Splitting at a mark that begins with a newline and has no other.\<close>

lemma str_index_mark:
  assumes "NL \<notin> set m" "\<not> contains x (NL # m)"
  shows "str_index (x @ (NL # m) @ y) (NL # m) = Some (length x)"
  using assms(2)
proof (induction x)
  case Nil
  then show ?case by (simp add: has_prefix_def)
next
  case (Cons c x)
  have "\<not> contains x (NL # m)" using Cons.prems unfolding contains_iff by (metis append_Cons)
  moreover have "\<not> has_prefix (c # x @ (NL # m) @ y) (NL # m)"
  proof
    assume "has_prefix (c # x @ (NL # m) @ y) (NL # m)"
    then obtain r where r: "c = NL" "x @ (NL # m) @ y = m @ r" by (auto simp: has_prefix_iff)
    show False
    proof (cases "length m \<le> length x")
      case True
      then have "take (length m) x = m" using arg_cong [OF r(2), of "take (length m)"] by simp
      then have "c # x = [] @ (NL # m) @ drop (length m) x" using r(1) by (metis append_Cons append_Nil append_take_drop_id)
      then show False using Cons.prems unfolding contains_iff by blast
    next
      case False
      then have "m ! length x = NL" using arg_cong [OF r(2), of "\<lambda>s. s ! length x"] by (simp add: nth_append)
      then show False using False assms(1) by (metis not_le nth_mem)
    qed
  qed
  ultimately show ?case using Cons.IH by simp
qed

lemma split_str_none: "\<not> contains x sep \<Longrightarrow> split_str sep x = [x]"
  by (simp add: split_str.simps contains_def)

lemma split_str_mark:
  assumes "NL \<notin> set m" "\<not> contains x (NL # m)"
  shows "split_str (NL # m) (x @ (NL # m) @ y) = x # split_str (NL # m) y"
  by (subst split_str.simps) (simp add: str_index_mark [OF assms, simplified])

lemma split_blocks:
  assumes "\<not> contains x mark" "list_all (\<lambda>cb. \<not> contains (fst cb @ NL # snd cb) mark) bs"
  shows "split_str mark (x @ concat (map block_of bs)) = x # map (\<lambda>cb. fst cb @ NL # snd cb) bs"
  using assms
proof (induction bs arbitrary: x)
  case (Cons b bs)
  have "NL \<notin> set ''## ''" by (simp add: go_defs)
  note split = split_str_mark [OF this Cons.prems(1)]
  have "split_str mark ((fst b @ NL # snd b) @ concat (map block_of bs)) =
      (fst b @ NL # snd b) # map (\<lambda>cb. fst cb @ NL # snd cb) bs"
    using Cons.prems(2) by (intro Cons.IH) simp_all
  with split [of "(fst b @ NL # snd b) @ concat (map block_of bs)"] show ?case by (simp add: block_of_def [of b])
qed (simp add: split_str_none)


text \<open>No line of the text begins a section.\<close>

definition no_marks :: "string \<Rightarrow> bool" where
  "no_marks s \<longleftrightarrow> list_all (\<lambda>l. \<not> has_prefix l ''## '') (split_byte NL s)"

lemma split_byte_at: "split_byte b (s @ b # t) = split_byte b s @ split_byte b t"
proof (induction s)
  case (Cons c s)
  have "split_byte b s \<noteq> []" by (induction s) (auto split: list.splits)
  with Cons show ?case by (auto split: list.splits)
qed simp

lemma no_marks_at: "no_marks (s @ NL # t) \<longleftrightarrow> no_marks s \<and> no_marks t"
  by (simp add: no_marks_def split_byte_at)

lemma no_marks_Nil: "no_marks []"
  by (simp add: no_marks_def has_prefix_def)

lemma no_marks_line: "NL \<notin> set s \<Longrightarrow> no_marks s \<longleftrightarrow> \<not> has_prefix s ''## ''"
  by (simp add: no_marks_def split_byte_noB)

lemma marks_split: "split_byte NL (''## '' @ t) = (''## '' @ hd (split_byte NL t)) # tl (split_byte NL t)"
proof -
  have "split_byte NL t \<noteq> []" by (induction t) (auto split: list.splits)
  then show ?thesis by (cases "split_byte NL t") (simp_all add: go_defs)
qed

lemma no_marks_contains: "no_marks s \<Longrightarrow> \<not> contains (NL # s) mark"
proof
  assume s: "no_marks s" and "contains (NL # s) mark"
  then obtain a b where ab: "NL # s = a @ NL # (''## '' @ b)" unfolding contains_iff by (metis append_Cons)
  have bad: "\<not> no_marks (''## '' @ b)" unfolding no_marks_def marks_split by (simp add: has_prefix_def)
  show False
  proof (cases a)
    case Nil
    with ab s bad show False by simp
  next
    case (Cons c a')
    with ab have "s = a' @ NL # (''## '' @ b)" by simp
    with s no_marks_at [of a' "''## '' @ b"] have "no_marks (''## '' @ b)" by simp
    with bad show False ..
  qed
qed

lemma no_marks_tail: "no_marks s \<Longrightarrow> \<not> contains s mark"
  using no_marks_contains [of s] unfolding contains_iff by (metis append_Cons)

text \<open>Texts without a newline.\<close>

lemma no_NL_digits: "list_all is_digit s \<Longrightarrow> NL \<notin> set s"
  by (auto simp: list_all_iff go_defs in_range_def code_def)

lemma no_NL_nat: "NL \<notin> set (nat_str n)"
  by (rule no_NL_digits [OF digits_nat_str])

lemma no_NL_pad_nat: "NL \<notin> set (pad_nat w n)"
  using no_NL_nat by (auto simp: pad_nat_def go_defs)

lemma no_NL_pad: "NL \<notin> set (pad_int w n)"
  using no_NL_pad_nat by (auto simp: pad_int_def go_defs)

lemma no_NL_rfc3339: "NL \<notin> set (fmt_rfc3339 t)"
  using no_NL_pad by (auto simp: fmt_rfc3339_def fmt_date_def fmt_clock_def Let_def go_defs split: prod.split)

lemma no_NL_dur: "NL \<notin> set (dur_string d)"
proof -
  have "NL \<notin> set (fmt_frac v n)" for v n
    using no_NL_nat [of "v div 10 ^ n"] no_NL_pad_nat [of n "v mod 10 ^ n"]
    by (auto simp: fmt_frac_def Let_def trim_right_def go_defs dest: set_dropWhileD)
  with no_NL_nat show ?thesis by (auto simp: dur_string_def Let_def go_defs)
qed


text \<open>What trimming leaves.\<close>

lemma trim_right_at: "w \<noteq> [] \<Longrightarrow> \<not> p (last w) \<Longrightarrow> trim_right p (w @ z) = w @ trim_right p z"
proof -
  assume w: "w \<noteq> []" "\<not> p (last w)"
  then have "dropWhile p (rev w) = rev w" by (cases w rule: rev_cases) simp_all
  then show ?thesis by (auto simp: trim_right_def dropWhile_append rev_swap dropWhile_eq_Nil_conv)
qed

lemma trim_at: "w \<noteq> [] \<Longrightarrow> \<not> is_space (hd w) \<Longrightarrow> \<not> is_space (last w) \<Longrightarrow> trim_space (w @ z) = w @ trim_right is_space z"
proof -
  assume w: "w \<noteq> []" "\<not> is_space (hd w)" "\<not> is_space (last w)"
  then have "trim_left is_space (w @ z) = w @ z" by (cases w) (simp_all add: trim_left_def)
  then show ?thesis using trim_right_at [of w is_space z] w by (simp add: trim_space_def trim_both_def)
qed

lemma trim_drop_NL: "trim_space (r @ [NL]) = trim_space r"
proof -
  have nl: "is_space NL" by (simp add: go_defs code_def)
  have "trim_left is_space (r @ [NL]) = (if trim_left is_space r = [] then [] else trim_left is_space r @ [NL])"
    using nl by (auto simp: trim_left_def dropWhile_append dropWhile_eq_Nil_conv)
  moreover have "trim_right is_space (w @ [NL]) = trim_right is_space w" for w
    using nl by (simp add: trim_right_def)
  ultimately show ?thesis by (simp add: trim_space_def trim_both_def)
qed

lemma trim_error_line:
  "\<exists>x. trim_space (s @ NL # ''error:'' @ z) = x @ ''error:'' @ trim_right is_space z \<and> (x = [] \<or> (\<exists>y. x = y @ [NL]))"
proof -
  have left: "trim_left is_space (s @ NL # ''error:'' @ z) = (if trim_left is_space s = [] then [] else trim_left is_space s @ [NL]) @ ''error:'' @ z"
    by (auto simp: trim_left_def dropWhile_append go_defs is_space_def dropWhile_eq_Nil_conv)
  have right: "trim_right is_space ((x @ ''error:'') @ z) = (x @ ''error:'') @ trim_right is_space z" for x
    by (rule trim_right_at) (simp_all add: go_defs is_space_def)
  have "trim_space (s @ NL # ''error:'' @ z) =
      (if trim_left is_space s = [] then [] else trim_left is_space s @ [NL]) @ ''error:'' @ trim_right is_space z"
    unfolding trim_space_def trim_both_def left using right by simp
  then show ?thesis by auto
qed

lemma error_line_at: "(x = [] \<or> (\<exists>y. x = y @ [NL])) \<Longrightarrow> has_error_line (x @ ''error:'' @ z)"
proof -
  have "split_byte NL z \<noteq> []" by (induction z) (auto split: list.splits)
  then have "has_error_line (''error:'' @ z)"
    by (cases "split_byte NL z") (simp_all add: has_error_line_def go_defs has_prefix_def)
  moreover have "has_error_line ((y @ [NL]) @ t) \<longleftrightarrow> has_error_line y \<or> has_error_line t" for y t
    by (simp add: has_error_line_def split_byte_at)
  ultimately show "(x = [] \<or> (\<exists>y. x = y @ [NL])) \<Longrightarrow> ?thesis" by (metis append_Nil)
qed

definition not_serving_texts :: "string list" where
  "not_serving_texts = [''This instance is not currently serving requests'', ''This ZooKeeper instance is not currently serving requests'']"

lemma match_Bot: "match_string (Seq Bot r) s \<longleftrightarrow> matches r (M 0 None s []) \<noteq> []"
proof -
  have "matches (Seq Bot r) (M k pv t []) \<noteq> [] \<longleftrightarrow> pv = None \<and> matches r (M k pv t []) \<noteq> []" for k pv t
    by (cases pv) simp_all
  then show ?thesis unfolding match_string_iff by auto
qed

lemma matches_lit_alt:
  "matches (Seq (lit a) (Seq (opt_of (Grp n (lit b))) (Seq (lit c) Eot))) (M 0 None s []) \<noteq> [] \<longleftrightarrow> s = a @ c \<or> s = a @ b @ c"
proof -
  have eot: "matches (Seq (lit c) Eot) st \<noteq> [] \<longleftrightarrow> mrest st = c" for st
    by (auto simp: matches_lit has_prefix_iff adv_def)
  have opt: "matches (Seq (opt_of (Grp n (lit b))) r) st \<noteq> [] \<longleftrightarrow>
      (\<exists>t\<in>set (matches (Grp n (lit b)) st). matches r t \<noteq> []) \<or> matches r st \<noteq> []" for r st
    unfolding matches_Seq_ex by auto
  have grp: "(\<exists>t\<in>set (matches (Grp n (lit b)) st). matches (Seq (lit c) Eot) t \<noteq> []) \<longleftrightarrow> mrest st = b @ c" for st
    unfolding eot by (auto simp: matches_lit has_prefix_iff adv_def)
  have tail: "matches (Seq (opt_of (Grp n (lit b))) (Seq (lit c) Eot)) st \<noteq> [] \<longleftrightarrow> mrest st = c \<or> mrest st = b @ c" for st
    using opt [of "Seq (lit c) Eot" st] grp [of st] eot [of st] by argo
  show ?thesis unfolding matches_lit_Seq tail by (auto simp: has_prefix_iff adv_def)
qed

lemma IsNotServing_iff: "IsNotServing s \<longleftrightarrow> trim_space s \<in> set not_serving_texts"
proof -
  have eq: "re_not_serving = Seq Bot (Seq (lit ''This '') (Seq (opt_of (Grp 1 (lit ''ZooKeeper '')))
      (Seq (lit ''instance is not currently serving requests'') Eot)))"
    by (simp only: re_not_serving_def seqs.simps)
  show ?thesis unfolding IsNotServing_def eq match_Bot matches_lit_alt not_serving_texts_def by simp
qed

lemma IsNotServing_trim: "IsNotServing (trim_space s) \<longleftrightarrow> IsNotServing s"
  by (simp add: IsNotServing_iff trim_space_def)


text \<open>What a reader makes of the body of a section.\<close>

definition clean_conv :: "KeeperOptions \<Rightarrow> string \<Rightarrow> conversation \<Rightarrow> bool" where
  "clean_conv opts cmd cv =
     (case FourLetter cv of (reply, e) \<Rightarrow>
        let r = no_newline_end (filtered cmd reply (k_GovSalt opts)) in
        no_marks r \<and>
        (case e of
           Some e \<Rightarrow> NL \<notin> set (ne_text e)
         | None \<Rightarrow> (r = [] \<or> trim_space r \<noteq> []) \<and> \<not> has_prefix (trim_space r) ''skipped'' \<and> \<not> has_prefix (trim_space r) ''(empty reply''
             \<and> \<not> has_error_line (trim_space r)))"

definition refuses :: "KeeperOptions \<Rightarrow> string \<Rightarrow> conversation \<Rightarrow> string \<Rightarrow> bool" where
  "refuses opts cmd cv stop \<longleftrightarrow> stop = [] \<and> (case FourLetter cv of
     (reply, None) \<Rightarrow> IsNotServing (no_newline_end (filtered cmd reply (k_GovSalt opts))) | _ \<Rightarrow> False)"

definition answers :: "KeeperOptions \<Rightarrow> string \<Rightarrow> conversation \<Rightarrow> string \<Rightarrow> bool" where
  "answers opts cmd cv stop \<longleftrightarrow> stop = [] \<and> (case FourLetter cv of
     (reply, None) \<Rightarrow> let r = no_newline_end (filtered cmd reply (k_GovSalt opts)) in r \<noteq> [] \<and> \<not> IsNotServing r | _ \<Rightarrow> False)"

lemma not_serving_colon: "IsNotServing s \<Longrightarrow> CHR '':'' \<notin> set (trim_space s)"
  by (auto simp: IsNotServing_iff not_serving_texts_def)

lemma not_serving_start: "IsNotServing s \<Longrightarrow> has_prefix (trim_space s) ''This''"
  by (auto simp: IsNotServing_iff not_serving_texts_def has_prefix_def)

lemma IsNotServing_Nil: "\<not> IsNotServing []"
  by (simp add: IsNotServing_iff not_serving_texts_def trim_space_def trim_both_def trim_left_def trim_right_def)

lemma step_counts:
  "pr_notServing (probe_step opts net cmd p) = pr_notServing p + (if refuses opts cmd (net cmd) (pr_stopped p) then 1 else 0)"
  "pr_answered (probe_step opts net cmd p) = pr_answered p + (if answers opts cmd (net cmd) (pr_stopped p) then 1 else 0)"
  "pr_core (probe_step opts net cmd p) =
     pr_core p + (if answers opts cmd (net cmd) (pr_stopped p) \<and> cmd \<in> set coreCommands then 1 else 0)"
  using IsNotServing_Nil
  by (auto simp: probe_step_def refuses_def answers_def probe_error_def probe_reply_def Let_def split: prod.split option.split)

definition unread :: "string \<Rightarrow> bool" where
  "unread b \<longleftrightarrow> \<not> IsNotServing b \<and> \<not> answered_section b"

lemma unread_skipped: "unread (trim_space (''skipped'' @ z))"
proof -
  have trim: "trim_space (''skipped'' @ z) = ''skipped'' @ trim_right is_space z" by (rule trim_at) (simp_all add: is_space_def in_range_def code_def)
  moreover have "\<not> IsNotServing (trim_space (''skipped'' @ z))"
    unfolding IsNotServing_trim using not_serving_start [of "''skipped'' @ z", unfolded trim] by (auto simp: has_prefix_def)
  ultimately show ?thesis using trim by (simp add: unread_def answered_section_def has_prefix_def)
qed

lemma unread_empty: "unread (trim_space (''(empty reply'' @ z))"
proof -
  have trim: "trim_space (''(empty reply'' @ z) = ''(empty reply'' @ trim_right is_space z" by (rule trim_at) (simp_all add: is_space_def in_range_def code_def)
  moreover have "\<not> IsNotServing (trim_space (''(empty reply'' @ z))"
    unfolding IsNotServing_trim using not_serving_start [of "''(empty reply'' @ z", unfolded trim] by (auto simp: has_prefix_def)
  ultimately show ?thesis using trim by (simp add: unread_def answered_section_def has_prefix_def)
qed

lemma unread_error: "unread (trim_space ((if part = [] then [] else part @ [NL]) @ ''error:'' @ z))"
proof -
  obtain x where x: "trim_space ((if part = [] then [] else part @ [NL]) @ ''error:'' @ z) = x @ ''error:'' @ trim_right is_space z"
    "x = [] \<or> (\<exists>y. x = y @ [NL])"
  proof (cases "part = []")
    case True
    have "trim_space (''error:'' @ z) = ''error:'' @ trim_right is_space z" by (rule trim_at) (simp_all add: is_space_def in_range_def code_def)
    with True that [of "[]"] show ?thesis by simp
  next
    case False
    with trim_error_line [of part z] that show ?thesis by auto
  qed
  from x(2) have "has_error_line (x @ ''error:'' @ trim_right is_space z)" by (rule error_line_at)
  moreover have "\<not> IsNotServing (x @ ''error:'' @ trim_right is_space z)"
    using not_serving_colon [of "x @ ''error:'' @ trim_right is_space z"] x(1) by (metis Un_iff list.set_intros set_append trim_both_idem trim_space_def)
  ultimately show ?thesis unfolding x(1) unread_def answered_section_def by simp
qed


lemma probe_error_body: "\<exists>part w. pr_text (probe_error opts cmd reply e (fresh_probe [])) = (if part = [] then [] else part @ [NL]) @ ''error:'' @ w @ [NL]
    \<and> (part = [] \<or> part = no_newline_end (filtered cmd reply (k_GovSalt opts))) \<and> (NL \<notin> set (ne_text e) \<longrightarrow> NL \<notin> set w)"
proof -
  let ?part = "if reply = [] then [] else no_newline_end (filtered cmd reply (k_GovSalt opts))"
  let ?w = "if ne_timeout e then '' timeout after '' @ dur_string (k_ReadTimeout opts) @ (if ?part = [] then [] else '' '' @ em_dash @ '' reply truncated'')
    else if contains (ne_text e) ''connection refused'' then '' connection refused''
    else if k_GovSalt opts \<noteq> [] then '' (message withheld in gov mode)'' else '' '' @ ne_text e"
  have "pr_text (probe_error opts cmd reply e (fresh_probe [])) = (if ?part = [] then [] else ?part @ [NL]) @ ''error:'' @ ?w @ [NL]"
    by (simp add: probe_error_def Let_def fresh_probe_def)
  moreover have "NL \<notin> set (ne_text e) \<longrightarrow> NL \<notin> set ?w" using no_NL_dur by (simp add: em_dash_def go_defs)
  ultimately show ?thesis by (intro exI [of _ ?part] exI [of _ ?w]) simp
qed

lemma body_verdict:
  assumes "clean_conv opts cmd cv"
  shows "IsNotServing (trim_space (body_of opts cmd cv stop)) = refuses opts cmd cv stop
    \<and> answered_section (trim_space (body_of opts cmd cv stop)) = answers opts cmd cv stop"
proof -
  obtain reply e where fl: "FourLetter cv = (reply, e)" by (cases "FourLetter cv")
  let ?r = "no_newline_end (filtered cmd reply (k_GovSalt opts))"
  consider "stop \<noteq> []" | err where "stop = []" "e = Some err" | "stop = []" "e = None" "?r = []" | "stop = []" "e = None" "?r \<noteq> []"
    by (cases "stop = []"; cases e) auto
  then show ?thesis
  proof cases
    case 1
    with unread_skipped [of "'' '' @ em_dash @ '' '' @ stop @ [NL]"] show ?thesis by (simp add: body_of_def refuses_def answers_def unread_def)
  next
    case 2
    obtain part w where "body_of opts cmd cv stop = (if part = [] then [] else part @ [NL]) @ ''error:'' @ w @ [NL]"
      using probe_error_body [of opts cmd reply err] 2 fl by (auto simp: body_of_def)
    with unread_error [of part "w @ [NL]"] 2 fl show ?thesis by (simp only: refuses_def answers_def unread_def) simp
  next
    case 3
    from 3 fl unread_empty [of "'' '' @ em_dash @ '' command not enabled in four_letter_word_white_list, or not known to this Keeper version)'' @ [NL]"]
    show ?thesis using IsNotServing_Nil by (simp add: body_of_def refuses_def answers_def unread_def probe_reply_def Let_def fresh_probe_def)
  next
    case 4
    have body: "body_of opts cmd cv stop = ?r @ [NL]" using 4 fl by (simp add: body_of_def probe_reply_def Let_def fresh_probe_def)
    from 4 fl assms show ?thesis unfolding body trim_drop_NL IsNotServing_trim
      by (auto simp: refuses_def answers_def answered_section_def IsNotServing_trim clean_conv_def Let_def)
  qed
qed

lemma body_clean:
  assumes "clean_conv opts cmd cv" "NL \<notin> set stop"
  shows "no_marks (body_of opts cmd cv stop)"
proof -
  obtain reply e where fl: "FourLetter cv = (reply, e)" by (cases "FourLetter cv")
  let ?r = "no_newline_end (filtered cmd reply (k_GovSalt opts))"
  have r: "no_marks ?r" using assms(1) fl by (simp add: clean_conv_def Let_def)
  have line: "no_marks (w @ [NL])" if "NL \<notin> set w" "\<not> has_prefix w ''## ''" for w
    using that no_marks_at [of w "[]"] no_marks_Nil by (simp add: no_marks_line)
  consider "stop \<noteq> []" | err where "stop = []" "e = Some err" | "stop = []" "e = None" by (cases "stop = []"; cases e) auto
  then show ?thesis
  proof cases
    case 1
    then show ?thesis using line [of "''skipped '' @ em_dash @ '' '' @ stop"] assms(2)
      by (simp add: body_of_def em_dash_def go_defs has_prefix_def)
  next
    case 2
    then obtain part w where w: "body_of opts cmd cv stop = (if part = [] then [] else part @ [NL]) @ ''error:'' @ w @ [NL]"
      "part = [] \<or> part = ?r" "NL \<notin> set (ne_text err) \<longrightarrow> NL \<notin> set w"
      using probe_error_body [of opts cmd reply err] fl by (auto simp: body_of_def)
    have "no_marks ((''error:'' @ w) @ [NL])"
      using w(3) 2 fl assms(1) by (intro line) (simp_all add: clean_conv_def Let_def go_defs has_prefix_def)
    with w(1,2) r no_marks_at [of part "''error:'' @ w @ [NL]"] show ?thesis by auto
  next
    case 3
    then show ?thesis
      using fl r no_marks_at [of ?r "[]"] no_marks_Nil
        line [of "''(empty reply '' @ em_dash @ '' command not enabled in four_letter_word_white_list, or not known to this Keeper version)''"]
      by (simp add: body_of_def probe_reply_def Let_def fresh_probe_def em_dash_def go_defs has_prefix_def)
  qed
qed


lemma stop_clean: "NL \<notin> set cmd \<Longrightarrow> NL \<notin> set stop \<Longrightarrow> NL \<notin> set (stop_of opts cmd cv stop)"
  by (auto simp: stop_of_def probe_error_def Let_def fresh_probe_def go_defs split: prod.splits option.splits)

definition asked_ok :: "KeeperOptions \<Rightarrow> (string \<Rightarrow> conversation) \<Rightarrow> string list \<Rightarrow> bool" where
  "asked_ok opts net cmds \<longleftrightarrow> list_all (\<lambda>c. NL \<notin> set c \<and> clean_conv opts c (net c)) cmds"

lemma bodies_clean:
  "asked_ok opts net cmds \<Longrightarrow> NL \<notin> set stop \<Longrightarrow> list_all (\<lambda>cb. no_marks (snd cb)) (bodies opts net stop cmds)"
  by (induction cmds arbitrary: stop) (simp_all add: asked_ok_def body_clean stop_clean)

lemma run_counts:
  "asked_ok opts net cmds \<Longrightarrow> NL \<notin> set (pr_stopped p) \<Longrightarrow>
    pr_notServing (fold (probe_step opts net) cmds p) =
      pr_notServing p + length (filter (\<lambda>cb. IsNotServing (trim_space (snd cb))) (bodies opts net (pr_stopped p) cmds)) \<and>
    pr_answered (fold (probe_step opts net) cmds p) =
      pr_answered p + length (filter (\<lambda>cb. answered_section (trim_space (snd cb))) (bodies opts net (pr_stopped p) cmds)) \<and>
    pr_core (fold (probe_step opts net) cmds p) =
      pr_core p + length (filter (\<lambda>cb. answered_section (trim_space (snd cb)) \<and> fst cb \<in> set coreCommands) (bodies opts net (pr_stopped p) cmds))"
proof (induction cmds arbitrary: p)
  case (Cons c cmds)
  have "clean_conv opts c (net c)" "asked_ok opts net cmds" "NL \<notin> set (pr_stopped (probe_step opts net c p))"
    using Cons.prems by (simp_all add: asked_ok_def step_stopped stop_clean)
  with Cons.IH [of "probe_step opts net c p"] body_verdict [of opts c "net c" "pr_stopped p"] show ?case
    by (simp add: step_counts step_stopped)
qed simp

lemma header_clean:
  assumes "NL \<notin> set (KeeperLabel (t_Host t) (k_GovSalt opts) @ t_Port t @ ensemble_shown opts t)"
  shows "no_marks (probe_header opts t now)"
proof -
  have line: "no_marks (w @ NL # s)" if "NL \<notin> set w" "\<not> has_prefix w ''## ''" "no_marks s" for w s
    using that by (simp add: no_marks_at no_marks_line)
  let ?a = "''# clickhouse-diagnostic '' @ em_dash @ '' Keeper four-letter commands''"
  let ?b = "''# target: '' @ KeeperLabel (t_Host t) (k_GovSalt opts) @ '':'' @ t_Port t"
  let ?c = "''# ensemble: '' @ ensemble_shown opts t"
  let ?d = "''# collected_at: '' @ fmt_rfc3339 now"
  let ?e = "''# commands: '' @ str_join '', '' Commands @ '' (stat/cons are never sent '' @ em_dash @ '' they list client addresses)''"
  have h: "probe_header opts t now = ?a @ NL # ?b @ NL # ?c @ NL # ?d @ NL # ?e @ NL # []" by (simp add: probe_header_def)
  have "NL \<notin> set ?a" "NL \<notin> set ?e" by (simp_all add: em_dash_def go_defs Commands_def)
  moreover have "NL \<notin> set ?b" "NL \<notin> set ?c" "NL \<notin> set ?d" using assms no_NL_rfc3339 by (simp_all add: go_defs)
  moreover have "\<not> has_prefix ?a ''## ''" "\<not> has_prefix ?b ''## ''" "\<not> has_prefix ?c ''## ''" "\<not> has_prefix ?d ''## ''" "\<not> has_prefix ?e ''## ''"
    by (simp_all add: has_prefix_def)
  ultimately show ?thesis unfolding h by (intro line no_marks_Nil)
qed

lemma commands_plain: "c \<in> set Commands \<Longrightarrow> NL \<notin> set c \<and> trim_space c = c \<and> no_marks c"
proof -
  assume c: "c \<in> set Commands"
  have "list_all (\<lambda>c. c \<noteq> [] \<and> \<not> is_space (hd c) \<and> \<not> is_space (last c)) Commands"
    by (simp add: Commands_def)
  with c trim_at [of c "[]"] have "trim_space c = c" by (simp add: list_all_iff trim_right_def)
  moreover have "list_all (\<lambda>c. NL \<notin> set c \<and> \<not> has_prefix c ''## '') Commands" by (simp add: Commands_def NL_def has_prefix_def)
  ultimately show "NL \<notin> set c \<and> trim_space c = c \<and> no_marks c" using c by (auto simp: list_all_iff no_marks_line)
qed

lemma sections_read:
  assumes "no_marks header" "list_all (\<lambda>cb. no_marks (snd cb)) bs" "set (map fst bs) \<subseteq> set Commands"
  shows "sections (header @ concat (map block_of bs)) = map (\<lambda>cb. (fst cb, trim_space (snd cb))) bs"
proof -
  have "list_all (\<lambda>cb. \<not> contains (fst cb @ NL # snd cb) mark) bs"
    unfolding list_all_iff
  proof
    fix cb assume cb: "cb \<in> set bs"
    then have "no_marks (fst cb)" using assms(3) commands_plain [of "fst cb"] by auto
    with cb assms(2) show "\<not> contains (fst cb @ NL # snd cb) mark" by (intro no_marks_tail) (simp add: no_marks_at list_all_iff)
  qed
  from split_blocks [OF no_marks_contains [OF assms(1)] this]
  have "sections (header @ concat (map block_of bs)) = map section_of (map (\<lambda>cb. fst cb @ NL # snd cb) bs)"
    by (simp add: sections_def)
  moreover have "section_of (c @ NL # b) = (c, trim_space b)" if "c \<in> set Commands" for c b
  proof -
    have "cut (c @ NL # b) [NL] = Some (c, b)" using commands_plain [OF that] by (simp add: cut_byte_Some)
    with commands_plain [OF that] show ?thesis by (simp add: section_of_def)
  qed
  ultimately show ?thesis using assms(3) by auto
qed


text \<open>The sections of a file by their names.\<close>

lemma get_distinct: "distinct (map fst sec) \<Longrightarrow> (k, v) \<in> set sec \<Longrightarrow> get sec k = v"
proof -
  assume d: "distinct (map fst sec)" "(k, v) \<in> set sec"
  then have "distinct (map fst (rev sec))" by (simp add: rev_map [symmetric])
  with d(2) have "map_of (rev sec) k = Some v" by simp
  then show "get sec k = v" by (simp add: get_def)
qed

lemma state_of_sections:
  assumes "map fst sec = Commands"
  shows "member_state sec =
     (if list_ex (\<lambda>s. IsNotServing (snd s)) sec then ''not serving''
      else if list_ex (\<lambda>s. fst s \<in> set [''srvr'', ''mntr''] \<and> answered_section (snd s)) sec then ''serving''
      else if list_ex (\<lambda>s. has_error_line (snd s)) sec then ''probe failed'' else ''unknown'')"
proof -
  have d: "distinct (map fst sec)" unfolding assms by (simp add: Commands_def)
  have get: "get sec (fst s) = snd s" if "s \<in> set sec" for s using get_distinct [OF d, of "fst s" "snd s"] that by simp
  have "dedup (map fst sec) = map fst sec" using dedup_seen_distinct [OF d, of "[]"] by simp
  then have bodies: "map (get sec) (dedup (map fst sec)) = map snd sec" using get by simp
  have named: "answered_section (get sec c) \<longleftrightarrow> list_ex (\<lambda>s. fst s = c \<and> answered_section (snd s)) sec" if c: "c \<in> set Commands" for c
  proof -
    obtain s where "s \<in> set sec" "c = fst s" using c unfolding assms [symmetric] by auto
    with get show ?thesis unfolding list_ex_iff by metis
  qed
  have "list_ex (\<lambda>s. fst s \<in> set [''srvr'', ''mntr''] \<and> answered_section (snd s)) sec
      \<longleftrightarrow> answered_section (get sec ''srvr'') \<or> answered_section (get sec ''mntr'')"
    unfolding named [of "''srvr''", unfolded Commands_def, simplified] named [of "''mntr''", unfolded Commands_def, simplified]
    by (auto simp: list_ex_iff)
  then show ?thesis unfolding member_state_def Let_def bodies by (simp add: list_ex_iff)
qed

lemma core_all:
  assumes "map fst bs = Commands" "length (filter (\<lambda>cb. P (snd cb) \<and> fst cb \<in> set coreCommands) bs) = length coreCommands"
  shows "list_ex (\<lambda>cb. fst cb \<in> set [''srvr'', ''mntr''] \<and> P (snd cb)) bs"
proof (rule ccontr)
  assume none: "\<not> ?thesis"
  have sub: "filter (\<lambda>cb. P (snd cb) \<and> fst cb \<in> set coreCommands) bs = filter (\<lambda>cb. P (snd cb) \<and> fst cb = ''ruok'') bs"
    using none by (intro filter_cong) (auto simp: coreCommands_def list_ex_iff)
  have "length (filter (\<lambda>cb. P (snd cb) \<and> fst cb = ''ruok'') bs) \<le> length (filter (\<lambda>c. c = ''ruok'') (map fst bs))"
    by (induction bs) auto
  also have "\<dots> = 1" unfolding assms(1) by (simp add: Commands_def)
  finally show False using assms(2) unfolding sub by (simp add: coreCommands_def)
qed

lemma list_ex_map: "list_ex P (map f xs) = list_ex (\<lambda>x. P (f x)) xs"
  by (induction xs) simp_all

lemma member_state_agrees_lemma:
  fixes now :: time and fallback :: string
  assumes "list_all (\<lambda>c. clean_conv opts c (net c)) Commands"
    "NL \<notin> set (KeeperLabel (t_Host t) (k_GovSalt opts) @ t_Port t @ ensemble_shown opts t)"
  defines "p \<equiv> run_probe opts net t now"
  defines "s \<equiv> m_State (parseMember (pr_text p) fallback)"
  shows "(s = ''not serving'' \<longleftrightarrow> probe_status p = ''not serving'') \<and> (probe_status p \<noteq> ''ok'' \<or> s = ''serving'') \<and>
    (s \<noteq> ''serving'' \<or> probe_status p \<in> set [''ok'', ''partial''])"
proof -
  let ?bs = "bodies opts net [] Commands"
  let ?sec = "map (\<lambda>cb. (fst cb, trim_space (snd cb))) ?bs"
  have asked: "asked_ok opts net Commands" using assms(1) commands_plain by (auto simp: asked_ok_def list_all_iff)
  have written: "pr_text p = probe_header opts t now @ concat (map block_of ?bs)"
    by (simp add: p_def run_probe_def run_text fresh_probe_def)
  have names: "map fst ?bs = Commands" by (rule bodies_names)
  have "sections (pr_text p) = ?sec" unfolding written
    using header_clean [OF assms(2)] bodies_clean [OF asked] names by (intro sections_read) simp_all
  then have s: "s = member_state ?sec" by (simp add: s_def parseMember_def Let_def)
  have "map fst ?sec = Commands" using names by (simp add: comp_def)
  note state = state_of_sections [OF this, folded s]
  have counts: "pr_notServing p = length (filter (\<lambda>cb. IsNotServing (trim_space (snd cb))) ?bs)"
    "pr_answered p = length (filter (\<lambda>cb. answered_section (trim_space (snd cb))) ?bs)"
    "pr_core p = length (filter (\<lambda>cb. answered_section (trim_space (snd cb)) \<and> fst cb \<in> set coreCommands) ?bs)"
    using run_counts [OF asked, of "fresh_probe (probe_header opts t now)"] by (simp_all add: p_def run_probe_def fresh_probe_def)
  let ?ns = "list_ex (\<lambda>cb. IsNotServing (trim_space (snd cb))) ?bs"
  let ?ans = "list_ex (\<lambda>cb. fst cb \<in> set [''srvr'', ''mntr''] \<and> answered_section (trim_space (snd cb))) ?bs"
  have ns: "pr_notServing p > 0 \<longleftrightarrow> ?ns" unfolding counts by (auto simp: list_ex_iff filter_empty_conv)
  have ans: "?ans \<Longrightarrow> pr_answered p > 0" unfolding counts by (auto simp: list_ex_iff filter_empty_conv)
  have core: "pr_core p = length coreCommands \<Longrightarrow> ?ans" unfolding counts by (rule core_all [OF names])
  have "s = (if ?ns then ''not serving'' else if ?ans then ''serving''
      else if list_ex (\<lambda>cb. has_error_line (trim_space (snd cb))) ?bs then ''probe failed'' else ''unknown'')"
    unfolding state list_ex_map fst_conv snd_conv ..
  then show ?thesis using ns ans core by (auto simp: probe_status_def)
qed



definition example_net :: "string \<Rightarrow> conversation" where
  "example_net cmd = \<lparr>cv_dial = None, cv_deadline = None, cv_send = None,
     cv_bytes = (if cmd = ''lgif'' then [] else ''imok'' @ [NL]),
     cv_read = (if cmd = ''lgif'' then Some \<lparr>ne_text = ''i/o timeout'', ne_timeout = True\<rparr> else None)\<rparr>"

definition example_opts :: KeeperOptions where
  "example_opts = \<lparr>k_GovSalt = [], k_DialTimeout = 3 * Second, k_ReadTimeout = 10 * Second\<rparr>"

definition example_target :: Target where
  "example_target = \<lparr>t_Host = ''k1'', t_Port = ''2181'', t_Ensemble = ''default''\<rparr>"

lemma example_clean: "list_all (\<lambda>c. clean_conv example_opts c (example_net c)) Commands"
  by (simp add: Commands_def clean_conv_def FourLetter_def example_net_def example_opts_def filtered_def no_newline_end_def trim_right_def
      no_marks_def has_prefix_def has_error_line_def trim_space_def trim_both_def trim_left_def is_space_def in_range_def code_def go_defs)


text \<open>An ensemble is reported without a leader exactly when at least two of its members were asked and none serves: two or more
  answer that they are not serving and no member of it is serving.\<close>

theorem leaderless_iff:
  "e \<in> set (Leaderless ms) \<longleftrightarrow> e \<noteq> [] \<and> 2 \<le> length (filter (\<lambda>m. m_Ensemble m = e \<and> m_State m = ''not serving'') ms) \<and>
    (\<nexists>m. m \<in> set ms \<and> m_Ensemble m = e \<and> m_State m = ''serving'')"
proof -
  have "e \<in> m_Ensemble ` set ms" if "2 \<le> length (filter (\<lambda>m. m_Ensemble m = e \<and> m_State m = ''not serving'') ms)"
  proof -
    have "filter (\<lambda>m. m_Ensemble m = e \<and> m_State m = ''not serving'') ms \<noteq> []" using that by (intro notI) simp
    then show ?thesis by (auto simp: filter_empty_conv)
  qed
  then show ?thesis by (auto simp: Leaderless_def Let_def set_dedup_seen filter_empty_conv)
qed

text \<open>A member is flagged as unable to rejoin through the log exactly when its ensemble has one serving leader, another member, and the
  first entry that leader still has lies past the last entry of the member.\<close>

theorem behind_leader_iff:
  "(\<lparr>fl_Severity = ''critical'', fl_Check = ''HC-3.19/P-61'', fl_Text = ''behind the leader'' @ QUOTE # ''s retained log '' @ em_dash @
      '' can rejoin only through a full snapshot''\<rparr> \<in> set (member_flags ms i)) \<longleftrightarrow>
   (\<exists>l f x. group_leader ms (group_key (ms ! i)) = Some l \<and> \<not> has_prefix (group_key (ms ! i)) [NUL_key] \<and> l \<noteq> i \<and>
      m_FirstLogIdx (ms ! l) = Some f \<and> m_LastLogIdx (ms ! i) = Some x \<and> x < f)"
proof -
  let ?f = "\<lparr>fl_Severity = ''critical'', fl_Check = ''HC-3.19/P-61'', fl_Text = ''behind the leader'' @ QUOTE # ''s retained log '' @ em_dash @
      '' can rejoin only through a full snapshot''\<rparr>"
  have "?f \<notin> set (state_flags m)" for m by (simp add: state_flags_def)
  moreover have "?f \<notin> set (chunk_flags n m)" for n m by (simp add: chunk_flags_def)
  moreover have "?f \<notin> set (format_flags m)" for m
  proof -
    obtain a b where mm: "m_versionMM m = (a, b)" by (cases "m_versionMM m")
    have "list_all (\<lambda>g. fl_Check g = ''HC-3.20'') (format_flags m)"
      unfolding format_flags_def mm by (simp split: option.split)
    then have "g \<in> set (format_flags m) \<Longrightarrow> fl_Check g = ''HC-3.20''" for g by (simp add: list_all_iff)
    from this [of ?f] show ?thesis by auto
  qed
  moreover have "?f \<in> set (behind_flags ms i) \<longleftrightarrow> behind_leader ms i" by (simp add: behind_flags_def)
  ultimately have "?f \<in> set (member_flags ms i) \<longleftrightarrow> behind_leader ms i"
    unfolding member_flags_def Let_def set_append Un_iff by blast
  then show ?thesis by (auto simp: behind_leader_def Let_def split: option.splits)
qed

end
