(* ===== verification/NodeIdentity.thy ===== *)
theory NodeIdentity
  imports Client RunLog
begin

text \<open>
  Which server a bundle describes (\<open>cmd/node_identity.go\<close>, \<open>cmd/smt_hint.go\<close>): the identity probe over fresh connections, the
  warnings drawn from it, and what a run does when it meets a SharedMergeTree cluster.
\<close>

section \<open>The probe\<close>

record nodeIdentity =
  id_Host :: string
  id_FQDN :: string
  id_UptimeSeconds :: int
  id_Samples :: "string list"
  id_Err :: "string option"

definition identity_query :: string where
  "identity_query = ''SELECT hostName(), FQDN(), toString(uptime()) FORMAT TSV''"

definition host_query :: string where
  "host_query = ''SELECT hostName() FORMAT TSV''"

definition no_identity :: nodeIdentity where
  "no_identity = \<lparr>id_Host = [], id_FQDN = [], id_UptimeSeconds = 0, id_Samples = [], id_Err = None\<rparr>"

definition identity_of :: "string \<Rightarrow> nodeIdentity" where
  "identity_of raw =
     (case split_byte TAB (trim_space raw) of
        h # q # u # _ \<Rightarrow> no_identity\<lparr>id_Host := h, id_FQDN := q, id_UptimeSeconds := fst (parse_int64 u)\<rparr>
      | _ \<Rightarrow> no_identity)"

text \<open>The two further probes, each over its own connection; one that fails leaves no sample.\<close>

primrec more_samples :: "nat \<Rightarrow> transport \<Rightarrow> ClickHouseClient \<Rightarrow> string list \<times> http_request effect list" where
  "more_samples 0 http c = ([], [])"
| "more_samples (Suc n) http c =
     (case ExecuteQueryFreshConnection http c host_query of
        (r, c', fx) \<Rightarrow> (case more_samples n http c' of
          (ss, fx') \<Rightarrow> ((case r of Inr s \<Rightarrow> [trim_space s] | Inl _ \<Rightarrow> []) @ ss, fx @ fx')))"

definition probeNodeIdentity :: "transport \<Rightarrow> ClickHouseClient \<Rightarrow> nodeIdentity \<times> http_request effect list" where
  "probeNodeIdentity http c =
     (case ExecuteQueryFreshConnection http c identity_query of
        (Inl e, _, fx) \<Rightarrow> (no_identity\<lparr>id_Err := Some e\<rparr>, fx)
      | (Inr raw, c', fx) \<Rightarrow>
          let id = identity_of raw in
          case more_samples 2 http c' of (ss, fx') \<Rightarrow> (id\<lparr>id_Samples := id_Host id # ss\<rparr>, fx @ fx'))"

section \<open>Names\<close>

definition uniqueStrings :: "string list \<Rightarrow> string list" where
  "uniqueStrings ss = dedup (filter (\<lambda>s. s \<noteq> []) (map trim_space ss))"

definition loadBalancerSuspected :: "string list \<Rightarrow> bool" where
  "loadBalancerSuspected samples \<longleftrightarrow> length (remdups (filter (\<lambda>s. s \<noteq> []) (map trim_space samples))) > 1"

definition norm_name :: "string \<Rightarrow> string" where
  "norm_name s = to_lower (trim_space s)"

definition is_qualified :: "string \<Rightarrow> bool" where
  "is_qualified s \<longleftrightarrow> CHR ''.'' \<in> set s"

definition first_label :: "string \<Rightarrow> string" where
  "first_label s = takeWhile (\<lambda>c. c \<noteq> CHR ''.'') s"

definition sameMachine :: "string \<Rightarrow> string \<Rightarrow> string \<Rightarrow> bool" where
  "sameMachine serverHost serverFQDN localHostname =
     (let l = norm_name localHostname; f = norm_name serverFQDN in
      if l = [] then True
      else if is_qualified f \<and> is_qualified l then f = l
      else list_ex (\<lambda>s. let s = norm_name s in s \<noteq> [] \<and> (s = l \<or> first_label s = first_label l)) [serverHost, serverFQDN])"

definition isLoopback :: "string \<Rightarrow> bool" where
  "isLoopback target \<longleftrightarrow> to_lower (trim_space target) \<in> set [''localhost'', ''127.0.0.1'', ''::1'', ''[::1]'', ''0.0.0.0'']"

section \<open>Warnings\<close>

definition balanced_warning :: "nodeIdentity \<Rightarrow> string \<Rightarrow> string \<Rightarrow> string list" where
  "balanced_warning i target mode =
     (if loadBalancerSuspected (id_Samples i) then
        let answered = str_join '' and '' (uniqueStrings (id_Samples i)) in
        [if equal_fold (trim_space mode) ''cloud'' then
           ''Note: -host '' @ target @ '' answered as '' @ answered @ '' '' @ em_dash @ '' the endpoint is load-balanced across the '' @
           ''service'' @ QUOTE # ''s replicas, which is normal and is what cloud collection expects. The per-replica system tables '' @
           ''(query_log, part_log, metric_log, errors, text_log '' @ dots @ '') fan out over every replica; the shared tables '' @
           ''(parts, tables, columns, databases, replicas, replication_queue, mutations, detached_parts) come from '' @
           ''whichever replica answered, as they always do in cloud mode.''
         else
           ''Warning: -host '' @ target @ '' answered as '' @ answered @ '' '' @ em_dash @ '' it is a load balancer or a DNS round-robin. '' @
           ''Every system table in this bundle will come from whichever replica answers each query, so the bundle '' @
           ''describes no single node. Point -host at one replica (or run the tool on it).'']
      else [])"

definition mixed_warning :: "nodeIdentity \<Rightarrow> string \<Rightarrow> string \<Rightarrow> bool \<Rightarrow> string list" where
  "mixed_warning i target localHostname collectingLocalFiles =
     (if collectingLocalFiles \<and> \<not> isLoopback target \<and> \<not> sameMachine (id_Host i) (id_FQDN i) localHostname then
        [''Warning: the system tables describe '' @ id_Host i @ '' but host facts, configuration and log files '' @
         ''are read from THIS machine ('' @ localHostname @ ''). Run the tool on '' @ id_Host i @ '', or pass -host-info off -logs off -skip-config '' @
         ''so the bundle does not mix two hosts.'']
      else [])"

definition nodeWarnings :: "nodeIdentity \<Rightarrow> string \<Rightarrow> string \<Rightarrow> string \<Rightarrow> bool \<Rightarrow> string list" where
  "nodeWarnings i target localHostname mode collectingLocalFiles =
     (case id_Err i of
        Some _ \<Rightarrow> []
      | None \<Rightarrow> balanced_warning i target mode @ mixed_warning i target localHostname collectingLocalFiles)"

definition humanUptime :: "int \<Rightarrow> string" where
  "humanUptime seconds =
     (if seconds \<le> 0 then ''unknown''
      else let d = seconds div 86400; h = seconds mod 86400 div 3600; m = seconds mod 3600 div 60 in
        if d > 0 then int_str d @ ''d '' @ int_str h @ ''h''
        else if h > 0 then int_str h @ ''h '' @ int_str m @ ''m''
        else int_str m @ ''m'')"

section \<open>SharedMergeTree\<close>

definition isSharedMergeTree :: "string \<Rightarrow> bool" where
  "isSharedMergeTree v \<longleftrightarrow> norm_name v = ''1'' \<or> norm_name v = ''true''"

text \<open>The first line of an error, at most 160 bytes of it.\<close>

definition firstLine :: "string \<Rightarrow> string" where
  "firstLine s =
     (let s = takeWhile (\<lambda>c. c \<noteq> NL) s in if length s > 160 then take 160 s @ dots else s)"

record smtCollectionDecision =
  smt_EffectiveMode :: string
  smt_Note :: string
  smt_Message :: string

definition arrow :: string where "arrow = [CHR 0xE2, CHR 0x86, CHR 0x92]"

definition decideSMTCollection :: "string option \<Rightarrow> bool \<Rightarrow> string \<Rightarrow> smtCollectionDecision" where
  "decideSMTCollection fanoutErr singleNode hint =
     (if singleNode then
        \<lparr>smt_EffectiveMode = ''onprem'',
         smt_Note = ''onprem, single node by request (-single-node) on a SharedMergeTree cluster '' @ em_dash @
           '' the other replicas'' @ QUOTE # '' system tables are not in this bundle'',
         smt_Message = hint\<rparr>
      else case fanoutErr of
        Some e \<Rightarrow>
          \<lparr>smt_EffectiveMode = ''onprem'',
           smt_Note = ''onprem, single node: SharedMergeTree detected (cloud_mode = 1) but the cluster fan-out probe failed '' @ em_dash @ '' '' @ firstLine e,
           smt_Message = ''Warning: this server runs SharedMergeTree (cloud_mode = 1), but clusterAllReplicas(default, '' @ dots @ '') failed: '' @
             firstLine e @ [NL] @ ''    The bundle will describe THIS node only. To cover every replica grant '' @
             ''REMOTE and CREATE TEMPORARY TABLE ON *.* to the diagnostic user and re-run.''\<rparr>
      | None \<Rightarrow>
          \<lparr>smt_EffectiveMode = ''cloud'',
           smt_Note = ''onprem '' @ arrow @ '' cloud: SharedMergeTree detected (cloud_mode = 1). Every per-replica system table fans out over the '' @
             ''default cluster (clusterAllReplicas); the shared tables (parts, tables, columns, databases, replicas, '' @
             ''replication_queue, mutations, detached_parts) are read from one replica, as in any cloud collection; '' @
             ''host facts, configuration and log files are the collector machine'' @ QUOTE # ''s '' @ em_dash @ '' this node'' @ QUOTE # ''s when the tool runs on it '' @
             ''(a warnings: line above says when it does not)'',
           smt_Message = ''SharedMergeTree cluster detected (cloud_mode = 1): switching to cloud collection so the per-replica system tables '' @
             ''(query_log, part_log, errors, metric_log, text_log '' @ dots @ '') cover every replica, not just this node; the shared tables '' @
             ''(parts, tables, replicas '' @ dots @ '') are read once, as in any cloud collection. Host facts, configuration and log files are '' @
             ''still read from the machine running this tool. Pass -single-node to collect this node only.''\<rparr>)"

definition sharedMergeTreeHint :: "string \<Rightarrow> string \<Rightarrow> string" where
  "sharedMergeTreeHint mode cloudModeValue =
     (if norm_name mode \<noteq> ''onprem'' then []
      else if norm_name cloudModeValue \<noteq> ''1'' \<and> norm_name cloudModeValue \<noteq> ''true'' then []
      else ''Warning: this server runs with cloud_mode = 1 (SharedMergeTree / shared-storage cluster). '' @
        ''-mode onprem collects the system tables of THIS node only '' @ em_dash @ '' parts, errors, part_log, '' @
        ''query_log and text_log of the other replicas are not in the bundle. '' @
        ''To cover every replica run again with -mode cloud (clusterAllReplicas over the '' @ QUOTE # ''default'' @ QUOTE # '' cluster; '' @
        ''needs GRANT REMOTE and CREATE TEMPORARY TABLE), keeping this onprem bundle for host facts, '' @
        ''configuration and log files.'')"

section \<open>What the probe warns about\<close>

lemma unique_not_Nil: "s \<in> set (uniqueStrings ss) \<longleftrightarrow> s \<noteq> [] \<and> s \<in> trim_space ` set ss"
  by (auto simp: uniqueStrings_def set_dedup_seen)

lemma suspected_iff:
  "loadBalancerSuspected ss \<longleftrightarrow> (\<exists>a b. a \<in> set (uniqueStrings ss) \<and> b \<in> set (uniqueStrings ss) \<and> a \<noteq> b)"
proof -
  have "length (remdups xs) > 1 \<longleftrightarrow> (\<exists>a b. a \<in> set xs \<and> b \<in> set xs \<and> a \<noteq> b)" for xs :: "string list"
  proof -
    have "length (remdups xs) = card (set xs)" by (simp add: length_remdups_card_conv)
    moreover have "card (set xs) > 1 \<longleftrightarrow> (\<exists>a b. a \<in> set xs \<and> b \<in> set xs \<and> a \<noteq> b)"
      by (metis List.finite_set One_nat_def card_gt_0_iff card_le_Suc0_iff_eq empty_iff linorder_not_le)
    ultimately show ?thesis by simp
  qed
  then show ?thesis by (simp add: loadBalancerSuspected_def uniqueStrings_def set_dedup_seen)
qed

text \<open>A warning about a load balancer is given exactly when two probes that answered gave different names; one about two machines exactly
  when local files are collected for a server that is neither this machine by name nor reached over loopback; none without an identity.\<close>

theorem node_warnings_iff:
  "(nodeWarnings i target me mode files = []) \<longleftrightarrow>
     id_Err i \<noteq> None \<or>
     (\<nexists>a b. a \<in> set (uniqueStrings (id_Samples i)) \<and> b \<in> set (uniqueStrings (id_Samples i)) \<and> a \<noteq> b) \<and>
     (\<not> files \<or> isLoopback target \<or> sameMachine (id_Host i) (id_FQDN i) me)"
  unfolding suspected_iff [symmetric]
  by (cases "id_Err i") (simp_all add: nodeWarnings_def balanced_warning_def mixed_warning_def Let_def)

text \<open>Two qualified names are one machine only when they are equal; the first label decides only when one side is bare.\<close>

theorem same_machine_qualified:
  "sameMachine host host me \<longleftrightarrow>
     norm_name me = [] \<or> norm_name host = norm_name me \<or>
     norm_name host \<noteq> [] \<and> \<not> (is_qualified (norm_name host) \<and> is_qualified (norm_name me)) \<and>
       first_label (norm_name host) = first_label (norm_name me)"
  by (auto simp: sameMachine_def Let_def)

end
