(* ===== verification/GoFlag.thy ===== *)
theory GoFlag
  imports GoFloat
begin

text \<open>
  The parts of \<open>flag\<close> and \<open>time.ParseDuration\<close> the commands use: \<open>FlagSet.Parse\<close> over a set of string, boolean and duration
  flags. The result of parsing is the list of the values set, in order, and the arguments left.
\<close>

section \<open>Durations\<close>

text \<open>\<open>leadingInt\<close> (\<open>None\<close> on overflow) and \<open>leadingFraction\<close> (value and number of digits kept; the rest is dropped on overflow).\<close>

fun leading_int :: "int \<Rightarrow> string \<Rightarrow> (int \<times> string) option" where
  "leading_int x [] = Some (x, [])"
| "leading_int x (c # cs) =
     (if \<not> is_digit c then Some (x, c # cs)
      else if x > 2 ^ 63 div 10 then None
      else let y = x * 10 + int (code c - 48) in if y > 2 ^ 63 then None else leading_int y cs)"

fun leading_fraction :: "bool \<Rightarrow> int \<Rightarrow> nat \<Rightarrow> string \<Rightarrow> int \<times> nat \<times> string" where
  "leading_fraction full x n [] = (x, n, [])"
| "leading_fraction full x n (c # cs) =
     (if \<not> is_digit c then (x, n, c # cs)
      else if full then leading_fraction True x n cs
      else if x > (2 ^ 63 - 1) div 10 then leading_fraction True x n cs
      else let y = x * 10 + int (code c - 48) in
        if y > 2 ^ 63 then leading_fraction True x n cs else leading_fraction False y (Suc n) cs)"

definition duration_unit :: "string \<Rightarrow> int option" where
  "duration_unit u = map_of [(''ns'', 1), (''us'', 1000), ([CHR 0xC2, CHR 0xB5, CHR ''s''], 1000), ([CHR 0xCE, CHR 0xBC, CHR ''s''], 1000),
     (''ms'', Millisecond), (''s'', Second), (''m'', Minute), (''h'', Hour)] u"

definition number_start :: "char \<Rightarrow> bool" where
  "number_start c \<longleftrightarrow> c = CHR ''.'' \<or> is_digit c"

definition fraction_at :: "string \<Rightarrow> int \<times> nat \<times> string" where
  "fraction_at s = (case s of
     c # cs \<Rightarrow> if c = CHR ''.'' then leading_fraction False 0 0 cs else (0, 0, s)
   | [] \<Rightarrow> (0, 0, s))"

text \<open>One number with its unit: its nanoseconds and the rest.\<close>

definition duration_part :: "string \<Rightarrow> (int \<times> string) option" where
  "duration_part s =
     (if s = [] \<or> \<not> number_start (hd s) then None
      else case leading_int 0 s of
        None \<Rightarrow> None
      | Some (v, s1) \<Rightarrow>
          let (f, n, s2) = fraction_at s1;
              pre = length s1 \<noteq> length s; post = s1 \<noteq> [] \<and> hd s1 = CHR ''.'' \<and> length s2 \<noteq> length s1 - 1;
              u = takeWhile (\<lambda>c. \<not> number_start c) s2; s3 = drop (length u) s2
          in if \<not> pre \<and> \<not> post \<or> u = [] then None
             else case duration_unit u of
               None \<Rightarrow> None
             | Some un \<Rightarrow>
                 if v > 2 ^ 63 div un then None
                 else let w = v * un + (if f > 0 then f_to_int64 (f_mul (f_of_int f) (f_div (f_of_int un) (f_of_int (10 ^ n)))) else 0)
                   in if w > 2 ^ 63 then None else Some (w, s3))"

lemma leading_int_length: "leading_int x s = Some (v, r) \<Longrightarrow> length r \<le> length s"
  by (induction x s rule: leading_int.induct) (auto simp: Let_def split: if_splits)

lemma leading_fraction_length: "leading_fraction b x n s = (f, m, r) \<Longrightarrow> length r \<le> length s"
proof (induction b x n s rule: leading_fraction.induct)
  case (2 full x n c cs)
  have "length r \<le> length cs" if "is_digit c"
    using 2 that unfolding leading_fraction.simps(2) [of full] Let_def by (auto split: if_splits simp del: zero_less_numeral)
  with 2 show ?case by (cases "is_digit c") auto
qed auto

lemma duration_part_length:
  assumes "duration_part s = Some (v, r)"
  shows "length r < length s"
proof -
  obtain x s1 where s1: "leading_int 0 s = Some (x, s1)" using assms by (auto simp: duration_part_def split: if_splits option.splits)
  obtain f n s2 where s2: "fraction_at s1 = (f, n, s2)" by (cases "fraction_at s1") auto
  have "length s2 \<le> length s1" using s2 leading_fraction_length [of False 0 0] by (fastforce simp: fraction_at_def split: list.splits if_splits)
  moreover have "length s1 \<le> length s" using leading_int_length [OF s1] .
  moreover have "r = drop (length (takeWhile (\<lambda>c. \<not> number_start c) s2)) s2 \<and> takeWhile (\<lambda>c. \<not> number_start c) s2 \<noteq> []"
    using assms s1 s2 by (auto simp: duration_part_def Let_def split: if_splits option.splits)
  ultimately show ?thesis by (cases s2) auto
qed

function duration_parts :: "int \<Rightarrow> string \<Rightarrow> int option" where
  "duration_parts d s =
     (if s = [] then Some d
      else case duration_part s of
        None \<Rightarrow> None
      | Some (v, r) \<Rightarrow> if d + v > 2 ^ 63 then None else duration_parts (d + v) r)"
  by pat_completeness auto
termination by (relation "measure (\<lambda>(d, s). length s)") (auto dest: duration_part_length)

declare duration_parts.simps [simp del]

definition parse_duration :: "string \<Rightarrow> duration option" where
  "parse_duration s =
     (let (neg, t) = split_sign s in
      if t = ''0'' then Some 0
      else if t = [] then None
      else case duration_parts 0 t of
        None \<Rightarrow> None
      | Some d \<Rightarrow> if neg then Some (- d) else if d > 2 ^ 63 - 1 then None else Some d)"

text \<open>\<open>strconv.ParseBool\<close>\<close>

definition parse_bool :: "string \<Rightarrow> bool option" where
  "parse_bool s =
     (if s \<in> set [''1'', ''t'', ''T'', ''true'', ''TRUE'', ''True''] then Some True
      else if s \<in> set [''0'', ''f'', ''F'', ''false'', ''FALSE'', ''False''] then Some False
      else None)"

section \<open>Flags\<close>

datatype flag_kind = StringFlag | BoolFlag | DurationFlag

datatype flag_error = FlagHelp | FlagBad string

definition flag_value_ok :: "flag_kind \<Rightarrow> string \<Rightarrow> bool" where
  "flag_value_ok k v = (case k of
     StringFlag \<Rightarrow> True
   | BoolFlag \<Rightarrow> parse_bool v \<noteq> None
   | DurationFlag \<Rightarrow> parse_duration v \<noteq> None)"

text \<open>The name and the attached value of an argument after its dashes; an equals sign cannot be first.\<close>

definition split_flag :: "string \<Rightarrow> string \<times> string option" where
  "split_flag nv = (case index_byte (tl nv) (CHR ''='') of
     None \<Rightarrow> (nv, None)
   | Some i \<Rightarrow> (take (Suc i) nv, Some (drop (i + 2) nv)))"

definition flag_text :: "string \<Rightarrow> string" where
  "flag_text a = (if has_prefix a ''--'' then drop 2 a else drop 1 a)"

definition is_flag_arg :: "string \<Rightarrow> bool" where
  "is_flag_arg a \<longleftrightarrow> length a \<ge> 2 \<and> hd a = CHR ''-''"

function parse_flags :: "(string \<Rightarrow> flag_kind option) \<Rightarrow> (string \<times> string) list \<Rightarrow> string list
    \<Rightarrow> flag_error + ((string \<times> string) list \<times> string list)" where
  "parse_flags formal seen [] = Inr (seen, [])"
| "parse_flags formal seen (a # as) =
     (if \<not> is_flag_arg a then Inr (seen, a # as)
      else if a = ''--'' then Inr (seen, as)
      else let nv = flag_text a in
        if nv = [] \<or> hd nv = CHR ''-'' \<or> hd nv = CHR ''='' then Inl (FlagBad (''bad flag syntax: '' @ a))
        else let (name, attached) = split_flag nv in
          case formal name of
            None \<Rightarrow> if name = ''help'' \<or> name = ''h'' then Inl FlagHelp else Inl (FlagBad (''flag provided but not defined: -'' @ name))
          | Some k \<Rightarrow>
              if k = BoolFlag then
                let v = (case attached of Some v \<Rightarrow> v | None \<Rightarrow> ''true'') in
                if flag_value_ok k v then parse_flags formal (seen @ [(name, v)]) as
                else Inl (FlagBad (''invalid boolean value '' @ go_quote v @ '' for -'' @ name))
              else (case (attached, as) of
                  (Some v, _) \<Rightarrow> if flag_value_ok k v then parse_flags formal (seen @ [(name, v)]) as
                                else Inl (FlagBad (''invalid value '' @ go_quote v @ '' for flag -'' @ name))
                | (None, v # rest) \<Rightarrow> if flag_value_ok k v then parse_flags formal (seen @ [(name, v)]) rest
                                else Inl (FlagBad (''invalid value '' @ go_quote v @ '' for flag -'' @ name))
                | (None, []) \<Rightarrow> Inl (FlagBad (''flag needs an argument: -'' @ name))))"
  by pat_completeness auto
termination by (relation "measure (\<lambda>(formal, seen, as). length as)") auto

text \<open>The value of a flag: the last one set, or its default.\<close>

definition flag_get :: "(string \<times> string) list \<Rightarrow> string \<Rightarrow> string \<Rightarrow> string" where
  "flag_get seen name d = (case map_of (rev seen) name of Some v \<Rightarrow> v | None \<Rightarrow> d)"

end
