(* ===== verification/GoNet.thy ===== *)
theory GoNet
  imports QueryInputs
begin

text \<open>
  \<open>net.ParseIP\<close> and \<open>IP.IsLoopback\<close>: an address is its 16 bytes, an IPv4 address in its IPv6-mapped form. An address with a zone is
  refused, as \<open>ParseIP\<close> does.
\<close>

definition octet :: "string \<Rightarrow> int option" where
  "octet s =
     (if s = [] \<or> length s > 3 \<or> \<not> list_all is_digit s \<or> (length s > 1 \<and> hd s = CHR ''0'') then None
      else let n = int (digits_val 0 s) in if n > 255 then None else Some n)"

definition parse_v4 :: "string \<Rightarrow> int list option" where
  "parse_v4 s = (case map octet (split_byte (CHR ''.'') s) of
     [Some a, Some b, Some c, Some d] \<Rightarrow> Some [a, b, c, d]
   | _ \<Rightarrow> None)"

definition hex_val :: "char \<Rightarrow> int" where
  "hex_val c = (if is_digit c then int (code c) - 48 else int (code (lower_char c)) - 87)"

definition hex_group :: "string \<Rightarrow> (int list \<times> string) option" where
  "hex_group s =
     (let h = takeWhile is_hex s in
      if h = [] \<or> length h > 4 then None
      else let n = foldl (\<lambda>a c. 16 * a + hex_val c) 0 h in Some ([n div 256, n mod 256], drop (length h) s))"

text \<open>The bytes read, the place of the ellipsis and the text left. At most eight groups fit.\<close>

primrec v6_groups :: "nat \<Rightarrow> string \<Rightarrow> int list \<Rightarrow> nat option \<Rightarrow> (int list \<times> nat option \<times> string) option" where
  "v6_groups 0 s bs ell = Some (bs, ell, s)"
| "v6_groups (Suc n) s bs ell =
     (case hex_group s of
        None \<Rightarrow> None
      | Some (g, r) \<Rightarrow>
          if r \<noteq> [] \<and> hd r = CHR ''.'' then
            (if ell = None \<and> length bs \<noteq> 12 \<or> length bs + 4 > 16 then None
             else case parse_v4 s of None \<Rightarrow> None | Some v \<Rightarrow> Some (bs @ v, ell, []))
          else if r = [] then Some (bs @ g, ell, [])
          else if hd r \<noteq> CHR '':'' \<or> length r = 1 then None
          else if hd (tl r) \<noteq> CHR '':'' then v6_groups n (tl r) (bs @ g) ell
          else if ell \<noteq> None then None
          else if length r = 2 then Some (bs @ g, Some (length (bs @ g)), [])
          else v6_groups n (drop 2 r) (bs @ g) (Some (length (bs @ g))))"

definition v6_fill :: "int list \<times> nat option \<times> string \<Rightarrow> int list option" where
  "v6_fill st = (case st of (bs, ell, r) \<Rightarrow>
     if r \<noteq> [] then None
     else if length bs < 16 then
       (case ell of None \<Rightarrow> None | Some e \<Rightarrow> Some (take e bs @ replicate (16 - length bs) 0 @ drop e bs))
     else if ell \<noteq> None then None
     else Some bs)"

definition parse_v6 :: "string \<Rightarrow> int list option" where
  "parse_v6 s =
     (if s = ''::'' then Some (replicate 16 0)
      else let (s, ell) = (if has_prefix s ''::'' then (drop 2 s, Some 0) else (s, None)) in
        Option.bind (v6_groups 8 s [] ell) v6_fill)"

definition v4_in_v6 :: "int list" where
  "v4_in_v6 = replicate 10 0 @ [255, 255]"

text \<open>The first of the bytes dot, colon and percent sign decides.\<close>

definition ParseIP :: "string \<Rightarrow> int list option" where
  "ParseIP s =
     (case dropWhile (\<lambda>c. c \<notin> set ''.:%'') s of
        [] \<Rightarrow> None
      | c # _ \<Rightarrow>
          if c = CHR ''.'' then map_option (\<lambda>v. v4_in_v6 @ v) (parse_v4 s)
          else if c = CHR '':'' \<and> CHR ''%'' \<notin> set s then parse_v6 s
          else None)"

definition IsLoopback :: "int list \<Rightarrow> bool" where
  "IsLoopback ip \<longleftrightarrow> (if take 12 ip = v4_in_v6 then ip ! 12 = 127 else ip = replicate 15 0 @ [1])"

end
