(* ===== verification/ClusterCollect.thy ===== *)
theory ClusterCollect
  imports NodeIdentity GoFlag GoJson GoNet LogFiles KeeperProbe CheckUtil "HOL-Library.Product_Lexorder"
begin

text \<open>
  The \<open>cluster\<close> command (\<open>internal/clustercollect/collect.go\<close>): which machines a cluster has, the run for each of them, and the
  loop that runs them one at a time. The operating system is a parameter: what a run leaves in its folder (\<open>run_world\<close>), what the
  command finds around it (\<open>cluster_env\<close>) and the transport to the server.
\<close>

section \<open>Arguments passed through\<close>

definition PasswordEnvVar :: string where "PasswordEnvVar = ''CLICKHOUSE_PASSWORD''"

definition portalCapBytes :: int where "portalCapBytes = 200 * 2 ^ 20"

definition DiscoveryQuery :: string where
  "DiscoveryQuery = ''SELECT cluster, shard_num, replica_num, host_name, host_address, is_local, errors_count FROM system.clusters FORMAT JSONEachRow''"

definition ownedFlags :: "string list" where
  "ownedFlags = [''password'', ''host'', ''port'', ''protocol'', ''user'', ''mode'', ''single-node'', ''output-dir'', ''host-info'', ''logs'',
     ''skip-config'', ''skip-archive'', ''dry-run'']"

text \<open>\<open>flagName\<close>: the name of an argument and whether a value is attached; \<open>""\<close> for one that is not a flag.\<close>

definition flagName :: "string \<Rightarrow> string \<times> bool" where
  "flagName a =
     (if \<not> has_prefix a ''-'' then ([], False)
      else let name = trim_left (\<lambda>c. c = CHR ''-'') a in
        case index_byte name (CHR ''='') of Some i \<Rightarrow> (take i name, True) | None \<Rightarrow> (name, False))"

definition refused_argument :: "string \<Rightarrow> string option" where
  "refused_argument a =
     (if \<not> has_prefix a ''-'' then None
      else let name = trim_left (\<lambda>c. c = CHR ''-'') a;
               name = (case index_byte name (CHR ''='') of Some i \<Rightarrow> take i name | None \<Rightarrow> name)
        in if name \<notin> set ownedFlags then None
           else if name = ''password'' then
             Some (''-- -password cannot be passed through: set '' @ PasswordEnvVar @
               '' instead (the cluster command never puts the password on a command line)'')
           else Some (''-- -'' @ name @ '' cannot be passed through: the cluster command sets it for every host''))"

definition validateExtra :: "string list \<Rightarrow> string option" where
  "validateExtra extra = first_some refused_argument extra"

section \<open>Rows of \<open>system.clusters\<close>\<close>

record Row =
  w_Cluster :: string
  w_ShardNum :: int
  w_ReplicaNum :: int
  w_HostName :: string
  w_HostAddress :: string
  w_IsLocal :: int
  w_ErrorsCount :: int

record Node =
  n_Host :: string
  n_Address :: string
  n_Shard :: int
  n_Replica :: int
  n_Local :: bool
  n_Errors :: int
  n_MultiShard :: bool

definition empty_row :: Row where
  "empty_row = \<lparr>w_Cluster = [], w_ShardNum = 0, w_ReplicaNum = 0, w_HostName = [], w_HostAddress = [], w_IsLocal = 0, w_ErrorsCount = 0\<rparr>"

text \<open>\<open>json.Unmarshal\<close> into the struct: a key names a field whatever its case, \<open>null\<close> leaves it, a value of another type is an
  error (reported after the rest is read, so the row is lost either way).\<close>

definition set_text :: "json \<Rightarrow> (string \<Rightarrow> Row \<Rightarrow> Row) \<Rightarrow> Row \<Rightarrow> Row option" where
  "set_text j f r = (case j of JStr s \<Rightarrow> Some (f s r) | JNull \<Rightarrow> Some r | _ \<Rightarrow> None)"

definition set_int :: "json \<Rightarrow> (int \<Rightarrow> Row \<Rightarrow> Row) \<Rightarrow> Row \<Rightarrow> Row option" where
  "set_int j f r = (case j of
     JNum n \<Rightarrow> (case parse_int64 n of (i, None) \<Rightarrow> Some (f i r) | _ \<Rightarrow> None)
   | JNull \<Rightarrow> Some r
   | _ \<Rightarrow> None)"

definition set_field :: "string \<times> json \<Rightarrow> Row \<Rightarrow> Row option" where
  "set_field kj r = (case kj of (k, j) \<Rightarrow>
     if equal_fold k ''cluster'' then set_text j (\<lambda>s. w_Cluster_update (\<lambda>_. s)) r
     else if equal_fold k ''shard_num'' then set_int j (\<lambda>i. w_ShardNum_update (\<lambda>_. i)) r
     else if equal_fold k ''replica_num'' then set_int j (\<lambda>i. w_ReplicaNum_update (\<lambda>_. i)) r
     else if equal_fold k ''host_name'' then set_text j (\<lambda>s. w_HostName_update (\<lambda>_. s)) r
     else if equal_fold k ''host_address'' then set_text j (\<lambda>s. w_HostAddress_update (\<lambda>_. s)) r
     else if equal_fold k ''is_local'' then set_int j (\<lambda>i. w_IsLocal_update (\<lambda>_. i)) r
     else if equal_fold k ''errors_count'' then set_int j (\<lambda>i. w_ErrorsCount_update (\<lambda>_. i)) r
     else Some r)"

primrec set_fields :: "(string \<times> json) list \<Rightarrow> Row \<Rightarrow> Row option" where
  "set_fields [] r = Some r"
| "set_fields (kj # kjs) r = (case set_field kj r of None \<Rightarrow> None | Some r' \<Rightarrow> set_fields kjs r')"

definition parse_row :: "string \<Rightarrow> Row option" where
  "parse_row line = (case json_unmarshal line of
     Some (JObj ms) \<Rightarrow> set_fields ms empty_row
   | Some JNull \<Rightarrow> Some empty_row
   | _ \<Rightarrow> None)"

text \<open>The rows, or the line that is not one (the error names it).\<close>

primrec parse_lines :: "string list \<Rightarrow> string + Row list" where
  "parse_lines [] = Inr []"
| "parse_lines (l # ls) =
     (if trim_space l = [] then parse_lines ls
      else case parse_row l of
        None \<Rightarrow> Inl l
      | Some r \<Rightarrow> (case parse_lines ls of Inl e \<Rightarrow> Inl e | Inr rs \<Rightarrow> Inr (r # rs)))"

definition ParseRows :: "string \<Rightarrow> string + Row list" where
  "ParseRows body = parse_lines (split_byte NL body)"

section \<open>Machines\<close>

definition loopbackAddress :: "string \<Rightarrow> bool" where
  "loopbackAddress address = (case ParseIP address of Some ip \<Rightarrow> IsLoopback ip | None \<Rightarrow> equal_fold address ''localhost'')"

text \<open>A candidate: the node, the number of shards of the cluster it is labelled from, and whether that is not \<open>default\<close>.\<close>

record ranked =
  k_Node :: Node
  k_shards :: nat
  k_notDefault :: bool

definition outranks :: "ranked \<Rightarrow> ranked \<Rightarrow> bool" where
  "outranks a b = (if k_shards a \<noteq> k_shards b then k_shards a > k_shards b else k_notDefault a \<and> \<not> k_notDefault b)"

definition shard_count :: "Row list \<Rightarrow> string \<Rightarrow> nat" where
  "shard_count rows cl = length (remdups (map w_ShardNum (filter (\<lambda>r. w_Cluster r = cl) rows)))"

definition is_local_row :: "Row \<Rightarrow> bool" where
  "is_local_row r \<longleftrightarrow> w_IsLocal r = 1"

definition candidate_of :: "Row list \<Rightarrow> Row \<Rightarrow> ranked" where
  "candidate_of rows r =
     \<lparr>k_Node = \<lparr>n_Host = w_HostName r, n_Address = w_HostAddress r, n_Shard = w_ShardNum r, n_Replica = w_ReplicaNum r,
        n_Local = is_local_row r, n_Errors = w_ErrorsCount r, n_MultiShard = shard_count rows (w_Cluster r) > 1\<rparr>,
      k_shards = shard_count rows (w_Cluster r), k_notDefault = (w_Cluster r \<noteq> ''default'')\<rparr>"

definition machine_key :: "Row \<Rightarrow> string" where
  "machine_key r = (if is_local_row r then CHR 0x00 # ''local'' else w_HostAddress r)"

definition better_of :: "ranked \<Rightarrow> ranked \<Rightarrow> ranked" where
  "better_of cur cand =
     (let best = (if outranks cand cur then cand else cur)
      in best\<lparr>k_Node := (k_Node best)\<lparr>n_Errors := max (n_Errors (k_Node cur)) (n_Errors (k_Node cand))\<rparr>\<rparr>)"

definition skipped_row :: "Row \<Rightarrow> bool" where
  "skipped_row r \<longleftrightarrow> \<not> is_local_row r \<and> loopbackAddress (w_HostAddress r)"

text \<open>The map of the machines.\<close>

definition ranked_step :: "Row list \<Rightarrow> Row \<Rightarrow> ranked option \<Rightarrow> ranked option" where
  "ranked_step rows r cur = Some (case cur of None \<Rightarrow> candidate_of rows r | Some c \<Rightarrow> better_of c (candidate_of rows r))"

definition machines :: "Row list \<Rightarrow> (string \<times> ranked option) list" where
  "machines rows = group_rows machine_key (ranked_step rows) None (filter (\<lambda>r. \<not> skipped_row r) rows)"

definition sortedKeys :: "string list \<Rightarrow> string list" where
  "sortedKeys names = sort (remdups names)"

definition node_order :: "Node \<Rightarrow> int \<times> int \<times> string" where
  "node_order n = (n_Shard n, n_Replica n, n_Host n)"

text \<open>The nodes in order; \<open>visit\<close> is the order in which the map is visited, which the sort keeps among equal nodes.\<close>

definition Discover :: "(Node list \<Rightarrow> Node list) \<Rightarrow> Row list \<Rightarrow> string \<Rightarrow> string + Node list" where
  "Discover visit rows cluster =
     (let kept = (if cluster = [] then rows else filter (\<lambda>r. w_Cluster r = cluster) rows) in
      if cluster \<noteq> [] \<and> kept = [] then
        Inl (''cluster '' @ go_quote cluster @ '' not found in system.clusters; available: '' @ str_join '', '' (sortedKeys (map w_Cluster rows)))
      else Inr (sort_key node_order (visit (map (k_Node \<circ> the \<circ> snd) (machines kept)))))"

text \<open>\<open>[^A-Za-z0-9._-]\<close>, a rune at a time (the bytes of a rune that is not ASCII give one underscore).\<close>

definition Label :: "Node \<Rightarrow> string" where
  "Label n =
     (let host = map (\<lambda>c. if safe_char c then c else CHR ''_'') (filter (\<lambda>c. \<not> continuation c) (n_Host n)) in
      ''s'' @ int_str (n_Shard n) @ ''r'' @ int_str (n_Replica n) @ ''_'' @ (if host = [] then ''host'' else host))"

section \<open>Command lines\<close>

record ClusterOptions =
  co_Mode :: string
  co_Protocol :: string
  co_Host :: string
  co_Port :: string
  co_User :: string
  co_OutputDir :: string
  co_Extra :: "string list"
  co_LocalFiles :: bool

definition HereArgs :: "Node \<Rightarrow> ClusterOptions \<Rightarrow> string list" where
  "HereArgs n opt =
     [''-mode'', co_Mode opt, ''-protocol'', co_Protocol opt, ''-host'', (if n_Local n then co_Host opt else n_Host n), ''-port'', co_Port opt,
      ''-user'', co_User opt, ''-single-node'', ''-output-dir'', path_join [co_OutputDir opt, Label n]] @
     (if n_Local n \<and> co_LocalFiles opt then [] else [''-host-info'', ''off'', ''-logs'', ''off'', ''-skip-config'']) @ co_Extra opt"

fun withoutSalt :: "string list \<Rightarrow> string list" where
  "withoutSalt [] = []"
| "withoutSalt (a # as) =
     (case flagName a of (name, attached) \<Rightarrow>
        if name = ''salt'' then (if attached then withoutSalt as else withoutSalt (drop 1 as)) else a # withoutSalt as)"

definition EachNodeArgs :: "Node \<Rightarrow> ClusterOptions \<Rightarrow> string list" where
  "EachNodeArgs n opt =
     [''-mode'', co_Mode opt, ''-protocol'', co_Protocol opt, ''-host'',
      (if co_Protocol opt = ''https'' then (if n_Local n then co_Host opt else n_Host n) else ''localhost''), ''-port'', co_Port opt,
      ''-user'', co_User opt, ''-single-node'', ''-output-dir'', ''./clickhouse_results/'' @ Label n] @ withoutSalt (co_Extra opt)"

text \<open>\<open>^[A-Za-z0-9_./:=@%+,-]+$\<close>\<close>

definition shell_safe :: "string \<Rightarrow> bool" where
  "shell_safe a \<longleftrightarrow> a \<noteq> [] \<and> list_all (\<lambda>c. is_alnum c \<or> c \<in> set ''_./:=@%+,-'') a"

definition secret :: "string \<Rightarrow> bool" where
  "secret name \<longleftrightarrow> name \<in> set [''password'', ''salt'']"

definition shell_quoted :: "string \<Rightarrow> string" where
  "shell_quoted a = (if shell_safe a then a else QUOTE # str_replace [QUOTE] [QUOTE, BSLASH, QUOTE, QUOTE] a @ [QUOTE])"

definition masked :: "string option \<Rightarrow> string \<Rightarrow> string" where
  "masked prev a =
     (case flagName a of (name, attached) \<Rightarrow>
        if secret name \<and> attached then takeWhile (\<lambda>c. c \<noteq> CHR ''='') a @ ''=****''
        else case prev of
          None \<Rightarrow> a
        | Some p \<Rightarrow> (case flagName p of (name, attached) \<Rightarrow> if secret name \<and> \<not> attached then ''****'' else a))"

fun shown_parts :: "string option \<Rightarrow> string list \<Rightarrow> string list" where
  "shown_parts prev [] = []"
| "shown_parts prev (a # as) = shell_quoted (masked prev a) # shown_parts (Some a) as"

definition Shown :: "string \<Rightarrow> string list \<Rightarrow> string" where
  "Shown binary args = str_join '' '' (binary # shown_parts None args)"

section \<open>Archives\<close>

definition bundlePrefixes :: "string list" where
  "bundlePrefixes = [''clickhouse_diagnostic_'', ''clickhouse_backup_'']"

definition isBundleArchive :: "string \<Rightarrow> bool" where
  "isBundleArchive name \<longleftrightarrow> has_suffix name ''.tar.gz'' \<and> list_ex (has_prefix name) bundlePrefixes"

text \<open>A directory as it is listed: each entry's name, whether it is a directory, and its modification time where it can be read.\<close>

record listed =
  ls_name :: string
  ls_isdir :: bool
  ls_mtime :: "time option"

definition archivesIn :: "string \<Rightarrow> listed list \<Rightarrow> (string \<times> time) list" where
  "archivesIn dir entries =
     List.map_filter (\<lambda>e. if ls_isdir e \<or> \<not> isBundleArchive (ls_name e) then None
       else map_option (\<lambda>t. (path_join [dir, ls_name e], t)) (ls_mtime e)) entries"

definition newArchive :: "string \<Rightarrow> listed list \<Rightarrow> (string \<times> time) list \<Rightarrow> string" where
  "newArchive dir entries old =
     fold (\<lambda>(path, mtime) newest.
       if map_of old path = Some mtime then newest
       else if newest = [] \<or> path > newest then path else newest) (archivesIn dir entries) []"

text \<open>What reading an archive to its end meets: opening it, its gzip header, the members (an error of copying one), the end of the
  tar stream and the checksum at the close.\<close>

record archive_file =
  av_open :: "string option"
  av_gzip :: "string option"
  av_members :: "string option list"
  av_end :: "string option"
  av_close :: "string option"

definition verifyArchive :: "archive_file \<Rightarrow> string option" where
  "verifyArchive f =
     (case av_open f of Some e \<Rightarrow> Some e
      | None \<Rightarrow> (case av_gzip f of Some e \<Rightarrow> Some e
      | None \<Rightarrow> (case first_some id (av_members f) of Some e \<Rightarrow> Some e
      | None \<Rightarrow> (case av_end f of Some e \<Rightarrow> Some e
      | None \<Rightarrow> if av_members f = [] then Some ''archive is empty'' else av_close f))))"

section \<open>This machine\<close>

definition isThisMachine :: "string + int list list \<Rightarrow> string + string \<Rightarrow> string \<Rightarrow> bool" where
  "isThisMachine addrs hostname host =
     (if loopbackAddress host then True
      else case ParseIP host of
        Some ip \<Rightarrow> (case addrs of Inl _ \<Rightarrow> False | Inr as \<Rightarrow> ip \<in> set as)
      | None \<Rightarrow> (case hostname of
          Inl _ \<Rightarrow> False
        | Inr name \<Rightarrow>
            let h = norm_name host; n = norm_name name in
            if h = n then True
            else if is_qualified h \<and> is_qualified n then False
            else first_label h = first_label n))"

section \<open>One host\<close>

definition size_text :: "nat \<Rightarrow> string \<Rightarrow> int \<Rightarrow> string" where
  "size_text p u n = fmt_fixed 1 (f_div (f_of_int n) (f_of_int (2 ^ p))) @ '' '' @ u"

definition human_size :: "int \<Rightarrow> string" where
  "human_size n =
     (if n \<ge> 2 ^ 30 then size_text 30 ''GB'' n
      else if n \<ge> 2 ^ 20 then size_text 20 ''MB'' n
      else if n \<ge> 2 ^ 10 then size_text 10 ''KB'' n
      else int_str n @ '' B'')"

text \<open>What the operating system does with the run of one host.\<close>

record run_world =
  rw_mkdir :: "string option"
  rw_log :: "string option"
  rw_before :: "listed list"
  rw_after :: "listed list"
  rw_deadline :: bool
  rw_err :: "string option"
  rw_elapsed :: duration
  rw_archive :: "string \<Rightarrow> archive_file"
  rw_size :: "string \<Rightarrow> int option"

record run_result =
  rr_node :: Node
  rr_status :: string
  rr_elapsed :: duration
  rr_archive :: string
  rr_size :: int

definition run_status :: "string \<Rightarrow> run_world \<Rightarrow> string" where
  "run_status archive w =
     (if rw_deadline w then ''timed out''
      else if rw_err w \<noteq> None then ''failed''
      else if archive = [] then ''no archive''
      else if verifyArchive (rw_archive w archive) \<noteq> None then ''bad archive''
      else ''ok'')"

text \<open>The result, what is printed, and the process started with its arguments (\<open>None\<close> when none was).\<close>

definition seconds_text :: "duration \<Rightarrow> string" where
  "seconds_text d = fmt_fixed 0 (dur_seconds d)"

definition runOne :: "string \<Rightarrow> Node \<Rightarrow> ClusterOptions \<Rightarrow> run_world \<Rightarrow> run_result \<times> string \<times> (string \<times> string list) option" where
  "runOne bin n opt w =
     (let folder = path_join [co_OutputDir opt, Label n];
          r = \<lparr>rr_node = n, rr_status = ''ok'', rr_elapsed = 0, rr_archive = [], rr_size = 0\<rparr>;
          begun = arrow @ '' '' @ n_Host n @ '' ... '';
          failed = (\<lambda>e. (r\<lparr>rr_status := ''failed''\<rparr>, begun @ ''failed: '' @ e @ [NL], None))
      in case rw_mkdir w of Some e \<Rightarrow> failed e
       | None \<Rightarrow> (case rw_log w of Some e \<Rightarrow> failed e
       | None \<Rightarrow>
           let archive = newArchive folder (rw_after w) (archivesIn folder (rw_before w));
               status = run_status archive w;
               size = (if archive = [] then 0 else case rw_size w archive of Some s \<Rightarrow> s | None \<Rightarrow> 0);
               r = r\<lparr>rr_status := status, rr_elapsed := rw_elapsed w, rr_size := size\<rparr>;
               secs = seconds_text (rw_elapsed w);
               proc = Some (bin, HereArgs n opt)
           in if status \<noteq> ''ok'' then
                (r, begun @ status @ '', '' @ secs @ ''s, see '' @ path_join [Label n, ''run.log''] @ [NL], proc)
              else (r\<lparr>rr_archive := archive\<rparr>,
                begun @ ''ok, '' @ secs @ ''s, '' @ human_size size @
                  (if size > portalCapBytes then '', over the 200 MB portal limit'' else []) @ [NL], proc)))"

text \<open>The nodes in order, one at a time.\<close>

primrec run_nodes :: "string \<Rightarrow> ClusterOptions \<Rightarrow> (nat \<Rightarrow> run_world) \<Rightarrow> nat \<Rightarrow> Node list
    \<Rightarrow> run_result list \<times> string \<times> (string \<times> string list) list" where
  "run_nodes bin opt world i [] = ([], [], [])"
| "run_nodes bin opt world i (n # ns) =
     (case runOne bin n opt (world i) of (r, out, proc) \<Rightarrow>
        case run_nodes bin opt world (Suc i) ns of (rs, outs, procs) \<Rightarrow>
          (r # rs, out @ outs, (case proc of Some x \<Rightarrow> [x] | None \<Rightarrow> []) @ procs))"

section \<open>The command\<close>

record cluster_env =
  ce_password :: "string option"
  ce_http :: transport
  ce_queries :: "string \<Rightarrow> bool"
  ce_exe :: "string + string"
  ce_now :: time
  ce_abs :: "string \<Rightarrow> string + string"
  ce_addrs :: "string + int list list"
  ce_hostname :: "string + string"
  ce_answer :: string
  ce_world :: "nat \<Rightarrow> run_world"
  ce_visit :: "Node list \<Rightarrow> Node list"
  ce_write :: "string option"

text \<open>The exit code, the two streams (the usage text the flag package prints is left out), the processes started, the summary file and
  the requests sent.\<close>

record cluster_main =
  cm_code :: int
  cm_out :: string
  cm_err :: string
  cm_started :: "(string \<times> string list) list"
  cm_summary :: "(string \<times> string) option"
  cm_requests :: "http_request effect list"

definition ended :: "int \<Rightarrow> string \<Rightarrow> string \<Rightarrow> cluster_main" where
  "ended rc out err = \<lparr>cm_code = rc, cm_out = out, cm_err = err, cm_started = [], cm_summary = None, cm_requests = []\<rparr>"

definition rune_count :: "string \<Rightarrow> nat" where
  "rune_count s = length (filter (\<lambda>c. \<not> continuation c) s)"

definition pad_right :: "nat \<Rightarrow> string \<Rightarrow> string" where
  "pad_right w s = s @ replicate (w - rune_count s) (CHR '' '')"

definition pad_left :: "nat \<Rightarrow> string \<Rightarrow> string" where
  "pad_left w s = replicate (w - rune_count s) (CHR '' '') @ s"

text \<open>\<open>filepath.Rel\<close>; an error gives the empty text.\<close>

fun drop_common :: "string list \<Rightarrow> string list \<Rightarrow> string list \<times> string list" where
  "drop_common (a # as) (b # bs) = (if a = b then drop_common as bs else (a # as, b # bs))"
| "drop_common as bs = (as, bs)"

definition path_comps :: "string \<Rightarrow> string list" where
  "path_comps p = filter (\<lambda>c. c \<noteq> []) (split_byte (CHR ''/'') (if path_clean p = ''.'' then [] else path_clean p))"

definition path_rel :: "string \<Rightarrow> string \<Rightarrow> string" where
  "path_rel base targ =
     (if path_clean base = path_clean targ then ''.''
      else if is_abs (path_clean base) \<noteq> is_abs (path_clean targ) then []
      else case drop_common (path_comps base) (path_comps targ) of
        (bs, ts) \<Rightarrow> if bs \<noteq> [] \<and> hd bs = ''..'' then [] else str_join ''/'' (replicate (length bs) ''..'' @ ts))"

definition cluster_flags :: "string \<Rightarrow> flag_kind option" where
  "cluster_flags name = map_of [(''host'', StringFlag), (''port'', StringFlag), (''protocol'', StringFlag), (''user'', StringFlag),
     (''cluster'', StringFlag), (''collect-from'', StringFlag), (''mode'', StringFlag), (''output-dir'', StringFlag),
     (''timeout'', DurationFlag), (''yes'', BoolFlag)] name"

definition node_line :: "Node \<Rightarrow> string" where
  "node_line n =
     (let place = (if n_MultiShard n then ''shard '' @ int_str (n_Shard n) @ '' replica '' @ int_str (n_Replica n)
                   else ''replica '' @ int_str (n_Replica n)) @
                  (if n_Local n then '' (asked for the cluster)'' else []) @
                  (if n_Errors n > 0 then ''  ! '' @ int_str (n_Errors n) @ '' connection errors'' else [])
      in ''  '' @ pad_right 22 (n_Host n) @ '' '' @ pad_right 15 (n_Address n) @ '' '' @ place @ [NL])"

definition discovered_text :: "string \<Rightarrow> string list \<Rightarrow> Node list \<Rightarrow> string" where
  "discovered_text host clusters nodes =
     ''Discovered '' @ nat_str (length nodes) @ '' host(s) from '' @ host @ '' (clusters: '' @ str_join '', '' clusters @ '')'' @ [NL, NL] @
     concat (map node_line nodes) @ [NL]"

definition each_node_text :: "string \<Rightarrow> ClusterOptions \<Rightarrow> Node list \<Rightarrow> string" where
  "each_node_text mode opt nodes =
     ''Run this ON each host (with '' @ PasswordEnvVar @ '' set, or it asks for the password),'' @ [NL] @
     ''then send back the .tar.gz archive from ./clickhouse_results/<folder>/:'' @ [NL, NL] @
     (if mode = ''gov'' then ''Each run asks for the salt: type the same one on every host, or the hashes'' @ [NL] @
        ''will not match across the bundles.'' @ [NL, NL] else []) @
     concat (map (\<lambda>n. ''# '' @ n_Host n @ [NL] @ Shown ''./clickhouse-diagnostic'' (EachNodeArgs n opt) @ [NL, NL]) nodes)"

definition plan_text :: "string \<Rightarrow> string \<Rightarrow> ClusterOptions \<Rightarrow> Node list \<Rightarrow> string" where
  "plan_text bin mode opt nodes =
     ''Will run, one host at a time:'' @ [NL, NL] @
     concat (map (\<lambda>n. Shown bin (HereArgs n opt) @ [NL, NL]) nodes) @
     (if mode = ''gov'' then ''gov mode collects system tables only, on every host: no log files, configs or'' @ [NL] @
        ''host facts, wherever it runs.'' @ [NL]
      else ''Other hosts: system tables only (incl. text_log, query_log) '' @ em_dash @ '' no server log'' @ [NL] @
        ''files, configs or host facts. Use -collect-from each-node for those.'' @ [NL]) @ [NL]"

definition summary_header :: string where
  "summary_header = pad_right 22 ''host'' @ '' '' @ pad_right 11 ''status'' @ '' '' @ pad_left 6 ''time'' @ '' '' @ pad_left 9 ''size'' @ ''  archive'' @ [NL]"

definition summary_line :: "ClusterOptions \<Rightarrow> run_result \<Rightarrow> string" where
  "summary_line opt r =
     (let collected = rr_archive r \<noteq> [];
          size = (if collected then human_size (rr_size r) else ''-'');
          place = (if collected then path_rel (co_OutputDir opt) (rr_archive r) else ''see '' @ path_join [Label (rr_node r), ''run.log'']);
          over = (if collected \<and> rr_size r > portalCapBytes then ''  over the 200 MB portal limit'' else [])
      in pad_right 22 (n_Host (rr_node r)) @ '' '' @ pad_right 11 (rr_status r) @ '' '' @ pad_left 5 (seconds_text (rr_elapsed r)) @ ''s '' @
         pad_left 9 size @ ''  '' @ place @ over @ [NL])"

definition log_files_text :: "string \<Rightarrow> ClusterOptions \<Rightarrow> Node list \<Rightarrow> string" where
  "log_files_text mode opt nodes =
     (if mode = ''gov'' then []
      else [NL] @ ''Server log files and configs are only read on the host itself. To add them,'' @ [NL] @ ''run this ON each host:'' @ [NL, NL] @
        concat (map (\<lambda>n. Shown ''./clickhouse-diagnostic'' (EachNodeArgs n opt) @ [NL])
          (filter (\<lambda>n. \<not> (n_Local n \<and> co_LocalFiles opt)) nodes)))"

text \<open>The collections, once the plan is confirmed.\<close>

definition collect_all :: "cluster_env \<Rightarrow> string \<Rightarrow> string \<Rightarrow> ClusterOptions \<Rightarrow> Node list \<Rightarrow> cluster_main" where
  "collect_all env bin mode opt nodes =
     (case run_nodes bin opt (ce_world env) 0 nodes of (results, out, started) \<Rightarrow>
        let summary = summary_header @ concat (map (summary_line opt) results);
            failed = list_ex (\<lambda>r. rr_status r \<noteq> ''ok'') results
        in \<lparr>cm_code = (if failed then 1 else 0),
            cm_out = out @ [NL] @ summary @ [NL] @ ''Bundles in '' @ co_OutputDir opt @ [NL] @ log_files_text mode opt nodes,
            cm_err = (case ce_write env of Some e \<Rightarrow> ''Warning: summary.txt not written: '' @ e @ [NL] | None \<Rightarrow> []),
            cm_started = started,
            cm_summary = (case ce_write env of Some _ \<Rightarrow> None | None \<Rightarrow> Some (path_join [co_OutputDir opt, ''summary.txt''], summary)),
            cm_requests = []\<rparr>)"

definition confirmed :: "string \<Rightarrow> bool" where
  "confirmed answer \<longleftrightarrow> to_lower (trim_space answer) \<in> set [''y'', ''yes'']"

definition with_out :: "string \<Rightarrow> cluster_main \<Rightarrow> cluster_main" where
  "with_out s m = m\<lparr>cm_out := s @ cm_out m\<rparr>"

definition here_main :: "cluster_env \<Rightarrow> (string \<times> string) list \<Rightarrow> string \<Rightarrow> ClusterOptions \<Rightarrow> Node list \<Rightarrow> cluster_main" where
  "here_main env seen mode opt nodes =
     (if \<not> ce_queries env (''queries.'' @ mode) then
        ended 2 [] (''queries.'' @ mode @ ''/ not found in the current directory: run from the unpacked clickhouse-diagnostic release.'' @ [NL])
      else case ce_exe env of
        Inl e \<Rightarrow> ended 2 [] (''Cannot locate this binary: '' @ e @ [NL])
      | Inr bin \<Rightarrow>
          let dir = flag_get seen ''output-dir'' []; dir = (if dir = [] then ''cluster_bundles_'' @ fmt_stamp (ce_now env) else dir) in
          case ce_abs env dir of
            Inl e \<Rightarrow> ended 2 [] (e @ [NL])
          | Inr out_dir \<Rightarrow>
              let opt = opt\<lparr>co_OutputDir := out_dir, co_LocalFiles := isThisMachine (ce_addrs env) (ce_hostname env) (co_Host opt)\<rparr> in
              with_out (plan_text bin mode opt nodes)
                (if parse_bool (flag_get seen ''yes'' ''false'') = Some True then collect_all env bin mode opt nodes
                 else with_out (''Run '' @ nat_str (length nodes) @ '' collection(s)? [y/N] '')
                   (if confirmed (ce_answer env) then collect_all env bin mode opt nodes else ended 0 (''Nothing run.'' @ [NL]) [])))"

definition run_cluster :: "cluster_env \<Rightarrow> (string \<times> string) list \<Rightarrow> string list \<Rightarrow> string \<Rightarrow> string \<Rightarrow> string \<Rightarrow> string \<Rightarrow> string \<Rightarrow> string \<Rightarrow> cluster_main" where
  "run_cluster env seen extra host port protocol user mode password =
     (case ExecuteQueryReal (ce_http env) (NewClickHouseClient protocol host port user password) DiscoveryQuery of
        (Inl e, fx) \<Rightarrow>
          (ended 2 [] (''Cannot read system.clusters from '' @ host @ '':'' @ port @ '' '' @ em_dash @ '' '' @ e @ [NL]))\<lparr>cm_requests := fx\<rparr>
      | (Inr body, fx) \<Rightarrow>
          (case ParseRows body of
             Inl line \<Rightarrow> (ended 2 [] (''unexpected system.clusters row '' @ go_quote line @ [NL]))\<lparr>cm_requests := fx\<rparr>
           | Inr rows \<Rightarrow>
               let cluster = flag_get seen ''cluster'' [] in
               (case Discover (ce_visit env) rows cluster of
                  Inl e \<Rightarrow> (ended 2 [] (e @ [NL]))\<lparr>cm_requests := fx\<rparr>
                | Inr nodes \<Rightarrow>
                    if nodes = [] then (ended 2 [] (''system.clusters lists no hosts.'' @ [NL]))\<lparr>cm_requests := fx\<rparr>
                    else
                      let clusters = sortedKeys (map w_Cluster (filter (\<lambda>r. cluster = [] \<or> w_Cluster r = cluster) rows));
                          opt = \<lparr>co_Mode = mode, co_Protocol = protocol, co_Host = host, co_Port = port, co_User = user, co_OutputDir = [],
                            co_Extra = extra, co_LocalFiles = False\<rparr>
                      in with_out (discovered_text host clusters nodes)
                           (if flag_get seen ''collect-from'' ''here'' = ''each-node'' then ended 0 (each_node_text mode opt nodes) []
                            else here_main env seen mode opt nodes)\<lparr>cm_requests := fx\<rparr>)))"

definition cluster_Main :: "cluster_env \<Rightarrow> string list \<Rightarrow> cluster_main" where
  "cluster_Main env argv =
     (case parse_flags cluster_flags [] argv of
        Inl FlagHelp \<Rightarrow> ended 0 [] []
      | Inl (FlagBad e) \<Rightarrow> ended 2 [] (e @ [NL])
      | Inr (seen, extra) \<Rightarrow>
          let host = flag_get seen ''host'' ''localhost''; protocol = flag_get seen ''protocol'' ''http'';
              user = flag_get seen ''user'' ''default''; collectFrom = flag_get seen ''collect-from'' ''here'';
              mode = flag_get seen ''mode'' ''onprem''; port = flag_get seen ''port'' []
          in case validateExtra extra of
               Some e \<Rightarrow> ended 2 [] (e @ [NL])
             | None \<Rightarrow>
                 if collectFrom \<noteq> ''here'' \<and> collectFrom \<noteq> ''each-node'' then
                   ended 2 [] (''-collect-from must be here or each-node, not '' @ go_quote collectFrom @ [NL])
                 else if mode \<noteq> ''onprem'' \<and> mode \<noteq> ''gov'' then
                   ended 2 [] (''-mode must be onprem or gov (cloud already collects every replica in one run)'' @ [NL])
                 else if protocol \<noteq> ''http'' \<and> protocol \<noteq> ''https'' then ended 2 [] (''-protocol must be http or https'' @ [NL])
                 else
                   let port = (if port = [] then (if protocol = ''https'' then ''8443'' else ''8123'') else port) in
                   (case ce_password env of
                      None \<Rightarrow> ended 2 [] (''Set the password first:  export '' @ PasswordEnvVar @ ''='' @ QUOTE # dots @ [QUOTE, NL] @
                        ''(the cluster command never takes it as a flag, so it is not visible in ps)'' @ [NL])
                    | Some password \<Rightarrow> run_cluster env seen extra host port protocol user mode password))"

section \<open>One node per machine\<close>

text \<open>The reference: of the rows of a machine the first one whose cluster ranks highest names and places it, and the errors are the most
  any of its rows reports.\<close>

definition rank_of :: "Row list \<Rightarrow> Row \<Rightarrow> nat \<times> bool" where
  "rank_of rows r = (shard_count rows (w_Cluster r), w_Cluster r \<noteq> ''default'')"

definition chief :: "Row list \<Rightarrow> Row list \<Rightarrow> Row" where
  "chief rows rs = hd (filter (\<lambda>r. list_all (\<lambda>s. rank_of rows s \<le> rank_of rows r) rs) rs)"

definition node_for :: "Row list \<Rightarrow> string \<Rightarrow> Node" where
  "node_for rows key =
     (let rs = filter (\<lambda>r. \<not> skipped_row r \<and> machine_key r = key) rows
      in (k_Node (candidate_of rows (chief rows rs)))\<lparr>n_Errors := Max (set (map w_ErrorsCount rs))\<rparr>)"

lemma outranks_rank: "outranks (candidate_of rows a) (candidate_of rows b) \<longleftrightarrow> rank_of rows b < rank_of rows a"
  by (auto simp: outranks_def candidate_of_def rank_of_def)

lemma chief_in:
  "rs \<noteq> [] \<Longrightarrow> chief rows rs \<in> set rs \<and> list_all (\<lambda>s. rank_of rows s \<le> rank_of rows (chief rows rs)) rs"
proof -
  let ?P = "\<lambda>r. list_all (\<lambda>s. rank_of rows s \<le> rank_of rows r) rs"
  assume "rs \<noteq> []"
  then have "Max (rank_of rows ` set rs) \<in> rank_of rows ` set rs" by (intro Max_in) simp_all
  then obtain r where r: "r \<in> set rs" "Max (rank_of rows ` set rs) = rank_of rows r" by blast
  have "rank_of rows s \<le> Max (rank_of rows ` set rs)" if "s \<in> set rs" for s using that by (intro Max_ge) simp_all
  with r have "r \<in> set rs" "\<forall>s\<in>set rs. rank_of rows s \<le> rank_of rows r" by simp_all
  then have "filter ?P rs \<noteq> []" by (auto simp: filter_empty_conv list_all_iff)
  then have "chief rows rs \<in> set (filter ?P rs)" unfolding chief_def by (rule hd_in_set)
  then show "chief rows rs \<in> set rs \<and> ?P (chief rows rs)" by simp
qed

lemma chief_snoc:
  assumes "rs \<noteq> []"
  shows "chief rows (rs @ [r]) = (if rank_of rows (chief rows rs) < rank_of rows r then r else chief rows rs)"
proof (cases "rank_of rows (chief rows rs) < rank_of rows r")
  case True
  have "filter (\<lambda>x. list_all (\<lambda>s. rank_of rows s \<le> rank_of rows x) (rs @ [r])) rs = []"
  proof (rule filter_False, rule ballI)
    fix x assume "x \<in> set rs"
    then have "rank_of rows x \<le> rank_of rows (chief rows rs)" using chief_in [OF assms, of rows] by (simp add: list_all_iff)
    with True have "\<not> rank_of rows r \<le> rank_of rows x" by (simp add: not_le)
    then show "\<not> list_all (\<lambda>s. rank_of rows s \<le> rank_of rows x) (rs @ [r])" by simp
  qed
  moreover have "list_all (\<lambda>s. rank_of rows s \<le> rank_of rows r) (rs @ [r])"
    using True chief_in [OF assms, of rows] unfolding list_all_iff by (auto intro: order_trans less_imp_le)
  ultimately show ?thesis using True by (simp add: chief_def)
next
  case False
  let ?P = "\<lambda>x. list_all (\<lambda>s. rank_of rows s \<le> rank_of rows x) rs"
  have "filter (\<lambda>x. list_all (\<lambda>s. rank_of rows s \<le> rank_of rows x) (rs @ [r])) rs = filter ?P rs"
    using False chief_in [OF assms, of rows] by (intro filter_cong) (auto simp: list_all_iff not_less intro: order_trans)
  moreover have "filter ?P rs \<noteq> []" using chief_in [OF assms, of rows] by (auto simp: filter_empty_conv)
  ultimately show ?thesis using False by (simp add: chief_def)
qed

lemma ranked_fold:
  "rs \<noteq> [] \<Longrightarrow> fold (ranked_step rows) rs None =
     Some ((candidate_of rows (chief rows rs))\<lparr>k_Node := (k_Node (candidate_of rows (chief rows rs)))
       \<lparr>n_Errors := Max (set (map w_ErrorsCount rs))\<rparr>\<rparr>)"
proof (induction rs rule: rev_induct)
  case (snoc r rs)
  show ?case
  proof (cases "rs = []")
    case True
    then show ?thesis by (simp add: ranked_step_def chief_def candidate_of_def)
  next
    case False
    have max: "Max (set (map w_ErrorsCount (rs @ [r]))) = max (Max (set (map w_ErrorsCount rs))) (w_ErrorsCount r)"
      using False by (simp add: max.commute)
    have errors: "n_Errors (k_Node (candidate_of rows r)) = w_ErrorsCount r" by (simp add: candidate_of_def)
    have rank: "outranks (candidate_of rows r) (c\<lparr>k_Node := n\<rparr>) = outranks (candidate_of rows r) c" for c n by (simp add: outranks_def)
    show ?thesis unfolding max chief_snoc [OF False]
      using snoc.IH [OF False] by (simp add: ranked_step_def better_of_def Let_def errors rank outranks_rank)
  qed
qed simp

lemma dedup_snoc: "dedup (xs @ [x]) = dedup xs @ (if x \<in> set xs then [] else [x])"
proof -
  have "dedup_seen seen (xs @ [x]) = dedup_seen seen xs @ (if x \<in> set seen \<union> set xs then [] else [x])" for seen
    by (induction seen xs rule: dedup_seen.induct) auto
  then show ?thesis by simp
qed

lemma upsert_order: "map fst (upsert k f z m) = map fst m @ (if k \<in> fst ` set m then [] else [k])"
  by (induction k f z m rule: upsert.induct) auto

lemma group_order: "map fst (group_rows key step z rs) = dedup (map key rs)"
proof (induction rs rule: rev_induct)
  case (snoc r rs)
  with snoc group_keys(1) [of key step z rs] show ?case by (simp add: group_snoc dedup_snoc upsert_order)
qed (simp add: group_rows_def)

lemma machines_spec:
  "map (k_Node \<circ> the \<circ> snd) (machines rows) = map (node_for rows) (dedup (map machine_key (filter (\<lambda>r. \<not> skipped_row r) rows)))"
proof -
  have "k_Node (the a) = node_for rows k" if "(k, a) \<in> set (machines rows)" for k a
  proof -
    let ?rs = "filter (\<lambda>r. machine_key r = k) (filter (\<lambda>r. \<not> skipped_row r) rows)"
    from that have k: "k \<in> machine_key ` set (filter (\<lambda>r. \<not> skipped_row r) rows)" "a = fold (ranked_step rows) ?rs None"
      by (auto simp: machines_def group_entries)
    then have "?rs \<noteq> []" by (auto simp: filter_empty_conv)
    moreover have "?rs = filter (\<lambda>r. \<not> skipped_row r \<and> machine_key r = k) rows" by (simp add: conj_commute)
    ultimately show ?thesis using ranked_fold [of ?rs rows] k(2) by (simp add: node_for_def Let_def)
  qed
  then have "map (k_Node \<circ> the \<circ> snd) (machines rows) = map (node_for rows \<circ> fst) (machines rows)"
    by (auto simp del: map_eq_conv intro!: map_cong)
  also have "\<dots> = map (node_for rows) (map fst (machines rows))" by simp
  finally show ?thesis by (simp only: machines_def group_order)
qed

text \<open>C25: Discovery returns one node for each machine of the rows considered (all the local rows are one machine, other loopback rows are
  none), named and placed by the first of its rows whose cluster has the most shards, with the most errors any row reports, ordered by
  shard, replica and name; it fails exactly for a cluster that is not listed.\<close>

theorem discover_machines:
  "let kept = (if cluster = [] then rows else filter (\<lambda>r. w_Cluster r = cluster) rows) in
   case Discover visit rows cluster of
     Inl e \<Rightarrow> cluster \<noteq> [] \<and> cluster \<notin> w_Cluster ` set rows
   | Inr nodes \<Rightarrow> (cluster = [] \<or> cluster \<in> w_Cluster ` set rows) \<and>
       nodes = sort_key node_order (visit (map (node_for kept) (dedup (map machine_key (filter (\<lambda>r. \<not> skipped_row r) kept)))))"
  by (auto simp: Discover_def Let_def machines_spec filter_empty_conv)


section \<open>Secrets in printed commands\<close>

definition secret_flags :: "string list" where
  "secret_flags = [''-salt'', ''--salt'', ''-password'', ''--password'']"

lemma secret_flag_name:
  "f \<in> set secret_flags \<Longrightarrow> secret (fst (flagName f)) \<and> \<not> snd (flagName f) \<and> CHR ''='' \<notin> set f"
  by (auto simp: secret_flags_def flagName_def secret_def has_prefix_def trim_left_def)

lemma index_byte_join: "c \<notin> set a \<Longrightarrow> index_byte (a @ c # b) c = Some (length a)"
  by (induction a) auto

lemma secret_flag_attached: "f \<in> set secret_flags \<Longrightarrow> flagName (f @ CHR ''='' # v) = (fst (flagName f), True)"
  by (auto simp: secret_flags_def flagName_def has_prefix_def trim_left_def)

lemma shown_append: "shown_parts prev (as @ bs) = shown_parts prev as @ shown_parts (if as = [] then prev else Some (last as)) bs"
  by (induction prev as rule: shown_parts.induct) auto

lemma masked_simps:
  "masked None a = (if secret (fst (flagName a)) \<and> snd (flagName a) then takeWhile (\<lambda>c. c \<noteq> CHR ''='') a @ ''=****'' else a)"
  "masked (Some p) a = (if secret (fst (flagName a)) \<and> snd (flagName a) then takeWhile (\<lambda>c. c \<noteq> CHR ''='') a @ ''=****''
     else if secret (fst (flagName p)) \<and> \<not> snd (flagName p) then ''****'' else a)"
  by (simp_all add: masked_def split: prod.split)

lemma masked_attached: "f \<in> set secret_flags \<Longrightarrow> masked prev (f @ CHR ''='' # v) = f @ ''=****''"
proof -
  assume f: "f \<in> set secret_flags"
  have "\<forall>x\<in>set f. x \<noteq> CHR ''=''" using secret_flag_name [OF f] by metis
  then have "takeWhile (\<lambda>c. c \<noteq> CHR ''='') (f @ CHR ''='' # v) = f" by (simp add: takeWhile_append2)
  then show ?thesis using secret_flag_name [OF f] by (cases prev) (simp_all add: masked_simps secret_flag_attached [OF f])
qed

lemma not_flag: "\<not> has_prefix v ''-'' \<Longrightarrow> flagName v = ([], False)"
  by (simp add: flagName_def)

lemma not_secret: "\<not> secret []"
  by (simp add: secret_def)

lemma masked_next: "f \<in> set secret_flags \<Longrightarrow> \<not> has_prefix v ''-'' \<Longrightarrow> masked (Some f) v = ''****''"
  using secret_flag_name [of f] by (simp add: masked_simps not_flag not_secret)



lemma without_salt_names: "list_all (\<lambda>a. fst (flagName a) \<noteq> ''salt'') (withoutSalt extra)"
  by (induction extra rule: withoutSalt.induct) (auto split: prod.split)

section \<open>What is run\<close>

lemma refused_iff: "refused_argument a = None \<longleftrightarrow> fst (flagName a) \<notin> set ownedFlags"
proof -
  have "[] \<notin> set ownedFlags" by (simp add: ownedFlags_def)
  then show ?thesis
    by (auto simp: refused_argument_def flagName_def Let_def simp del: index_byte_None split: option.splits)
qed

lemma validateExtra_iff: "validateExtra extra = None \<longleftrightarrow> list_all (\<lambda>a. fst (flagName a) \<notin> set ownedFlags) extra"
  by (simp add: validateExtra_def first_some_None refused_iff list_all_iff)

lemma run_nodes_started: "set (snd (snd (run_nodes bin opt world i ns))) \<subseteq> (\<lambda>n. (bin, HereArgs n opt)) ` set ns"
proof (induction ns arbitrary: i)
  case (Cons n ns)
  have one: "snd (snd (runOne bin n opt w)) = None \<or> snd (snd (runOne bin n opt w)) = Some (bin, HereArgs n opt)" for w
    by (simp add: runOne_def Let_def split: option.split)
  obtain r s x where ro: "runOne bin n opt (world i) = (r, s, x)" by (cases "runOne bin n opt (world i)")
  obtain rs ss xs where rn: "run_nodes bin opt world (Suc i) ns = (rs, ss, xs)" by (cases "run_nodes bin opt world (Suc i) ns")
  have "x = None \<or> x = Some (bin, HereArgs n opt)" using one [of "world i"] ro by simp
  moreover have "set xs \<subseteq> (\<lambda>n. (bin, HereArgs n opt)) ` set ns" using Cons.IH [of "Suc i"] rn by simp
  ultimately show ?case by (auto simp: ro rn)
qed simp


definition run_plan :: "cluster_env \<Rightarrow> string list \<Rightarrow> (string \<times> string) list \<Rightarrow> string list \<Rightarrow> Node list \<Rightarrow> string \<Rightarrow> ClusterOptions \<Rightarrow> bool" where
  "run_plan env argv seen extra nodes bin opt \<longleftrightarrow>
     parse_flags cluster_flags [] argv = Inr (seen, extra) \<and> list_all (\<lambda>a. fst (flagName a) \<notin> set ownedFlags) extra \<and> co_Extra opt = extra \<and>
     ce_password env \<noteq> None \<and> flag_get seen ''collect-from'' ''here'' = ''here'' \<and>
     (parse_bool (flag_get seen ''yes'' ''false'') = Some True \<or> confirmed (ce_answer env)) \<and>
     ce_exe env = Inr bin \<and> (\<exists>rows. Discover (ce_visit env) rows (flag_get seen ''cluster'' []) = Inr nodes)"

lemma started_simps:
  "cm_started (ended rc out err) = []" "cm_started (with_out s m) = cm_started m" "cm_code (ended rc out err) = rc" "cm_code (with_out s m) = cm_code m"
  by (simp_all add: ended_def with_out_def)

lemma collect_all_started: "set (cm_started (collect_all env bin mode opt nodes)) \<subseteq> (\<lambda>n. (bin, HereArgs n opt)) ` set nodes"
  using run_nodes_started [of bin opt "ce_world env" 0 nodes] by (auto simp: collect_all_def Let_def split: prod.split)

lemma here_started:
  assumes "cm_started (here_main env seen mode opt nodes) \<noteq> []"
  shows "(parse_bool (flag_get seen ''yes'' ''false'') = Some True \<or> confirmed (ce_answer env)) \<and>
    (\<exists>bin opt'. ce_exe env = Inr bin \<and> co_Extra opt' = co_Extra opt \<and>
      set (cm_started (here_main env seen mode opt nodes)) \<subseteq> (\<lambda>n. (bin, HereArgs n opt')) ` set nodes)"
proof -
  obtain bin dir where env: "ce_queries env (''queries.'' @ mode)" "ce_exe env = Inr bin"
    "ce_abs env (if flag_get seen ''output-dir'' [] = [] then ''cluster_bundles_'' @ fmt_stamp (ce_now env) else flag_get seen ''output-dir'' []) = Inr dir"
    using assms by (auto simp: here_main_def started_simps Let_def split: if_splits sum.splits)
  let ?opt = "opt\<lparr>co_OutputDir := dir, co_LocalFiles := isThisMachine (ce_addrs env) (ce_hostname env) (co_Host opt)\<rparr>"
  have "cm_started (here_main env seen mode opt nodes) =
      (if parse_bool (flag_get seen ''yes'' ''false'') = Some True \<or> confirmed (ce_answer env)
       then cm_started (collect_all env bin mode ?opt nodes) else [])"
    using env by (simp add: here_main_def started_simps Let_def)
  with assms collect_all_started [of env bin mode ?opt nodes] env(2) show ?thesis
    by (auto split: if_splits intro!: exI [of _ ?opt])
qed


lemma run_cluster_started:
  assumes "cm_started (run_cluster env seen extra host port protocol user mode password) \<noteq> []"
  shows "flag_get seen ''collect-from'' ''here'' \<noteq> ''each-node'' \<and>
    (parse_bool (flag_get seen ''yes'' ''false'') = Some True \<or> confirmed (ce_answer env)) \<and>
    (\<exists>rows nodes bin opt. Discover (ce_visit env) rows (flag_get seen ''cluster'' []) = Inr nodes \<and> ce_exe env = Inr bin \<and> co_Extra opt = extra \<and>
      set (cm_started (run_cluster env seen extra host port protocol user mode password)) \<subseteq> (\<lambda>n. (bin, HereArgs n opt)) ` set nodes)"
proof -
  let ?q = "ExecuteQueryReal (ce_http env) (NewClickHouseClient protocol host port user password) DiscoveryQuery"
  obtain fx body where q: "?q = (Inr body, fx)"
    using assms by (cases ?q; cases "fst ?q") (auto simp: run_cluster_def started_simps)
  obtain rows where rows: "ParseRows body = Inr rows"
    using assms q by (cases "ParseRows body") (auto simp: run_cluster_def started_simps)
  obtain nodes where nodes: "Discover (ce_visit env) rows (flag_get seen ''cluster'' []) = Inr nodes"
    using assms q rows by (cases "Discover (ce_visit env) rows (flag_get seen ''cluster'' [])") (auto simp: run_cluster_def started_simps)
  let ?opt = "\<lparr>co_Mode = mode, co_Protocol = protocol, co_Host = host, co_Port = port, co_User = user, co_OutputDir = [],
     co_Extra = extra, co_LocalFiles = False\<rparr>"
  have eq: "cm_started (run_cluster env seen extra host port protocol user mode password) =
      (if nodes = [] \<or> flag_get seen ''collect-from'' ''here'' = ''each-node'' then [] else cm_started (here_main env seen mode ?opt nodes))"
    using q rows nodes by (simp add: run_cluster_def started_simps Let_def)
  with assms have "cm_started (here_main env seen mode ?opt nodes) \<noteq> []" by (auto split: if_splits)
  from here_started [OF this] show ?thesis using eq assms nodes by (fastforce split: if_splits)
qed

lemma cluster_main_started:
  assumes "cm_started (cluster_Main env argv) \<noteq> []"
  shows "\<exists>seen extra nodes bin opt. run_plan env argv seen extra nodes bin opt \<and>
    set (cm_started (cluster_Main env argv)) \<subseteq> (\<lambda>n. (bin, HereArgs n opt)) ` set nodes"
proof -
  obtain seen extra where pf: "parse_flags cluster_flags [] argv = Inr (seen, extra)"
    using assms by (auto simp: cluster_Main_def started_simps split: sum.splits flag_error.splits)
  have ve: "validateExtra extra = None"
    using assms pf by (cases "validateExtra extra") (auto simp: cluster_Main_def started_simps Let_def)
  obtain password where pw: "ce_password env = Some password"
    using assms pf ve by (cases "ce_password env") (auto simp: cluster_Main_def started_simps Let_def split: if_splits)
  let ?protocol = "flag_get seen ''protocol'' ''http''" let ?port = "flag_get seen ''port'' []"
  let ?run = "run_cluster env seen extra (flag_get seen ''host'' ''localhost'')
     (if ?port = [] then (if ?protocol = ''https'' then ''8443'' else ''8123'') else ?port) ?protocol
     (flag_get seen ''user'' ''default'') (flag_get seen ''mode'' ''onprem'') password"
  have eq: "cluster_Main env argv = ?run" "flag_get seen ''collect-from'' ''here'' = ''here'' \<or> flag_get seen ''collect-from'' ''here'' = ''each-node''"
    using assms pf ve pw by (auto simp: cluster_Main_def started_simps Let_def split: if_splits)
  then have "cm_started ?run \<noteq> []" using assms by simp
  from run_cluster_started [OF this] eq pf ve pw show ?thesis
    unfolding run_plan_def eq(1) validateExtra_iff [symmetric] by blast
qed


section \<open>When a host counts as collected\<close>

definition changed_archives :: "string \<Rightarrow> run_world \<Rightarrow> string set" where
  "changed_archives folder w =
     {p. \<exists>t. (p, t) \<in> set (archivesIn folder (rw_after w)) \<and> map_of (archivesIn folder (rw_before w)) p \<noteq> Some t}"

lemma clean_not_Nil: "path_clean p \<noteq> []"
  by (simp add: path_clean_def Let_def)

lemma archive_path: "(p, t) \<in> set (archivesIn dir entries) \<Longrightarrow> p \<noteq> []"
proof -
  assume "(p, t) \<in> set (archivesIn dir entries)"
  then have "\<exists>e :: listed. isBundleArchive (ls_name e) \<and> p = path_join [dir, ls_name e]"
    unfolding archivesIn_def map_filter_set by (auto split: if_splits)
  then obtain e :: listed where "isBundleArchive (ls_name e)" "p = path_join [dir, ls_name e]" by blast
  moreover from this have "ls_name e \<noteq> []" by (auto simp: isBundleArchive_def has_suffix_def has_prefix_def)
  ultimately show "p \<noteq> []" by (auto simp: path_join_def Let_def clean_not_Nil)
qed

lemma newest_fold:
  "fold (\<lambda>(path, mtime) newest. if map_of old path = Some mtime then newest else if newest = [] \<or> path > newest then path else newest) xs n =
    Max (insert n {p. \<exists>t. (p, t) \<in> set xs \<and> map_of old p \<noteq> Some t})" (is "?f xs n = _")
proof (induction xs arbitrary: n)
  case (Cons x xs)
  obtain p t where x: "x = (p, t)" by (cases x)
  have fin: "finite {p. \<exists>t. (p, t) \<in> set xs \<and> map_of old p \<noteq> Some t}"
    by (rule finite_subset [of _ "fst ` set xs"]) force+
  show ?case
  proof (cases "map_of old p = Some t")
    case True
    then have "{q. \<exists>u. (q, u) \<in> set (x # xs) \<and> map_of old q \<noteq> Some u} = {q. \<exists>u. (q, u) \<in> set xs \<and> map_of old q \<noteq> Some u}" by (auto simp: x)
    with True Cons.IH [of n] show ?thesis by (simp add: x)
  next
    case False
    then have eq: "{q. \<exists>u. (q, u) \<in> set (x # xs) \<and> map_of old q \<noteq> Some u} = insert p {q. \<exists>u. (q, u) \<in> set xs \<and> map_of old q \<noteq> Some u}"
      by (auto simp: x)
    have "(if n = [] \<or> p > n then p else n) = max n p" by (cases "n = []") (auto simp: max_def)
    then have "?f (x # xs) n = ?f xs (max n p)" using False by (simp add: x)
    also have "\<dots> = Max (insert n (insert p {q. \<exists>u. (q, u) \<in> set xs \<and> map_of old q \<noteq> Some u}))"
    proof (cases "{q. \<exists>u. (q, u) \<in> set xs \<and> map_of old q \<noteq> Some u} = {}")
      case True
      show ?thesis unfolding Cons.IH True by simp
    next
      case False
      with fin show ?thesis unfolding Cons.IH by (simp add: max.assoc)
    qed
    finally show ?thesis unfolding eq .
  qed
qed simp

lemma newArchive_max:
  "newArchive folder (rw_after w) (archivesIn folder (rw_before w)) = (if changed_archives folder w = {} then [] else Max (changed_archives folder w))"
proof -
  have fin: "finite (changed_archives folder w)"
    by (rule finite_subset [of _ "fst ` set (archivesIn folder (rw_after w))"]) (force simp: changed_archives_def)+
  have "newArchive folder (rw_after w) (archivesIn folder (rw_before w)) = Max (insert [] (changed_archives folder w))"
    unfolding newArchive_def newest_fold changed_archives_def ..
  also have "\<dots> = (if changed_archives folder w = {} then [] else Max (changed_archives folder w))"
    using fin by (simp add: max_def)
  finally show ?thesis .
qed

text \<open>C27: A host counts as collected exactly when its folder and log could be made, its process ended without an error before the deadline,
  and the last by name of the archives the run created or replaced reads to its end.\<close>

theorem run_ok_iff:
  "let folder = path_join [co_OutputDir opt, Label n] in
   rr_status (fst (runOne bin n opt w)) = ''ok'' \<longleftrightarrow>
     rw_mkdir w = None \<and> rw_log w = None \<and> \<not> rw_deadline w \<and> rw_err w = None \<and> changed_archives folder w \<noteq> {} \<and>
     verifyArchive (rw_archive w (Max (changed_archives folder w))) = None"
proof -
  let ?f = "path_join [co_OutputDir opt, Label n]"
  have fin: "finite (changed_archives ?f w)"
    by (rule finite_subset [of _ "fst ` set (archivesIn ?f (rw_after w))"]) (force simp: changed_archives_def)+
  have "Max (changed_archives ?f w) \<noteq> []" if "changed_archives ?f w \<noteq> {}"
    using Max_in [OF fin that] archive_path by (auto simp: changed_archives_def)
  then show ?thesis
    by (simp add: runOne_def run_status_def Let_def newArchive_max split: option.split)
qed


section \<open>This machine, twice\<close>

text \<open>For a host that is given by name the two tests for being on the server's machine agree (\<open>isThisMachine\<close> here and
  \<open>sameMachine\<close> of the identity probe), as long as neither name is empty.\<close>

theorem same_machine_agrees:
  assumes "\<not> loopbackAddress host" "ParseIP host = None" "norm_name host \<noteq> []" "norm_name name \<noteq> []"
  shows "isThisMachine addrs (Inr name) host = sameMachine host host name"
  using assms by (auto simp: isThisMachine_def sameMachine_def Let_def)

theorem same_machine_agrees_witness:
  "isThisMachine (Inl ''no interfaces'') (Inr ''ch-01'') ''CH-01.site-a'' = sameMachine ''CH-01.site-a'' ''CH-01.site-a'' ''ch-01''"
  by (rule same_machine_agrees) code_simp+

text \<open>The comment of \<open>isThisMachine\<close> says it follows \<open>sameMachine\<close>; with no name of its own to compare they answer differently.\<close>

lemma unnamed_machine_differs:
  "isThisMachine (Inr []) (Inr []) ''ch-01'' = False" "sameMachine ''ch-01'' ''ch-01'' [] = True"
  by code_simp+

section \<open>Divergences\<close>

text \<open>Machines are told apart by their addresses, but runs and folders are made from their names: two machines a cluster lists under one
  name are given the same command twice, with the same folder, and the second run's archive is beside the first one's.\<close>

definition two_addresses :: "Row list" where
  "two_addresses = [empty_row\<lparr>w_Cluster := ''c'', w_ShardNum := 1, w_ReplicaNum := 1, w_HostName := ''ch'', w_HostAddress := ''10.0.0.1''\<rparr>,
     empty_row\<lparr>w_Cluster := ''c'', w_ShardNum := 1, w_ReplicaNum := 1, w_HostName := ''ch'', w_HostAddress := ''10.0.0.2''\<rparr>]"

lemma one_command_for_two_machines:
  "(case Discover id two_addresses [] of
      Inr [a, b] \<Rightarrow> n_Address a \<noteq> n_Address b \<and> HereArgs a opt = HereArgs b opt
    | _ \<Rightarrow> False)"
proof -
  have "Discover id two_addresses [] = Inr [
      \<lparr>n_Host = ''ch'', n_Address = ''10.0.0.1'', n_Shard = 1, n_Replica = 1, n_Local = False, n_Errors = 0, n_MultiShard = False\<rparr>,
      \<lparr>n_Host = ''ch'', n_Address = ''10.0.0.2'', n_Shard = 1, n_Replica = 1, n_Local = False, n_Errors = 0, n_MultiShard = False\<rparr>]"
    by code_simp
  then show ?thesis by (simp add: HereArgs_def Label_def)
qed

text \<open>Two different host names can give one folder.\<close>

lemma label_not_injective:
  "Label \<lparr>n_Host = ''a:b'', n_Address = [], n_Shard = 1, n_Replica = 1, n_Local = False, n_Errors = 0, n_MultiShard = False\<rparr> =
   Label \<lparr>n_Host = ''a_b'', n_Address = [], n_Shard = 1, n_Replica = 1, n_Local = False, n_Errors = 0, n_MultiShard = False\<rparr>"
  by code_simp

end
