(* ===== verification/HostInfo.thy ===== *)
theory HostInfo
  imports Bundle KeeperMembers
begin

text \<open>
  Facts about the machine (\<open>internal/hostinfo\<close>): what is read of \<open>/proc\<close>, \<open>/sys\<close> and \<open>/etc\<close>, the processes with their command
  lines cut down or redacted, the limits that bind the server. The files, the process table and \<open>statfs\<close> are a parameter
  (\<open>host_env\<close>); \<open>readFile\<close> gives the empty text for a file that cannot be read.
\<close>

record OSInfo =
  os_Available :: bool
  os_Hostname :: string
  os_Distro :: string
  os_DistroVersion :: string
  os_KernelVersion :: string
  os_KernelFull :: string
  os_Arch :: string
  os_GoOS :: string
  os_UptimeSeconds :: int

record CPUInfo =
  cpu_Available :: bool
  cpu_LogicalCPUs :: int
  cpu_ModelName :: string
  cpu_VendorID :: string
  cpu_MHz :: string
  cpu_LoadAvg :: "string list"
  cpu_NotableFlags :: "string list"

record MemoryInfo =
  mem_Available :: bool
  mem_TotalBytes :: int
  mem_FreeBytes :: int
  mem_AvailableBytes :: int
  mem_BuffersBytes :: int
  mem_CachedBytes :: int
  mem_SwapTotalBytes :: int
  mem_SwapFreeBytes :: int

record DiskInfo =
  dk_Device :: string
  dk_MountPoint :: string
  dk_FSType :: string
  dk_TotalBytes :: "64 word"
  dk_FreeBytes :: "64 word"
  dk_UsedPct :: float64

record Process =
  ps_PID :: int
  ps_PPID :: int
  ps_State :: string
  ps_RSSBytes :: int
  ps_Threads :: int
  ps_Command :: string

record Tunables =
  tn_TransparentHugepages :: string
  tn_THPDefrag :: string
  tn_Swappiness :: string
  tn_OvercommitMemory :: string
  tn_MaxMapCount :: string
  tn_FsNrOpen :: string
  tn_FsFileMax :: string
  tn_CgroupMemoryLimit :: string
  tn_CgroupCPUMax :: string
  tn_ClickHouseNofileSoft :: string
  tn_ClickHouseNofileHard :: string
  tn_ClickHouseNprocSoft :: string
  tn_ClickHouseProcessName :: string

record Report =
  rp_CollectedAt :: string
  rp_OS :: OSInfo
  rp_CPU :: CPUInfo
  rp_Memory :: MemoryInfo
  rp_Disks :: "DiskInfo list"
  rp_Processes :: "Process list"
  rp_Tunables :: Tunables
  rp_Notes :: "string list"

text \<open>\<open>he_proc\<close>: the error of \<open>Stat\<close> on \<open>/proc\<close>; \<open>he_sort\<close>: what \<open>sort.Slice\<close> makes of the processes (its order among equal ones is its
  own).\<close>

record statfs =
  sf_bsize :: "64 word"
  sf_blocks :: "64 word"
  sf_bavail :: "64 word"
  sf_bfree :: "64 word"

record host_env =
  he_now :: time
  he_proc :: "string option"
  he_read :: "string \<Rightarrow> string option"
  he_error :: "string \<Rightarrow> string"
  he_hostname :: "string option"
  he_arch :: string
  he_goos :: string
  he_readdir :: "string + string list"
  he_page :: int
  he_self :: int
  he_isdir :: "string \<Rightarrow> bool"
  he_statfs :: "string \<Rightarrow> statfs option"
  he_sort :: "Process list \<Rightarrow> Process list"

definition read_file :: "host_env \<Rightarrow> string \<Rightarrow> string" where
  "read_file env path = (case he_read env path of Some s \<Rightarrow> s | None \<Rightarrow> [])"

definition firstNonEmpty :: "string list \<Rightarrow> string" where
  "firstNonEmpty vals = (case filter (\<lambda>v. v \<noteq> []) vals of v # _ \<Rightarrow> v | [] \<Rightarrow> [])"

section \<open>Keys and values\<close>

definition splitKV :: "string \<Rightarrow> char \<Rightarrow> (string \<times> string) option" where
  "splitKV line sep = (case index_byte line sep of
     None \<Rightarrow> None
   | Some i \<Rightarrow> Some (trim_space (take i line), trim_space (drop (Suc i) line)))"

definition parseKeyValueFile :: "host_env \<Rightarrow> string \<Rightarrow> char \<Rightarrow> (string \<times> string) list" where
  "parseKeyValueFile env path sep = List.map_filter (\<lambda>l. splitKV l sep) (split_byte NL (read_file env path))"

text \<open>Reading the map: the last line of a key counts, a missing key is empty.\<close>

definition kv_get :: "(string \<times> string) list \<Rightarrow> string \<Rightarrow> string" where
  "kv_get kv k = (case map_of (rev kv) k of Some v \<Rightarrow> v | None \<Rightarrow> [])"

definition bracketed :: "string \<Rightarrow> string" where
  "bracketed s = (case (index_byte s (CHR ''[''), index_byte s (CHR '']'')) of
     (Some a, Some b) \<Rightarrow> if b > a then take (b - a - 1) (drop (Suc a) s) else trim_space s
   | _ \<Rightarrow> trim_space s)"

section \<open>Operating system, processor and memory\<close>

definition unquoted :: "string \<Rightarrow> string" where
  "unquoted s = trim_both (\<lambda>c. c = DQUOTE) s"

definition release_of :: "host_env \<Rightarrow> string \<times> string" where
  "release_of env =
     (case filter (\<lambda>kv. kv \<noteq> []) (map (\<lambda>p. parseKeyValueFile env p (CHR ''='')) [''/etc/os-release'', ''/usr/lib/os-release'']) of
        kv # _ \<Rightarrow> (unquoted (firstNonEmpty [kv_get kv ''NAME'', kv_get kv ''ID'']), unquoted (firstNonEmpty [kv_get kv ''VERSION_ID'', kv_get kv ''VERSION'']))
      | [] \<Rightarrow> ([], []))"

text \<open>A text that is not a number reads as 0 both ways (a number past the range of a float is left out).\<close>

definition uptime_of :: "host_env \<Rightarrow> int" where
  "uptime_of env = (case str_fields (read_file env ''/proc/uptime'') of f # _ \<Rightarrow> f_to_int64 (parse_float f) | [] \<Rightarrow> 0)"

definition collectOS :: "host_env \<Rightarrow> OSInfo \<times> string list" where
  "collectOS env =
     (let (distro, version) = release_of env in
      (\<lparr>os_Available = True, os_Hostname = (case he_hostname env of Some h \<Rightarrow> h | None \<Rightarrow> []), os_Distro = distro, os_DistroVersion = version,
        os_KernelVersion = trim_space (read_file env ''/proc/sys/kernel/osrelease''), os_KernelFull = trim_space (read_file env ''/proc/version''),
        os_Arch = he_arch env, os_GoOS = he_goos env, os_UptimeSeconds = uptime_of env\<rparr>,
       if distro = [] then [''distro: no readable /etc/os-release''] else []))"

definition notable_flags :: "string list" where
  "notable_flags = [''sse4_2'', ''avx'', ''avx2'', ''avx512f'', ''avx512bw'', ''avx512vl'', ''bmi2'', ''popcnt'',
     ''asimd'', ''neon'', ''sve'', ''sve2'', ''crc32'', ''atomics'', ''asimdrdm'']"

definition no_cpu :: CPUInfo where
  "no_cpu = \<lparr>cpu_Available = False, cpu_LogicalCPUs = 0, cpu_ModelName = [], cpu_VendorID = [], cpu_MHz = [], cpu_LoadAvg = [], cpu_NotableFlags = []\<rparr>"

definition cpu_line :: "string \<Rightarrow> CPUInfo \<Rightarrow> CPUInfo" where
  "cpu_line l c = (case splitKV l (CHR '':'') of
     None \<Rightarrow> c
   | Some (k, v) \<Rightarrow>
       if k = ''processor'' then c\<lparr>cpu_LogicalCPUs := cpu_LogicalCPUs c + 1\<rparr>
       else if k = ''model name'' then c\<lparr>cpu_ModelName := v\<rparr>
       else if k = ''vendor_id'' then c\<lparr>cpu_VendorID := v\<rparr>
       else if k = ''cpu MHz'' then c\<lparr>cpu_MHz := v\<rparr>
       else if k = ''flags'' \<or> k = ''Features'' then
         c\<lparr>cpu_NotableFlags := fold (\<lambda>fl fs. if fl \<in> set notable_flags \<and> fl \<notin> set fs then fs @ [fl] else fs) (str_fields v) (cpu_NotableFlags c)\<rparr>
       else c)"

text \<open>The lines a scanner with its default buffer of 64 KiB gives: a longer line ends it, a carriage return at the end of a line is cut.\<close>

definition default_lines :: "string \<Rightarrow> string list" where
  "default_lines s = map (\<lambda>l. trim_suffix l [CR]) (takeWhile (\<lambda>l. length l < 65536) (scan_lines s))"

definition load_avg :: "host_env \<Rightarrow> string list" where
  "load_avg env = (let la = str_fields (read_file env ''/proc/loadavg'') in if length la \<ge> 3 then take 3 la else [])"

definition collectCPU :: "host_env \<Rightarrow> CPUInfo \<times> string list" where
  "collectCPU env =
     (case he_read env ''/proc/cpuinfo'' of
        None \<Rightarrow> (no_cpu, [''cpu: '' @ he_error env ''/proc/cpuinfo''])
      | Some s \<Rightarrow>
          let c = fold cpu_line (default_lines s) (no_cpu\<lparr>cpu_Available := True\<rparr>)
          in (c\<lparr>cpu_NotableFlags := sort (cpu_NotableFlags c), cpu_LoadAvg := load_avg env\<rparr>, []))"

definition kib :: "(string \<times> string) list \<Rightarrow> string \<Rightarrow> int" where
  "kib kv k = (case str_fields (kv_get kv k) of
     [] \<Rightarrow> 0
   | f # _ \<Rightarrow> (case parse_int64 f of (n, None) \<Rightarrow> wrap64 (n * 1024) | _ \<Rightarrow> 0))"

definition no_memory :: MemoryInfo where
  "no_memory = \<lparr>mem_Available = False, mem_TotalBytes = 0, mem_FreeBytes = 0, mem_AvailableBytes = 0, mem_BuffersBytes = 0, mem_CachedBytes = 0,
     mem_SwapTotalBytes = 0, mem_SwapFreeBytes = 0\<rparr>"

definition collectMemory :: "host_env \<Rightarrow> MemoryInfo \<times> string list" where
  "collectMemory env =
     (let kv = parseKeyValueFile env ''/proc/meminfo'' (CHR '':'') in
      if kv = [] then (no_memory, [''memory: /proc/meminfo unreadable''])
      else (\<lparr>mem_Available = True, mem_TotalBytes = kib kv ''MemTotal'', mem_FreeBytes = kib kv ''MemFree'',
        mem_AvailableBytes = kib kv ''MemAvailable'', mem_BuffersBytes = kib kv ''Buffers'', mem_CachedBytes = kib kv ''Cached'',
        mem_SwapTotalBytes = kib kv ''SwapTotal'', mem_SwapFreeBytes = kib kv ''SwapFree''\<rparr>, []))"

section \<open>Disks\<close>

definition pseudoFS :: "string list" where
  "pseudoFS = [''proc'', ''sysfs'', ''devtmpfs'', ''devpts'', ''cgroup'', ''cgroup2'', ''pstore'', ''bpf'', ''securityfs'', ''debugfs'', ''tracefs'',
     ''configfs'', ''fusectl'', ''hugetlbfs'', ''mqueue'', ''autofs'', ''binfmt_misc'', ''rpc_pipefs'', ''nsfs'', ''squashfs'', ''ramfs'',
     ''efivarfs'', ''selinuxfs'', ''fuse.gvfsd-fuse'']"

function unescapeMount :: "string \<Rightarrow> string" where
  "unescapeMount [] = []"
| "unescapeMount (c # cs) =
     (if c = BSLASH \<and> has_prefix cs ''040'' then CHR '' '' # unescapeMount (drop 3 cs)
      else if c = BSLASH \<and> has_prefix cs ''011'' then TAB # unescapeMount (drop 3 cs)
      else if c = BSLASH \<and> has_prefix cs ''012'' then NL # unescapeMount (drop 3 cs)
      else if c = BSLASH \<and> has_prefix cs ''134'' then BSLASH # unescapeMount (drop 3 cs)
      else c # unescapeMount cs)"
  by pat_completeness auto
termination by (relation "measure length") auto

definition round1 :: "float64 \<Rightarrow> float64" where
  "round1 f = f_div (f_of_int (f_to_int64 (f_add (f_mul f (f_of_int 10)) (Fin (1 / 2))))) (f_of_int 10)"

definition disk_of :: "string \<Rightarrow> string \<Rightarrow> string \<Rightarrow> statfs \<Rightarrow> DiskInfo option" where
  "disk_of device mount fstype st =
     (let total = sf_blocks st * sf_bsize st; free = sf_bavail st * sf_bsize st; used = total - sf_bfree st * sf_bsize st in
      if total = 0 then None
      else Some \<lparr>dk_Device = device, dk_MountPoint = mount, dk_FSType = fstype, dk_TotalBytes = total, dk_FreeBytes = free,
        dk_UsedPct = round1 (f_mul (f_div (f_of_int (uint used)) (f_of_int (uint total))) (f_of_int 100))\<rparr>)"

primrec mount_lines :: "host_env \<Rightarrow> string list \<Rightarrow> string list \<Rightarrow> DiskInfo list" where
  "mount_lines env seen [] = []"
| "mount_lines env seen (l # ls) =
     (case str_fields l of
        device # m # fstype # _ \<Rightarrow>
          let mount = unescapeMount m in
          if fstype \<in> set pseudoFS \<or> has_prefix fstype ''fuse.'' \<or> mount \<in> set seen \<or> \<not> he_isdir env mount then mount_lines env seen ls
          else (case Option.bind (he_statfs env mount) (disk_of device mount fstype) of
              Some d \<Rightarrow> d # mount_lines env (mount # seen) ls
            | None \<Rightarrow> mount_lines env (mount # seen) ls)
      | _ \<Rightarrow> mount_lines env seen ls)"

definition collectDisks :: "host_env \<Rightarrow> DiskInfo list" where
  "collectDisks env =
     mount_lines env [] (split_byte NL (firstNonEmpty [read_file env ''/proc/mounts'', read_file env ''/etc/mtab'']))"

section \<open>Processes\<close>


text \<open>The longest prefix of at most \<open>n\<close> bytes that does not end inside a rune.\<close>

primrec rune_cut :: "nat \<Rightarrow> string \<Rightarrow> nat" where
  "rune_cut 0 s = 0"
| "rune_cut (Suc n) s = (if continuation (s ! Suc n) then rune_cut n s else Suc n)"

definition readCmdline :: "host_env \<Rightarrow> string \<Rightarrow> string" where
  "readCmdline env path =
     (let raw = read_file env path in
      if raw = [] then []
      else let cmd = str_join '' '' (split_byte (CHR 0x00) (trim_right (\<lambda>c. c = CHR 0x00) raw)) in
        if length cmd > 300 then take (rune_cut 300 cmd) cmd @ dots else cmd)"

text \<open>\<open>(?i)^--?[^=]*(password|secret|token|credential|access[-_]?key|api[-_]?key)[^=]*\<close>\<close>

definition re_not_eq :: re where "re_not_eq = Cls (\<lambda>c. c \<noteq> CHR ''='')"

definition re_dash_bar :: re where "re_dash_bar = opt_of (Cls (\<lambda>c. c = CHR ''-'' \<or> c = CHR ''_''))"

definition re_secret_arg :: re where
  "re_secret_arg = seqs [Bot, lit ''-'', opt_of (lit ''-''), any_star re_not_eq,
     Grp 1 (alts [ilit ''password'', ilit ''secret'', ilit ''token'', ilit ''credential'',
       seqs [ilit ''access'', re_dash_bar, ilit ''key''], seqs [ilit ''api'', re_dash_bar, ilit ''key'']]),
     any_star re_not_eq]"

definition secret_arg :: "string \<Rightarrow> bool" where
  "secret_arg a = match_string re_secret_arg a"

text \<open>\<open>redactArgs\<close> goes over the words; a word that was replaced is looked at as it then stands.\<close>

fun redact_words :: "string list \<Rightarrow> string list" where
  "redact_words [] = []"
| "redact_words (a # as) =
     (if \<not> secret_arg a then a # redact_words as
      else case index_byte a (CHR ''='') of
        Some i \<Rightarrow> (take (Suc i) a @ ''[redacted]'') # redact_words as
      | None \<Rightarrow> (case as of [] \<Rightarrow> [a] | b # bs \<Rightarrow> a # ''[redacted]'' # redact_words bs))"

definition redactArgs :: "string \<Rightarrow> string" where
  "redactArgs cmd = str_join '' '' (redact_words (split_byte (CHR '' '') cmd))"

definition parseProcStat :: "string \<Rightarrow> int \<Rightarrow> int \<Rightarrow> Process option" where
  "parseProcStat raw pid pageSize =
     (case (last_index raw '')'', str_index raw ''('') of
        (Some c, Some q) \<Rightarrow>
          if c < q then None
          else let fs = str_fields (drop (Suc c) raw) in
            if length fs < 22 then None
            else Some \<lparr>ps_PID = pid, ps_PPID = fst (parse_int64 (fs ! 1)), ps_State = fs ! 0,
              ps_RSSBytes = wrap64 (fst (parse_int64 (fs ! 21)) * pageSize), ps_Threads = fst (parse_int64 (fs ! 17)),
              ps_Command = take (c - q - 1) (drop (Suc q) raw)\<rparr>
      | _ \<Rightarrow> None)"

text \<open>Only a command line that mentions ClickHouse is kept whole, and redacted; of any other only the program.\<close>

definition shown_command :: "string \<Rightarrow> string" where
  "shown_command cmd =
     (if \<not> contains cmd ''clickhouse'' then
        (case index_byte cmd (CHR '' '') of Some i \<Rightarrow> if i > 0 then take i cmd else cmd | None \<Rightarrow> cmd)
      else redactArgs cmd)"

definition process_of :: "host_env \<Rightarrow> string \<Rightarrow> Process option" where
  "process_of env name =
     (case parse_int64 name of
        (_, Some _) \<Rightarrow> None
      | (pid, None) \<Rightarrow>
          let raw = read_file env (path_join [''/proc'', name, ''stat'']) in
          if raw = [] then None
          else map_option (\<lambda>p.
              let cmd = readCmdline env (path_join [''/proc'', name, ''cmdline'']);
                  cmd = (if cmd \<noteq> [] then cmd else ps_Command p)
              in p\<lparr>ps_Command := shown_command cmd\<rparr>) (parseProcStat raw pid (he_page env)))"

definition maxProcs :: nat where "maxProcs = 25"

definition collectProcesses :: "host_env \<Rightarrow> string + Process list" where
  "collectProcesses env =
     (case he_readdir env of
        Inl e \<Rightarrow> Inl e
      | Inr names \<Rightarrow> Inr (take maxProcs (he_sort env (List.map_filter (process_of env) names))))"

section \<open>Limits\<close>

definition isClickHouseServer :: "Process \<Rightarrow> int \<Rightarrow> bool" where
  "isClickHouseServer p selfPID \<longleftrightarrow>
     ps_PID p \<noteq> selfPID \<and>
     (case str_fields (ps_Command p) of
        [] \<Rightarrow> False
      | f # fs \<Rightarrow> has_prefix (path_base f) ''clickhouse-server''
          \<or> path_base f = ''clickhouse'' \<and> (case fs of g # _ \<Rightarrow> g = ''server'' | [] \<Rightarrow> False))"

text \<open>The open files (soft, hard) and processes (soft) of a \<open>limits\<close> file; the last line of each counts.\<close>

definition limit_line :: "string \<Rightarrow> string \<times> string \<times> string \<Rightarrow> string \<times> string \<times> string" where
  "limit_line l st = (case st of (soft, hard, nproc) \<Rightarrow>
     let f = str_fields l in
     if has_prefix l ''Max open files'' then (if length f \<ge> 5 then (f ! 3, f ! 4, nproc) else st)
     else if has_prefix l ''Max processes'' then (if length f \<ge> 4 then (soft, hard, f ! 2) else st)
     else st)"

text \<open>The directories of a cgroup path up to the root.\<close>

definition path_top :: "string \<Rightarrow> bool" where
  "path_top p \<longleftrightarrow> p \<in> set [''.'', ''/'', []]"

definition path_size :: "string \<Rightarrow> nat" where
  "path_size p = (if path_top p then 0 else Suc (length p))"

definition total_length :: "string list \<Rightarrow> nat" where
  "total_length cs = sum_list (map (\<lambda>c. Suc (length c)) cs)"

lemma total_length_simps [simp]:
  "total_length [] = 0" "total_length (c # cs) = Suc (length c) + total_length cs" "total_length (cs @ ds) = total_length cs + total_length ds"
  by (simp_all add: total_length_def)

lemma total_length_rev: "total_length (rev cs) = total_length cs"
  by (induction cs) auto

lemma length_join_slash: "cs \<noteq> [] \<Longrightarrow> Suc (length (str_join [SLASH] cs)) = total_length cs"
  by (induction "[SLASH]" cs rule: str_join.induct) auto

lemma total_split: "total_length (split_byte b s) = Suc (length s)"
  by (induction s) (auto split: list.splits)

lemma clean_step_total: "total_length (clean_step rooted c out) \<le> total_length out + total_length (filter (\<lambda>c. c \<noteq> []) [c])"
  by (auto simp: clean_step_def split: list.split)

lemma clean_fold_total: "total_length (fold (clean_step rooted) cs out) \<le> total_length out + total_length (filter (\<lambda>c. c \<noteq> []) cs)"
proof (induction cs arbitrary: out)
  case (Cons c cs)
  from Cons [of "clean_step rooted c out"] clean_step_total [of rooted c out] show ?case by (simp split: if_splits)
qed simp

lemma clean_comps_total: "total_length (clean_comps rooted cs) \<le> total_length (filter (\<lambda>c. c \<noteq> []) cs)"
  using clean_fold_total [of rooted cs "[]"] by (simp add: clean_comps_def total_length_rev)

lemma clean_shorter:
  assumes "q = r @ [SLASH]"
  shows "path_size (path_clean q) \<le> length q"
proof (cases "is_abs q")
  case True
  show ?thesis
  proof (cases r)
    case Nil
    then show ?thesis using assms by (simp add: path_clean_def clean_comps_def clean_step_def path_size_def path_top_def is_abs_def has_prefix_def)
  next
    case (Cons c r')
    with True assms have r: "r = SLASH # r'" by (auto simp: is_abs_def has_prefix_def)
    let ?cs = "clean_comps True (split_byte SLASH q)"
    have "split_byte SLASH q = [] # split_byte SLASH r' @ [[]]" using assms r split_byte_at [of SLASH r "[]"] by simp
    then have "total_length ?cs \<le> total_length (filter (\<lambda>c. c \<noteq> []) (split_byte SLASH r'))" using clean_comps_total [of True "split_byte SLASH q"] by simp
    also have "\<dots> \<le> total_length (split_byte SLASH r')" by (induction "split_byte SLASH r'") (auto simp: total_length_def intro: sum_list_filter_le_nat)
    finally have "total_length ?cs \<le> Suc (length r')" by (simp add: total_split)
    then show ?thesis using True r assms length_join_slash [of ?cs]
      by (cases "?cs = []") (auto simp: path_clean_def Let_def path_size_def path_top_def)
  qed
next
  case False
  let ?cs = "clean_comps False (split_byte SLASH q)"
  have "split_byte SLASH q = split_byte SLASH r @ [[]]" using assms split_byte_at [of SLASH r "[]"] by simp
  then have "total_length ?cs \<le> total_length (filter (\<lambda>c. c \<noteq> []) (split_byte SLASH r))" using clean_comps_total [of False "split_byte SLASH q"] by simp
  also have "\<dots> \<le> total_length (split_byte SLASH r)" by (simp add: total_length_def sum_list_filter_le_nat)
  finally have "total_length ?cs \<le> length q" using assms by (simp add: total_split)
  then show ?thesis using False length_join_slash [of ?cs]
    by (cases "?cs = []") (auto simp: path_clean_def Let_def path_size_def path_top_def)
qed

lemma dir_shorter: "\<not> path_top p \<Longrightarrow> path_size (path_dir p) < path_size p"
proof -
  assume top: "\<not> path_top p"
  let ?d = "dropWhile (\<lambda>c. c \<noteq> SLASH) (rev p)"
  have len: "length ?d \<le> length p" using length_dropWhile_le [of "\<lambda>c. c \<noteq> SLASH" "rev p"] by simp
  show ?thesis
  proof (cases ?d)
    case Nil
    have "path_clean [] = ''.''" by (simp add: path_clean_def clean_comps_def clean_step_def is_abs_def has_prefix_def)
    then have "path_dir p = ''.''" unfolding path_dir_def Nil by simp
    with top show ?thesis by (simp add: path_size_def path_top_def)
  next
    case (Cons c cs)
    then have "c = SLASH" using hd_dropWhile [of "\<lambda>c. c \<noteq> SLASH" "rev p"] by auto
    with Cons clean_shorter [of "rev ?d" "rev cs"] len have "path_size (path_dir p) \<le> length p" by (simp add: path_dir_def)
    with top show ?thesis by (simp add: path_size_def)
  qed
qed

function ancestors :: "string \<Rightarrow> string list" where
  "ancestors p = p # (if path_top p then [] else ancestors (path_dir p))"
  by pat_completeness auto
termination by (relation "measure path_size") (simp_all add: dir_shorter)

declare ancestors.simps [simp del]

definition own_value :: "(string \<Rightarrow> bool) \<Rightarrow> string \<Rightarrow> string" where
  "own_value unset v = (let v = trim_space v in if v \<noteq> [] \<and> \<not> unset v then v else [])"

definition v2_memory :: "host_env \<Rightarrow> string \<Rightarrow> string" where
  "v2_memory env p = own_value (\<lambda>v. v = ''max'') (read_file env (path_join [path_join [''/sys/fs/cgroup'', p], ''memory.max'']))"

definition v2_cpu :: "host_env \<Rightarrow> string \<Rightarrow> string" where
  "v2_cpu env p = own_value (\<lambda>v. has_prefix v ''max'') (read_file env (path_join [path_join [''/sys/fs/cgroup'', p], ''cpu.max'']))"

definition v2_limits :: "host_env \<Rightarrow> string \<Rightarrow> string \<times> string \<Rightarrow> string \<times> string" where
  "v2_limits env path mc =
     fold (\<lambda>p (mem, cpu). (if mem = [] then v2_memory env p else mem, if cpu = [] then v2_cpu env p else cpu))
       (ancestors (if has_prefix path ''/'' then drop 1 path else path)) mc"

text \<open>\<open>SplitN(line, ":", 3)\<close>\<close>

definition split3 :: "string \<Rightarrow> (string \<times> string \<times> string) option" where
  "split3 l = (case index_byte l (CHR '':'') of
     None \<Rightarrow> None
   | Some i \<Rightarrow> (case index_byte (drop (Suc i) l) (CHR '':'') of
       None \<Rightarrow> None
     | Some j \<Rightarrow> Some (take i l, take j (drop (Suc i) l), drop (Suc j) (drop (Suc i) l))))"

definition v1_limits :: "host_env \<Rightarrow> string \<Rightarrow> string \<times> string \<Rightarrow> string \<times> string" where
  "v1_limits env l mc = (case split3 l of
     None \<Rightarrow> mc
   | Some (_, ctrl, path) \<Rightarrow> (case mc of (mem, cpu) \<Rightarrow>
       (if contains ctrl ''memory'' \<and> mem = [] then trim_space (read_file env (path_join [''/sys/fs/cgroup/memory'', path, ''memory.limit_in_bytes''])) else mem,
        if contains ctrl ''cpu'' \<and> \<not> contains ctrl ''cpuset'' \<and> cpu = []
        then trim_space (read_file env (path_join [''/sys/fs/cgroup/cpu'', path, ''cpu.cfs_quota_us''])) else cpu)))"

definition cgroup_line :: "host_env \<Rightarrow> string \<Rightarrow> string \<times> string \<Rightarrow> string \<times> string" where
  "cgroup_line env l mc = v1_limits env l (if has_prefix l ''0::'' then v2_limits env (drop 3 l) mc else mc)"

definition cgroupLimits :: "host_env \<Rightarrow> int \<Rightarrow> string \<times> string" where
  "cgroupLimits env pid =
     (let (mem, cpu) = (if pid = 0 then ([], [])
        else fold (cgroup_line env) (split_byte NL (read_file env (path_join [''/proc'', int_str pid, ''cgroup'']))) ([], []))
      in (if mem = [] then firstNonEmpty [trim_space (read_file env ''/sys/fs/cgroup/memory.max''),
            trim_space (read_file env ''/sys/fs/cgroup/memory/memory.limit_in_bytes'')] else mem,
          if cpu = [] then firstNonEmpty [trim_space (read_file env ''/sys/fs/cgroup/cpu.max''),
            trim_space (read_file env ''/sys/fs/cgroup/cpu/cpu.cfs_quota_us'')] else cpu))"

definition server_of :: "host_env \<Rightarrow> Process list \<Rightarrow> Process option" where
  "server_of env procs = List.find (\<lambda>p. isClickHouseServer p (he_self env)) procs"

definition collectTunables :: "host_env \<Rightarrow> Process list \<Rightarrow> Tunables" where
  "collectTunables env procs =
     (let server = server_of env procs;
          (soft, hard, nproc) = (case server of None \<Rightarrow> ([], [], [])
            | Some p \<Rightarrow> fold limit_line (split_byte NL (read_file env (path_join [''/proc'', int_str (ps_PID p), ''limits'']))) ([], [], []));
          (mem, cpu) = cgroupLimits env (case server of None \<Rightarrow> 0 | Some p \<Rightarrow> ps_PID p)
      in \<lparr>tn_TransparentHugepages = bracketed (read_file env ''/sys/kernel/mm/transparent_hugepage/enabled''),
          tn_THPDefrag = bracketed (read_file env ''/sys/kernel/mm/transparent_hugepage/defrag''),
          tn_Swappiness = trim_space (read_file env ''/proc/sys/vm/swappiness''),
          tn_OvercommitMemory = trim_space (read_file env ''/proc/sys/vm/overcommit_memory''),
          tn_MaxMapCount = trim_space (read_file env ''/proc/sys/vm/max_map_count''),
          tn_FsNrOpen = trim_space (read_file env ''/proc/sys/fs/nr_open''), tn_FsFileMax = trim_space (read_file env ''/proc/sys/fs/file-max''),
          tn_CgroupMemoryLimit = mem, tn_CgroupCPUMax = cpu, tn_ClickHouseNofileSoft = soft, tn_ClickHouseNofileHard = hard,
          tn_ClickHouseNprocSoft = nproc, tn_ClickHouseProcessName = (case server of None \<Rightarrow> [] | Some p \<Rightarrow> ps_Command p)\<rparr>)"

section \<open>The report\<close>

definition no_tunables :: Tunables where
  "no_tunables = \<lparr>tn_TransparentHugepages = [], tn_THPDefrag = [], tn_Swappiness = [], tn_OvercommitMemory = [], tn_MaxMapCount = [],
     tn_FsNrOpen = [], tn_FsFileMax = [], tn_CgroupMemoryLimit = [], tn_CgroupCPUMax = [], tn_ClickHouseNofileSoft = [],
     tn_ClickHouseNofileHard = [], tn_ClickHouseNprocSoft = [], tn_ClickHouseProcessName = []\<rparr>"

definition host_Collect :: "host_env \<Rightarrow> Report" where
  "host_Collect env =
     (let stamp = fmt_rfc3339 (he_now env) in
      case he_proc env of
        Some _ \<Rightarrow>
          \<lparr>rp_CollectedAt = stamp,
           rp_OS = \<lparr>os_Available = False, os_Hostname = (case he_hostname env of Some h \<Rightarrow> h | None \<Rightarrow> []), os_Distro = [], os_DistroVersion = [],
             os_KernelVersion = [], os_KernelFull = [], os_Arch = he_arch env, os_GoOS = he_goos env, os_UptimeSeconds = 0\<rparr>,
           rp_CPU = no_cpu, rp_Memory = no_memory, rp_Disks = collectDisks env, rp_Processes = [], rp_Tunables = no_tunables,
           rp_Notes = [''/proc is not present (non-Linux host?) '' @ em_dash @ '' OS, CPU, memory, process and tunable sections are unavailable'']\<rparr>
      | None \<Rightarrow>
          let (os, n1) = collectOS env; (cpu, n2) = collectCPU env; (mem, n3) = collectMemory env; found = collectProcesses env;
              procs = (case found of Inl _ \<Rightarrow> [] | Inr ps \<Rightarrow> ps); n4 = (case found of Inl e \<Rightarrow> [''processes: '' @ e] | Inr _ \<Rightarrow> [])
          in \<lparr>rp_CollectedAt = stamp, rp_OS = os, rp_CPU = cpu, rp_Memory = mem, rp_Disks = collectDisks env, rp_Processes = procs,
              rp_Tunables = collectTunables env procs, rp_Notes = n1 @ n2 @ n3 @ n4\<rparr>)"

definition gib_text :: "int \<Rightarrow> string" where
  "gib_text b = fmt_fixed 1 (f_div (f_of_int b) (f_of_int (2 ^ 30)))"

definition host_Summary :: "Report \<Rightarrow> string" where
  "host_Summary r =
     (let os = rp_OS r; c = rp_CPU r; m = rp_Memory r; t = rp_Tunables r in
      (if os_Available os then ''  host: '' @ os_Hostname os @ '' | '' @ os_Distro os @ '' '' @ os_DistroVersion os @ '' | kernel '' @ os_KernelVersion os @
         '' | '' @ os_Arch os @ [NL] else []) @
      (if cpu_Available c then ''  cpu:  '' @ int_str (cpu_LogicalCPUs c) @ '' logical | '' @ cpu_ModelName c @ '' | load '' @
         str_join '' '' (cpu_LoadAvg c) @ [NL] else []) @
      (if mem_Available m then ''  mem:  '' @ gib_text (mem_TotalBytes m) @ '' GiB total | '' @ gib_text (mem_AvailableBytes m) @
         '' GiB available | swap '' @ gib_text (mem_SwapTotalBytes m) @ '' GiB'' @ [NL] else []) @
      (if tn_TransparentHugepages t \<noteq> [] then ''  thp:  '' @ tn_TransparentHugepages t @ '' (swappiness '' @ tn_Swappiness t @ '')'' @ [NL] else []))"

section \<open>Climbing the cgroup tree\<close>

lemma ancestors_climb_lemma:
  "ancestors p = map (\<lambda>i. (path_dir ^^ i) p) [0..<length (ancestors p)] \<and> length (ancestors p) \<le> Suc (path_size p) \<and>
    path_top (last (ancestors p)) \<and> list_all (\<lambda>q. \<not> path_top q) (butlast (ancestors p))"
proof (induction p rule: ancestors.induct)
  case (1 p)
  show ?case
  proof (cases "path_top p")
    case True
    then show ?thesis by (simp add: ancestors.simps [of p])
  next
    case False
    have ne: "ancestors (path_dir p) \<noteq> []" by (simp add: ancestors.simps [of "path_dir p"])
    note IH = 1 [OF False]
    have step: "ancestors p = p # ancestors (path_dir p)" using False by (simp add: ancestors.simps [of p])
    have "map (\<lambda>i. (path_dir ^^ i) p) [0..<Suc (length (ancestors (path_dir p)))] = p # map (\<lambda>i. (path_dir ^^ i) (path_dir p)) [0..<length (ancestors (path_dir p))]"
      by (simp add: map_upt_Suc funpow_swap1 del: upt_Suc)
    with IH step dir_shorter [OF False] ne False show ?thesis by (simp del: upt_Suc)
  qed
qed


section \<open>The process table\<close>

lemma str_fields_word: "f \<noteq> [] \<Longrightarrow> list_all (\<lambda>c. \<not> is_space c) f \<Longrightarrow> str_fields (f @ CHR '' '' # s) = f # str_fields s"
proof -
  assume f: "f \<noteq> []" "list_all (\<lambda>c. \<not> is_space c) f"
  then obtain c cs where c: "f = c # cs" "\<not> is_space c" "list_all (\<lambda>c. \<not> is_space c) cs" by (cases f) auto
  have sp: "is_space (CHR '' '')" by simp
  have "takeWhile (\<lambda>x. \<not> is_space x) (cs @ CHR '' '' # s) = cs" "dropWhile (\<lambda>x. \<not> is_space x) (cs @ CHR '' '' # s) = CHR '' '' # s"
    using c(3) sp by (induction cs) auto
  with c(1,2) sp show ?thesis by simp
qed

lemma str_fields_join:
  "list_all (\<lambda>f. f \<noteq> [] \<and> list_all (\<lambda>c. \<not> is_space c) f) fs \<Longrightarrow> str_fields (str_join '' '' fs) = fs"
proof (induction "'' ''" fs rule: str_join.induct)
  case (2 f)
  then obtain c cs where c: "f = c # cs" "\<not> is_space c" "list_all (\<lambda>c. \<not> is_space c) cs" by (cases f) auto
  have t: "takeWhile (\<lambda>x. \<not> is_space x) cs = cs" and d: "dropWhile (\<lambda>x. \<not> is_space x) cs = []"
    using c(3) by (induction cs) auto
  from c(1,2) show ?case by (simp add: t d del: takeWhile_eq_all_conv dropWhile_eq_Nil_conv)
next
  case (3 x y ys)
  then show ?case using str_fields_word [of x "str_join '' '' (y # ys)"] by simp
qed simp

lemma upt_split_at: "a < n \<Longrightarrow> [0..<n] = [0..<a] @ a # [Suc a..<n]"
  using upt_add_eq_append [of 0 a "n - a"] by (simp add: upt_conv_Cons)

lemma last_index_byte: "c \<notin> set b \<Longrightarrow> last_index (a @ c # b) [c] = Some (length a)"
proof -
  assume c: "c \<notin> set b"
  let ?s = "a @ c # b"
  have at: "has_prefix (drop i ?s) [c] \<longleftrightarrow> i < length ?s \<and> ?s ! i = c" for i
  proof (cases "i < length ?s")
    case True
    then show ?thesis using Cons_nth_drop_Suc [of i ?s, symmetric] by (simp add: has_prefix_def del: length_append)
  qed (simp add: has_prefix_def)
  have none: "\<not> has_prefix (drop i ?s) [c]" if "i > length a" for i
    using c that unfolding at by (auto simp: nth_append nth_Cons' in_set_conv_nth)
  have split: "rev [0..<Suc (length ?s)] = rev [Suc (length a)..<Suc (length ?s)] @ length a # rev [0..<length a]"
    by (subst upt_split_at [of "length a"]) (simp_all del: upt_Suc)
  have "filter (\<lambda>i. has_prefix (drop i ?s) [c]) (rev [Suc (length a)..<Suc (length ?s)]) = []"
    using none by (auto simp: filter_empty_conv simp del: upt_Suc)
  moreover have "has_prefix (drop (length a) ?s) [c]" by (simp add: has_prefix_def)
  ultimately show ?thesis unfolding last_index_def split filter_append filter.simps by (simp only: if_True append.simps list.case)
qed

lemma proc_stat_lemma:
  assumes "list_all (\<lambda>f. f \<noteq> [] \<and> list_all (\<lambda>c. \<not> is_space c \<and> c \<noteq> CHR '')'') f) fs" "length fs \<ge> 22"
  shows "parseProcStat (nat_str n @ '' ('' @ comm @ '') '' @ str_join '' '' fs) pid pageSize =
    Some \<lparr>ps_PID = pid, ps_PPID = fst (parse_int64 (fs ! 1)), ps_State = fs ! 0, ps_RSSBytes = wrap64 (fst (parse_int64 (fs ! 21)) * pageSize),
      ps_Threads = fst (parse_int64 (fs ! 17)), ps_Command = comm\<rparr>"
proof -
  let ?raw = "nat_str n @ '' ('' @ comm @ '') '' @ str_join '' '' fs"
  have join: "CHR '')'' \<notin> set (str_join '' '' fs)"
    using assms(1) by (induction "'' ''" fs rule: str_join.induct) (auto simp: list_all_iff)
  have "CHR ''('' \<notin> set (nat_str n @ '' '')" using digits_nat_str [of n] by (auto simp: list_all_iff)
  then have first: "str_index ?raw ''('' = Some (length (nat_str n) + 1)"
    using index_byte_hit [of "CHR ''(''" "nat_str n @ '' ''" "comm @ '') '' @ str_join '' '' fs"] by (simp add: str_index_byte)
  have last: "last_index ?raw '')'' = Some (length (nat_str n @ '' ('' @ comm))"
    using last_index_byte [of "CHR '')''" "CHR '' '' # str_join '' '' fs" "nat_str n @ '' ('' @ comm"] join by simp
  have "list_all (\<lambda>f. f \<noteq> [] \<and> list_all (\<lambda>c. \<not> is_space c) f) fs" using assms(1) by (auto simp: list_all_iff)
  then have fields: "str_fields (CHR '' '' # str_join '' '' fs) = fs" using str_fields_join by simp
  have rest: "drop (Suc (length (nat_str n @ '' ('' @ comm))) ?raw = CHR '' '' # str_join '' '' fs" by (simp add: numeral_3_eq_3)
  have cut: "drop (Suc (length (nat_str n) + 1)) ?raw = comm @ '') '' @ str_join '' '' fs" by simp
  show ?thesis unfolding parseProcStat_def first last option.case prod.case rest fields cut Let_def using assms(2) by simp
qed


section \<open>Redaction\<close>

text \<open>A pattern that looks no further than it consumes, and cannot consume the separator, does not see what follows the separator.\<close>

primrec no_lookahead :: "re \<Rightarrow> bool" where
  "no_lookahead (Cls p) = True"
| "no_lookahead Eps = True"
| "no_lookahead (Seq a b) = (no_lookahead a \<and> no_lookahead b)"
| "no_lookahead (Alt a b) = (no_lookahead a \<and> no_lookahead b)"
| "no_lookahead (Star g r) = no_lookahead r"
| "no_lookahead (Grp n r) = no_lookahead r"
| "no_lookahead Bot = True"
| "no_lookahead Bol = True"
| "no_lookahead Eol = False"
| "no_lookahead Eot = False"
| "no_lookahead WordB = False"

definition up_to :: "char \<Rightarrow> string \<Rightarrow> string \<Rightarrow> nat \<Rightarrow> mst \<Rightarrow> mst \<Rightarrow> bool" where
  "up_to c v v' n st st' \<longleftrightarrow> mpos st' = mpos st \<and> mprev st' = mprev st \<and>
     (\<exists>u. c \<notin> set u \<and> mpos st + length u = n \<and> mrest st = u @ c # v \<and> mrest st' = u @ c # v')"

lemma star_up_to:
  assumes "\<And>st st' t. up_to c v v' n st st' \<Longrightarrow> t \<in> set (f st) \<Longrightarrow> \<exists>t'\<in>set (f st'). up_to c v v' n t t'"
  shows "up_to c v v' n st st' \<Longrightarrow> n \<le> mpos st + m \<Longrightarrow> t \<in> set (star_list g f k st) \<Longrightarrow> \<exists>t'\<in>set (star_list g f m st'). up_to c v v' n t t'"
proof (induction k arbitrary: st st' m)
  case 0
  then show ?case by (cases m) (auto simp: Let_def)
next
  case (Suc k)
  from Suc.prems(3) consider "t = st" | u where "u \<in> set (f st)" "mpos st < mpos u" "t \<in> set (star_list g f k u)"
    by (auto simp: Let_def split: if_splits)
  then show ?case
  proof cases
    case 1
    with Suc.prems(1) show ?thesis by (cases m) (auto simp: Let_def)
  next
    case 2
    then obtain u' where u': "u' \<in> set (f st')" "up_to c v v' n u u'" using assms Suc.prems(1) by blast
    then have "mpos u \<le> n" by (auto simp: up_to_def)
    with 2(2) Suc.prems(2) obtain j where j: "m = Suc j" "n \<le> mpos u + j" by (cases m) auto
    then obtain t' where "t' \<in> set (star_list g f j u')" "up_to c v v' n t t'" using Suc.IH u'(2) 2(3) by blast
    moreover have "mpos st' < mpos u'" using u'(2) Suc.prems(1) 2(2) by (simp add: up_to_def)
    ultimately show ?thesis using u'(1) j(1) by (auto simp: Let_def)
  qed
qed

lemma matches_up_to:
  "no_lookahead r \<Longrightarrow> \<not> alphabet r c \<Longrightarrow> up_to c v v' n st st' \<Longrightarrow> t \<in> set (matches r st) \<Longrightarrow> \<exists>t'\<in>set (matches r st'). up_to c v v' n t t'"
proof (induction r arbitrary: st st' t)
  case (Cls p)
  then obtain u where u: "c \<notin> set u" "mpos st + length u = n" "mrest st = u @ c # v" "mrest st' = u @ c # v'" by (auto simp: up_to_def)
  with Cls show ?case by (cases u) (auto simp: up_to_def split: if_splits)
next
  case (Seq a b)
  then show ?case by (fastforce simp del: matches.simps(1))
next
  case (Alt a b)
  then show ?case by fastforce
next
  case (Star g r)
  have "n \<le> mpos st + length (mrest st')" using Star.prems(3) by (auto simp: up_to_def)
  with Star star_up_to [of c v v' n "matches r"] show ?case by simp
next
  case (Grp m r)
  then obtain u where u: "u \<in> set (matches r st)" "t = M (mpos u) (mprev u) (mrest u) ((m, mpos st, mpos u) # mcaps u)" by auto
  then obtain u' where "u' \<in> set (matches r st')" "up_to c v v' n u u'" using Grp.IH Grp.prems by force
  then show ?case using u(2) by (fastforce simp: up_to_def)
qed (auto simp: up_to_def split: if_splits)

lemma match_start: "match_string (Seq Bot r) s \<longleftrightarrow> matches r (M 0 None s []) \<noteq> []"
  unfolding match_string_iff by (auto split: if_splits)

lemma match_up_to:
  assumes "no_lookahead r" "\<not> alphabet r c" "c \<notin> set u" "match_string (Seq Bot r) (u @ c # v)"
  shows "match_string (Seq Bot r) (u @ c # v')"
proof -
  have "up_to c v v' (length u) (M 0 None (u @ c # v) []) (M 0 None (u @ c # v') [])" using assms(3) by (auto simp: up_to_def)
  with matches_up_to [OF assms(1,2)] assms(4) show ?thesis unfolding match_start
    by (metis (no_types, lifting) last_in_set list.set(1) empty_iff)
qed

lemma no_lookahead_ilit [simp]: "no_lookahead (ilit s)"
  by (induction s rule: ilit.induct) auto

lemma alphabet_ilit: "alphabet (ilit s) c \<longleftrightarrow> lower_char c \<in> set (map lower_char s)"
  by (induction s rule: ilit.induct) auto

lemma no_lookahead_lit [simp]: "no_lookahead (lit s)"
  by (induction s rule: lit.induct) auto

lemma secret_arg_name: "CHR ''='' \<notin> set n \<Longrightarrow> secret_arg (n @ CHR ''='' # v) \<Longrightarrow> secret_arg (n @ CHR ''='' # v')"
  unfolding secret_arg_def re_secret_arg_def seqs.simps
  by (rule match_up_to) (simp_all add: alphabet_lit alphabet_ilit re_not_eq_def re_dash_bar_def)

text \<open>Command lines that differ only in the values of secret arguments: after the equals sign, or in the word that follows the argument.\<close>

fun alike_args :: "string list \<Rightarrow> string list \<Rightarrow> bool" where
  "alike_args [] [] = True"
| "alike_args (a # as) (b # bs) =
     (if secret_arg a \<and> CHR ''='' \<in> set a then cut a ''='' \<noteq> None \<and> map_option fst (cut a ''='') = map_option fst (cut b ''='') \<and> alike_args as bs
      else if secret_arg a then a = b \<and> (case (as, bs) of (_ # as', _ # bs') \<Rightarrow> alike_args as' bs' | ([], []) \<Rightarrow> True | _ \<Rightarrow> False)
      else a = b \<and> alike_args as bs)"
| "alike_args _ _ = False"

lemma cut_eq_parts: "cut a ''='' = Some (n, v) \<Longrightarrow> a = n @ CHR ''='' # v \<and> CHR ''='' \<notin> set n \<and> index_byte a (CHR ''='') = Some (length n)"
  using index_byte_Some [of a "CHR ''=''"] id_take_nth_drop [of "the (index_byte a (CHR ''=''))" a]
  by (auto simp: cut_def str_index_byte split: option.splits)

lemma redact_words_alike: "alike_args as bs \<Longrightarrow> redact_words as = redact_words bs"
proof (induction as bs rule: alike_args.induct)
  case (2 a as b bs)
  consider (eq) "secret_arg a" "CHR ''='' \<in> set a" | (sep) "secret_arg a" "CHR ''='' \<notin> set a" | (other) "\<not> secret_arg a" by blast
  then show ?case
  proof cases
    case eq
    have alike: "cut a ''='' \<noteq> None" "map_option fst (cut a ''='') = map_option fst (cut b ''='')" "alike_args as bs"
      using 2(4) eq by simp_all
    then obtain n v v' where ab: "cut a ''='' = Some (n, v)" "cut b ''='' = Some (n, v')"
      by (cases "cut a ''=''"; cases "cut b ''=''") auto
    note parts = cut_eq_parts [OF ab(1)] cut_eq_parts [OF ab(2)]
    have "secret_arg b" using secret_arg_name parts eq(1) by metis
    moreover have "redact_words as = redact_words bs" using 2(1) eq alike(3) by simp
    moreover have "take (Suc (length n)) a = take (Suc (length n)) b" using parts by simp
    moreover from parts have "index_byte a (CHR ''='') = Some (length n)" "index_byte b (CHR ''='') = Some (length n)" by blast+
    ultimately show ?thesis using eq(1) by simp
  next
    case sep
    have ab: "a = b" and rest: "case (as, bs) of (_ # as', _ # bs') \<Rightarrow> alike_args as' bs' | ([], []) \<Rightarrow> True | _ \<Rightarrow> False" using 2(4) sep by simp_all
    have none: "index_byte b (CHR ''='') = None" using sep(2) ab by simp
    show ?thesis using 2(2) sep rest unfolding ab by (cases as; cases bs) (simp_all add: none del: index_byte_None)
  next
    case other
    then have "a = b" "alike_args as bs" using 2(4) by simp_all
    then show ?thesis using 2(3) other by simp
  qed
qed simp_all

lemma star_list_ne [simp]: "star_list g f n st \<noteq> []"
  by (cases n) (auto simp: Let_def)

lemma plain_word: "c \<noteq> CHR ''-'' \<Longrightarrow> \<not> secret_arg (c # cs)"
  unfolding secret_arg_def re_secret_arg_def seqs.simps match_start by simp

lemma secret_word: "secret_arg (''--token'' @ v)"
  unfolding secret_arg_def re_secret_arg_def seqs.simps match_start by (simp add: re_not_eq_def)

text \<open>C28: What a shown command line says does not depend on the values of its secret arguments: two command lines that differ only after the equals sign of such an argument, or only in the word after one without an equals sign, are shown alike.\<close>

theorem redact_hides_values:
  assumes "alike_args (split_byte (CHR '' '') a) (split_byte (CHR '' '') b)"
  shows "redactArgs a = redactArgs b"
  unfolding redactArgs_def redact_words_alike [OF assms] ..

theorem redact_hides_values_witness:
  "redactArgs ''ch --token=a1 x'' = redactArgs ''ch --token=b2= x''"
proof (rule redact_hides_values)
  have words: "split_byte (CHR '' '') ''ch --token=a1 x'' = [''ch'', ''--token=a1'', ''x'']"
    "split_byte (CHR '' '') ''ch --token=b2= x'' = [''ch'', ''--token=b2='', ''x'']" by simp_all
  have secret: "secret_arg ''--token=a1''" using secret_word [of "''=a1''"] by simp
  have cuts: "cut ''--token=a1'' ''='' = Some (''--token'', ''a1'')" "cut ''--token=b2='' ''='' = Some (''--token'', ''b2='')"
    by (simp_all add: cut_def str_index_byte)
  show "alike_args (split_byte (CHR '' '') ''ch --token=a1 x'') (split_byte (CHR '' '') ''ch --token=b2= x'')"
    unfolding words alike_args.simps by (simp add: secret cuts plain_word)
qed

definition program_only :: "string \<Rightarrow> bool" where
  "program_only s \<longleftrightarrow> CHR '' '' \<notin> set (drop 1 s) \<or> has_prefix s '' ''"

lemma shown_command_cases:
  "(contains cmd ''clickhouse'' \<and> shown_command cmd = redactArgs cmd) \<or>
    (\<not> contains cmd ''clickhouse'' \<and> has_prefix cmd (shown_command cmd) \<and> program_only (shown_command cmd))"
proof (cases "contains cmd ''clickhouse''")
  case False
  show ?thesis
  proof (cases "index_byte cmd (CHR '' '')")
    case None
    then have "CHR '' '' \<notin> set cmd" by simp
    then have "CHR '' '' \<notin> set (drop 1 cmd)" using set_drop_subset by fastforce
    moreover have "shown_command cmd = cmd" unfolding shown_command_def None using False by simp
    ultimately show ?thesis using False by (simp add: program_only_def has_prefix_def)
  next
    case (Some i)
    note parts = index_byte_Some [OF Some]
    show ?thesis
    proof (cases "i = 0")
      case True
      with parts obtain cs where "cmd = CHR '' '' # cs" by (cases cmd) auto
      with False show ?thesis by (simp add: shown_command_def program_only_def has_prefix_def)
    next
      case i: False
      have "CHR '' '' \<notin> set (drop 1 (take i cmd))" using parts set_drop_subset by fastforce
      with i Some False show ?thesis by (simp add: shown_command_def program_only_def has_prefix_def min_def)
    qed
  qed
qed (simp add: shown_command_def)

lemma process_of_shown:
  assumes "process_of env name = Some p"
  shows "\<exists>cmd. ps_Command p = shown_command cmd"
  using assms by (auto simp: process_of_def Let_def split: prod.splits option.splits if_splits)

text \<open>Of the processes of the machine, at most 25 are listed, none smaller than one left out, and each by its program alone unless the command line mentions ClickHouse, in which case it is redacted.\<close>

theorem processes_listed:
  assumes "collectProcesses env = Inr ps" "he_readdir env = Inr names"
    and "\<And>xs. mset (he_sort env xs) = mset xs" "\<And>xs. sorted_wrt (\<lambda>p q. ps_RSSBytes p \<ge> ps_RSSBytes q) (he_sort env xs)"
  shows "\<exists>rest. mset (ps @ rest) = mset (List.map_filter (process_of env) names) \<and>
      length ps = min 25 (length (ps @ rest)) \<and>
      (\<forall>p\<in>set ps. (\<forall>q\<in>set rest. ps_RSSBytes q \<le> ps_RSSBytes p) \<and>
        ((\<exists>cmd. contains cmd ''clickhouse'' \<and> ps_Command p = redactArgs cmd) \<or> program_only (ps_Command p)))"
proof (intro exI conjI ballI)
  let ?all = "List.map_filter (process_of env) names" let ?s = "he_sort env ?all"
  let ?rest = "drop maxProcs ?s"
  have ps: "ps = take maxProcs ?s" using assms(1,2) by (simp add: collectProcesses_def)
  show "mset (ps @ ?rest) = mset ?all" unfolding ps append_take_drop_id by (rule assms(3))
  show "length ps = min 25 (length (ps @ ?rest))" unfolding ps append_take_drop_id by (simp add: maxProcs_def min_def)
  fix p assume p: "p \<in> set ps"
  have "sorted_wrt (\<lambda>p q. ps_RSSBytes p \<ge> ps_RSSBytes q) (take maxProcs ?s @ ?rest)" unfolding append_take_drop_id by (rule assms(4))
  then show "ps_RSSBytes q \<le> ps_RSSBytes p" if "q \<in> set ?rest" for q using p that unfolding ps sorted_wrt_append by blast
  have "p \<in> set ?all" using p assms(3) [of ?all] unfolding ps by (metis in_set_takeD mset_eq_setD)
  then obtain name where "process_of env name = Some p" by (auto simp: map_filter_def)
  with process_of_shown obtain cmd where "ps_Command p = shown_command cmd" by blast
  with shown_command_cases [of cmd]
  show "(\<exists>cmd. contains cmd ''clickhouse'' \<and> ps_Command p = redactArgs cmd) \<or> program_only (ps_Command p)" by auto
qed

definition demo_host :: host_env where
  "demo_host = \<lparr>he_now = 0, he_proc = None,
     he_read = (\<lambda>p. if p = ''/proc/7/stat'' then Some (nat_str 7 @ '' ('' @ ''a) b'' @ '') '' @ str_join '' '' (replicate 22 ''4'')) else None),
     he_error = (\<lambda>_. []), he_hostname = None, he_arch = [], he_goos = [], he_readdir = Inr [''7'', ''self''], he_page = 4096, he_self = 1,
     he_isdir = (\<lambda>_. False), he_statfs = (\<lambda>_. None), he_sort = (\<lambda>ps. rev (sort_key ps_RSSBytes ps))\<rparr>"

lemma demo_processes: "List.map_filter (process_of demo_host) [''7'', ''self''] = [\<lparr>ps_PID = 7, ps_PPID = 4, ps_State = ''4'', ps_RSSBytes = 16384, ps_Threads = 4, ps_Command = ''a)''\<rparr>]"
proof -
  have path: "path_join [''/proc'', ''7'', ''stat''] = ''/proc/7/stat''" "path_join [''/proc'', ''7'', ''cmdline''] = ''/proc/7/cmdline''"
    by (simp_all add: path_join_def path_clean_def clean_comps_def clean_step_def is_abs_def has_prefix_def)
  have pids: "parse_int64 ''7'' = (7, None)" "parse_int64 ''4'' = (4, None)" "parse_int64 ''self'' = (0, Some ErrSyntax)"
    by code_simp+
  have stat: "parseProcStat (nat_str 7 @ '' ('' @ ''a) b'' @ '') '' @ str_join '' '' (replicate 22 ''4'')) 7 4096 =
      Some \<lparr>ps_PID = 7, ps_PPID = 4, ps_State = ''4'', ps_RSSBytes = 16384, ps_Threads = 4, ps_Command = ''a) b''\<rparr>"
    by (subst proc_stat_lemma) (simp_all add: pids wrap64_def list_all_iff)
  have "process_of demo_host ''7'' = Some \<lparr>ps_PID = 7, ps_PPID = 4, ps_State = ''4'', ps_RSSBytes = 16384, ps_Threads = 4, ps_Command = ''a)''\<rparr>"
    unfolding process_of_def pids using stat by (simp add: demo_host_def read_file_def path readCmdline_def Let_def shown_command_def contains_def has_prefix_def)
  moreover have "process_of demo_host ''self'' = None" by (simp add: process_of_def pids)
  ultimately show ?thesis by (simp add: map_filter_simps)
qed

theorem processes_listed_witness:
  "\<exists>rest. mset ([\<lparr>ps_PID = 7, ps_PPID = 4, ps_State = ''4'', ps_RSSBytes = 16384, ps_Threads = 4, ps_Command = ''a)''\<rparr>] @ rest)
      = mset (List.map_filter (process_of demo_host) [''7'', ''self'']) \<and> length rest = 0"
proof -
  have "he_sort demo_host xs = rev (sort_key ps_RSSBytes xs)" for xs by (simp add: demo_host_def)
  then have sorts: "mset (he_sort demo_host xs) = mset xs" "sorted_wrt (\<lambda>p q. ps_RSSBytes p \<ge> ps_RSSBytes q) (he_sort demo_host xs)" for xs
    by (simp_all add: sorted_wrt_rev sorted_sort_key [unfolded sorted_map])
  have read: "he_readdir demo_host = Inr [''7'', ''self'']" by (simp add: demo_host_def)
  have "collectProcesses demo_host = Inr [\<lparr>ps_PID = 7, ps_PPID = 4, ps_State = ''4'', ps_RSSBytes = 16384, ps_Threads = 4, ps_Command = ''a)''\<rparr>]"
    unfolding collectProcesses_def read sum.case demo_processes by (simp add: demo_host_def maxProcs_def)
  from processes_listed [OF this read sorts] show ?thesis unfolding demo_processes by force
qed

text \<open>C29: A process is read back from the line the kernel writes for it, whatever spaces and parentheses its name holds.\<close>

theorem proc_stat_roundtrip:
  assumes "list_all (\<lambda>f. f \<noteq> [] \<and> list_all (\<lambda>c. \<not> is_space c \<and> c \<noteq> CHR '')'') f) fs" "length fs \<ge> 22"
  shows "parseProcStat (nat_str n @ '' ('' @ comm @ '') '' @ str_join '' '' fs) pid pageSize =
    Some \<lparr>ps_PID = pid, ps_PPID = fst (parse_int64 (fs ! 1)), ps_State = fs ! 0, ps_RSSBytes = wrap64 (fst (parse_int64 (fs ! 21)) * pageSize),
      ps_Threads = fst (parse_int64 (fs ! 17)), ps_Command = comm\<rparr>"
  using assms by (rule proc_stat_lemma)

theorem proc_stat_roundtrip_witness:
  "map_option ps_Command (parseProcStat (nat_str 7 @ '' ('' @ '') ('' @ '') '' @ str_join '' '' (replicate 22 ''4'')) 7 4096) = Some '') (''"
  by (subst proc_stat_roundtrip) (simp_all add: list_all_iff)

section \<open>Limits and disks\<close>

lemma fold_first:
  "fold (\<lambda>p (mem, cpu). (if mem = [] then f p else mem, if cpu = [] then g p else cpu)) ps (m, c) =
    (firstNonEmpty (m # map f ps), firstNonEmpty (c # map g ps))"
  by (induction ps arbitrary: m c) (auto simp: firstNonEmpty_def)

text \<open>C0: The limits of the second version are those of the nearest directory up the tree that sets one, memory and processor apart.\<close>

theorem v2_limits_nearest:
  "v2_limits env path ([], []) =
    (let up = ancestors (if has_prefix path ''/'' then drop 1 path else path)
     in (firstNonEmpty (map (v2_memory env) up), firstNonEmpty (map (v2_cpu env) up)))"
  unfolding v2_limits_def Let_def fold_first by (simp add: firstNonEmpty_def)

lemma mount_lines_inv:
  "distinct (map dk_MountPoint (mount_lines env seen ls)) \<and>
    (\<forall>d\<in>set (mount_lines env seen ls). dk_MountPoint d \<notin> set seen \<and> dk_FSType d \<notin> set pseudoFS \<and> dk_TotalBytes d \<noteq> 0 \<and>
       he_isdir env (dk_MountPoint d) \<and>
       (\<exists>l\<in>set ls. \<exists>m rest. str_fields l = dk_Device d # m # dk_FSType d # rest \<and> unescapeMount m = dk_MountPoint d))"
proof (induction ls arbitrary: seen)
  case (Cons l ls)
  show ?case
  proof (cases "\<exists>device m fstype rest. str_fields l = device # m # fstype # rest")
    case False
    then have "mount_lines env seen (l # ls) = mount_lines env seen ls" by (auto split: list.split)
    with Cons [of seen] show ?thesis by auto
  next
    case True
    then obtain device m fstype rest where f: "str_fields l = device # m # fstype # rest" by blast
    show ?thesis
    proof (cases "Option.bind (he_statfs env (unescapeMount m)) (disk_of device (unescapeMount m) fstype)")
      case None
      with f Cons [of seen] Cons [of "unescapeMount m # seen"] show ?thesis by (auto simp: Let_def)
    next
      case (Some d)
      then have "dk_Device d = device" "dk_MountPoint d = unescapeMount m" "dk_FSType d = fstype" "dk_TotalBytes d \<noteq> 0"
        by (auto simp: disk_of_def Let_def bind_eq_Some_conv split: if_splits)
      with Some f Cons [of seen] Cons [of "unescapeMount m # seen"] show ?thesis by (auto simp: Let_def)
    qed
  qed
qed simp

text \<open>The disks of the report are real: each mount point is listed once, is a directory and has a size, none is a pseudo file system, and each comes from a line of the mount table.\<close>

theorem disks_real:
  "distinct (map dk_MountPoint (collectDisks env)) \<and>
    list_all (\<lambda>d. dk_FSType d \<notin> set pseudoFS \<and> dk_TotalBytes d \<noteq> 0 \<and> he_isdir env (dk_MountPoint d)) (collectDisks env)"
  unfolding collectDisks_def list_all_iff using mount_lines_inv [of env "[]"] by fast

text \<open>What is kept of other programs and of values with blanks.\<close>

lemma redact_words_id: "list_all (\<lambda>w. \<not> secret_arg w) ws \<Longrightarrow> redact_words ws = ws"
  by (induction ws) auto

lemma other_program_kept_whole:
  "list_all (\<lambda>w. \<not> secret_arg w) (split_byte (CHR '' '') cmd) \<Longrightarrow> contains cmd ''clickhouse'' \<Longrightarrow> shown_command cmd = cmd"
  by (simp add: shown_command_def redactArgs_def redact_words_id)

lemma rest_of_value_shown:
  "CHR ''='' \<notin> set p \<Longrightarrow> secret_arg p \<Longrightarrow> \<not> secret_arg b \<Longrightarrow> redact_words (p # a # b # ws) = p # ''[redacted]'' # b # redact_words ws"
proof -
  assume p: "CHR ''='' \<notin> set p" "secret_arg p" "\<not> secret_arg b"
  then have "index_byte p (CHR ''='') = None" by simp
  with p show ?thesis by (simp del: index_byte_None)
qed

lemma nearest_limit_not_tightest:
  "v2_limits (demo_host\<lparr>he_read := \<lambda>p. if p = ''/sys/fs/cgroup/a/b/memory.max'' then Some ''64'' else if p = ''/sys/fs/cgroup/a/memory.max'' then Some ''32'' else None\<rparr>) ''/a/b'' ([], []) = (''64'', [])"
  by code_simp

end
