(* ===== verification/GoUtf8.thy ===== *)
theory GoUtf8
  imports GoStrings
begin

text \<open>
  Runes of a text: \<open>[]rune(s)\<close> decodes UTF-8 (a byte that starts no valid sequence is the rune 0xFFFD),
  \<open>string(runes)\<close> encodes it again.
\<close>

definition RuneError :: nat where "RuneError = 0xFFFD"

text \<open>What the first byte of a sequence promises: the number of bytes and the range of the second one.\<close>

definition rune_first :: "nat \<Rightarrow> (nat \<times> nat \<times> nat) option" where
  "rune_first b =
     (if 0xC2 \<le> b \<and> b \<le> 0xDF then Some (2, 0x80, 0xBF)
      else if b = 0xE0 then Some (3, 0xA0, 0xBF)
      else if b = 0xED then Some (3, 0x80, 0x9F)
      else if 0xE1 \<le> b \<and> b \<le> 0xEF then Some (3, 0x80, 0xBF)
      else if b = 0xF0 then Some (4, 0x90, 0xBF)
      else if 0xF1 \<le> b \<and> b \<le> 0xF3 then Some (4, 0x80, 0xBF)
      else if b = 0xF4 then Some (4, 0x80, 0x8F)
      else None)"

definition cont_byte :: "nat \<Rightarrow> bool" where
  "cont_byte b \<longleftrightarrow> 0x80 \<le> b \<and> b \<le> 0xBF"

definition low6 :: "nat \<Rightarrow> nat" where "low6 b = b mod 64"

text \<open>The first rune of a text that is not empty, and its number of bytes.\<close>

definition decode_rune :: "string \<Rightarrow> nat \<times> nat" where
  "decode_rune s =
     (let bs = map code s; b0 = hd bs in
      if b0 < 0x80 then (b0, 1)
      else case rune_first b0 of
        None \<Rightarrow> (RuneError, 1)
      | Some (n, lo, hi) \<Rightarrow>
          if length bs < n \<or> \<not> (lo \<le> bs ! 1 \<and> bs ! 1 \<le> hi) \<or> \<not> list_all cont_byte (drop 2 (take n bs)) then (RuneError, 1)
          else if n = 2 then (64 * (b0 - 0xC0) + low6 (bs ! 1), 2)
          else if n = 3 then (4096 * (b0 - 0xE0) + 64 * low6 (bs ! 1) + low6 (bs ! 2), 3)
          else (262144 * (b0 - 0xF0) + 4096 * low6 (bs ! 1) + 64 * low6 (bs ! 2) + low6 (bs ! 3), 4))"

function runes :: "string \<Rightarrow> nat list" where
  "runes [] = []"
| "runes (c # cs) = (case decode_rune (c # cs) of (r, n) \<Rightarrow> r # runes (drop (n - 1) cs))"
  by pat_completeness auto
termination by (relation "measure length") auto

definition encode_rune :: "nat \<Rightarrow> string" where
  "encode_rune r =
     map char_of
      (if r < 0x80 then [r]
       else if r < 0x800 then [0xC0 + r div 64, 0x80 + r mod 64]
       else if r < 0x10000 then [0xE0 + r div 4096, 0x80 + r div 64 mod 64, 0x80 + r mod 64]
       else [0xF0 + r div 262144, 0x80 + r div 4096 mod 64, 0x80 + r div 64 mod 64, 0x80 + r mod 64])"

definition of_runes :: "nat list \<Rightarrow> string" where
  "of_runes rs = concat (map encode_rune rs)"

lemma decode_ascii: "code c < 128 \<Longrightarrow> decode_rune (c # cs) = (code c, 1)"
  by (simp add: decode_rune_def)

lemma runes_ascii: "list_all (\<lambda>c. code c < 128) s \<Longrightarrow> runes s = map code s"
  by (induction s) (simp_all add: decode_ascii)

lemma runes_Cons_ascii: "code c < 128 \<Longrightarrow> runes (c # cs) = code c # runes cs"
  by (simp add: decode_ascii)

text \<open>The bytes of at most \<open>n\<close> runes: \<open>%.<n>s\<close>.\<close>

primrec first_runes :: "nat \<Rightarrow> string \<Rightarrow> string" where
  "first_runes 0 s = []"
| "first_runes (Suc n) s = (if s = [] then [] else let k = snd (decode_rune s) in take k s @ first_runes n (drop k s))"

end
