(* ===== verification/ModeSelection.thy ===== *)
theory ModeSelection
  imports GoUtf8 Archive RunLog Bundle "HOL-Library.Sublist"
begin

text \<open>
  What the command decides before it collects (\<open>cmd/main.go\<close>): the mode and the answers at the prompts, the password, which local
  collectors run, whether a dashboard is built, the verdict of the visibility probe, and what the run log says of collectors without
  a file. The standard input is the text still to be read; the terminal, the environment and the password typed are parameters.
\<close>

section \<open>Modes\<close>

definition canonicalModes :: "string list" where
  "canonicalModes = [''cloud'', ''onprem'', ''gov'']"

definition modeAliases :: "(string \<times> string) list" where
  "modeAliases =
     [(''cloud'', ''cloud''), (''ch-cloud'', ''cloud''), (''clickhouse-cloud'', ''cloud''),
      (''onprem'', ''onprem''), (''on-prem'', ''onprem''), (''on_prem'', ''onprem''),
      (''onpremise'', ''onprem''), (''on-premise'', ''onprem''),
      (''onpremises'', ''onprem''), (''on-premises'', ''onprem''),
      (''selfhosted'', ''onprem''), (''self-hosted'', ''onprem''), (''self_hosted'', ''onprem''),
      (''gov'', ''gov'')]"

definition folded :: "string \<Rightarrow> string" where
  "folded raw = to_lower (trim_space raw)"

definition canonicalMode :: "string \<Rightarrow> string" where
  "canonicalMode raw = (case map_of modeAliases (folded raw) of Some m \<Rightarrow> m | None \<Rightarrow> [])"

text \<open>The row of the table for one rune of the first text: \<open>left\<close> is the edit_cell before, the list the row above.\<close>

fun edit_cells :: "nat \<Rightarrow> nat \<Rightarrow> nat list \<Rightarrow> nat list \<Rightarrow> nat list" where
  "edit_cells c left (p # q # prev) (b # bs) =
     (let cost = (if c = b then 0 else 1); edit_cell = min (min (left + 1) (q + 1)) (p + cost)
      in edit_cell # edit_cells c edit_cell (q # prev) bs)"
| "edit_cells c left _ _ = []"

primrec edit_rows :: "nat list \<Rightarrow> nat \<Rightarrow> nat list \<Rightarrow> nat list \<Rightarrow> nat list" where
  "edit_rows [] i prev br = prev"
| "edit_rows (c # ar) i prev br = edit_rows ar (Suc i) (i # edit_cells c i prev br) br"

definition editDistance :: "string \<Rightarrow> string \<Rightarrow> nat" where
  "editDistance a b = (let br = runes b in last (edit_rows (runes a) 1 [0..<length br + 1] br))"

definition nearestMode :: "string \<Rightarrow> string" where
  "nearestMode raw =
     fst (fold (\<lambda>m (best, bestDist). let d = editDistance (folded raw) m in if d < bestDist then (m, d) else (best, bestDist))
       canonicalModes ([], 3))"

definition invalidModeErr :: "string \<Rightarrow> string" where
  "invalidModeErr raw =
     (let s = nearestMode raw; head = ''invalid mode '' @ go_quote (trim_space raw) @ '' '' @ em_dash @ '' choose '' @ str_join '', '' canonicalModes
      in if s \<noteq> [] then head @ ''; did you mean '' @ go_quote s @ ''?'' else head)"

text \<open>\<open>prompt\<close>: the answer at the prompt and the error of reading it. The result is an error, or the mode and a notice.\<close>

definition default_notice :: string where
  "default_notice = ''No -mode given and stdin is not a terminal; using onprem.''"

definition resolveMode :: "string \<Rightarrow> bool \<Rightarrow> bool \<Rightarrow> string \<times> string option \<Rightarrow> string + string \<times> string" where
  "resolveMode raw explicit interactive prompt =
     (if explicit then (if canonicalMode raw \<noteq> [] then Inr (canonicalMode raw, []) else Inl (invalidModeErr raw))
      else if \<not> interactive then Inr (''onprem'', default_notice)
      else case prompt of (answer, perr) \<Rightarrow>
        let answer = trim_space answer in
        case (perr, answer) of
          (Some e, []) \<Rightarrow> Inl (''reading mode: '' @ e)
        | (None, []) \<Rightarrow> Inr (''onprem'', [])
        | _ \<Rightarrow> if canonicalMode answer \<noteq> [] then Inr (canonicalMode answer, []) else Inl (invalidModeErr answer))"

definition getQueriesDir :: "string \<Rightarrow> string + string" where
  "getQueriesDir mode =
     (let m = canonicalMode mode in
      if m = ''cloud'' then Inr ''./queries.cloud''
      else if m = ''onprem'' then Inr ''./queries.onprem''
      else if m = ''gov'' then Inr ''./queries.gov''
      else Inl (''unrecognised mode '' @ go_quote mode @ '' '' @ em_dash @ '' cannot choose a queries directory''))"

section \<open>What a mode allows\<close>

text \<open>\<open>resolveLocalCollector\<close> returns whether to skip, and an error.\<close>

definition resolveLocalCollector :: "string \<Rightarrow> string \<Rightarrow> string \<Rightarrow> bool \<times> string option" where
  "resolveLocalCollector setting mode name =
     (let mode = folded mode; s = folded setting in
      if s = ''off'' then (True, None)
      else if s = ''on'' then
        (if mode = ''gov'' then (True, Some (''--'' @ name @
           ''=on is not allowed in gov mode (host facts and log bodies contain identifiers that cannot be hashed)''))
         else (False, None))
      else if s = ''auto'' \<or> s = [] then (mode \<noteq> ''onprem'', None)
      else (True, Some (''--'' @ name @ '' must be auto, on or off (got '' @ go_quote setting @ '')'')))"

definition govWithholdsConfig :: "string \<Rightarrow> bool" where
  "govWithholdsConfig mode \<longleftrightarrow> folded mode = ''gov''"

definition cloudSkipsConfig :: "string \<Rightarrow> string \<Rightarrow> bool" where
  "cloudSkipsConfig mode configDir \<longleftrightarrow> folded mode = ''cloud'' \<and> trim_space configDir = []"

definition dashboardDecision :: "bool \<Rightarrow> string \<Rightarrow> bool \<times> string" where
  "dashboardDecision skipDashboard mode =
     (if skipDashboard then (False, ''Skipping HTML dashboard (--skip-dashboard).'')
      else if folded mode = ''gov'' then (False, ''Skipping HTML dashboard in gov mode: its panels select raw identifiers '' @
        ''(table names, disk paths, users, exception text) that cannot be hashed, and the dashboard is part of the support-bound archive.'')
      else (True, []))"

definition to_arrow :: string where "to_arrow = [CHR 0xE2, CHR 0x86, CHR 0x92]"

definition describeWindow :: "time \<Rightarrow> time \<Rightarrow> string" where
  "describeWindow start stop =
     (if is_zero start then ''each query'' @ QUOTE # ''s own default start '' @ to_arrow @ '' '' @ fmt_datetime stop @ '' UTC''
      else if is_zero stop then fmt_datetime start @ '' UTC '' @ to_arrow @ '' now''
      else fmt_datetime start @ '' UTC '' @ to_arrow @ '' '' @ fmt_datetime stop @ '' UTC'')"

text \<open>The archive lies next to the directory it packs.\<close>

definition createArchiveWithTimestamp :: "arch_env \<Rightarrow> string \<Rightarrow> disk \<Rightarrow> string option \<times> disk" where
  "createArchiveWithTimestamp env specificDir disk = CreateArchive env (path_clean specificDir @ ''.tar.gz'') [specificDir] disk"

section \<open>The visibility probe\<close>

datatype visibilityVerdict = visibilityOK | visibilityNone | visibilityDenied | visibilityUnknown

definition isAccessDenied :: "string option \<Rightarrow> bool" where
  "isAccessDenied err = (case err of None \<Rightarrow> False | Some msg \<Rightarrow> contains msg ''Code: 497'' \<or> contains msg ''ACCESS_DENIED'')"

definition databaseVisibilityVerdict :: "string \<Rightarrow> string option \<Rightarrow> visibilityVerdict" where
  "databaseVisibilityVerdict count err =
     (if err \<noteq> None then (if isAccessDenied err then visibilityDenied else visibilityUnknown)
      else if trim_space count = ''0'' then visibilityNone else visibilityOK)"

section \<open>Collectors without a file\<close>

definition status_entry :: "Entry \<Rightarrow> (string \<times> Status) option" where
  "status_entry e =
     (if e_Stage e \<noteq> ''collector'' \<or> e_Status e \<noteq> ''skipped'' \<and> e_Status e \<noteq> ''failed'' then None
      else if e_Status e = ''failed'' \<and> contains (e_Error e) ''UNKNOWN_TABLE'' then None
      else Some (trim_suffix (e_Name e) ''.sql'',
        \<lparr>st_State = e_Status e, st_Reason = (if e_Status e = ''failed'' \<and> e_Error e \<noteq> [] then e_Error e else e_Extra e)\<rparr>))"

definition collectorStatus :: "Entry list \<Rightarrow> string \<rightharpoonup> Status" where
  "collectorStatus es = fold (\<lambda>e m. case status_entry e of None \<Rightarrow> m | Some (k, st) \<Rightarrow> m(k \<mapsto> st)) es Map.empty"

section \<open>The prompts\<close>

definition resolvePassword :: "string \<Rightarrow> bool \<Rightarrow> (string \<Rightarrow> string option) \<Rightarrow> string option" where
  "resolvePassword flagValue flagSet getenv =
     (if flagSet then (if flagValue \<noteq> [] then Some flagValue else None) else getenv ''CLICKHOUSE_PASSWORD'')"

record prompt_answers =
  an_protocol :: string
  an_host :: string
  an_port :: string
  an_username :: string
  an_password :: string
  an_mode :: string
  an_configDir :: string

record prompt_env =
  pe_getenv :: "string \<Rightarrow> string option"
  pe_typed :: string
  pe_terminal :: bool
  pe_read_error :: string

text \<open>\<open>ReadString\<close> of a line: the line with its end, and the rest; an error when the input ends before it.\<close>

definition read_line :: "string \<Rightarrow> string \<times> string" where
  "read_line inp = (case index_byte inp NL of None \<Rightarrow> (inp, []) | Some i \<Rightarrow> (take (Suc i) inp, drop (Suc i) inp))"

definition asked :: "string \<Rightarrow> string \<Rightarrow> string \<Rightarrow> string \<times> string" where
  "asked cur dflt inp =
     (if cur \<noteq> [] then (cur, inp)
      else case read_line inp of (l, rest) \<Rightarrow> (if trim_space l = [] then dflt else trim_space l, rest))"

definition getUserInput :: "prompt_env \<Rightarrow> string \<Rightarrow> prompt_answers \<Rightarrow> bool \<Rightarrow> bool \<Rightarrow> bool \<Rightarrow> string + prompt_answers" where
  "getUserInput env inp a skipConfig modeExplicit passwordExplicit =
     (let (protocol, inp) = asked (an_protocol a) ''http'' inp;
          protocol = (if to_lower protocol = ''http'' \<or> to_lower protocol = ''https'' then to_lower protocol else ''http'');
          (host, inp) = asked (an_host a) ''localhost'' inp;
          (port, inp) = asked (an_port a) (if protocol = ''https'' then ''8443'' else ''8123'') inp;
          (username, inp) = asked (an_username a) [] inp;
          password = (if an_password a = [] \<and> username \<noteq> []
            then (case resolvePassword (an_password a) passwordExplicit (pe_getenv env) of Some p \<Rightarrow> p | None \<Rightarrow> pe_typed env)
            else an_password a);
          (line, rest) = read_line inp
      in case resolveMode (an_mode a) modeExplicit (pe_terminal env)
            (line, if NL \<in> set line then None else Some (pe_read_error env)) of
           Inl e \<Rightarrow> Inl e
         | Inr (mode, notice) \<Rightarrow>
             let inp = (if \<not> modeExplicit \<and> pe_terminal env then rest else inp);
                 dir = (if an_configDir a = [] \<and> \<not> skipConfig \<and> \<not> govWithholdsConfig mode \<and> \<not> cloudSkipsConfig mode (an_configDir a)
                   then fst (asked [] ''/etc/clickhouse-server/config.d/'' inp) else an_configDir a)
             in Inr \<lparr>an_protocol = protocol, an_host = host, an_port = port, an_username = username, an_password = password,
                  an_mode = mode, an_configDir = dir\<rparr>)"

section \<open>The edit distance\<close>

text \<open>The specification: an alignment of two texts that costs one for every rune put in, left out or changed.\<close>

inductive edits :: "nat \<Rightarrow> 'a list \<Rightarrow> 'a list \<Rightarrow> bool" where
  edits_Nil: "edits 0 [] []"
| edits_keep: "edits n xs ys \<Longrightarrow> edits n (x # xs) (x # ys)"
| edits_change: "edits n xs ys \<Longrightarrow> edits (Suc n) (x # xs) (y # ys)"
| edits_delete: "edits n xs ys \<Longrightarrow> edits (Suc n) (x # xs) ys"
| edits_insert: "edits n xs ys \<Longrightarrow> edits (Suc n) xs (y # ys)"

lemma edits_append: "edits n xs ys \<Longrightarrow> edits m us vs \<Longrightarrow> edits (n + m) (xs @ us) (ys @ vs)"
  by (induction rule: edits.induct) (auto intro: edits.intros)

lemma edits_rev: "edits n xs ys \<Longrightarrow> edits n (rev xs) (rev ys)"
proof (induction rule: edits.induct)
  case (edits_keep n xs ys x)
  then show ?case using edits_append [OF edits_keep.IH, of 0 "[x]" "[x]"] by (auto intro: edits.intros)
next
  case (edits_change n xs ys x y)
  then show ?case using edits_append [OF edits_change.IH, of 1 "[x]" "[y]"] by (auto intro: edits.intros)
next
  case (edits_delete n xs ys x)
  then show ?case using edits_append [OF edits_delete.IH, of 1 "[x]" "[]"] by (auto intro: edits.intros)
next
  case (edits_insert n xs ys y)
  then show ?case using edits_append [OF edits_insert.IH, of 1 "[]" "[y]"] by (auto intro: edits.intros)
qed (simp add: edits.intros)

text \<open>The edit_cell of the table for two prefixes, given backwards.\<close>

fun edit_cell :: "'a list \<Rightarrow> 'a list \<Rightarrow> nat" where
  "edit_cell [] ys = length ys"
| "edit_cell (x # xs) [] = Suc (length xs)"
| "edit_cell (x # xs) (y # ys) = min (min (edit_cell (x # xs) ys + 1) (edit_cell xs (y # ys) + 1)) (edit_cell xs ys + (if x = y then 0 else 1))"

lemma cell_Nil [simp]: "edit_cell xs [] = length xs"
  by (cases xs) auto

lemma edits_insert_all: "edits (length ys) [] ys"
  by (induction ys) (auto intro: edits.intros)

lemma edits_delete_all: "edits (length xs) xs []"
  by (induction xs) (auto intro: edits.intros)

lemma cell_edits: "edits (edit_cell xs ys) xs ys"
proof (induction xs ys rule: edit_cell.induct)
  case (3 x xs y ys)
  then show ?case by (auto simp: min_def intro: edits.intros)
qed (auto intro: edits_insert_all edits_delete_all [of "_ # _", simplified])

lemma cell_least: "edits n xs ys \<Longrightarrow> edit_cell xs ys \<le> n"
proof (induction rule: edits.induct)
  case (edits_delete n xs ys x)
  then show ?case by (cases ys) auto
next
  case (edits_insert n xs ys y)
  then show ?case by (cases xs) auto
qed auto

lemma edit_cells_row:
  "edit_cells c (edit_cell (c # r) s) (map (\<lambda>k. edit_cell r (rev (take k bs) @ s)) [0..<Suc (length bs)]) bs =
    map (\<lambda>k. edit_cell (c # r) (rev (take (Suc k) bs) @ s)) [0..<length bs]"
proof (induction bs arbitrary: s)
  case (Cons b bs)
  have row: "map (\<lambda>k. edit_cell r (rev (take k (b # bs)) @ s)) [0..<Suc (length (b # bs))] =
      edit_cell r s # map (\<lambda>k. edit_cell r (rev (take k bs) @ b # s)) [0..<Suc (length bs)]" for r
    by (simp add: map_upt_Suc del: upt_Suc)
  have hd: "map (\<lambda>k. edit_cell r (rev (take k bs) @ b # s)) [0..<Suc (length bs)] =
      edit_cell r (b # s) # map (\<lambda>k. edit_cell r (rev (take (Suc k) bs) @ b # s)) [0..<length bs]" for r
    by (simp add: map_upt_Suc del: upt_Suc)
  show ?case unfolding row using Cons [of "b # s"] unfolding hd
    by (simp add: map_upt_Suc Let_def min.assoc del: upt_Suc)
qed simp

lemma edit_rows_table:
  "edit_rows ar (Suc (length r)) (map (\<lambda>k. edit_cell r (rev (take k br))) [0..<Suc (length br)]) br =
    map (\<lambda>k. edit_cell (rev ar @ r) (rev (take k br))) [0..<Suc (length br)]"
proof (induction ar arbitrary: r)
  case (Cons c ar)
  have "Suc (length r) # edit_cells c (Suc (length r)) (map (\<lambda>k. edit_cell r (rev (take k br))) [0..<Suc (length br)]) br =
      map (\<lambda>k. edit_cell (c # r) (rev (take k br))) [0..<Suc (length br)]"
    using edit_cells_row [of c r "[]" br] by (simp add: map_upt_Suc del: upt_Suc)
  then show ?case using Cons [of "c # r"] by (simp del: upt_Suc)
qed simp

lemma editDistance_cell: "editDistance a b = edit_cell (rev (runes a)) (rev (runes b))"
proof -
  let ?br = "runes b"
  have row0: "[0..<length ?br + 1] = map (\<lambda>k. edit_cell [] (rev (take k ?br))) [0..<Suc (length ?br)]"
    by (rule nth_equalityI) (auto simp del: upt_Suc)
  show ?thesis unfolding editDistance_def Let_def row0 using edit_rows_table [of "runes a" "[]" ?br] by simp
qed

text \<open>C33: The two-row loop of \<open>editDistance\<close> computes the least number of runes to put in, leave out or change that turns one text into the other.\<close>

theorem edit_distance_least: "editDistance a b = (LEAST n. edits n (runes a) (runes b))"
proof (rule Least_equality [symmetric])
  show "edits (editDistance a b) (runes a) (runes b)"
    using edits_rev [OF cell_edits [of "rev (runes a)" "rev (runes b)"]] by (simp add: editDistance_cell)
  show "editDistance a b \<le> n" if "edits n (runes a) (runes b)" for n
    using cell_least [OF edits_rev [OF that]] by (simp add: editDistance_cell)
qed

section \<open>The mode is never guessed\<close>

lemma canonicalMode_alias: "canonicalMode raw = m \<Longrightarrow> m \<noteq> [] \<Longrightarrow> (folded raw, m) \<in> set modeAliases"
  by (auto simp: canonicalMode_def dest: map_of_SomeD split: option.splits)

lemma alias_far_from_gov: "list_all (\<lambda>(s, m). m = ''gov'' \<or> editDistance s ''gov'' > 2) modeAliases"
  by code_simp

lemma aliases_canonical: "list_all (\<lambda>(s, m). m \<in> set canonicalModes) modeAliases"
  by code_simp

lemma gov_alias: "list_all (\<lambda>(s, m). m = ''gov'' \<longleftrightarrow> s = ''gov'') modeAliases"
  by code_simp

lemma canonical_gov: "canonicalMode raw = ''gov'' \<longleftrightarrow> folded raw = ''gov''"
proof
  assume "canonicalMode raw = ''gov''"
  from canonicalMode_alias [OF this] have "(folded raw, ''gov'') \<in> set modeAliases" by simp
  with gov_alias show "folded raw = ''gov''" unfolding list_all_iff by fastforce
next
  assume "folded raw = ''gov''"
  then show "canonicalMode raw = ''gov''" by (simp add: canonicalMode_def modeAliases_def)
qed

text \<open>C31: A mode that was given is never replaced by another: a value within two edits of gov is taken as gov or refused, and no run starts in
  a mode whose table entry is not what was typed.\<close>

theorem near_gov_never_downgraded:
  assumes "editDistance (folded raw) ''gov'' \<le> 2" "resolveMode raw True interactive prompt = Inr (m, notice)"
  shows "m = ''gov'' \<and> folded raw = ''gov'' \<and> notice = []"
proof -
  from assms(2) have m: "m = canonicalMode raw" "m \<noteq> []" "notice = []" by (auto simp: resolveMode_def split: if_splits)
  then have "(folded raw, m) \<in> set modeAliases" using canonicalMode_alias by blast
  with alias_far_from_gov assms(1) have "m = ''gov''" unfolding list_all_iff by fastforce
  moreover have "folded raw = ''gov''" using canonical_gov [of raw] m(1) \<open>m = ''gov''\<close> by simp
  ultimately show ?thesis using m(3) by simp
qed

theorem near_gov_never_downgraded_witness:
  "editDistance (folded '' GOV '') ''gov'' \<le> 2 \<and> folded '' GOV '' = ''gov''"
proof -
  have f: "folded '' GOV '' = ''gov''" by code_simp
  have d: "editDistance (folded '' GOV '') ''gov'' \<le> 2" unfolding f by code_simp
  have "resolveMode '' GOV '' True False ([], None) = Inr (''gov'', [])" by code_simp
  from near_gov_never_downgraded [OF d this] d show ?thesis by blast
qed

text \<open>C32: In gov mode, however it is spelt, no dashboard is built, no configuration is collected and no collector of local files runs, whatever its flag says.\<close>

theorem gov_withholds:
  assumes "canonicalMode mode = ''gov''"
  shows "\<not> fst (dashboardDecision skipDashboard mode) \<and> govWithholdsConfig mode \<and> fst (resolveLocalCollector setting mode name) \<and>
    getQueriesDir mode = Inr ''./queries.gov''"
proof -
  have gov: "folded mode = ''gov''" using assms canonical_gov by simp
  show ?thesis unfolding dashboardDecision_def govWithholdsConfig_def resolveLocalCollector_def getQueriesDir_def assms gov
    by (simp add: Let_def)
qed

theorem gov_withholds_witness: "fst (resolveLocalCollector '' On '' ''Gov '' ''logs'')"
proof -
  have "canonicalMode ''Gov '' = ''gov''" by code_simp
  from gov_withholds [OF this] show ?thesis by blast
qed

section \<open>The answers at the prompts\<close>

lemma resolveMode_canonical:
  assumes "resolveMode raw explicit interactive prompt = Inr (m, notice)"
  shows "m \<in> set canonicalModes"
proof -
  have known: "canonicalMode s \<noteq> [] \<Longrightarrow> canonicalMode s \<in> set canonicalModes" for s
    using canonicalMode_alias [of s "canonicalMode s"] aliases_canonical unfolding list_all_iff by fastforce
  have "''onprem'' \<in> set canonicalModes" by (simp add: canonicalModes_def)
  with assms known show ?thesis
    by (auto simp: resolveMode_def Let_def split: if_splits prod.splits option.splits list.splits)
qed

text \<open>A run that starts has a protocol of the two, a host, a port and a mode of the three; in gov mode no configuration directory was asked for.\<close>

theorem user_input_complete:
  assumes "getUserInput env inp a skipConfig modeExplicit passwordExplicit = Inr b"
  shows "an_protocol b \<in> {''http'', ''https''} \<and> an_host b \<noteq> [] \<and> an_port b \<noteq> [] \<and> an_mode b \<in> set canonicalModes \<and>
    (an_mode b = ''gov'' \<longrightarrow> an_configDir b = an_configDir a) \<and> (an_configDir a \<noteq> [] \<longrightarrow> an_configDir b = an_configDir a)"
proof -
  have asked: "cur \<noteq> [] \<or> d \<noteq> [] \<Longrightarrow> fst (asked cur d i) \<noteq> []" for cur d i by (auto simp: asked_def split: prod.splits)
  obtain p i1 where p: "asked (an_protocol a) ''http'' inp = (p, i1)" by fastforce
  define pr where "pr = (if to_lower p = ''http'' \<or> to_lower p = ''https'' then to_lower p else ''http'')"
  obtain h i2 where h: "asked (an_host a) ''localhost'' i1 = (h, i2)" by fastforce
  obtain q i3 where q: "asked (an_port a) (if pr = ''https'' then ''8443'' else ''8123'') i2 = (q, i3)" by fastforce
  obtain u i4 where u: "asked (an_username a) [] i3 = (u, i4)" by fastforce
  obtain l i5 where l: "read_line i4 = (l, i5)" by fastforce
  note steps = assms [unfolded getUserInput_def Let_def p prod.case pr_def [symmetric] h q u l]
  then obtain m n where m: "resolveMode (an_mode a) modeExplicit (pe_terminal env) (l, if NL \<in> set l then None else Some (pe_read_error env)) = Inr (m, n)"
    by (cases "resolveMode (an_mode a) modeExplicit (pe_terminal env) (l, if NL \<in> set l then None else Some (pe_read_error env))") auto
  have gov: "govWithholdsConfig ''gov''" by code_simp
  have b: "an_protocol b = pr" "an_host b = h" "an_port b = q" "an_mode b = m"
    "an_configDir a \<noteq> [] \<or> govWithholdsConfig m \<Longrightarrow> an_configDir b = an_configDir a"
    using steps unfolding m by auto
  have "pr \<in> {''http'', ''https''}" by (auto simp: pr_def)
  moreover have "h \<noteq> []" "q \<noteq> []" using asked [of "an_host a" "''localhost''" i1] h
      asked [of "an_port a" "if pr = ''https'' then ''8443'' else ''8123''" i2] q by (auto split: if_splits)
  ultimately show ?thesis using b gov resolveMode_canonical [OF m] by simp
qed

theorem user_input_complete_witness:
  "''cloud'' \<in> set canonicalModes \<and> ''http'' \<in> {''http'', ''https''}"
proof -
  define env where "env = \<lparr>pe_getenv = (\<lambda>_. None), pe_typed = [], pe_terminal = True, pe_read_error = []\<rparr>"
  have "getUserInput env (''HTTPX'' @ [NL, NL, NL, NL] @ ''cloud'' @ [NL])
      \<lparr>an_protocol = [], an_host = [], an_port = [], an_username = [], an_password = [], an_mode = [], an_configDir = []\<rparr> False False False =
    Inr \<lparr>an_protocol = ''http'', an_host = ''localhost'', an_port = ''8123'', an_username = [], an_password = [], an_mode = ''cloud'', an_configDir = []\<rparr>"
    unfolding env_def by code_simp
  from user_input_complete [OF this] show ?thesis by simp
qed

section \<open>Collectors without a file\<close>

text \<open>C0: The reason the checks give for a collector is that of its last entry in the run log that was skipped or failed, failures for a table the server does not have left out.\<close>

theorem collector_status_last:
  "collectorStatus es k = map_of (rev (List.map_filter status_entry es)) k"
proof (induction es rule: rev_induct)
  case (snoc e es)
  then show ?case by (auto simp: collectorStatus_def map_filter_def split: option.splits)
qed (simp add: collectorStatus_def map_filter_def)

end
