(* ===== verification/AnalysisRun.thy ===== *)
theory AnalysisRun
  imports GoUtf8 QueryInputs CheckUtil QuerySelect
begin

text \<open>
  The query analysis, the dump of \<open>system.text_log\<close> and the name mapping of gov mode: \<open>internal/query/analysis.go\<close>,
  \<open>internal/query/textlog.go\<close>, \<open>internal/gov_mapping.go\<close> and \<open>resolveAnalysisOpts\<close> of \<open>cmd/main.go\<close>. The server, the clock and
  the file system are those of the executor. Progress lines on the console are left out.
\<close>

section \<open>Preflight queries\<close>

definition JSONCompact_clause :: string where "JSONCompact_clause = ''FORMAT JSONCompact''"

definition str_of :: "json \<Rightarrow> string option" where
  "str_of j = (case j of JNull \<Rightarrow> Some [] | JStr s \<Rightarrow> Some s | _ \<Rightarrow> None)"

text \<open>\<open>data\<close> and \<open>rows\<close> of an answer.\<close>

definition preflight_doc :: "string \<Rightarrow> (string list list \<times> int) option" where
  "preflight_doc raw =
     (case json_unmarshal raw of
        Some JNull \<Rightarrow> Some ([], 0)
      | Some (JObj ms) \<Rightarrow>
          (case Option.bind (arr_of (jmap ms ''data''))
             (\<lambda>vs. all_some (map (\<lambda>v. Option.bind (arr_of (Some v)) (\<lambda>cs. all_some (map str_of cs))) vs)) of
             None \<Rightarrow> None
           | Some rows \<Rightarrow>
               if int_ok (jmap ms ''rows'')
               then Some (rows, case jmap ms ''rows'' of Some (JNum n) \<Rightarrow> fst (parse_int64 n) | _ \<Rightarrow> 0) else None)
      | _ \<Rightarrow> None)"

definition event_time_of :: "string \<Rightarrow> time" where
  "event_time_of s = (case parse_in_location take_blank UTC s of Some t \<Rightarrow> t | None \<Rightarrow> zero_time)"

definition sql_lines :: "string list \<Rightarrow> string" where
  "sql_lines ls = str_join [NL] ls"

definition hash_sql :: "string \<Rightarrow> string \<Rightarrow> time \<Rightarrow> time \<Rightarrow> string" where
  "hash_sql mode hash start stop =
     sql_lines
       [''SELECT'',
        [TAB, TAB] @ ''argMax(query_id, query_duration_ms) AS qid,'',
        [TAB, TAB] @ ''toString(argMax(event_time, query_duration_ms)) AS et'',
        [TAB] @ ''FROM '' @ SysTable mode ''query_log'',
        [TAB] @ ''WHERE normalized_query_hash = '' @ hash,
        [TAB] @ ''  AND event_time >= '' @ quoted (fmt_datetime start),
        [TAB] @ ''  AND event_time <= '' @ quoted (fmt_datetime stop),
        [TAB] @ ''  AND type = '' @ quoted ''QueryFinish'',
        [TAB] @ ''  AND NOT has(databases, '' @ quoted ''system'' @ '')'',
        [TAB] @ JSONCompact_clause]"

definition query_id_sql :: "string \<Rightarrow> string \<Rightarrow> string" where
  "query_id_sql mode queryID =
     sql_lines
       [''SELECT'',
        [TAB, TAB] @ ''toString(normalized_query_hash) AS h,'',
        [TAB, TAB] @ ''toString(event_time) AS et'',
        [TAB] @ ''FROM '' @ SysTable mode ''query_log'',
        [TAB] @ ''WHERE query_id = '' @ quoted queryID,
        [TAB] @ ''  AND event_time > now() - INTERVAL 30 DAY'',
        [TAB] @ ''  AND type != '' @ quoted ''QueryStart'',
        [TAB] @ ''ORDER BY event_time DESC'',
        [TAB] @ ''LIMIT 1'',
        [TAB] @ JSONCompact_clause]"

datatype analysis_fault = FlagFrom string | FlagTo string | BadInput input_error | BadOpts analysis_error | Failure string

definition parse_fault :: "(string \<Rightarrow> string) \<Rightarrow> string \<Rightarrow> analysis_fault" where
  "parse_fault jerr raw = Failure (''preflight parse failed: '' @ jerr raw @ '' ('' @ first_runes 200 raw @ '')'')"

definition PreflightForHash :: "transport \<Rightarrow> (string \<Rightarrow> string) \<Rightarrow> ClickHouseClient \<Rightarrow> string \<Rightarrow> string \<Rightarrow> time \<Rightarrow> time
    \<Rightarrow> (analysis_fault + string \<times> time) \<times> http_request effect list" where
  "PreflightForHash http jerr c mode hash start stop =
     (case ValidateNormalizedQueryHash hash of
        Some e \<Rightarrow> (Inl (BadInput e), [])
      | None \<Rightarrow>
          if is_zero start \<or> is_zero stop then (Inl (Failure ''preflight: window must be set before deriving query_id from hash''), [])
          else case ExecuteQueryReal http c (hash_sql mode hash start stop) of
            (Inl e, fx) \<Rightarrow> (Inl (Failure (''preflight (hash '' @ [CHR 0xE2, CHR 0x86, CHR 0x92] @ '' slowest query_id) failed: '' @ e)), fx)
          | (Inr raw, fx) \<Rightarrow>
              (case preflight_doc raw of
                 None \<Rightarrow> (Inl (parse_fault jerr raw), fx)
               | Some (rows, n) \<Rightarrow>
                   (case rows of
                      (qid # et # _) # _ \<Rightarrow> if n = 0 \<or> qid = [] then (Inr ([], zero_time), fx) else (Inr (qid, event_time_of et), fx)
                    | _ \<Rightarrow> (Inr ([], zero_time), fx))))"

definition PreflightForQueryID :: "transport \<Rightarrow> (string \<Rightarrow> string) \<Rightarrow> ClickHouseClient \<Rightarrow> string \<Rightarrow> string
    \<Rightarrow> (analysis_fault + string \<times> time) \<times> http_request effect list" where
  "PreflightForQueryID http jerr c mode queryID =
     (case ValidateQueryID queryID of
        Some e \<Rightarrow> (Inl (BadInput e), [])
      | None \<Rightarrow>
          (case ExecuteQueryReal http c (query_id_sql mode queryID) of
            (Inl e, fx) \<Rightarrow> (Inl (Failure (''preflight lookup for query_id '' @ queryID @ '' failed: '' @ e)), fx)
          | (Inr raw, fx) \<Rightarrow>
              (case preflight_doc raw of
                 None \<Rightarrow> (Inl (parse_fault jerr raw), fx)
               | Some (rows, n) \<Rightarrow>
                   if n = 0 \<or> rows = []
                   then (Inl (Failure (''query_id '' @ queryID @ '' not found in system.query_log within the last 30 days'')), fx)
                   else (case hd rows of
                       h # et # _ \<Rightarrow> (Inr (h, event_time_of et), fx)
                     | row \<Rightarrow> (Inl (Failure (''preflight returned unexpected shape: ['' @ str_join '' '' row @ '']'')), fx)))))"

section \<open>The options of an analysis\<close>

definition derive_hash :: "transport \<Rightarrow> (string \<Rightarrow> string) \<Rightarrow> ClickHouseClient \<Rightarrow> string \<Rightarrow> AnalysisOpts
    \<Rightarrow> (analysis_fault option \<times> AnalysisOpts) \<times> http_request effect list" where
  "derive_hash http jerr c mode opts =
     (if a_QueryID opts \<noteq> [] \<and> a_NormalizedQueryHash opts = [] then
        (case PreflightForQueryID http jerr c mode (a_QueryID opts) of
           (Inl e, fx) \<Rightarrow> ((Some e, opts), fx)
         | (Inr (hash, eventTime), fx) \<Rightarrow>
             let opts = opts\<lparr>a_NormalizedQueryHash := hash\<rparr> in
             ((None,
               if is_zero (a_From opts) \<and> is_zero (a_To opts) \<and> \<not> is_zero eventTime
               then opts\<lparr>a_From := eventTime - 36 * Hour, a_To := eventTime + 12 * Hour\<rparr> else opts), fx))
      else ((None, opts), []))"

definition derive_query_id :: "transport \<Rightarrow> (string \<Rightarrow> string) \<Rightarrow> ClickHouseClient \<Rightarrow> string \<Rightarrow> AnalysisOpts
    \<Rightarrow> (analysis_fault option \<times> AnalysisOpts) \<times> http_request effect list" where
  "derive_query_id http jerr c mode opts =
     (if a_NormalizedQueryHash opts \<noteq> [] \<and> a_QueryID opts = [] then
        (case PreflightForHash http jerr c mode (a_NormalizedQueryHash opts) (a_From opts) (a_To opts) of
           (Inl e, fx) \<Rightarrow> ((Some e, opts), fx)
         | (Inr (qid, _), fx) \<Rightarrow> ((None, if qid = [] then opts else opts\<lparr>a_QueryID := qid\<rparr>), fx))
      else ((None, opts), []))"

definition resolveAnalysisOpts :: "transport \<Rightarrow> (string \<Rightarrow> string) \<Rightarrow> ClickHouseClient \<Rightarrow> time \<Rightarrow> string \<Rightarrow> string \<Rightarrow> string \<Rightarrow> string \<Rightarrow> string
    \<Rightarrow> (analysis_fault option \<times> AnalysisOpts) \<times> http_request effect list" where
  "resolveAnalysisOpts http jerr c now mode queryID normalizedHash fromStr toStr =
     (let opts = \<lparr>a_QueryID = queryID, a_NormalizedQueryHash = normalizedHash, a_From = zero_time, a_To = zero_time\<rparr> in
      if \<not> analysis_enabled opts then ((None, opts), [])
      else case ParseTimeFlag fromStr of
        Inl e \<Rightarrow> ((Some (FlagFrom e), opts), [])
      | Inr start \<Rightarrow>
          (case ParseTimeFlag toStr of
             Inl e \<Rightarrow> ((Some (FlagTo e), opts), [])
           | Inr stop \<Rightarrow>
               (case derive_hash http jerr c mode (opts\<lparr>a_From := start, a_To := stop\<rparr>) of
                  ((Some e, opts), fx) \<Rightarrow> ((Some e, opts), fx)
                | ((None, opts), fx) \<Rightarrow>
                    (case validate_analysis opts now of
                       (Some e, opts) \<Rightarrow> ((Some (BadOpts e), opts), fx)
                     | (None, opts) \<Rightarrow>
                         (case derive_query_id http jerr c mode opts of (res, fx2) \<Rightarrow> (res, fx @ fx2))))))"

section \<open>The analysis collector\<close>

record run_io =
  ri_client :: ClickHouseClient
  ri_io :: "io list"
  ri_written :: nat
  ri_skipped :: nat

definition clause_or_default :: "OutputFormat \<Rightarrow> OutputFormat" where
  "clause_or_default f = (if of_Clause f = [] then FormatJSONL else f)"

definition analysis_file :: "OutputFormat \<Rightarrow> string \<Rightarrow> string \<Rightarrow> QueryFile \<Rightarrow> string" where
  "analysis_file f outDir timestamp q =
     path_join [outDir, trim_suffix (Name q) ''.sql'' @ ''_'' @ timestamp @ of_Ext f]"

definition analysis_one :: "OutputFormat \<Rightarrow> Vars \<Rightarrow> string \<Rightarrow> string \<Rightarrow> moment \<Rightarrow> QueryFile \<Rightarrow> run_io \<Rightarrow> run_io" where
  "analysis_one f vars outDir timestamp m q st =
     (case m_read m (FullPath q) of
        Inl _ \<Rightarrow> st
      | Inr raw \<Rightarrow>
          let applied = ApplyVars raw vars in
          if UnboundPlaceholders applied \<noteq> [] then st\<lparr>ri_skipped := Suc (ri_skipped st)\<rparr>
          else
            let applied = apply_format f applied in
            if validate_query_content applied \<noteq> None then st\<lparr>ri_skipped := Suc (ri_skipped st)\<rparr>
            else (case ExecuteQuery (m_http m) (ri_client st) applied of (answer, c, fx) \<Rightarrow>
              let st = st\<lparr>ri_client := c, ri_io := ri_io st @ map Net fx\<rparr> in
              (case answer of
                 Inl _ \<Rightarrow> st
               | Inr result \<Rightarrow>
                   if c_dryRun c then st\<lparr>ri_written := Suc (ri_written st)\<rparr>
                   else
                     let out = analysis_file f outDir timestamp q; st = st\<lparr>ri_io := ri_io st @ [WriteFile out result]\<rparr>
                     in (case m_write m out result of Some _ \<Rightarrow> st | None \<Rightarrow> st\<lparr>ri_written := Suc (ri_written st)\<rparr>))))"

fun analysis_all :: "OutputFormat \<Rightarrow> Vars \<Rightarrow> string \<Rightarrow> string \<Rightarrow> (nat \<Rightarrow> moment) \<Rightarrow> QueryFile list \<Rightarrow> run_io \<Rightarrow> run_io" where
  "analysis_all f vars outDir timestamp ms [] st = st"
| "analysis_all f vars outDir timestamp ms (q # qs) st =
     analysis_all f vars outDir timestamp (\<lambda>i. ms (Suc i)) qs (analysis_one f vars outDir timestamp (ms 0) q st)"

definition analysis_vars :: "string \<Rightarrow> AnalysisOpts \<Rightarrow> Vars" where
  "analysis_vars mode opts = \<lparr>v_Mode = to_lower mode, v_QueryID = a_QueryID opts, v_NormalizedQueryHash = a_NormalizedQueryHash opts,
     v_From = a_From opts, v_To = a_To opts, v_GovSalt = [], v_MaxLookback = 0, v_DetachedScope = [], v_DetachedScopeP = []\<rparr>"

definition analysis_Collect :: "string \<Rightarrow> OutputFormat \<Rightarrow> AnalysisOpts \<Rightarrow> string \<Rightarrow> fsnode \<Rightarrow> string \<Rightarrow> Version \<Rightarrow> time
    \<Rightarrow> (string \<Rightarrow> string option) \<Rightarrow> (nat \<Rightarrow> moment) \<Rightarrow> ClickHouseClient \<Rightarrow> (string + nat \<times> nat) \<times> ClickHouseClient \<times> io list" where
  "analysis_Collect mode format opts queriesDir tree backupDir serverVersion now mkdir ms c =
     (if \<not> analysis_enabled opts then (Inl ''analysis collector called with no focus parameter set'', c, [])
      else case find_versioned_files queriesDir tree serverVersion ''.sql'' of
        Inl e \<Rightarrow> (Inl (''read query-analysis dir '' @ queriesDir @ '': '' @ e), c, [])
      | Inr files \<Rightarrow>
          if files = [] then (Inl (''no .sql files found in '' @ queriesDir), c, [])
          else
            let outDir = path_join [backupDir, ''query_analysis''] in
            (case mkdir outDir of
               Some e \<Rightarrow> (Inl (''create query_analysis output dir: '' @ e), c, [])
             | None \<Rightarrow>
                 let st = analysis_all (clause_or_default format) (analysis_vars mode opts) outDir (fmt_stamp now) ms files
                       \<lparr>ri_client = c, ri_io = [], ri_written = 0, ri_skipped = 0\<rparr>
                 in (Inr (ri_written st, ri_skipped st), ri_client st, ri_io st)))"

section \<open>The text log\<close>

definition textlog_Collect :: "string \<Rightarrow> OutputFormat \<Rightarrow> TextLogOpts \<Rightarrow> string \<Rightarrow> Version \<Rightarrow> time \<Rightarrow> moment \<Rightarrow> ClickHouseClient
    \<Rightarrow> (textlog_error + string + string) \<times> ClickHouseClient \<times> io list" where
  "textlog_Collect mode format opts outDir serverVersion now m c =
     (case validate_textlog opts of
        (Some e, _) \<Rightarrow> (Inl e, c, [])
      | (None, opts) \<Rightarrow>
          let f = clause_or_default format; sql = text_log_sql (to_lower mode) (of_Clause f) opts serverVersion in
          (case validate_query_content sql of
             Some e \<Rightarrow> (Inr (Inl (''security validation failed for text_log query: '' @ validation_text e)), c, [])
           | None \<Rightarrow>
               (case ExecuteQuery (m_http m) c sql of
                  (Inl e, c, fx) \<Rightarrow>
                    (Inr (Inl (if contains e ''UNKNOWN_TABLE''
                       then ''system.text_log does not exist on this server '' @ em_dash @ '' it is disabled by default; enable the <text_log> section in the server configuration to collect it (original error: '' @ e @ '')''
                       else e)), c, map Net fx)
                | (Inr result, c, fx) \<Rightarrow>
                    if c_dryRun c then (Inr (Inr []), c, map Net fx)
                    else
                      let path = path_join [outDir, ''text_log_'' @ fmt_stamp now @ of_Ext f]
                      in (Inr (case m_write m path result of Some e \<Rightarrow> Inl (''write text_log output: '' @ e) | None \<Rightarrow> Inr path),
                          c, map Net fx @ [WriteFile path result]))))"

section \<open>The name mapping of gov mode\<close>

definition mapping_sql :: "string \<Rightarrow> string" where
  "mapping_sql salt =
     sql_lines
       [''SELECT database, name AS table,'',
        [TAB, TAB, TAB] @ ''hex(SHA256(concat(database, '' @ quoted salt @ ''))) AS database_hash,'',
        [TAB, TAB, TAB] @ ''hex(SHA256(concat(name, '' @ quoted salt @ ''))) AS table_hash'',
        [TAB, TAB] @ '' FROM system.tables'',
        [TAB, TAB] @ '' WHERE database NOT IN ('' @ quoted ''system'' @ '','' @ quoted ''information_schema'' @ '','' @ quoted ''INFORMATION_SCHEMA'' @ '')'',
        [TAB, TAB] @ '' ORDER BY database, name'',
        [TAB, TAB] @ '' FORMAT TSV'']"

definition mapping_rows :: "string \<Rightarrow> string list list" where
  "mapping_rows raw = filter (\<lambda>cols. length cols = 4) (map (split_byte TAB) (split_byte NL raw))"

text \<open>\<open>encoding/csv\<close>: a field that holds a comma, a quote or a line break, starts with white space or is the two bytes that end a
  copied table, is put in quotes, its own quotes doubled.\<close>

definition csv_needs_quotes :: "string \<Rightarrow> bool" where
  "csv_needs_quotes fld \<longleftrightarrow> fld \<noteq> [] \<and>
     (fld = [BSLASH, CHR ''.''] \<or> CHR '','' \<in> set fld \<or> DQUOTE \<in> set fld \<or> CR \<in> set fld \<or> NL \<in> set fld \<or> is_space (hd fld))"

definition csv_field :: "string \<Rightarrow> string" where
  "csv_field fld =
     (if csv_needs_quotes fld then DQUOTE # concat (map (\<lambda>c. if c = DQUOTE then [DQUOTE, DQUOTE] else [c]) fld) @ [DQUOTE] else fld)"

definition csv_record :: "string list \<Rightarrow> string" where
  "csv_record fs = str_join '','' (map csv_field fs) @ [NL]"

definition mapping_path :: "string \<Rightarrow> string \<Rightarrow> string" where
  "mapping_path outputDir backupDir = path_join [outputDir, path_base backupDir @ ''_gov_name_mapping.csv'']"

definition truncTo :: "string \<Rightarrow> nat \<Rightarrow> string" where
  "truncTo s n = take n s"

text \<open>What the console shows: the first 30 pairs, cut to the width of their columns.\<close>

definition mapping_line :: "string list \<Rightarrow> string" where
  "mapping_line cols =
     ''  '' @ pad_right 30 (cols ! 0) @ '' '' @ pad_right 30 (cols ! 1) @ '' '' @ pad_right 16 (cols ! 2) @ '' '' @ pad_right 16 (cols ! 3) @ [NL]"

definition shortened :: "string list \<Rightarrow> string list" where
  "shortened r = [truncTo (r ! 0) 30, truncTo (r ! 1) 30, truncTo (r ! 2) 14 @ dots, truncTo (r ! 3) 14 @ dots]"

definition mapping_console :: "string list list \<Rightarrow> string \<Rightarrow> string" where
  "mapping_console rows mapPath =
     NL # ''[gov mode] Hashed database/table mapping (keep LOCAL '' @ em_dash @ '' do NOT share with support):'' @ [NL] @
     mapping_line [''database'', ''table'', ''database_hash'', ''table_hash''] @
     ''  '' @ replicate 96 (CHR ''-'') @ [NL] @
     concat (map (\<lambda>r. mapping_line (shortened r)) (take 30 rows)) @
     (if length rows > 30 then ''  '' @ dots @ '' and '' @ nat_str (length rows - 30) @ '' more '' @ em_dash @ '' see CSV for the full list'' @ [NL] else []) @
     NL # ''Full mapping written to: '' @ mapPath @ [NL] @
     ''(file is OUTSIDE the support archive '' @ em_dash @ '' do not send it to ClickHouse support)'' @ [NL, NL]"

text \<open>The file is opened and written; \<open>m_write\<close> is the error of either. The last result is the console's text.\<close>

definition PrintGovNameMapping :: "moment \<Rightarrow> ClickHouseClient \<Rightarrow> string \<Rightarrow> string \<Rightarrow> string
    \<Rightarrow> string option \<times> ClickHouseClient \<times> io list \<times> string" where
  "PrintGovNameMapping m c outputDir backupDir salt =
     (case ExecuteQuery (m_http m) c (mapping_sql salt) of
        (Inl e, c, fx) \<Rightarrow> (Some (''gov-mode mapping query failed: '' @ e), c, map Net fx, [])
      | (Inr raw, c, fx) \<Rightarrow>
          if trim_space raw = []
          then (None, c, map Net fx, NL # ''[gov mode] No user databases/tables found '' @ em_dash @ '' name mapping skipped.'' @ [NL])
          else
            let rows = mapping_rows (trim_space raw);
                csv = concat (map csv_record ([''database'', ''table'', ''database_hash'', ''table_hash''] # rows));
                path = mapping_path outputDir backupDir; err = m_write m path csv
            in (err, c, map Net fx @ [WriteFile path csv], if err = None then mapping_console rows path else []))"

section \<open>What an analysis sends and writes\<close>

definition analysis_io_ok :: "OutputFormat \<Rightarrow> string \<Rightarrow> string \<Rightarrow> QueryFile list \<Rightarrow> io \<Rightarrow> bool" where
  "analysis_io_ok f outDir timestamp files e = (case e of
     Net (Sent r) \<Rightarrow> sendable f (q_body r)
   | Net (Printed _) \<Rightarrow> True
   | WriteFile path _ \<Rightarrow> path \<in> analysis_file f outDir timestamp ` set files)"

lemma sendable_requests:
  assumes "ExecuteQuery http c sql = (r, c', fx)" "checked_query f sql"
  shows "list_all (analysis_io_ok f outDir timestamp files) (map Net fx)"
  unfolding list_all_iff
proof
  fix e assume "e \<in> set (map Net fx)"
  then obtain n where e: "e = Net n" "n \<in> set fx" by auto
  show "analysis_io_ok f outDir timestamp files e"
  proof (cases n)
    case (Sent q)
    with e(2) have "q \<in> set (requests fx)" by (simp add: in_requests)
    with ExecuteQuery_sends [OF assms(1)] assms(2) show ?thesis by (auto simp: analysis_io_ok_def e(1) Sent sendable_def)
  qed (simp add: analysis_io_ok_def e(1))
qed

definition files_counted :: "run_io \<Rightarrow> nat" where
  "files_counted st = ri_written st + ri_skipped st"

lemma analysis_one_ok:
  assumes "list_all (analysis_io_ok f outDir timestamp files) (ri_io st)" "q \<in> set files"
  shows "list_all (analysis_io_ok f outDir timestamp files) (ri_io (analysis_one f vars outDir timestamp m q st)) \<and>
    files_counted (analysis_one f vars outDir timestamp m q st) \<le> Suc (files_counted st)"
proof (cases "m_read m (FullPath q)")
  case (Inl e)
  then show ?thesis using assms by (simp add: analysis_one_def)
next
  case (Inr raw)
  let ?a = "ApplyVars raw vars" let ?sql = "apply_format f ?a"
  show ?thesis
  proof (cases "UnboundPlaceholders ?a = [] \<and> validate_query_content ?sql = None")
    case False
    then show ?thesis using assms Inr by (auto simp: analysis_one_def Let_def files_counted_def)
  next
    case True
    then have checked: "checked_query f ?sql" by (auto simp: checked_query_def)
    obtain answer c fx where x: "ExecuteQuery (m_http m) (ri_client st) ?sql = (answer, c, fx)" by (cases "ExecuteQuery (m_http m) (ri_client st) ?sql") auto
    have "list_all (analysis_io_ok f outDir timestamp files) (map Net fx)" by (rule sendable_requests [OF x checked])
    moreover have "analysis_io_ok f outDir timestamp files (WriteFile (analysis_file f outDir timestamp q) t)" for t
      using assms(2) by (simp add: analysis_io_ok_def)
    ultimately show ?thesis using assms(1) Inr True x
      by (auto simp: analysis_one_def Let_def files_counted_def split: sum.split option.split)
  qed
qed

lemma analysis_all_ok:
  "list_all (analysis_io_ok f outDir timestamp files) (ri_io st) \<Longrightarrow> set qs \<subseteq> set files \<Longrightarrow>
    list_all (analysis_io_ok f outDir timestamp files) (ri_io (analysis_all f vars outDir timestamp ms qs st)) \<and>
    files_counted (analysis_all f vars outDir timestamp ms qs st) \<le> files_counted st + length qs"
proof (induction qs arbitrary: st ms)
  case (Cons q qs)
  have one: "list_all (analysis_io_ok f outDir timestamp files) (ri_io (analysis_one f vars outDir timestamp (ms 0) q st))"
    "files_counted (analysis_one f vars outDir timestamp (ms 0) q st) \<le> Suc (files_counted st)"
    using analysis_one_ok [OF Cons.prems(1), of q vars "ms 0"] Cons.prems(2) by simp_all
  have "set qs \<subseteq> set files" using Cons.prems(2) by simp
  from Cons.IH [OF one(1) this, of "\<lambda>i. ms (Suc i)"] one(2) show ?case by simp
qed simp


section \<open>What the preflight queries splice\<close>

definition checked_preflight :: "string \<Rightarrow> http_request \<Rightarrow> bool" where
  "checked_preflight mode r \<longleftrightarrow>
     (\<exists>h start stop. ValidateNormalizedQueryHash h = None \<and> start < stop \<and> q_body r = hash_sql mode h start stop) \<or>
     (\<exists>q. ValidateQueryID q = None \<and> q_body r = query_id_sql mode q)"

lemma real_requests: "ExecuteQueryReal http c sql = (r, fx) \<Longrightarrow> \<exists>q. requests fx = [q] \<and> q_body q = sql"
  by (auto simp: ExecuteQueryReal_def executeReal_def executeWith_def Let_def requests_def map_filter_simps)

lemma derive_hash_requests:
  "derive_hash http jerr c mode opts = (res, fx) \<Longrightarrow> list_all (checked_preflight mode) (requests fx)"
  using real_requests [of http c "query_id_sql mode (a_QueryID opts)"]
  by (fastforce simp: derive_hash_def PreflightForQueryID_def checked_preflight_def Let_def requests_def map_filter_simps
      split: if_splits option.splits prod.splits sum.splits list.splits)

lemma derive_query_id_requests:
  assumes "derive_query_id http jerr c mode opts = (res, fx)" "a_From opts < a_To opts"
  shows "list_all (checked_preflight mode) (requests fx)"
  using real_requests [of http c "hash_sql mode (a_NormalizedQueryHash opts) (a_From opts) (a_To opts)"] assms
  by (fastforce simp: derive_query_id_def PreflightForHash_def checked_preflight_def Let_def requests_def map_filter_simps
      split: if_splits option.splits prod.splits sum.splits list.splits)

lemma window_forward: "validate_analysis opts now = (None, o2) \<Longrightarrow> a_From o2 < a_To o2"
  by (auto simp: validate_analysis_def Let_def split: if_splits option.splits)

text \<open>Before an analysis starts, the only requests are the two lookups, one at most of each, and what is spliced into them has the
  checked shape: a hash of digits with a window that runs forward, or a UUID.\<close>

theorem preflight_splices_checked:
  "case resolveAnalysisOpts http jerr c now mode queryID normalizedHash fromStr toStr of (_, fx) \<Rightarrow> list_all (checked_preflight mode) (requests fx)"
proof -
  have no: "list_all (checked_preflight mode) (requests [])" by (simp add: requests_def map_filter_simps)
  have app: "requests (fx @ fx2) = requests fx @ requests fx2" for fx fx2 :: "http_request effect list"
    by (simp add: requests_def map_filter_def)
  define opts where "opts = \<lparr>a_QueryID = queryID, a_NormalizedQueryHash = normalizedHash, a_From = zero_time, a_To = zero_time\<rparr>"
  note R = resolveAnalysisOpts_def [of http jerr c now mode queryID normalizedHash fromStr toStr, folded opts_def, unfolded Let_def]
  consider (off) "\<not> analysis_enabled opts \<or> isl (ParseTimeFlag fromStr) \<or> isl (ParseTimeFlag toStr)"
    | (on) start stop where "analysis_enabled opts" "ParseTimeFlag fromStr = Inr start" "ParseTimeFlag toStr = Inr stop"
    by (cases "ParseTimeFlag fromStr"; cases "ParseTimeFlag toStr") auto
  then show ?thesis
  proof cases
    case off
    then show ?thesis using no by (auto simp: resolveAnalysisOpts_def opts_def Let_def split: sum.splits)
  next
    case on
    obtain e1 o1 f1 where d1: "derive_hash http jerr c mode (opts\<lparr>a_From := start, a_To := stop\<rparr>) = ((e1, o1), f1)" by (metis prod.exhaust)
    note ok1 = derive_hash_requests [OF d1]
    show ?thesis
    proof (cases "e1 = None \<and> fst (validate_analysis o1 now) = None")
      case True
      then obtain o2 where v: "validate_analysis o1 now = (None, o2)" by (cases "validate_analysis o1 now") auto
      obtain r2 f2 where d2: "derive_query_id http jerr c mode o2 = (r2, f2)" by fastforce
      from derive_query_id_requests [OF d2 window_forward [OF v]] ok1 True v show ?thesis
        unfolding R by (simp add: on d1 d2 app)
    next
      case False
      then show ?thesis unfolding R using ok1 by (cases e1; cases "validate_analysis o1 now") (auto simp: on d1 split: option.split)
    qed
  qed
qed

text \<open>The id that a hash leads to is spliced into the analysis queries as the server gave it, without the check a given id has to pass;
  and the window around a found query is two days long, from a day and a half before it.\<close>

lemma derived_query_id_unchecked:
  "preflight_doc (CHR ''{'' # DQUOTE # ''data'' @ DQUOTE # '':[['' @ DQUOTE # ''a'' @ QUOTE # '' OR 1'' @ DQUOTE # '','' @ DQUOTE # DQUOTE # '']],'' @
     DQUOTE # ''rows'' @ DQUOTE # '':1}'') = Some ([[''a'' @ QUOTE # '' OR 1'', []]], 1)"
  by code_simp

lemma derived_id_kept:
  assumes "ExecuteQueryReal http c (hash_sql mode (a_NormalizedQueryHash opts) (a_From opts) (a_To opts)) = (Inr raw, fx)"
    "preflight_doc raw = Some ([[qid, et]], 1)" "qid \<noteq> []" "a_QueryID opts = []" "a_NormalizedQueryHash opts \<noteq> []"
    "ValidateNormalizedQueryHash (a_NormalizedQueryHash opts) = None" "\<not> is_zero (a_From opts)" "\<not> is_zero (a_To opts)"
  shows "derive_query_id http jerr c mode opts = ((None, opts\<lparr>a_QueryID := qid\<rparr>), fx)"
  using assms by (simp add: derive_query_id_def PreflightForHash_def)

lemma found_window_two_days:
  assumes "PreflightForQueryID http jerr c mode (a_QueryID opts) = (Inr (h, t), fx)" "\<not> is_zero t"
    "a_QueryID opts \<noteq> []" "a_NormalizedQueryHash opts = []" "is_zero (a_From opts)" "is_zero (a_To opts)"
  shows "case derive_hash http jerr c mode opts of ((_, o2), _) \<Rightarrow> a_To o2 - a_From o2 = 48 * Hour \<and> t - a_From o2 = 36 * Hour"
  using assms by (simp add: derive_hash_def Let_def)

end
