(* ===== verification/FilePanels.thy ===== *)
theory FilePanels
  imports GoUtf8 AlertChecks SqlRedact HostInfo QueryInputs
begin

text \<open>
  The panels of the dashboard built from the collected files (\<open>internal/dashboard/fromfiles.go\<close>): functions of the rows of the
  collectors. A panel is a list of rows of columns and values; \<open>ce_order\<close> is the order in which a map is visited, as in the checks.
\<close>

section \<open>Helpers\<close>

definition notSystemDB :: "string \<Rightarrow> bool" where
  "notSystemDB db \<longleftrightarrow> db \<noteq> ''system'' \<and> db \<noteq> ''information_schema'' \<and> db \<noteq> ''INFORMATION_SCHEMA''"

definition readableSize :: "float64 \<Rightarrow> string" where
  "readableSize n = readable_size n [''B'', ''KiB'', ''MiB'', ''GiB'', ''TiB'', ''PiB'', ''EiB'']"

fun readable_quantity :: "float64 \<Rightarrow> string list \<Rightarrow> string" where
  "readable_quantity n [] = fmt_fixed 2 n"
| "readable_quantity n [u] = fmt_fixed 2 n @ u"
| "readable_quantity n (u # v # us) =
     (if f_ge (f_abs n) (Fin 1000) then readable_quantity (f_div n (Fin 1000)) (v # us) else fmt_fixed 2 n @ u)"

definition readableQuantity :: "float64 \<Rightarrow> string" where
  "readableQuantity n = readable_quantity n [[], '' thousand'', '' million'', '' billion'', '' trillion'', '' quadrillion'']"

definition round_ch :: "float64 \<Rightarrow> nat \<Rightarrow> float64" where
  "round_ch x d = f_div (f_round_even (f_mul x (Fin (10 ^ d)))) (Fin (10 ^ d))"

definition ratio :: "float64 \<Rightarrow> float64 \<Rightarrow> float64" where
  "ratio a b = (if f_gt b (Fin 0) then round_ch (f_div a b) 2 else Fin 0)"

definition leftRunes :: "string \<Rightarrow> nat \<Rightarrow> string" where
  "leftRunes s n = (if length (runes s) \<le> n then s else of_runes (take n (runes s)))"

text \<open>\<open>math.Max\<close>\<close>

definition math_max :: "float64 \<Rightarrow> float64 \<Rightarrow> float64" where
  "math_max x y = (if x = PInf \<or> y = PInf then PInf else if x = NaN \<or> y = NaN then NaN else if f_gt x y then x else y)"

text \<open>\<open>num\<close> of a value of a panel: a number, or the number a text reads as.\<close>

definition num_of :: "val option \<Rightarrow> float64" where
  "num_of v = (case v of Some (VInt i) \<Rightarrow> f_of_int i | Some (VFloat f) \<Rightarrow> f | Some (VStr s) \<Rightarrow> parse_float s | _ \<Rightarrow> Fin 0)"

definition byNum :: "string \<Rightarrow> vrow list \<Rightarrow> vrow list" where
  "byNum col = stable_sort (\<lambda>x y. f_gt (num_of (vget x col)) (num_of (vget y col)))"

text \<open>Ascending by text columns, the first that differs.\<close>

fun cols_before :: "string list \<Rightarrow> vrow \<Rightarrow> vrow \<Rightarrow> bool" where
  "cols_before [] x y = False"
| "cols_before (c # cs) x y = (if text_at c x \<noteq> text_at c y then text_at c x < text_at c y else cols_before cs x y)"

definition sortBy :: "string list \<Rightarrow> vrow list \<Rightarrow> vrow list" where
  "sortBy cols = stable_sort (cols_before cols)"

definition newest :: "string \<Rightarrow> vrow list \<Rightarrow> vrow list" where
  "newest col = stable_sort (\<lambda>x y. text_at col x > text_at col y)"

definition strs :: "json option \<Rightarrow> string list" where
  "strs v = (case v of Some (JArr vs) \<Rightarrow> map json_v vs | _ \<Rightarrow> [])"

definition hourOf :: "string \<Rightarrow> time option" where
  "hourOf s = parse_in_location take_blank UTC s"

definition without :: "string \<Rightarrow> vrow \<Rightarrow> vrow" where
  "without col r = filter (\<lambda>(k, v). k \<noteq> col) r"

text \<open>A map whose entry is made from the first row of its key.\<close>

definition group_first :: "('r \<Rightarrow> 'k) \<Rightarrow> ('r \<Rightarrow> 'a) \<Rightarrow> ('r \<Rightarrow> 'a \<Rightarrow> 'a) \<Rightarrow> 'r list \<Rightarrow> ('k \<times> 'a) list" where
  "group_first key new step rs =
     map (\<lambda>(k, a). (k, the a)) (group_rows key (\<lambda>r a. Some (step r (case a of None \<Rightarrow> new r | Some a \<Rightarrow> a))) None rs)"

section \<open>Storage\<close>

record storage_agg =
  sa_parts :: float64
  sa_rows :: float64
  sa_bytes :: float64
  sa_comp :: float64
  sa_uncomp :: float64

definition no_storage :: storage_agg where
  "no_storage = \<lparr>sa_parts = Fin 0, sa_rows = Fin 0, sa_bytes = Fin 0, sa_comp = Fin 0, sa_uncomp = Fin 0\<rparr>"

definition storage_step :: "Row \<Rightarrow> storage_agg \<Rightarrow> storage_agg" where
  "storage_step r a = \<lparr>sa_parts = f_add (sa_parts a) (Row_Float r ''parts''), sa_rows = f_add (sa_rows a) (Row_Float r ''rows''),
     sa_bytes = f_add (sa_bytes a) (Row_Float r ''bytes_on_disk''), sa_comp = f_add (sa_comp a) (Row_Float r ''data_compressed_bytes''),
     sa_uncomp = f_add (sa_uncomp a) (Row_Float r ''data_uncompressed_bytes'')\<rparr>"

definition storage_row :: "string \<times> storage_agg \<Rightarrow> vrow" where
  "storage_row ka = (case ka of (db, a) \<Rightarrow>
     [(''database'', VStr db), (''parts'', VInt (f_to_int64 (sa_parts a))), (''rows'', VInt (f_to_int64 (sa_rows a))),
      (''bytes_total'', VInt (f_to_int64 (sa_bytes a))), (''size_human'', VStr (readableSize (sa_bytes a))),
      (''compression_ratio'', VFloat (ratio (sa_uncomp a) (sa_comp a)))])"

definition storageByDB :: "check_env \<Rightarrow> Row list \<Rightarrow> vrow list" where
  "storageByDB env byTable =
     take 20 (byNum ''bytes_total'' (sortBy [''database'']
       (map storage_row (map_range env (group_rows (\<lambda>r. Row_Str r ''database'') storage_step no_storage byTable)))))"

definition enginesDist :: "check_env \<Rightarrow> Row list \<Rightarrow> vrow list" where
  "enginesDist env userTables =
     take 15 (byNum ''count'' (sortBy [''engine'']
       (map (\<lambda>(e, n). [(''engine'', VStr e), (''count'', VInt n)])
         (map_range env (group_rows (\<lambda>t. Row_Str t ''engine'') (\<lambda>_ n. wrap64 (n + 1)) 0 userTables)))))"

definition named_key :: "Row \<Rightarrow> string" where
  "named_key t = Row_Str t ''database'' @ [NUL] @ Row_Str t ''name''"

definition tables_row :: "(string \<rightharpoonup> Row) \<Rightarrow> bool \<Rightarrow> Row \<Rightarrow> vrow" where
  "tables_row sizes haveParts t =
     (let s = (case sizes (named_key t) of Some s \<Rightarrow> s | None \<Rightarrow> []); na = VStr ''n/a'' in
      [(''database'', VStr (Row_Str t ''database'')), (''table_name'', VStr (Row_Str t ''name'')), (''engine'', VStr (Row_Str t ''engine'')),
       (''parts'', if haveParts then VInt (Row_Int s ''parts'') else na),
       (''total_rows'', if haveParts then VStr (readableQuantity (Row_Float s ''rows'')) else na),
       (''size'', if haveParts then VStr (readableSize (Row_Float s ''bytes_on_disk'')) else na),
       (''bytes_on_disk'', VInt (Row_Int s ''bytes_on_disk'')), (''partition_key'', VStr (Row_Str t ''partition_key'')),
       (''sorting_key'', VStr (Row_Str t ''sorting_key'')), (''storage_policy'', VStr (Row_Str t ''storage_policy''))])"

definition tablesList :: "Row list \<Rightarrow> Row list \<Rightarrow> bool \<Rightarrow> bool \<Rightarrow> vrow list" where
  "tablesList userTables byTable haveTables haveParts =
     (if \<not> haveTables then []
      else take 2000 (byNum ''bytes_on_disk''
        (map (tables_row (map_of (rev (map (\<lambda>r. (table_key r, r)) byTable))) haveParts) userTables)))"

definition topTables :: "Row list \<Rightarrow> vrow list" where
  "topTables byTable =
     map (without ''_bytes'') (take 20 (byNum ''_bytes'' (map (\<lambda>r.
       [(''database'', VStr (Row_Str r ''database'')), (''table'', VStr (Row_Str r ''table'')), (''parts'', VInt (Row_Int r ''parts'')),
        (''total_rows'', VStr (readableQuantity (Row_Float r ''rows''))), (''compressed_size'', VStr (readableSize (Row_Float r ''bytes_on_disk''))),
        (''compression_ratio'', VFloat (ratio (Row_Float r ''data_uncompressed_bytes'') (Row_Float r ''data_compressed_bytes''))),
        (''_bytes'', VFloat (Row_Float r ''bytes_on_disk''))]) byTable)))"

section \<open>The query log\<close>

definition isException :: "string \<Rightarrow> bool" where
  "isException typ \<longleftrightarrow> typ = ''ExceptionWhileProcessing'' \<or> typ = ''ExceptionBeforeStart''"

definition finished :: "Row list \<Rightarrow> Row list" where
  "finished = filter (\<lambda>r. Row_Str r ''type'' = ''QueryFinish'')"

definition count_step :: "Row \<Rightarrow> int \<Rightarrow> int" where
  "count_step r n = wrap64 (n + Row_Int r ''count'')"

definition queryByTime :: "check_env \<Rightarrow> Row list \<Rightarrow> vrow list" where
  "queryByTime env byHour =
     sortBy [''time'', ''query_kind''] (map (\<lambda>((t, kind), n). [(''time'', VStr t), (''query_kind'', VStr kind), (''count'', VInt n)])
       (map_range env (group_rows (\<lambda>r. (Row_Str r ''time'', Row_Str r ''query_kind'')) count_step 0 (finished byHour))))"

definition kind_step :: "Row \<Rightarrow> float64 \<times> float64 \<times> float64 \<Rightarrow> float64 \<times> float64 \<times> float64" where
  "kind_step r a = (case a of (n, dur, mem) \<Rightarrow>
     (f_add n (Row_Float r ''count''), f_add dur (Row_Float r ''query_duration_ms''), f_add mem (Row_Float r ''memory_usage'')))"

definition kind_row :: "string \<times> float64 \<times> float64 \<times> float64 \<Rightarrow> vrow" where
  "kind_row ka = (case ka of (k, n, dur, mem) \<Rightarrow>
     [(''query_kind'', VStr k), (''count'', VInt (f_to_int64 n)),
      (''avg_duration_ms'', VFloat (round_ch (f_div dur (math_max n (Fin 1))) 0)),
      (''avg_memory_mb'', VFloat (round_ch (f_div (f_div mem (math_max n (Fin 1))) (Fin 1048576)) 2))])"

definition queryByKind :: "check_env \<Rightarrow> Row list \<Rightarrow> vrow list" where
  "queryByKind env byHour =
     byNum ''count'' (sortBy [''query_kind''] (map kind_row
       (map_range env (group_rows (\<lambda>r. Row_Str r ''query_kind'') kind_step (Fin 0, Fin 0, Fin 0) (finished byHour)))))"

record patternAgg =
  pa_hash :: string
  pa_kind :: string
  pa_user :: string
  pa_sample :: string
  pa_finish :: float64
  pa_timed :: float64
  pa_errors :: float64
  pa_dur :: float64
  pa_maxDur :: float64
  pa_read :: float64
  pa_mem :: float64
  pa_timedRead :: float64
  pa_timedMem :: float64

definition new_pattern :: "Row \<Rightarrow> patternAgg" where
  "new_pattern r = \<lparr>pa_hash = Row_Str r ''hash'', pa_kind = Row_Str r ''query_kind'', pa_user = Row_Str r ''user'', pa_sample = [],
     pa_finish = Fin 0, pa_timed = Fin 0, pa_errors = Fin 0, pa_dur = Fin 0, pa_maxDur = Fin 0, pa_read = Fin 0, pa_mem = Fin 0,
     pa_timedRead = Fin 0, pa_timedMem = Fin 0\<rparr>"

definition pattern_step :: "Row \<Rightarrow> patternAgg \<Rightarrow> patternAgg" where
  "pattern_step r a =
     (let typ = Row_Str r ''type''; d = Row_Float r ''max_duration_ms'' in
      if typ = ''QueryFinish'' then
        a\<lparr>pa_finish := f_add (pa_finish a) (Row_Float r ''count''), pa_timed := f_add (pa_timed a) (Row_Float r ''timed_count''),
          pa_dur := f_add (pa_dur a) (Row_Float r ''total_duration_ms''), pa_read := f_add (pa_read a) (Row_Float r ''total_read_bytes''),
          pa_mem := f_add (pa_mem a) (Row_Float r ''total_memory_usage''),
          pa_timedRead := f_add (pa_timedRead a) (Row_Float r ''timed_read_bytes''),
          pa_timedMem := f_add (pa_timedMem a) (Row_Float r ''timed_memory_usage''),
          pa_maxDur := (if f_gt d (pa_maxDur a) then d else pa_maxDur a),
          pa_sample := (if pa_sample a = [] \<or> pa_sample a = ''(redacted)'' then Row_Str r ''sample_query'' else pa_sample a)\<rparr>
      else if isException typ then
        a\<lparr>pa_errors := f_add (pa_errors a) (Row_Float r ''count''),
          pa_sample := (if pa_sample a = [] then Row_Str r ''sample_query'' else pa_sample a)\<rparr>
      else a)"

definition foldPatterns :: "(Row \<Rightarrow> string) \<Rightarrow> Row list \<Rightarrow> patternAgg list" where
  "foldPatterns key byPattern = map snd (group_first key new_pattern pattern_step byPattern)"

definition patternKey :: "Row \<Rightarrow> string" where
  "patternKey r = Row_Str r ''hash'' @ [NUL] @ Row_Str r ''query_kind'' @ [NUL] @ Row_Str r ''user''"

definition slow_row :: "patternAgg \<Rightarrow> vrow" where
  "slow_row a = (let den = math_max (pa_timed a) (Fin 1) in
     [(''hash'', VStr (pa_hash a)), (''query_kind'', VStr (pa_kind a)), (''user'', VStr (pa_user a)),
      (''executions'', VInt (f_to_int64 (pa_timed a))), (''avg_duration_ms'', VFloat (round_ch (f_div (pa_dur a) den) 0)),
      (''max_duration_ms'', VInt (f_to_int64 (pa_maxDur a))),
      (''avg_read_mb'', VFloat (round_ch (f_div (f_div (pa_timedRead a) den) (Fin 1048576)) 2)),
      (''avg_memory_mb'', VFloat (round_ch (f_div (f_div (pa_timedMem a) den) (Fin 1048576)) 2)),
      (''errors'', VInt (f_to_int64 (pa_errors a))), (''sample_query'', VStr (pa_sample a))])"

definition querySlow :: "Row list \<Rightarrow> vrow list" where
  "querySlow byPattern =
     take 20 (byNum ''avg_duration_ms'' (map slow_row
       (filter (\<lambda>a. \<not> (pa_timed a = Fin 0 \<and> pa_errors a = Fin 0)) (foldPatterns patternKey byPattern))))"

definition heavy_row :: "patternAgg \<Rightarrow> vrow" where
  "heavy_row a =
     [(''hash'', VStr (pa_hash a)), (''query_kind'', VStr (pa_kind a)), (''user'', VStr (pa_user a)),
      (''executions'', VInt (f_to_int64 (pa_finish a))),
      (''avg_read_mb'', VFloat (round_ch (f_div (f_div (pa_read a) (pa_finish a)) (Fin 1048576)) 2)),
      (''total_read'', VStr (readableSize (pa_read a))), (''avg_duration_ms'', VFloat (round_ch (f_div (pa_dur a) (pa_finish a)) 0)),
      (''sample_query'', VStr (pa_sample a))]"

definition queryHeavy :: "Row list \<Rightarrow> vrow list" where
  "queryHeavy byPattern =
     take 20 (byNum ''avg_read_mb'' (map heavy_row (filter (\<lambda>a. pa_finish a \<noteq> Fin 0) (foldPatterns patternKey byPattern))))"

definition user_panel_row :: "patternAgg \<Rightarrow> vrow" where
  "user_panel_row a =
     [(''user'', VStr (pa_user a)), (''executions'', VInt (f_to_int64 (pa_finish a))),
      (''avg_duration_ms'', VFloat (round_ch (f_div (pa_dur a) (math_max (pa_finish a) (Fin 1))) 0)),
      (''total_read_gb'', VFloat (round_ch (f_div (pa_read a) (Fin 1073741824)) 3)),
      (''total_memory_gb'', VFloat (round_ch (f_div (pa_mem a) (Fin 1073741824)) 3)), (''error_count'', VInt (f_to_int64 (pa_errors a)))]"

definition queryByUser :: "Row list \<Rightarrow> vrow list" where
  "queryByUser byPattern = take 20 (byNum ''executions'' (map user_panel_row (foldPatterns (\<lambda>r. Row_Str r ''user'') byPattern)))"

definition code_step :: "Row \<Rightarrow> int \<times> string \<Rightarrow> int \<times> string" where
  "code_step r a = (wrap64 (fst a + Row_Int r ''count''), if snd a = [] then Row_Str r ''exception'' else snd a)"

definition exceptionsByCode :: "check_env \<Rightarrow> Row list \<Rightarrow> vrow list" where
  "exceptionsByCode env byHour =
     take 15 (byNum ''count'' (stable_sort (\<lambda>x y. int_at ''exception_code'' x < int_at ''exception_code'' y)
       (map (\<lambda>(c, n, msg). [(''exception_code'', VInt c), (''msg'', VStr msg), (''count'', VInt n)])
         (map_range env (group_rows (\<lambda>r. Row_Int r ''exception_code'') code_step (0, [])
            (filter (\<lambda>r. Row_Int r ''exception_code'' \<noteq> 0) byHour))))))"

section \<open>Logs\<close>

definition textLogRowCap :: nat where "textLogRowCap = 1000"
definition textLogMessageCap :: nat where "textLogMessageCap = 300"

definition textLogPanel :: "Row list \<Rightarrow> string \<Rightarrow> vrow list" where
  "textLogPanel logs host =
     take textLogRowCap (newest ''event_time''
       (map (\<lambda>r.
          [(''event_time'', VStr (Row_Str r ''event_time'')), (''level'', VStr (Row_Str r ''level'')),
           (''logger_name'', VStr (Row_Str r ''logger_name'')), (''message'', VStr (leftRunes (Row_Str r ''message'') textLogMessageCap))] @
          (if Row_Str r ''hostname'' \<noteq> [] then [(''hostname'', VStr (Row_Str r ''hostname''))]
           else if host \<noteq> [] then [(''hostname'', VStr host)] else []))
        (filter (\<lambda>r. Row_Str r ''level'' \<in> set [''Warning'', ''Error'', ''Critical'', ''Fatal'']) logs)))"

definition day_of :: "Row \<Rightarrow> string" where
  "day_of r = (case hourOf (Row_Str r ''time'') of Some t \<Rightarrow> fmt_date t @ '' 00:00:00'' | None \<Rightarrow> Row_Str r ''time'')"

definition size_step :: "Row \<Rightarrow> float64 \<times> float64 \<Rightarrow> float64 \<times> float64" where
  "size_step r a = (f_add (fst a) (Row_Float r ''count''), f_add (snd a) (Row_Float r ''size_in_bytes''))"

definition part_days :: "check_env \<Rightarrow> Row list \<Rightarrow> vrow list" where
  "part_days env pl =
     sortBy [''time'', ''event_type''] (map (\<lambda>((day, typ), n). [(''time'', VStr day), (''event_type'', VStr typ), (''count'', VInt n)])
       (map_range env (group_rows (\<lambda>r. (day_of r, Row_Str r ''event_type'')) (\<lambda>r n. wrap64 (n + f_to_int64 (Row_Float r ''count''))) 0 pl)))"

definition part_types :: "check_env \<Rightarrow> Row list \<Rightarrow> vrow list" where
  "part_types env pl =
     byNum ''count'' (sortBy [''event_type'']
       (map (\<lambda>(typ, n, size). [(''event_type'', VStr typ), (''count'', VInt (f_to_int64 n)), (''total_size'', VStr (readableSize size))])
         (map_range env (group_rows (\<lambda>r. Row_Str r ''event_type'') size_step (Fin 0, Fin 0) pl))))"

definition ttl_row :: "Row \<Rightarrow> bool" where
  "ttl_row r \<longleftrightarrow> Row_Str r ''merge_reason'' = ''TTLDeleteMerge'' \<or> Row_Str r ''merge_reason'' = ''TTLRecompressMerge'' \<or>
     Row_Str r ''event_type'' = ''RemovePart''"

definition ttl_days :: "check_env \<Rightarrow> Row list \<Rightarrow> vrow list" where
  "ttl_days env pl =
     sortBy [''day'', ''event_type'', ''merge_reason'']
       (map (\<lambda>((day, typ, reason), n, size).
          [(''day'', VStr day), (''event_type'', VStr typ), (''merge_reason'', VStr reason), (''events'', VInt (f_to_int64 n)),
           (''total_size'', VStr (readableSize size))])
         (map_range env (group_rows (\<lambda>r. (day_of r, Row_Str r ''event_type'', Row_Str r ''merge_reason'')) size_step (Fin 0, Fin 0)
           (filter ttl_row pl))))"

definition partLogPanels :: "check_env \<Rightarrow> Row list \<Rightarrow> vrow list \<times> vrow list \<times> vrow list" where
  "partLogPanels env pl = (part_days env pl, part_types env pl, ttl_days env pl)"

end
