(* ===== verification/StatePanels.thy ===== *)
theory StatePanels
  imports FilePanels
begin

text \<open>
  The rest of the panels built from the collected files (\<open>internal/dashboard/fromfiles.go\<close>): dictionaries, crashes, pending
  work, Keeper and pools, disks, errors, part counts and asynchronous inserts.
\<close>

section \<open>Dictionaries and crashes\<close>

definition host_or :: "string \<Rightarrow> Row \<Rightarrow> string" where
  "host_or host r = (if Row_Str r ''hostname'' = [] then host else Row_Str r ''hostname'')"

definition dictionary_panel_row :: "string \<Rightarrow> Row \<Rightarrow> vrow" where
  "dictionary_panel_row host d =
     [(''hostname'', VStr (host_or host d)), (''database'', VStr (Row_Str d ''database'')), (''name'', VStr (Row_Str d ''name'')),
      (''status'', VStr (Row_Str d ''status'')), (''type'', VStr (Row_Str d ''type'')), (''uuid'', VStr (Row_Str d ''uuid'')),
      (''bytes_allocated'', VInt (Row_Int d ''bytes_allocated'')),
      (''bytes_allocated_human'', VStr (readableSize (Row_Float d ''bytes_allocated''))),
      (''element_count'', VInt (Row_Int d ''element_count'')), (''query_count'', VInt (Row_Int d ''query_count'')),
      (''error_count'', VInt (Row_Int d ''error_count'')),
      (''hit_rate_pct'', VFloat (round_ch (f_mul (Row_Float d ''hit_rate'') (Fin 100)) 2)),
      (''found_rate_pct'', VFloat (round_ch (f_mul (Row_Float d ''found_rate'') (Fin 100)) 2)),
      (''load_factor'', VFloat (round_ch (Row_Float d ''load_factor'') 4)),
      (''key_names'', VStr (str_join '', '' (strs (jmap d ''key.names'')))),
      (''key_types'', VStr (str_join '', '' (strs (jmap d ''key.types'')))),
      (''attribute_names'', VStr (str_join '', '' (strs (jmap d ''attribute.names'')))),
      (''attribute_types'', VStr (str_join '', '' (strs (jmap d ''attribute.types'')))),
      (''lifetime_min'', VInt (Row_Int d ''lifetime_min'')), (''lifetime_max'', VInt (Row_Int d ''lifetime_max'')),
      (''loading_start_time'', VStr (Row_Str d ''loading_start_time'')),
      (''last_update'', VStr (Row_Str d ''last_successful_update_time'')),
      (''loading_duration_s'', VFloat (round_ch (Row_Float d ''loading_duration'') 2)), (''source'', VStr (Row_Str d ''source'')),
      (''origin'', VStr (Row_Str d ''origin'')), (''comment'', VStr (Row_Str d ''comment'')),
      (''last_exception'', VStr (Row_Str d ''last_exception''))]"

definition dictionariesPanel :: "Row list \<Rightarrow> string \<Rightarrow> vrow list" where
  "dictionariesPanel ds host = sortBy [''database'', ''name'', ''hostname''] (map (dictionary_panel_row host) ds)"

definition crashLogPanel :: "Row list \<Rightarrow> vrow list" where
  "crashLogPanel cs =
     take 100 (newest ''event_time'' (map (\<lambda>c.
       [(''event_time'', VStr (Row_Str c ''event_time'')), (''signal'', VInt (Row_Int c ''signal'')),
        (''thread_id'', VStr (Row_Str c ''thread_id'')), (''query_id'', VStr (Row_Str c ''query_id'')),
        (''version'', VStr (Row_Str c ''version''))]) cs))"

section \<open>Pending work\<close>

definition pending_mutation :: "Row \<Rightarrow> bool" where
  "pending_mutation m \<longleftrightarrow> \<not> (Row_Int m ''parts_to_do'' \<le> 0 \<or> Row_Int m ''is_killed'' = 1)"

definition mutation_id_key :: "Row \<Rightarrow> string" where
  "mutation_id_key m = Row_Str m ''database'' @ [NUL] @ Row_Str m ''table'' @ [NUL] @ Row_Str m ''mutation_id''"

text \<open>An entry of the map \<open>seen\<close>: the first row of the mutation and the parts to do so far.\<close>

definition mutation_step :: "Row \<Rightarrow> Row \<times> int \<Rightarrow> Row \<times> int" where
  "mutation_step m e = (case e of (m0, n) \<Rightarrow> (m0, if Row_Int m ''parts_to_do'' > n then Row_Int m ''parts_to_do'' else n))"

definition mutation_panel_row :: "Row \<times> int \<Rightarrow> vrow" where
  "mutation_panel_row e = (case e of (m, n) \<Rightarrow>
     [(''database'', VStr (Row_Str m ''database'')), (''table'', VStr (Row_Str m ''table'')),
      (''mutation_id'', VStr (Row_Str m ''mutation_id'')), (''command'', VStr (Row_Str m ''command'')),
      (''create_time'', VStr (Row_Str m ''create_time'')), (''parts_to_do'', VInt n)])"

definition unfinished :: "Row list \<Rightarrow> vrow list" where
  "unfinished ms = map (\<lambda>(k, e). mutation_panel_row e)
     (group_first mutation_id_key (\<lambda>m. (m, Row_Int m ''parts_to_do'')) mutation_step (filter pending_mutation ms))"

definition mutationsPanel :: "Row list \<Rightarrow> vrow list" where
  "mutationsPanel ms = take 20 (byNum ''parts_to_do'' (unfinished ms))"

record detached_panel_agg =
  dp_db :: string
  dp_tb :: string
  dp_n :: int
  dp_bytes :: float64
  dp_sized :: bool
  dp_reasons :: "string list"

fun shown_detached :: "string \<Rightarrow> string list \<Rightarrow> Row list \<Rightarrow> Row list" where
  "shown_detached mode paths [] = []"
| "shown_detached mode paths (d # ds) =
     (if \<not> notSystemDB (Row_Str d ''database'') then shown_detached mode paths ds
      else let p = Row_Str d ''path'' in
        if mode = ''cloud'' \<and> p \<noteq> [] then
          (if p \<in> set paths then shown_detached mode paths ds else d # shown_detached mode (p # paths) ds)
        else d # shown_detached mode paths ds)"

definition new_detached :: "Row \<Rightarrow> detached_panel_agg" where
  "new_detached d = \<lparr>dp_db = Row_Str d ''database'', dp_tb = Row_Str d ''table'', dp_n = 0, dp_bytes = Fin 0, dp_sized = False, dp_reasons = []\<rparr>"

definition detached_panel_step :: "Row \<Rightarrow> detached_panel_agg \<Rightarrow> detached_panel_agg" where
  "detached_panel_step d a =
     (let a = a\<lparr>dp_n := dp_n a + 1\<rparr>;
          a = (if jmap d ''bytes_on_disk'' \<noteq> None
               then a\<lparr>dp_sized := True, dp_bytes := f_add (dp_bytes a) (Row_Float d ''bytes_on_disk'')\<rparr> else a)
      in a\<lparr>dp_reasons := List.insert (Row_Str d ''reason'') (dp_reasons a)\<rparr>)"

definition detached_panel_row :: "detached_panel_agg \<Rightarrow> vrow" where
  "detached_panel_row a =
     [(''database'', VStr (dp_db a)), (''table'', VStr (dp_tb a)), (''count'', VInt (dp_n a)),
      (''size'', VStr (if dp_sized a then readableSize (dp_bytes a) else ''n/a'')),
      (''reasons'', VStr (str_join '', '' (sort (dp_reasons a)))),
      (''_ord'', VFloat (if dp_sized a then dp_bytes a else f_of_int (dp_n a)))]"

definition detached_groups :: "Row list \<Rightarrow> string \<Rightarrow> detached_panel_agg list" where
  "detached_groups ds mode = map snd (group_first table_key new_detached detached_panel_step (shown_detached mode [] ds))"

definition detachedPanel :: "Row list \<Rightarrow> string \<Rightarrow> vrow list" where
  "detachedPanel ds mode = map (without ''_ord'') (take 20 (byNum ''_ord'' (map detached_panel_row (detached_groups ds mode))))"

definition f_differ :: "float64 \<Rightarrow> float64 \<Rightarrow> bool" where
  "f_differ x y \<longleftrightarrow> x = NaN \<or> y = NaN \<or> x \<noteq> y"

definition cluster_before :: "vrow \<Rightarrow> vrow \<Rightarrow> bool" where
  "cluster_before a b =
     (if text_at ''cluster'' a \<noteq> text_at ''cluster'' b then text_at ''cluster'' a < text_at ''cluster'' b
      else if f_differ (num_of (vget a ''shard'')) (num_of (vget b ''shard'')) then f_less (num_of (vget a ''shard'')) (num_of (vget b ''shard''))
      else f_less (num_of (vget a ''replica'')) (num_of (vget b ''replica'')))"

definition clustersPanel :: "Row list \<Rightarrow> vrow list" where
  "clustersPanel cs = stable_sort cluster_before (map (\<lambda>c.
     [(''cluster'', VStr (Row_Str c ''cluster'')), (''host_name'', VStr (Row_Str c ''host_name'')),
      (''shard'', VStr (Row_Str c ''shard_num'')), (''replica'', VStr (Row_Str c ''replica_num'')),
      (''errors_count'', VStr (Row_Str c ''errors_count''))]) cs)"

definition of_another_host :: "string \<Rightarrow> string \<Rightarrow> Row \<Rightarrow> bool" where
  "of_another_host mode host r \<longleftrightarrow>
     mode = ''cloud'' \<and> host \<noteq> [] \<and> Row_Str r ''hostname'' \<noteq> [] \<and> Row_Str r ''hostname'' \<noteq> host"

definition replicationQueuePanel :: "Row list \<Rightarrow> string \<Rightarrow> string \<Rightarrow> vrow list" where
  "replicationQueuePanel rq mode host =
     take 50 (sortBy [''table''] (map (\<lambda>r.
       [(''table'', VStr (Row_Str r ''table'')), (''type'', VStr (Row_Str r ''type'')),
        (''executing'', VStr (Row_Str r ''is_currently_executing'')), (''last_exception'', VStr (Row_Str r ''last_exception''))])
       (filter (\<lambda>r. \<not> of_another_host mode host r) rq)))"

definition replica_panel_row :: "(string \<rightharpoonup> string \<times> string) \<Rightarrow> Row \<Rightarrow> vrow" where
  "replica_panel_row counts r =
     (let c = (case counts (table_key r) of Some c \<Rightarrow> c | None \<Rightarrow> ([], [])) in
      [(''database'', VStr (Row_Str r ''database'')), (''table'', VStr (Row_Str r ''table'')),
       (''is_leader'', VInt (Row_Int r ''is_leader'')), (''is_readonly'', VInt (Row_Int r ''is_readonly'')),
       (''is_session_expired'', VInt (Row_Int r ''is_session_expired'')), (''future_parts'', VInt (Row_Int r ''future_parts'')),
       (''parts_to_check'', VInt (Row_Int r ''parts_to_check'')), (''queue_size'', VInt (Row_Int r ''queue_size'')),
       (''inserts_in_queue'', VInt (Row_Int r ''inserts_in_queue'')), (''merges_in_queue'', VInt (Row_Int r ''merges_in_queue'')),
       (''queue_oldest_time'', VStr (Row_Str r ''queue_oldest_time'')), (''absolute_delay'', VInt (Row_Int r ''absolute_delay'')),
       (''total_replicas'', VStr (fst c)), (''active_replicas'', VStr (snd c))])"

definition replica_before :: "vrow \<Rightarrow> vrow \<Rightarrow> bool" where
  "replica_before a b =
     (if f_differ (num_of (vget a ''absolute_delay'')) (num_of (vget b ''absolute_delay''))
      then f_gt (num_of (vget a ''absolute_delay'')) (num_of (vget b ''absolute_delay''))
      else f_gt (num_of (vget a ''is_readonly'')) (num_of (vget b ''is_readonly'')))"

definition replicasPanel :: "Row list \<Rightarrow> Row list \<Rightarrow> string \<Rightarrow> string \<Rightarrow> vrow list" where
  "replicasPanel rs problem mode host =
     stable_sort replica_before
       (map (replica_panel_row (map_of (rev (map (\<lambda>p. (table_key p, (Row_Str p ''total_replicas'', Row_Str p ''active_replicas'')))
              (filter (\<lambda>p. \<not> of_another_host mode host p) problem)))))
         (filter (\<lambda>r. \<not> of_another_host mode host r) rs))"

section \<open>Keeper and pools\<close>

definition keeperMetricPanel :: "Row list \<Rightarrow> bool \<Rightarrow> vrow list \<times> bool \<times> bool" where
  "keeperMetricPanel ml have_ml =
     (sortBy [''time''] (map (\<lambda>r.
        [(''time'', VStr (Row_Str r ''time'')), (''transactions'', VInt (Row_Int r ''zk_transactions'')),
         (''hw_exceptions'', VInt (Row_Int r ''zk_hw_exceptions'')), (''user_exceptions'', VInt (Row_Int r ''zk_user_exceptions'')),
         (''wait_us'', VInt (Row_Int r ''zk_wait_us'')), (''sessions_min'', VInt (Row_Int r ''zk_sessions_min'')),
         (''sessions_max'', VInt (Row_Int r ''zk_sessions_max''))]) ml),
      have_ml \<and> list_ex (\<lambda>r. jmap r ''zk_wait_us'' \<noteq> None) ml, have_ml \<and> list_ex (\<lambda>r. jmap r ''zk_sessions_max'' \<noteq> None) ml)"

definition poolsPanel :: "Row list \<Rightarrow> vrow list" where
  "poolsPanel ml = sortBy [''time''] (map (\<lambda>r.
     [(''time'', VStr (Row_Str r ''time'')), (''fetch_tasks'', VFloat (Row_Float r ''max_replica_avg_fetch_pool_tasks'')),
      (''schedule_tasks'', VFloat (Row_Float r ''max_replica_avg_schedule_pool_tasks'')),
      (''merge_tasks'', VFloat (Row_Float r ''max_replica_avg_merge_pool_tasks''))]) ml)"

text \<open>Each host's latest size of a pool (the maps \<open>perHost\<close> and \<open>latest\<close>), and the smallest of them; 0 when there is none.\<close>

definition host_size_step :: "string \<Rightarrow> (string \<rightharpoonup> int \<times> string) \<Rightarrow> Row \<Rightarrow> (string \<rightharpoonup> int \<times> string)" where
  "host_size_step col m r =
     (let h = Row_Str r ''hostname''; t = Row_Str r ''time''; v = Row_Int r col in
      if v > 0 \<and> t \<ge> (case m h of Some (_, l) \<Rightarrow> l | None \<Rightarrow> []) then m(h \<mapsto> (v, t)) else m)"

definition host_sizes :: "string \<Rightarrow> Row list \<Rightarrow> int list" where
  "host_sizes col hosts =
     (let m = foldl (host_size_step col) Map.empty hosts in
      map (\<lambda>h. fst (the (m h))) (filter (\<lambda>h. m h \<noteq> None) (remdups (map (\<lambda>r. Row_Str r ''hostname'') hosts))))"

definition smaller_size :: "int \<Rightarrow> int \<Rightarrow> int" where
  "smaller_size v acc = (if v > 0 \<and> (acc = 0 \<or> v < acc) then v else acc)"

definition smallest_size :: "check_env \<Rightarrow> string \<Rightarrow> Row list \<Rightarrow> int" where
  "smallest_size env col hosts = fold smaller_size (map_range env (host_sizes col hosts)) 0"

definition setting_value :: "Row list \<Rightarrow> string \<Rightarrow> int \<Rightarrow> int" where
  "setting_value rs name old = foldl (\<lambda>acc r. if Row_Str r ''name'' = name then Row_Int r ''value'' else acc) old rs"

definition pool_settings_source :: "string \<Rightarrow> Version \<Rightarrow> string" where
  "pool_settings_source mode v =
     (if v \<noteq> Version 0 0 0 0 \<and> (Major v < 23 \<or> Major v = 23 \<and> Minor v < 3) \<and> mode \<noteq> ''cloud'' then ''system.settings''
      else ''system.server_settings'')"

record pool_sizes =
  ps_fetch :: int
  ps_schedule :: int
  ps_merge :: int

text \<open>\<open>hosts\<close> and \<open>rs\<close>: the rows of the two collectors, None for one that cannot be read.\<close>

definition pool_sizes_of :: "check_env \<Rightarrow> string \<Rightarrow> Row list option \<Rightarrow> Row list option \<Rightarrow> pool_sizes" where
  "pool_sizes_of env mode hosts rs =
     (let live = (\<lambda>col. if mode = ''cloud'' then (case hosts of Some hs \<Rightarrow> smallest_size env col hs | None \<Rightarrow> 0) else 0);
          fetch = live ''max(CurrentMetric_BackgroundFetchesPoolSize)'';
          schedule = live ''max(CurrentMetric_BackgroundSchedulePoolSize)'';
          fill = (\<lambda>old name. case rs of None \<Rightarrow> old | Some rs \<Rightarrow> if old \<noteq> 0 then old else setting_value rs name old)
      in \<lparr>ps_fetch = fill fetch ''background_fetches_pool_size'', ps_schedule = fill schedule ''background_schedule_pool_size'',
          ps_merge = fill 0 ''background_pool_size''\<rparr>)"

definition keeperErrorCodes :: "int \<rightharpoonup> string" where
  "keeperErrorCodes = map_of [(999, ''KEEPER_EXCEPTION''), (242, ''TABLE_IS_READ_ONLY''), (319, ''UNKNOWN_STATUS_OF_INSERT''),
     (571, ''DATABASE_REPLICATION_FAILED''), (252, ''TOO_MANY_PARTS'')]"

definition keeperErrorRows :: "check_env \<Rightarrow> ((string \<times> string) \<times> int) list \<Rightarrow> vrow list" where
  "keeperErrorRows env m =
     sortBy [''time'', ''code_name''] (map (\<lambda>((t, name), n). [(''time'', VStr t), (''code_name'', VStr name), (''count'', VInt n)])
       (map_range env m))"

definition keeperErrorsFromErrorLog :: "check_env \<Rightarrow> Row list \<Rightarrow> vrow list" where
  "keeperErrorsFromErrorLog env el =
     keeperErrorRows env (group_rows (\<lambda>r. (Row_Str r ''time'', Row_Str r ''error'')) (\<lambda>r n. wrap64 (n + Row_Int r ''errors'')) 0
       (filter (\<lambda>r. keeperErrorCodes (Row_Int r ''code'') \<noteq> None) el))"

definition keeperErrorsFromQueryLog :: "check_env \<Rightarrow> Row list \<Rightarrow> vrow list" where
  "keeperErrorsFromQueryLog env byHour =
     keeperErrorRows env (group_rows (\<lambda>r. (Row_Str r ''time'', the (keeperErrorCodes (Row_Int r ''exception_code'')))) count_step 0
       (filter (\<lambda>r. keeperErrorCodes (Row_Int r ''exception_code'') \<noteq> None \<and> Row_Str r ''type'' = ''ExceptionWhileProcessing'') byHour))"

definition keeperConnectionPanel :: "Row list \<Rightarrow> string \<Rightarrow> vrow list" where
  "keeperConnectionPanel zk mode = sortBy [''name''] (map (\<lambda>r.
     [(''name'', VStr (Row_Str r ''name'')), (''host'', VStr (Row_Str r ''host'')), (''port'', VStr (Row_Str r ''port'')),
      (''index'', VStr (Row_Str r ''index'')), (''connected_time'', VStr (Row_Str r ''connected_time'')),
      (''session_uptime_s'', VStr (Row_Str r ''session_uptime_elapsed_seconds'')), (''is_expired'', VStr (Row_Str r ''is_expired'')),
      (''api_version'', VStr (Row_Str r ''keeper_api_version''))] @
     (if mode = ''cloud'' then [(''replica'', VStr (Row_Str r ''hostname''))] else []) @
     (if jmap r ''xid'' \<noteq> None then [(''xid'', VStr (Row_Str r ''xid''))] else [])) zk)"

section \<open>Disks, errors, part counts, asynchronous inserts\<close>

definition disk_panel_row :: "string \<Rightarrow> Row \<Rightarrow> vrow" where
  "disk_panel_row host d =
     (let free = Row_Float d ''free_bytes''; all = Row_Float d ''total_bytes'' in
      [(''hostname'', VStr (host_or host d)), (''name'', VStr (Row_Str d ''name'')), (''path'', VStr (Row_Str d ''path'')),
       (''type'', VStr (Row_Str d ''type'')), (''free_space'', VStr (Row_Str d ''free_bytes'')),
       (''total_space'', VStr (Row_Str d ''total_bytes'')), (''free_space_human'', VStr (readableSize free)),
       (''total_space_human'', VStr (readableSize all)),
       (''free_pct'', VFloat (if f_gt all (Fin 0) then round_ch (f_mul (f_div free all) (Fin 100)) 1 else Fin 0))])"

definition disk_before :: "vrow \<Rightarrow> vrow \<Rightarrow> bool" where
  "disk_before a b =
     (if text_at ''hostname'' a \<noteq> text_at ''hostname'' b then text_at ''hostname'' a < text_at ''hostname'' b
      else f_gt (num_of (vget a ''total_space'')) (num_of (vget b ''total_space'')))"

definition disksPanel :: "Row list \<Rightarrow> string \<Rightarrow> vrow list" where
  "disksPanel ds host = stable_sort disk_before (map (disk_panel_row host) ds)"

record error_agg =
  ea_name :: string
  ea_code :: string
  ea_total :: int
  ea_maxVal :: int
  ea_last :: string
  ea_lastMsg :: string

definition new_error :: "Row \<Rightarrow> error_agg" where
  "new_error e = \<lparr>ea_name = Row_Str e ''name'', ea_code = Row_Str e ''code'', ea_total = 0, ea_maxVal = - 1, ea_last = [], ea_lastMsg = []\<rparr>"

definition error_step :: "Row \<Rightarrow> error_agg \<Rightarrow> error_agg" where
  "error_step e a =
     (let v = Row_Int e ''value''; t = Row_Str e ''last_error_time'';
          a = a\<lparr>ea_total := wrap64 (ea_total a + v), ea_last := (if t > ea_last a then t else ea_last a)\<rparr>
      in if v > ea_maxVal a then a\<lparr>ea_maxVal := v, ea_lastMsg := Row_Str e ''last_error_message''\<rparr> else a)"

definition error_panel_row :: "error_agg \<Rightarrow> vrow" where
  "error_panel_row a =
     [(''name'', VStr (ea_name a)), (''code'', VInt (Row_Int [(''c'', JStr (ea_code a))] ''c'')), (''value'', VInt (ea_total a)),
      (''last_error_time'', VStr (ea_last a)), (''last_error_message'', VStr (leftRunes (ea_lastMsg a) 300))]"

definition error_key :: "Row \<Rightarrow> string" where
  "error_key e = Row_Str e ''name'' @ [NUL] @ Row_Str e ''code''"

definition serverErrorsPanel :: "Row list \<Rightarrow> vrow list" where
  "serverErrorsPanel es =
     take 30 (byNum ''value'' (map error_panel_row
       (filter (\<lambda>a. \<not> ea_total a \<le> 0) (map snd (group_first error_key new_error error_step es)))))"

definition highPartCount :: "Row list \<Rightarrow> vrow list" where
  "highPartCount pbp =
     take 30 (byNum ''parts_count'' (map (\<lambda>r.
       [(''database'', VStr (Row_Str r ''database'')), (''table'', VStr (Row_Str r ''table'')),
        (''partition_id'', VStr (Row_Str r ''partition_id'')), (''parts_count'', VInt (Row_Int r ''parts''))])
       (filter (\<lambda>r. Row_Int r ''parts'' > 100) pbp)))"

record insert_agg =
  ia_flushes :: float64
  ia_rows :: float64
  ia_bytes :: float64
  ia_msWeighted :: float64
  ia_hasRows :: bool

definition no_inserts :: insert_agg where
  "no_inserts = \<lparr>ia_flushes = Fin 0, ia_rows = Fin 0, ia_bytes = Fin 0, ia_msWeighted = Fin 0, ia_hasRows = False\<rparr>"

definition insert_step :: "Row \<Rightarrow> insert_agg \<Rightarrow> insert_agg" where
  "insert_step r a =
     (let f = Row_Float r ''flushes'';
          a = a\<lparr>ia_flushes := f_add (ia_flushes a) f, ia_bytes := f_add (ia_bytes a) (Row_Float r ''total_bytes''),
                ia_msWeighted := f_add (ia_msWeighted a) (f_mul (Row_Float r ''avg_flush_ms'') f)\<rparr>
      in if jmap r ''total_rows'' \<noteq> None then a\<lparr>ia_hasRows := True, ia_rows := f_add (ia_rows a) (Row_Float r ''total_rows'')\<rparr> else a)"

definition too_old :: "time option \<Rightarrow> Row \<Rightarrow> bool" where
  "too_old now r = (case (now, hourOf (Row_Str r ''time'')) of (Some n, Some t) \<Rightarrow> \<not> t + Hour > n - 24 * Hour | _ \<Rightarrow> False)"

definition insert_panel_row :: "(string \<times> string) \<times> insert_agg \<Rightarrow> vrow" where
  "insert_panel_row e = (case e of ((hour, status), a) \<Rightarrow>
     [(''hour'', VStr hour), (''status'', VStr status), (''flushes'', VInt (f_to_int64 (ia_flushes a))),
      (''total_rows'', VStr (if ia_hasRows a then int_str (f_to_int64 (ia_rows a)) else ''n/a'')),
      (''total_bytes'', VStr (readableSize (ia_bytes a))),
      (''avg_flush_ms'', VFloat (round_ch (f_div (ia_msWeighted a) (math_max (ia_flushes a) (Fin 1))) 0))])"

definition asyncInsertsPanel :: "check_env \<Rightarrow> Row list \<Rightarrow> string \<Rightarrow> vrow list" where
  "asyncInsertsPanel env ai at_collection =
     sortBy [''hour'', ''status''] (map insert_panel_row
       (map_range env (group_rows (\<lambda>r. (Row_Str r ''time'', Row_Str r ''status'')) insert_step no_inserts
         (filter (\<lambda>r. \<not> too_old (hourOf at_collection) r) ai))))"

end
