(* ===== verification/FromFiles.thy ===== *)
theory FromFiles
  imports StatePanels "HOL-Library.State_Monad"
begin

text \<open>
  The dashboard's payload from the run directory (\<open>collectFromFiles\<close> and \<open>collectAnalysisFromFiles\<close> of
  \<open>internal/dashboard/fromfiles.go\<close>, \<open>hostChecks\<close>, \<open>addHostInfo\<close> and \<open>formatBytes\<close> of \<open>internal/dashboard/generator.go\<close>). The
  payload is a map from keys to values; the generator's bundle, its list of skipped panels and what it prints are the state of a
  monad.
\<close>

section \<open>The generator\<close>

text \<open>\<open>g_hostInfo\<close>: the report and its JSON form, which the JSON library makes.\<close>

record Generator =
  g_mode :: string
  g_serverVersion :: Version
  g_analysis :: AnalysisOpts
  g_hostInfo :: "(Report \<times> val) option"
  g_node :: string
  g_nodeUptime :: string
  g_collection :: string
  g_kind :: string
  g_summary :: string
  g_skipped :: "string list"
  g_windowFrom :: time
  g_windowTo :: time

definition essential :: "Generator \<Rightarrow> bool" where
  "essential g \<longleftrightarrow> g_kind g = ''essential''"

text \<open>What the generator's environment gives: directories and whether they exist, the clock, time zones and the order of maps.\<close>

record panel_env =
  pe_check :: check_env
  pe_dir :: "string \<Rightarrow> run_dir"
  pe_stat :: "string \<Rightarrow> bool"
  pe_now :: time

record gen =
  gen_bundle :: Bundle
  gen_skipped :: "string list"
  gen_out :: "string list"

definition filesRows :: "panel_env \<Rightarrow> string \<Rightarrow> string \<Rightarrow> (gen, Row list \<times> bool) state" where
  "filesRows env panel collector = State (\<lambda>g.
     case Rows (pe_dir env (b_dir (gen_bundle g))) collector (gen_bundle g) of
       (Inr rs, b) \<Rightarrow> ((rs, True), g\<lparr>gen_bundle := b\<rparr>)
     | (Inl (NotCollected c st reason), b) \<Rightarrow>
         (([], False), if st = ''skipped'' \<or> st = ''failed''
                       then g\<lparr>gen_bundle := b, gen_skipped := gen_skipped g @ [panel @ '' ('' @ collector @ '' '' @ st @ '')'']\<rparr>
                       else g\<lparr>gen_bundle := b\<rparr>)
     | (Inl (ReadError e), b) \<Rightarrow>
         (([], False), g\<lparr>gen_bundle := b, gen_out := gen_out g @ [''  [dashboard] '' @ panel @ '': '' @ rows_error_text (ReadError e) @ [NL]]\<rparr>))"

section \<open>Windows\<close>

definition en_dash :: string where "en_dash = [CHR 0xE2, CHR 0x80, CHR 0x93]"
definition long_dash :: string where "long_dash = [CHR 0xE2, CHR 0x80, CHR 0x94]"

definition fmt_minute :: "time \<Rightarrow> string" where
  "fmt_minute t = (let s = unix_seconds t mod 86400 in
     fmt_date t @ '' '' @ pad_int 2 (s div 3600) @ '':'' @ pad_int 2 (s mod 3600 div 60) @ '' UTC'')"

definition windowLabel :: "Generator \<Rightarrow> string \<Rightarrow> string" where
  "windowLabel g def_label =
     (if \<not> is_zero (g_windowFrom g) \<and> \<not> is_zero (g_windowTo g)
        then fmt_minute (g_windowFrom g) @ '' '' @ en_dash @ '' '' @ fmt_minute (g_windowTo g)
      else if \<not> is_zero (g_windowFrom g) then ''since '' @ fmt_minute (g_windowFrom g)
      else if \<not> is_zero (g_windowTo g) then ''until '' @ fmt_minute (g_windowTo g)
      else if essential g then ''last day (essential run)''
      else def_label)"

definition windowEnd :: "check_env \<Rightarrow> string \<Rightarrow> string \<Rightarrow> time \<Rightarrow> string" where
  "windowEnd env at_collection tz stop =
     (if is_zero stop then at_collection
      else let loc = (if tz = [] then UTC else case ce_zone env tz of Some l \<Rightarrow> l | None \<Rightarrow> UTC) in
        case parse_in_location take_blank loc at_collection of
          None \<Rightarrow> at_collection
        | Some now \<Rightarrow> if \<not> stop < now then at_collection else fmt_in loc stop)"

section \<open>Host facts\<close>

fun byte_unit :: "nat \<Rightarrow> int \<Rightarrow> int \<Rightarrow> nat \<Rightarrow> int \<times> nat" where
  "byte_unit 0 n d e = (d, e)"
| "byte_unit (Suc k) n d e = (if n \<ge> 1024 then byte_unit k (go_div n 1024) (d * 1024) (e + 1) else (d, e))"

definition formatBytes :: "int \<Rightarrow> string" where
  "formatBytes b =
     (if b < 1024 then int_str b @ '' B''
      else case byte_unit 3 (go_div b 1024) 1024 0 of (d, e) \<Rightarrow>
        fmt_fixed 1 (f_div (f_of_int b) (f_of_int d)) @ '' '' @ [''KMGT'' ! e] @ ''iB'')"

definition check_row :: "string \<Rightarrow> string \<Rightarrow> string \<Rightarrow> string \<Rightarrow> vrow" where
  "check_row name value status remark =
     (let unread = (value = []) in
      [(''setting'', VStr name), (''value'', VStr (if unread then ''(unreadable)'' else value)),
       (''status'', VStr (if unread then ''unknown'' else status)), (''note'', VStr remark)])"

definition open_files :: "Tunables \<Rightarrow> string" where
  "open_files t =
     (if tn_ClickHouseNofileSoft t \<noteq> [] \<or> tn_ClickHouseNofileHard t \<noteq> []
      then trim_space (tn_ClickHouseNofileSoft t @ '' / '' @ tn_ClickHouseNofileHard t) else [])"

definition quoted_always :: string where "quoted_always = [DQUOTE] @ ''always'' @ [DQUOTE]"

definition hostChecks :: "Report \<Rightarrow> vrow list" where
  "hostChecks r =
     (let t = rp_Tunables r; m = rp_Memory r; thp = contains (tn_TransparentHugepages t) ''always'';
          over = (trim_space (tn_OvercommitMemory t) = ''2'') in
      [check_row ''transparent_hugepages'' (tn_TransparentHugepages t) (if thp then ''warning'' else ''ok'')
         (if thp then ''ClickHouse warns at startup: transparent hugepages set to '' @ quoted_always
          else ''ClickHouse warns at startup when this is '' @ quoted_always),
       check_row ''transparent_hugepages_defrag'' (tn_THPDefrag t) ''info'' [],
       check_row ''vm.overcommit_memory'' (tn_OvercommitMemory t) (if over then ''warning'' else ''ok'')
         (if over then ''ClickHouse warns at startup: memory overcommit is disabled (mode 2)'' else []),
       check_row ''vm.max_map_count'' (tn_MaxMapCount t) ''info'' ''ClickHouse errors when its live mappings exceed 90% of this'',
       check_row ''vm.swappiness'' (tn_Swappiness t) ''info'' ''reported as a fact: ClickHouse does not check or document a target'',
       check_row ''fs.nr_open'' (tn_FsNrOpen t) ''info'' [],
       check_row ''fs.file-max'' (tn_FsFileMax t) ''info'' [],
       check_row ''cgroup memory limit'' (tn_CgroupMemoryLimit t) ''info'' [],
       check_row ''cgroup cpu max'' (tn_CgroupCPUMax t) ''info'' [],
       check_row ''open files (soft/hard)'' (open_files t) ''info'' [],
       check_row ''max processes (soft)'' (tn_ClickHouseNprocSoft t) ''info''
         (''RLIMIT_NPROC '' @ long_dash @ '' the OS cap on tasks, not the max_threads setting'')] @
      (if mem_Available m \<and> mem_AvailableBytes m > 0 then
         let low = mem_AvailableBytes m < 2147483648 in
         [check_row ''available memory'' (formatBytes (mem_AvailableBytes m)) (if low then ''warning'' else ''ok'')
            (if low then ''ClickHouse warns at startup: available memory below 2 GiB'' else [])]
       else []))"

section \<open>The payload\<close>

type_synonym payload = "string \<rightharpoonup> val"

definition rows_val :: "vrow list \<Rightarrow> val" where
  "rows_val rs = VList (map VMap rs)"

definition addHostInfo :: "Report \<times> val \<Rightarrow> payload \<Rightarrow> payload" where
  "addHostInfo hi p = p(''host_info'' \<mapsto> snd hi, ''host_checks'' \<mapsto> rows_val (hostChecks (fst hi)))"

definition gov_sensitive :: "string list" where
  "gov_sensitive = [''query'', ''exception'', ''sample_query'', ''sample_exception'']"

definition gov_cleared :: "string \<Rightarrow> Row \<Rightarrow> vrow" where
  "gov_cleared mode r = map (\<lambda>(k, v). (k, if mode = ''gov'' \<and> k \<in> set gov_sensitive then VStr ''(redacted in gov mode)'' else json_val v)) r"

definition analysis_panel_files :: "(string \<times> string) list" where
  "analysis_panel_files =
     [(''qa_details'', ''query_details''), (''qa_profile'', ''profile_events''), (''qa_text_parts'', ''text_log_parts''),
      (''qa_text_full'', ''text_log_full''), (''qa_tables'', ''tables_for_query''), (''qa_fast_slow'', ''fast_slow_query_ids''),
      (''qa_pe_compare'', ''profile_events_compare''), (''qa_by_host'', ''hash_by_host''), (''qa_summary'', ''hash_summary''),
      (''qa_failed_over_time'', ''failed_over_time''), (''qa_failed'', ''failed_queries''), (''qa_executions'', ''executions_timeline'')]"

fun analysis_panels :: "run_dir \<Rightarrow> string \<Rightarrow> (string \<times> string) list \<Rightarrow> Bundle \<Rightarrow> payload \<Rightarrow> payload" where
  "analysis_panels rd mode [] ab p = p"
| "analysis_panels rd mode ((key, base) # fs) ab p =
     (case Rows rd base ab of
        (Inl e, ab) \<Rightarrow> analysis_panels rd mode fs ab p
      | (Inr rs, ab) \<Rightarrow> analysis_panels rd mode fs ab (p(key \<mapsto> rows_val (map (gov_cleared mode) rs))))"

definition collectAnalysisFromFiles :: "panel_env \<Rightarrow> Generator \<Rightarrow> Bundle \<Rightarrow> payload \<Rightarrow> payload" where
  "collectAnalysisFromFiles env g b p =
     (let dir = path_join [b_dir b, ''query_analysis''] in
      if \<not> analysis_enabled (g_analysis g) \<or> \<not> pe_stat env dir then p
      else (analysis_panels (pe_dir env dir) (g_mode g) analysis_panel_files (OpenBundle dir Map.empty) p)
        (''qa_enabled'' \<mapsto> VBool True, ''qa_query_id'' \<mapsto> VStr (a_QueryID (g_analysis g)),
         ''qa_hash'' \<mapsto> VStr (a_NormalizedQueryHash (g_analysis g)), ''qa_from'' \<mapsto> VStr (fmt_rfc3339 (a_From (g_analysis g))),
         ''qa_to'' \<mapsto> VStr (fmt_rfc3339 (a_To (g_analysis g))), ''qa_mode'' \<mapsto> VStr (g_mode g)))"

definition poolSizesFromFiles :: "panel_env \<Rightarrow> Generator \<Rightarrow> (gen, pool_sizes) state" where
  "poolSizesFromFiles env g = State (\<lambda>s.
     let rd = pe_dir env (b_dir (gen_bundle s));
         ok = (\<lambda>r. case r of Inl e \<Rightarrow> None | Inr rs \<Rightarrow> Some rs)
     in case (if g_mode g = ''cloud'' then Rows rd ''system.metric_log_by_host_3_days'' (gen_bundle s) else (Inr [], gen_bundle s)) of
       (hosts, b) \<Rightarrow> (case Rows rd (pool_settings_source (g_mode g) (g_serverVersion g)) b of
          (rs, b) \<Rightarrow> (pool_sizes_of (pe_check env) (g_mode g) (ok hosts) (ok rs), s\<lparr>gen_bundle := b\<rparr>)))"

definition pool_sizes_val :: "pool_sizes \<Rightarrow> val" where
  "pool_sizes_val p = VMap [(''fetch'', VInt (ps_fetch p)), (''schedule'', VInt (ps_schedule p)), (''merge'', VInt (ps_merge p))]"

text \<open>\<open>redactSchemaRecords\<close>: the string cols of every record that hold a credential are replaced.\<close>

definition redact_record :: "string list \<Rightarrow> vrow \<Rightarrow> vrow" where
  "redact_record cols r =
     map (\<lambda>(k, v). (k, case v of VStr s \<Rightarrow> if k \<in> set cols \<and> s \<noteq> [] \<and> snd (RedactSQLText s) > 0 then VStr (fst (RedactSQLText s)) else v | _ \<Rightarrow> v)) r"

definition record_hits :: "string list \<Rightarrow> vrow \<Rightarrow> nat" where
  "record_hits cols r = sum_list (map (\<lambda>f. case vget r f of Some (VStr s) \<Rightarrow> if s = [] then 0 else snd (RedactSQLText s) | _ \<Rightarrow> 0) cols)"

definition redactSchemaRecords :: "string list \<Rightarrow> vrow list \<Rightarrow> vrow list \<times> nat" where
  "redactSchemaRecords cols rs = (map (redact_record cols) rs, sum_list (map (record_hits cols) rs))"

definition redactDictionaryPanel :: "vrow list \<Rightarrow> vrow list \<times> nat" where
  "redactDictionaryPanel = redactSchemaRecords [''source'', ''last_exception'']"


definition user_tables_of :: "Row list \<Rightarrow> Row list" where
  "user_tables_of tables = filter (\<lambda>t. notSystemDB (Row_Str t ''database'')) tables"

definition header_of :: "panel_env \<Rightarrow> Generator \<Rightarrow> payload" where
  "header_of env g =
     [''generated_at'' \<mapsto> VStr (fmt_datetime (pe_now env) @ '' UTC''), ''mode'' \<mapsto> VStr (g_mode g), ''version'' \<mapsto> VStr [],
      ''uptime'' \<mapsto> VStr (g_nodeUptime g), ''node'' \<mapsto> VStr (g_node g), ''collection'' \<mapsto> VStr (g_collection g),
      ''total_databases'' \<mapsto> VInt 0, ''total_tables'' \<mapsto> VInt 0, ''active_parts'' \<mapsto> VInt 0, ''total_size'' \<mapsto> VStr ''N/A'']"

definition table_counts :: "Row list \<Rightarrow> payload" where
  "table_counts userTables =
     [''total_databases'' \<mapsto> VInt (int (card (set (map (\<lambda>t. Row_Str t ''database'') userTables)))),
      ''total_tables'' \<mapsto> VInt (int (length userTables))]"

definition part_counts :: "Row list \<Rightarrow> payload" where
  "part_counts byTable =
     [''active_parts'' \<mapsto> VInt (foldl (\<lambda>n r. wrap64 (n + Row_Int r ''parts'')) 0 byTable),
      ''total_size'' \<mapsto> VStr (readableSize (foldl (\<lambda>n r. f_add n (Row_Float r ''bytes_on_disk'')) (Fin 0) byTable))]"

definition version_panel :: "panel_env \<Rightarrow> Bundle \<Rightarrow> Row list \<Rightarrow> payload \<times> string \<times> string" where
  "version_panel env b v = (case v of
     [] \<Rightarrow> (Map.empty, [], [])
   | r # _ \<Rightarrow> ([''version'' \<mapsto> VStr (Row_Str r ''version'')], Row_Str r ''hostname'',
       windowEnd (pe_check env) (Row_Str r ''collected_at'') (Row_Str r ''timezone'') (b_end b)))"

definition storage_panels :: "check_env \<Rightarrow> Row list \<Rightarrow> Row list \<Rightarrow> bool \<Rightarrow> bool \<Rightarrow> payload" where
  "storage_panels env userTables byTable have_tables have_parts =
     [''storage_by_db'' \<mapsto> rows_val (storageByDB env byTable), ''engines_dist'' \<mapsto> rows_val (enginesDist env userTables),
      ''tables_list'' \<mapsto> rows_val (tablesList userTables byTable have_tables have_parts), ''top_tables'' \<mapsto> rows_val (topTables byTable)]"

definition query_panels :: "check_env \<Rightarrow> Row list \<Rightarrow> Row list \<Rightarrow> payload" where
  "query_panels env byHour byPattern =
     [''query_by_time'' \<mapsto> rows_val (queryByTime env byHour), ''query_by_kind'' \<mapsto> rows_val (queryByKind env byHour),
      ''query_slow'' \<mapsto> rows_val (querySlow byPattern), ''query_heavy'' \<mapsto> rows_val (queryHeavy byPattern),
      ''query_by_user'' \<mapsto> rows_val (queryByUser byPattern), ''exceptions'' \<mapsto> rows_val (exceptionsByCode env byHour)]"

definition part_log_panels :: "check_env \<Rightarrow> Row list \<Rightarrow> payload" where
  "part_log_panels env pl = (case partLogPanels env pl of (t1, t2, t3) \<Rightarrow>
     [''part_log_by_time'' \<mapsto> rows_val t1, ''part_log_by_type'' \<mapsto> rows_val t2, ''ttl_activity'' \<mapsto> rows_val t3])"

definition keeper_pool_panels :: "Row list \<Rightarrow> bool \<Rightarrow> pool_sizes \<Rightarrow> string \<Rightarrow> payload" where
  "keeper_pool_panels ml have_ml sizes at_collection = (case keeperMetricPanel ml have_ml of (rs, w, s) \<Rightarrow>
     [''keeper_metric_hourly'' \<mapsto> rows_val rs, ''keeper_wait_available'' \<mapsto> VBool w, ''keeper_session_available'' \<mapsto> VBool s,
      ''pools_hourly'' \<mapsto> rows_val (poolsPanel ml), ''pool_sizes'' \<mapsto> pool_sizes_val sizes, ''pools_now'' \<mapsto> VStr at_collection])"

definition keeper_error_panels :: "check_env \<Rightarrow> Row list \<Rightarrow> bool \<Rightarrow> Row list \<Rightarrow> payload" where
  "keeper_error_panels env el have_el byHour =
     (if have_el then
        [''keeper_errors_hourly'' \<mapsto> rows_val (keeperErrorsFromErrorLog env el),
         ''keeper_errors_source'' \<mapsto> VStr (''system.error_log '' @ long_dash @ '' every thread, background merges and fetches included'')]
      else
        [''keeper_errors_hourly'' \<mapsto> rows_val (keeperErrorsFromQueryLog env byHour),
         ''keeper_errors_source'' \<mapsto> VStr (''system.query_log '' @ long_dash @ '' queries only; background merges, fetches and DDL workers are not counted (system.error_log needs 24.8+)'')])"

definition windows_val :: "Generator \<Rightarrow> val" where
  "windows_val g = VMap [(''7d'', VStr (windowLabel g ''last 7 days'')), (''3d'', VStr (windowLabel g ''last 3 days''))]"

definition collectFromFiles :: "panel_env \<Rightarrow> Generator \<Rightarrow> (gen, payload) state" where
  "collectFromFiles env g = do {
     (v, _) \<leftarrow> filesRows env ''version'' ''system.version'';
     b \<leftarrow> State (\<lambda>s. (gen_bundle s, s));
     let (versions, host, at_collection) = version_panel env b v;
     (tables, have_tables) \<leftarrow> filesRows env ''table and part counts'' ''system.tables'';
     let userTables = user_tables_of tables;
     (byTable, have_parts) \<leftarrow> filesRows env ''storage'' ''system.parts_by_table'';
     (byHour, _) \<leftarrow> filesRows env ''query activity'' ''system.query_log_by_hour_7_days'';
     (byPattern, _) \<leftarrow> filesRows env ''query patterns'' ''system.query_log_by_pattern_7_days'';
     (logs, have_logs) \<leftarrow> filesRows env ''logs'' ''system.text_log'';
     (partLog, _) \<leftarrow> filesRows env ''part log'' ''system.part_log_3_days'';
     (dicts, _) \<leftarrow> filesRows env ''dictionaries'' ''system.dictionaries'';
     (crashes, _) \<leftarrow> filesRows env ''crash log'' ''system.crash_log'';
     (muts, _) \<leftarrow> filesRows env ''mutations'' ''system.mutations'';
     (detached, _) \<leftarrow> filesRows env ''detached'' ''system.detached_parts'';
     (cl, _) \<leftarrow> (if g_mode g = ''cloud'' then filesRows env ''clusters'' ''system.clusters'' else State_Monad.return ([], False));
     (rq, _) \<leftarrow> filesRows env ''replication queue'' ''system.replication_queue'';
     (reps, _) \<leftarrow> filesRows env ''replicas'' ''system.replicas'';
     (problem, _) \<leftarrow> filesRows env ''replica counts'' ''system.replicas_problem_tables'';
     (ml, have_ml) \<leftarrow> filesRows env ''Keeper and pools'' ''system.metric_log_7_days'';
     sizes \<leftarrow> poolSizesFromFiles env g;
     (el, have_el) \<leftarrow> filesRows env ''Keeper errors'' ''system.error_log_7_days'';
     (zk, _) \<leftarrow> filesRows env ''Keeper connection'' ''system.zookeeper_connection'';
     (disks, _) \<leftarrow> filesRows env ''disks'' ''system.disks'';
     (errs, _) \<leftarrow> filesRows env ''server errors'' ''system.errors'';
     (pbp, _) \<leftarrow> filesRows env ''high part count'' ''system.parts_by_partition'';
     (ai, _) \<leftarrow> (if g_mode g \<noteq> ''gov'' then filesRows env ''async inserts'' ''system.asynchronous_insert_log_7_days''
                 else State_Monad.return ([], False));
     let ce = pe_check env;
     let p = header_of env g ++ versions ++ (if have_tables then table_counts userTables else Map.empty) ++
         (if have_parts then part_counts byTable else Map.empty) ++
         storage_panels ce userTables byTable have_tables have_parts ++ query_panels ce byHour byPattern;
     let p = (case g_hostInfo g of Some hi \<Rightarrow> addHostInfo hi p | None \<Rightarrow> p);
     let p = p ++ (if have_logs then [''text_log'' \<mapsto> rows_val (textLogPanel logs host), ''text_log_row_cap'' \<mapsto> VInt (int textLogRowCap)]
                   else Map.empty) ++ part_log_panels ce partLog ++
         [''dictionaries'' \<mapsto> rows_val (fst (redactDictionaryPanel (dictionariesPanel dicts host))),
          ''crash_log'' \<mapsto> rows_val (crashLogPanel crashes), ''mutations'' \<mapsto> rows_val (mutationsPanel muts),
          ''detached'' \<mapsto> rows_val (detachedPanel detached (g_mode g)),
          ''clusters'' \<mapsto> rows_val (if g_mode g = ''cloud'' then clustersPanel cl else []),
          ''replication_queue'' \<mapsto> rows_val (replicationQueuePanel rq (g_mode g) host),
          ''replicas'' \<mapsto> rows_val (replicasPanel reps problem (g_mode g) host)] ++
         keeper_pool_panels ml have_ml sizes at_collection ++ keeper_error_panels ce el have_el byHour ++
         [''keeper_connection'' \<mapsto> rows_val (keeperConnectionPanel zk (g_mode g)), ''disks'' \<mapsto> rows_val (disksPanel disks host),
          ''server_errors'' \<mapsto> rows_val (serverErrorsPanel errs), ''high_part_count'' \<mapsto> rows_val (highPartCount pbp),
          ''async_inserts'' \<mapsto> rows_val (if g_mode g \<noteq> ''gov'' then asyncInsertsPanel ce ai at_collection else []),
          ''windows'' \<mapsto> windows_val g];
     State (\<lambda>s. (collectAnalysisFromFiles env g (gen_bundle s) p, s))
   }"

end
