(* ===== verification/PanelProps.thy ===== *)
theory PanelProps
  imports FromFiles
begin

text \<open>
  What the panels built from the collected files promise: no panel depends on the order in which Go visits a map; the banner names
  exactly the panels whose collector failed or was skipped; a mutation is listed once, with its largest backlog; the detached parts
  panel counts as the alert does; in gov mode no query text of the query analysis reaches the page.
\<close>

section \<open>Sorting\<close>

lemma insert_sorted_map: "insert_sorted lt (f x) (map f ys) = map f (insert_sorted (\<lambda>a b. lt (f a) (f b)) x ys)"
  by (induction ys) auto

lemma stable_sort_map: "stable_sort lt (map f xs) = map f (stable_sort (\<lambda>a b. lt (f a) (f b)) xs)"
  by (induction xs) (simp_all add: stable_sort_def insert_sorted_map)

lemma cols_before_same: "\<not> cols_before cs x y \<Longrightarrow> \<not> cols_before cs y x \<Longrightarrow> c \<in> set cs \<Longrightarrow> text_at c x = text_at c y"
  by (induction cs) (auto split: if_splits)

lemma cols_before_text: "cols_before cs x y \<longleftrightarrow> map (\<lambda>c. text_at c x) cs < map (\<lambda>c. text_at c y) cs"
proof (induction cs)
  case (Cons c cs)
  then show ?case by (cases "text_at c x = text_at c y") (simp_all add: less_not_refl)
qed simp

lemma weak_order_cols [simp]: "weak_order (cols_before cs)"
proof -
  have "cols_before cs = (\<lambda>x y. map (\<lambda>c. text_at c x) cs < map (\<lambda>c. text_at c y) cs)"
    by (intro ext) (rule cols_before_text)
  then show ?thesis by (simp only: weak_order_key(1))
qed

text \<open>A panel made from a map by sorting does not depend on the order in which the map is visited, when the sort key tells its keys
  apart.\<close>

lemma sorted_range_free:
  assumes "some_order e" "some_order e'" "weak_order lt" "distinct (map fst m)"
    and key: "\<And>x y. \<not> lt (f x) (f y) \<Longrightarrow> \<not> lt (f y) (f x) \<Longrightarrow> fst x = fst y"
  shows "stable_sort lt (map f (map_range e m)) = stable_sort lt (map f (map_range e' m))"
proof (rule stable_sort_cong)
  have set: "set (map_range e m) = set m" by (rule mset_eq_setD [OF mset_map_range [OF assms(1)]])
  show "mset (map f (map_range e m)) = mset (map f (map_range e' m))" by (simp add: mset_map_range assms(1,2))
  fix a b
  assume "a \<in> set (map f (map_range e m))" "b \<in> set (map f (map_range e m))" "\<not> lt a b" "\<not> lt b a"
  then obtain x y where xy: "x \<in> set m" "y \<in> set m" "a = f x" "b = f y" by (auto simp: set)
  with key [of x y] \<open>\<not> lt a b\<close> \<open>\<not> lt b a\<close> have "fst x = fst y" by simp
  with xy(1,2) have "x = y" using assms(4) by (metis eq_key_imp_eq_value prod.collapse)
  with xy show "a = b" by simp
qed (rule assms)

lemma sortBy_free:
  assumes "some_order e" "some_order e'" "distinct (map fst m)"
    and key: "\<And>x y. list_all (\<lambda>c. text_at c (f x) = text_at c (f y)) cs \<Longrightarrow> fst x = fst y"
  shows "sortBy cs (map f (map_range e m)) = sortBy cs (map f (map_range e' m))"
  unfolding sortBy_def
proof (rule sorted_range_free)
  show "fst x = fst y" if "\<not> cols_before cs (f x) (f y)" "\<not> cols_before cs (f y) (f x)" for x y
    by (rule key) (use cols_before_same [OF that] in \<open>simp add: list_all_iff\<close>)
qed (use assms in simp_all)

lemma smaller_size_comm: "smaller_size x \<circ> smaller_size y = smaller_size y \<circ> smaller_size x"
  by (auto simp: smaller_size_def fun_eq_iff)

lemma smallest_size_free: "some_order e \<Longrightarrow> some_order e' \<Longrightarrow> smallest_size e col hs = smallest_size e' col hs"
  unfolding smallest_size_def
  by (rule fun_cong [OF fold_multiset_equiv]) (simp_all add: smaller_size_comm mset_map_range)

named_theorems order_free

lemmas cell = text_at_def int_at_def vget_def

lemma free_storage [order_free]: "some_order e \<Longrightarrow> some_order e' \<Longrightarrow> storageByDB e rs = storageByDB e' rs"
  unfolding storageByDB_def
  by (subst sortBy_free [of e e']) (auto simp: group_keys storage_row_def cell split: prod.splits)

lemma free_engines [order_free]: "some_order e \<Longrightarrow> some_order e' \<Longrightarrow> enginesDist e rs = enginesDist e' rs"
  unfolding enginesDist_def
  by (subst sortBy_free [of e e']) (auto simp: group_keys cell split: prod.splits)

lemma free_by_time [order_free]: "some_order e \<Longrightarrow> some_order e' \<Longrightarrow> queryByTime e rs = queryByTime e' rs"
  unfolding queryByTime_def
  by (subst sortBy_free [of e e']) (auto simp: group_keys cell split: prod.splits)

lemma free_by_kind [order_free]: "some_order e \<Longrightarrow> some_order e' \<Longrightarrow> queryByKind e rs = queryByKind e' rs"
  unfolding queryByKind_def
  by (subst sortBy_free [of e e']) (auto simp: group_keys kind_row_def cell split: prod.splits)

lemma free_exceptions [order_free]: "some_order e \<Longrightarrow> some_order e' \<Longrightarrow> exceptionsByCode e rs = exceptionsByCode e' rs"
  unfolding exceptionsByCode_def
  by (subst sorted_range_free [of e e']) (auto simp: group_keys weak_order_key cell split: prod.splits)

lemma free_days [order_free]: "some_order e \<Longrightarrow> some_order e' \<Longrightarrow> part_days e rs = part_days e' rs"
  unfolding part_days_def
  by (subst sortBy_free [of e e']) (auto simp: group_keys cell split: prod.splits)

lemma free_types [order_free]: "some_order e \<Longrightarrow> some_order e' \<Longrightarrow> part_types e rs = part_types e' rs"
  unfolding part_types_def
  by (subst sortBy_free [of e e']) (auto simp: group_keys cell split: prod.splits)

lemma free_ttl [order_free]: "some_order e \<Longrightarrow> some_order e' \<Longrightarrow> ttl_days e rs = ttl_days e' rs"
  unfolding ttl_days_def
  by (subst sortBy_free [of e e']) (auto simp: group_keys cell split: prod.splits)

lemma free_error_rows:
  "some_order e \<Longrightarrow> some_order e' \<Longrightarrow> distinct (map fst m) \<Longrightarrow> keeperErrorRows e m = keeperErrorRows e' m"
  unfolding keeperErrorRows_def
  by (subst sortBy_free [of e e']) (auto simp: cell split: prod.splits)

lemma free_errors [order_free]:
  "some_order e \<Longrightarrow> some_order e' \<Longrightarrow> keeperErrorsFromErrorLog e rs = keeperErrorsFromErrorLog e' rs"
  "some_order e \<Longrightarrow> some_order e' \<Longrightarrow> keeperErrorsFromQueryLog e rs = keeperErrorsFromQueryLog e' rs"
  unfolding keeperErrorsFromErrorLog_def keeperErrorsFromQueryLog_def
  by (rule free_error_rows; simp add: group_keys)+

lemma free_inserts [order_free]: "some_order e \<Longrightarrow> some_order e' \<Longrightarrow> asyncInsertsPanel e rs c = asyncInsertsPanel e' rs c"
  unfolding asyncInsertsPanel_def
  by (subst sortBy_free [of e e']) (auto simp: group_keys insert_panel_row_def cell split: prod.splits)

lemma free_pools [order_free]:
  assumes "some_order e" "some_order e'"
  shows "pool_sizes_of e mode hs rs = pool_sizes_of e' mode hs rs"
proof -
  have "smallest_size e = smallest_size e'" by (intro ext) (rule smallest_size_free [OF assms])
  then show ?thesis by (simp only: pool_sizes_of_def)
qed

lemma collect_order_free:
  assumes "some_order ce" "some_order ce'" "ce_zone ce = ce_zone ce'"
  shows "collectFromFiles \<lparr>pe_check = ce, pe_dir = d, pe_stat = st, pe_now = t\<rparr> g =
         collectFromFiles \<lparr>pe_check = ce', pe_dir = d, pe_stat = st, pe_now = t\<rparr> g"
proof -
  let ?e = "\<lparr>pe_check = ce, pe_dir = d, pe_stat = st, pe_now = t\<rparr>" and ?e' = "\<lparr>pe_check = ce', pe_dir = d, pe_stat = st, pe_now = t\<rparr>"
  note free = order_free [OF assms(1,2)]
  have read: "filesRows ?e = filesRows ?e'" by (intro ext) (simp add: filesRows_def)
  have pools: "poolSizesFromFiles ?e g = poolSizesFromFiles ?e' g" by (simp add: poolSizesFromFiles_def free)
  have version: "version_panel ?e = version_panel ?e'"
    by (intro ext) (simp add: version_panel_def windowEnd_def assms(3) split: list.splits)
  have header: "header_of ?e g = header_of ?e' g" by (simp add: header_of_def)
  have panels: "storage_panels ce = storage_panels ce'" "query_panels ce = query_panels ce'" "part_log_panels ce = part_log_panels ce'"
    "keeper_error_panels ce = keeper_error_panels ce'"
    by (intro ext; simp add: storage_panels_def query_panels_def part_log_panels_def partLogPanels_def keeper_error_panels_def free)+
  have inserts: "asyncInsertsPanel ce = asyncInsertsPanel ce'" by (intro ext) (rule free)
  have analysis: "collectAnalysisFromFiles ?e = collectAnalysisFromFiles ?e'" by (intro ext) (simp add: collectAnalysisFromFiles_def Let_def)
  show ?thesis unfolding collectFromFiles_def read pools version header panels inserts analysis
    by (simp add: panels inserts)
qed

section \<open>The banner\<close>

text \<open>The line of the banner for a panel and its collector, if that was skipped or failed; \<open>steps\<close>: the panels a computation reads.\<close>

definition banner :: "panel_env \<Rightarrow> Bundle \<Rightarrow> string \<times> string \<Rightarrow> string list" where
  "banner env b pc = (case fresh_rows (pe_dir env (b_dir b)) b (snd pc) of
     Inl (NotCollected c st reason) \<Rightarrow> if st = ''skipped'' \<or> st = ''failed'' then [fst pc @ '' ('' @ snd pc @ '' '' @ st @ '')''] else []
   | _ \<Rightarrow> [])"

definition adds :: "panel_env \<Rightarrow> (string \<times> string) list \<Rightarrow> gen \<Rightarrow> gen \<Rightarrow> bool" where
  "adds env pcs s s' \<longleftrightarrow>
     (cache_ok (pe_dir env (b_dir (gen_bundle s))) (gen_bundle s) \<longrightarrow>
        cache_ok (pe_dir env (b_dir (gen_bundle s'))) (gen_bundle s') \<and> b_dir (gen_bundle s') = b_dir (gen_bundle s) \<and>
        fresh_rows (pe_dir env (b_dir (gen_bundle s))) (gen_bundle s') = fresh_rows (pe_dir env (b_dir (gen_bundle s))) (gen_bundle s) \<and>
        gen_skipped s' = gen_skipped s @ concat (map (banner env (gen_bundle s)) pcs))"

lemma adds_trans: "adds env xs s s' \<Longrightarrow> adds env ys s' s'' \<Longrightarrow> adds env (xs @ ys) s s''"
  by (auto simp: adds_def banner_def [abs_def])

definition steps :: "panel_env \<Rightarrow> (string \<times> string) list \<Rightarrow> (gen, 'a) state \<Rightarrow> bool" where
  "steps env pcs m \<longleftrightarrow> state_io_rel (adds env pcs) m"

lemma steps_bind: "steps env xs m \<Longrightarrow> (\<And>a. steps env ys (f a)) \<Longrightarrow> steps env (xs @ ys) (m \<bind> f)"
  unfolding steps_def state_io_rel_def by (auto split: prod.split intro: adds_trans)

lemma steps_return: "steps env [] (State_Monad.return x)" "steps env [] (State (\<lambda>s. (h s, s)))"
  by (simp_all add: steps_def state_io_rel_def adds_def)

lemma steps_files: "steps env [(panel, c)] (filesRows env panel c)"
  unfolding steps_def
proof (rule state_io_relI)
  fix a s s'
  assume run: "run_state (filesRows env panel c) s = (a, s')"
  let ?rd = "pe_dir env (b_dir (gen_bundle s))"
  obtain r b where R: "Rows ?rd c (gen_bundle s) = (r, b)" by fastforce
  show "adds env [(panel, c)] s s'"
    unfolding adds_def
  proof
    assume ok: "cache_ok ?rd (gen_bundle s)"
    have r: "r = fresh_rows ?rd (gen_bundle s) c" using Rows_fresh [OF ok, of c] R by simp
    have b: "cache_ok ?rd b" "b_dir b = b_dir (gen_bundle s)" "fresh_rows ?rd b = fresh_rows ?rd (gen_bundle s)"
      using Rows_cache_ok [OF ok, of c] Rows_same(2) [of ?rd c "gen_bundle s"] fresh_rows_after [of ?rd c "gen_bundle s"] R
      by (simp_all add: fun_eq_iff)
    show "cache_ok (pe_dir env (b_dir (gen_bundle s'))) (gen_bundle s') \<and> b_dir (gen_bundle s') = b_dir (gen_bundle s) \<and>
        fresh_rows ?rd (gen_bundle s') = fresh_rows ?rd (gen_bundle s) \<and>
        gen_skipped s' = gen_skipped s @ concat (map (banner env (gen_bundle s)) [(panel, c)])"
      using run b unfolding filesRows_def by (auto simp: R r banner_def split: sum.splits rows_error.splits if_splits)
  qed
qed

lemma steps_pools: "steps env [] (poolSizesFromFiles env g)"
  unfolding steps_def
proof (rule state_io_relI)
  fix a s s'
  assume run: "run_state (poolSizesFromFiles env g) s = (a, s')"
  let ?rd = "pe_dir env (b_dir (gen_bundle s))"
  have keep: "cache_ok ?rd (snd (Rows ?rd c b)) \<and> b_dir (snd (Rows ?rd c b)) = b_dir b \<and> fresh_rows ?rd (snd (Rows ?rd c b)) = fresh_rows ?rd b"
    if "cache_ok ?rd b" for c b
    using Rows_cache_ok [OF that] by (auto simp: Rows_same fresh_rows_after)
  show "adds env [] s s'"
    using run unfolding adds_def poolSizesFromFiles_def
    by (auto simp: Let_def keep split: prod.splits if_splits) (metis keep snd_conv)+
qed

text \<open>The panels in the order they are read, with the collector of each.\<close>

definition panel_sources :: "string \<Rightarrow> (string \<times> string) list" where
  "panel_sources mode =
     [(''version'', ''system.version''), (''table and part counts'', ''system.tables''), (''storage'', ''system.parts_by_table''),
      (''query activity'', ''system.query_log_by_hour_7_days''), (''query patterns'', ''system.query_log_by_pattern_7_days''),
      (''logs'', ''system.text_log''), (''part log'', ''system.part_log_3_days''), (''dictionaries'', ''system.dictionaries''),
      (''crash log'', ''system.crash_log''), (''mutations'', ''system.mutations''), (''detached'', ''system.detached_parts'')] @
     (if mode = ''cloud'' then [(''clusters'', ''system.clusters'')] else []) @
     [(''replication queue'', ''system.replication_queue''), (''replicas'', ''system.replicas''),
      (''replica counts'', ''system.replicas_problem_tables''), (''Keeper and pools'', ''system.metric_log_7_days''),
      (''Keeper errors'', ''system.error_log_7_days''), (''Keeper connection'', ''system.zookeeper_connection''),
      (''disks'', ''system.disks''), (''server errors'', ''system.errors''), (''high part count'', ''system.parts_by_partition'')] @
     (if mode \<noteq> ''gov'' then [(''async inserts'', ''system.asynchronous_insert_log_7_days'')] else [])"

lemma steps_if: "steps env (if P then xs else []) (if P then m else State_Monad.return x)" if "steps env xs m"
  by (simp add: that steps_return(1))

lemma steps_case: "(\<And>a b. steps env xs (f a b)) \<Longrightarrow> steps env xs (case p of (a, b) \<Rightarrow> f a b)"
  by (cases p) simp

lemma collect_steps: "steps env (panel_sources (g_mode g)) (collectFromFiles env g)"
proof -
  have "steps env ([(''version'', ''system.version'')] @ [] @ [(''table and part counts'', ''system.tables'')] @ [(''storage'', ''system.parts_by_table'')] @
      [(''query activity'', ''system.query_log_by_hour_7_days'')] @ [(''query patterns'', ''system.query_log_by_pattern_7_days'')] @
      [(''logs'', ''system.text_log'')] @ [(''part log'', ''system.part_log_3_days'')] @ [(''dictionaries'', ''system.dictionaries'')] @
      [(''crash log'', ''system.crash_log'')] @ [(''mutations'', ''system.mutations'')] @ [(''detached'', ''system.detached_parts'')] @
      (if g_mode g = ''cloud'' then [(''clusters'', ''system.clusters'')] else []) @
      [(''replication queue'', ''system.replication_queue'')] @ [(''replicas'', ''system.replicas'')] @
      [(''replica counts'', ''system.replicas_problem_tables'')] @ [(''Keeper and pools'', ''system.metric_log_7_days'')] @ [] @
      [(''Keeper errors'', ''system.error_log_7_days'')] @ [(''Keeper connection'', ''system.zookeeper_connection'')] @
      [(''disks'', ''system.disks'')] @ [(''server errors'', ''system.errors'')] @ [(''high part count'', ''system.parts_by_partition'')] @
      (if g_mode g \<noteq> ''gov'' then [(''async inserts'', ''system.asynchronous_insert_log_7_days'')] else []) @ []) (collectFromFiles env g)"
    unfolding collectFromFiles_def Let_def
    by (intro steps_bind steps_files steps_pools steps_return steps_if steps_case)
  then show ?thesis by (simp add: panel_sources_def)
qed

text \<open>A panel is named when its collector failed, or was skipped and left no file.\<close>

definition named_panel :: "run_dir \<Rightarrow> Bundle \<Rightarrow> string \<times> string \<Rightarrow> string list" where
  "named_panel rd b pc = (case b_status b (snd pc) of
     Some st \<Rightarrow> if st_State st = ''failed'' \<or> st_State st = ''skipped'' \<and> \<not> Has rd b (snd pc)
                then [fst pc @ '' ('' @ snd pc @ '' '' @ st_State st @ '')''] else []
   | None \<Rightarrow> [])"

lemma read_rows_read: "read_rows rd base ls = Inl e \<Longrightarrow> \<exists>t. e = ReadError t"
  by (induction ls arbitrary: e) (auto simp: Let_def split: if_splits option.splits sum.splits)

lemma banner_named: "banner env b = named_panel (pe_dir env (b_dir b)) b"
proof
  fix pc
  show "banner env b pc = named_panel (pe_dir env (b_dir b)) b pc"
    unfolding banner_def named_panel_def fresh_rows_def
    by (auto split: option.splits sum.splits rows_error.splits dest: read_rows_read)
qed

lemma skipped_named:
  assumes "b_cache (gen_bundle s) = Map.empty"
  shows "gen_skipped (snd (run_state (collectFromFiles env g) s)) = gen_skipped s @
    concat (map (named_panel (pe_dir env (b_dir (gen_bundle s))) (gen_bundle s)) (panel_sources (g_mode g)))"
proof -
  have "cache_ok (pe_dir env (b_dir (gen_bundle s))) (gen_bundle s)" by (simp add: cache_ok_def assms)
  with collect_steps [of env g] show ?thesis by (simp add: steps_def state_io_rel_def adds_def banner_named)
qed

section \<open>Grouping\<close>

lemma fold_some: "fold (\<lambda>r a. Some (step r (case a of None \<Rightarrow> new r | Some a \<Rightarrow> a))) rs (Some a) = Some (fold step rs a)"
  by (induction rs arbitrary: a) simp_all

lemma group_fold_first:
  "rs \<noteq> [] \<Longrightarrow> fold (\<lambda>r a. Some (step r (case a of None \<Rightarrow> new r | Some a \<Rightarrow> a))) rs None = Some (fold step rs (new (hd rs)))"
  by (cases rs) (simp_all add: fold_some)

lemma group_first_entries:
  "(k, a) \<in> set (group_first key new step rs) \<longleftrightarrow>
     k \<in> key ` set rs \<and> a = fold step (filter (\<lambda>r. key r = k) rs) (new (hd (filter (\<lambda>r. key r = k) rs)))"
proof (cases "k \<in> key ` set rs")
  case True
  then have "filter (\<lambda>r. key r = k) rs \<noteq> []" by (auto simp: filter_empty_conv)
  from group_fold_first [OF this, of step new] True show ?thesis
    by (auto simp: group_first_def image_iff group_entries intro!: bexI split: prod.splits)
next
  case False
  then show ?thesis by (auto simp: group_first_def group_entries)
qed

lemma group_first_keys:
  "map fst (group_first key new step rs) = map fst (group_rows key (\<lambda>r a. Some (step r (case a of None \<Rightarrow> new r | Some a \<Rightarrow> a))) None rs)"
  by (simp add: group_first_def split_beta comp_def)

lemma group_first_card: "length (group_first key new step rs) = card (key ` set rs)"
proof -
  let ?g = "group_rows key (\<lambda>r a. Some (step r (case a of None \<Rightarrow> new r | Some a \<Rightarrow> a))) None rs"
  have "length (map fst ?g) = card (set (map fst ?g))" by (rule distinct_card [symmetric]) (rule group_keys(2))
  then show ?thesis by (simp add: group_first_def group_keys(1))
qed

text \<open>Two maps filled side by side.\<close>

lemma group_rows_sim:
  assumes "R z z'" "\<And>r a a'. R a a' \<Longrightarrow> R (step r a) (step' r a')"
  shows "list_all2 (\<lambda>x y. fst x = fst y \<and> R (snd x) (snd y)) (group_rows key step z rs) (group_rows key step' z' rs)"
proof -
  have up: "list_all2 (\<lambda>x y. fst x = fst y \<and> R (snd x) (snd y)) (upsert (key r) (step r) z m) (upsert (key r) (step' r) z' m')"
    if "list_all2 (\<lambda>x y. fst x = fst y \<and> R (snd x) (snd y)) m m'" for r m m'
    using that by (induction rule: list_all2_induct) (auto simp: assms)
  show ?thesis by (induction rs rule: rev_induct) (simp_all add: group_snoc up, simp add: group_rows_def)
qed

section \<open>Mutations\<close>

lemma fold_mutation: "fold mutation_step ms (m, n) = (m, Max (insert n ((\<lambda>m. Row_Int m ''parts_to_do'') ` set ms)))"
proof (induction ms arbitrary: n)
  case (Cons a ms)
  let ?p = "\<lambda>m. Row_Int m ''parts_to_do''"
  have "Max (insert (max n (?p a)) (?p ` set ms)) = Max (insert n (insert (?p a) (?p ` set ms)))"
    by (cases "ms = []") (simp_all add: max.assoc)
  with Cons show ?case by (simp add: mutation_step_def max_def split: if_splits)
qed simp

definition rows_of :: "Row list \<Rightarrow> string \<Rightarrow> Row list" where
  "rows_of ms k = filter (\<lambda>m. mutation_id_key m = k) (filter pending_mutation ms)"

lemma unfinished_spec:
  "length (unfinished ms) = card (mutation_id_key ` set (filter pending_mutation ms)) \<and>
   set (unfinished ms) = (\<lambda>k. mutation_panel_row (hd (rows_of ms k), Max ((\<lambda>m. Row_Int m ''parts_to_do'') ` set (rows_of ms k)))) `
     mutation_id_key ` set (filter pending_mutation ms)"
proof
  let ?ms = "filter pending_mutation ms" and ?p = "\<lambda>m. Row_Int m ''parts_to_do''"
  let ?g = "group_first mutation_id_key (\<lambda>m. (m, ?p m)) mutation_step ?ms"
  show "length (unfinished ms) = card (mutation_id_key ` set ?ms)" by (simp add: unfinished_def group_first_card del: set_filter)
  have e: "(k, a) \<in> set ?g \<longleftrightarrow> k \<in> mutation_id_key ` set ?ms \<and> a = (hd (rows_of ms k), Max (?p ` set (rows_of ms k)))" for k a
  proof (cases "k \<in> mutation_id_key ` set ?ms")
    case True
    then have "rows_of ms k \<noteq> []" by (auto simp: rows_of_def filter_empty_conv)
    then have "insert (?p (hd (rows_of ms k))) (?p ` set (rows_of ms k)) = ?p ` set (rows_of ms k)" by (simp add: insert_absorb)
    with True show ?thesis unfolding group_first_entries rows_of_def [symmetric] fold_mutation by simp
  qed (simp add: group_first_entries)
  show "set (unfinished ms) = (\<lambda>k. mutation_panel_row (hd (rows_of ms k), Max (?p ` set (rows_of ms k)))) ` mutation_id_key ` set ?ms"
  proof (intro equalityI subsetI)
    fix r assume "r \<in> set (unfinished ms)"
    then obtain k a where "(k, a) \<in> set ?g" "r = mutation_panel_row a" by (auto simp: unfinished_def)
    then show "r \<in> (\<lambda>k. mutation_panel_row (hd (rows_of ms k), Max (?p ` set (rows_of ms k)))) ` mutation_id_key ` set ?ms"
      unfolding e by blast
  next
    fix r assume "r \<in> (\<lambda>k. mutation_panel_row (hd (rows_of ms k), Max (?p ` set (rows_of ms k)))) ` mutation_id_key ` set ?ms"
    then obtain k where "(k, (hd (rows_of ms k), Max (?p ` set (rows_of ms k)))) \<in> set ?g"
      "r = mutation_panel_row (hd (rows_of ms k), Max (?p ` set (rows_of ms k)))" unfolding e by blast
    then show "r \<in> set (unfinished ms)" unfolding unfinished_def by force
  qed
qed

section \<open>Detached parts\<close>

lemma shown_counted: "shown_detached mode ps ds = counted_parts mode ps ds"
  by (induction ds arbitrary: ps) (auto simp: notSystemDB_def systemDBs_def Let_def)

definition same_detached :: "detached_panel_agg option \<Rightarrow> detached_agg \<Rightarrow> bool" where
  "same_detached p a \<longleftrightarrow> (case p of
     None \<Rightarrow> a = no_detached
   | Some p \<Rightarrow> da_n a > 0 \<and> dp_db p = da_db a \<and> dp_tb p = da_tb a \<and> dp_n p = da_n a \<and> dp_bytes p = da_bytes a \<and> dp_sized p = da_sized a)"

lemma same_detached_step:
  "same_detached p a \<Longrightarrow>
   same_detached (Some (detached_panel_step r (case p of None \<Rightarrow> new_detached r | Some p \<Rightarrow> p))) (detached_step r a)"
  by (auto simp: same_detached_def detached_panel_step_def detached_step_def new_detached_def no_detached_def Let_def split: option.splits)

definition panel_view :: "detached_panel_agg \<Rightarrow> string \<times> string \<times> int \<times> float64" where
  "panel_view p = (dp_db p, dp_tb p, dp_n p, if dp_sized p then dp_bytes p else f_of_int (dp_n p))"

definition alert_view :: "detached_agg \<Rightarrow> string \<times> string \<times> int \<times> float64" where
  "alert_view a = (da_db a, da_tb a, da_n a, detached_order a)"

lemma same_detached_view: "same_detached p a \<Longrightarrow> p \<noteq> None \<Longrightarrow> panel_view (the p) = alert_view a"
  by (auto simp: same_detached_def panel_view_def alert_view_def detached_order_def)

lemma detached_views:
  "map panel_view (detached_groups ds mode) =
   map alert_view (map snd (group_rows table_key detached_step no_detached (counted_parts mode [] ds)))"
proof -
  let ?rs = "counted_parts mode [] ds" and ?step = "\<lambda>r a. Some (detached_panel_step r (case a of None \<Rightarrow> new_detached r | Some a \<Rightarrow> a))"
  let ?P = "group_rows table_key ?step None ?rs" and ?A = "group_rows table_key detached_step no_detached ?rs"
  have sim: "list_all2 (\<lambda>x y. fst x = fst y \<and> same_detached (snd x) (snd y)) ?P ?A"
    by (rule group_rows_sim) (simp add: same_detached_def, rule same_detached_step)
  have some: "snd x \<noteq> None" if "x \<in> set ?P" for x
  proof -
    obtain k a where x: "x = (k, a)" by (cases x)
    with that have "k \<in> table_key ` set ?rs" and a: "a = fold ?step (filter (\<lambda>r. table_key r = k) ?rs) None"
      by (simp_all only: group_entries)
    then have "filter (\<lambda>r. table_key r = k) ?rs \<noteq> []" by (auto simp: filter_empty_conv)
    from group_fold_first [OF this, of detached_panel_step new_detached] a x show ?thesis by simp
  qed
  from sim some have "map (\<lambda>x. panel_view (the (snd x))) ?P = map (\<lambda>x. alert_view (snd x)) ?A"
    by (induction rule: list_all2_induct) (simp_all add: same_detached_view)
  then show ?thesis by (simp add: detached_groups_def shown_counted group_first_def split_beta comp_def)
qed

lemma without_get: "k \<noteq> c \<Longrightarrow> vget (without c r) k = vget r k"
proof -
  have "map_of (rev (filter (\<lambda>(k, v). k \<noteq> c) r)) k = map_of (rev r) k" if "k \<noteq> c"
    by (induction r rule: rev_induct) (auto simp: that)
  then show "k \<noteq> c \<Longrightarrow> ?thesis" by (simp add: vget_def without_def)
qed

definition table_count :: "string \<Rightarrow> vrow \<Rightarrow> val option \<times> val option \<times> val option" where
  "table_count col r = (vget r ''database'', vget r ''table'', vget r col)"

lemma detached_agree:
  "map (table_count ''count'') (detachedPanel ds mode) = take 20 (map (table_count ''detached_count'') (detached_rows mode ds))"
proof -
  let ?view = "\<lambda>(db, tb, n, r :: float64). (Some (VStr db), Some (VStr tb), Some (VInt n))"
  let ?lt = "\<lambda>x y. f_gt (snd (snd (snd x))) (snd (snd (snd y)))"
  let ?gs = "detached_groups ds mode" and ?as = "map snd (group_rows table_key detached_step no_detached (counted_parts mode [] ds))"
  have p: "table_count ''count'' (detached_panel_row a) = ?view (panel_view a)"
    "num_of (vget (detached_panel_row a) ''_ord'') = snd (snd (snd (panel_view a)))" for a
    by (simp_all add: table_count_def detached_panel_row_def panel_view_def vget_def num_of_def)
  have w: "table_count ''count'' (without ''_ord'' r) = table_count ''count'' r" for r by (simp add: table_count_def without_get)
  have "map (table_count ''count'') (byNum ''_ord'' (map detached_panel_row ?gs)) = map ?view (stable_sort ?lt (map panel_view ?gs))"
    by (simp add: byNum_def stable_sort_map p comp_def)
  also have "\<dots> = map ?view (stable_sort ?lt (map alert_view ?as))" by (simp only: detached_views)
  also have "\<dots> = map (table_count ''detached_count'') (detached_rows mode ds)"
    by (simp add: detached_rows_def stable_sort_map alert_view_def table_count_def detached_row_def vget_def comp_def split_beta)
  finally show ?thesis by (simp add: detachedPanel_def w comp_def take_map [symmetric])
qed

section \<open>Gov mode\<close>

definition cleared_row :: "val \<Rightarrow> bool" where
  "cleared_row r \<longleftrightarrow> (case r of
     VMap cs \<Rightarrow> list_all (\<lambda>(k, x). k \<notin> set gov_sensitive \<or> x = VStr ''(redacted in gov mode)'') cs | _ \<Rightarrow> False)"

definition cleared_panel :: "val \<Rightarrow> bool" where
  "cleared_panel v \<longleftrightarrow> (case v of VList rs \<Rightarrow> list_all cleared_row rs | VMap _ \<Rightarrow> False | _ \<Rightarrow> True)"

lemma rows_cleared: "cleared_panel (rows_val (map (gov_cleared ''gov'') rs))"
  by (auto simp: cleared_panel_def rows_val_def cleared_row_def gov_cleared_def list_all_iff)

lemma analysis_panels_cleared:
  "pred_option cleared_panel (p k) \<Longrightarrow> pred_option cleared_panel (analysis_panels rd ''gov'' fs ab p k)"
  by (induction rd "''gov''" fs ab p rule: analysis_panels.induct) (simp_all add: rows_cleared split: prod.splits sum.splits)

lemma collect_analysis_cleared:
  "g_mode g = ''gov'' \<Longrightarrow> pred_option cleared_panel (p k) \<Longrightarrow> pred_option cleared_panel (collectAnalysisFromFiles env g b p k)"
  using analysis_panels_cleared [of p k]
  by (auto simp: collectAnalysisFromFiles_def Let_def cleared_panel_def)

section \<open>Properties\<close>

definition demo_ce :: "(nat \<Rightarrow> nat list) \<Rightarrow> check_env" where
  "demo_ce ord = \<lparr>ce_zone = (\<lambda>_. None), ce_time_error = (\<lambda>_. []), ce_order = ord\<rparr>"

definition demo_env :: panel_env where
  "demo_env = \<lparr>pe_check = demo_ce (\<lambda>n. [0..<n]), pe_dir = (\<lambda>_. \<lparr>rd_entries = [], rd_read = (\<lambda>_. Inl []), rd_json_error = (\<lambda>_. [])\<rparr>),
     pe_stat = (\<lambda>_. True), pe_now = zero_time\<rparr>"

definition demo_panels :: "string \<Rightarrow> Generator" where
  "demo_panels mode = \<lparr>g_mode = mode, g_serverVersion = Version 24 8 1 1,
     g_analysis = \<lparr>a_QueryID = ''q1'', a_NormalizedQueryHash = [], a_From = zero_time, a_To = zero_time\<rparr>, g_hostInfo = None, g_node = [],
     g_nodeUptime = [], g_collection = [], g_kind = ''full'', g_summary = [], g_skipped = [], g_windowFrom = zero_time, g_windowTo = zero_time\<rparr>"

text \<open>C36: The dashboard built from the collected files does not depend on the order in which Go visits its maps: any two orders give the
  same payload, the same banner and the same output.\<close>

theorem payload_order_free:
  assumes "some_order (pe_check env)" "some_order ((pe_check env)\<lparr>ce_order := ord\<rparr>)"
  shows "collectFromFiles (env\<lparr>pe_check := (pe_check env)\<lparr>ce_order := ord\<rparr>\<rparr>) g = collectFromFiles env g"
  using collect_order_free [OF assms, of "pe_dir env" "pe_stat env" "pe_now env" g] by (cases env) simp

lemma payload_order_free_witness:
  "collectFromFiles (demo_env\<lparr>pe_check := (pe_check demo_env)\<lparr>ce_order := (\<lambda>n. rev [0..<n])\<rparr>\<rparr>) (demo_panels ''cloud'') =
   collectFromFiles demo_env (demo_panels ''cloud'')"
  by (rule payload_order_free) (simp_all add: demo_env_def demo_ce_def some_order_def)



text \<open>The mutations the panel chooses from: one entry for every unfinished mutation that is not being killed (however many replicas
  list it), with the columns of the first row that lists it and the largest number of parts any replica still has to do.\<close>

theorem mutations_once_with_largest:
  "length (unfinished ms) = card (mutation_id_key ` set (filter pending_mutation ms)) \<and>
   set (unfinished ms) = (\<lambda>k. mutation_panel_row (hd (rows_of ms k), Max ((\<lambda>m. Row_Int m ''parts_to_do'') ` set (rows_of ms k)))) `
     mutation_id_key ` set (filter pending_mutation ms)"
  by (rule unfinished_spec)

text \<open>C37: The detached parts panel and the detached parts alert, two separate folds over the same file, agree: the panel shows the first
  twenty tables of the alert, in its order, with its counts.\<close>

theorem detached_panel_agrees:
  "map (table_count ''count'') (detachedPanel ds mode) = take 20 (map (table_count ''detached_count'') (detached_rows mode ds))"
  by (rule detached_agree)

text \<open>In gov mode no row of a query analysis panel holds the text of a query or an exception: the four columns that could are
  overwritten in every row of every panel that \<open>collectAnalysisFromFiles\<close> adds.\<close>

theorem gov_panels_cleared:
  assumes "g_mode g = ''gov''" "p k = None"
  shows "pred_option cleared_panel (collectAnalysisFromFiles env g b p k)"
  by (rule collect_analysis_cleared) (simp_all add: assms)

lemma gov_panels_cleared_witness:
  "pred_option cleared_panel (collectAnalysisFromFiles demo_env (demo_panels ''gov'') (OpenBundle ''run'' Map.empty) Map.empty ''qa_failed'')"
  by (rule gov_panels_cleared) (simp_all add: demo_panels_def)

end
