(* ===== verification/SchemaPage.thy ===== *)
theory SchemaPage
  imports PanelProps
begin

text \<open>
  The schema page built from the collected files (\<open>schemaGraphFromFiles\<close> of \<open>internal/dashboard/fromfiles.go\<close>, and
  \<open>schemaGraphHasContent\<close>, \<open>schemaGraphSummary\<close> of \<open>internal/dashboard/schema_graph.go\<close>): its tables, columns, indices,
  dictionaries and refreshes, with the credentials in them replaced.
\<close>

section \<open>Records\<close>

definition opt_val :: "json option \<Rightarrow> val" where
  "opt_val v = (case v of Some j \<Rightarrow> json_val j | None \<Rightarrow> VNil)"

definition strs_val :: "json option \<Rightarrow> val" where
  "strs_val v = VList (map VStr (strs v))"

definition user_db :: "Row \<Rightarrow> bool" where
  "user_db r \<longleftrightarrow> notSystemDB (Row_Str r ''database'')"

definition schema_table :: "Row \<Rightarrow> vrow" where
  "schema_table t =
     map (\<lambda>c. (c, VStr (Row_Str t c))) [''database'', ''name'', ''engine'', ''engine_full'', ''create_table_query'', ''sorting_key'',
       ''primary_key'', ''partition_key'', ''sampling_key''] @
     [(''total_rows'', opt_val (jmap t ''total_rows'')), (''total_bytes'', opt_val (jmap t ''total_bytes''))] @
     map (\<lambda>c. (c, VStr (Row_Str t c))) [''comment'', ''target_database'', ''target_table''] @
     map (\<lambda>c. (c, strs_val (jmap t c))) [''dependencies_database'', ''dependencies_table'', ''loading_dependencies_database'',
       ''loading_dependencies_table'']"

definition schema_tables :: "Row list \<Rightarrow> vrow list \<times> bool" where
  "schema_tables ts =
     (sortBy [''database'', ''name''] (map schema_table (filter user_db ts)),
      list_ex (\<lambda>t. jmap t ''target_table'' \<noteq> None) (filter user_db ts))"

definition schema_column :: "Row \<Rightarrow> vrow" where
  "schema_column c =
     (let pk = Row_Int c ''is_in_primary_key''; sk = Row_Int c ''is_in_sorting_key'' in
      [(''database'', VStr (Row_Str c ''database'')), (''table'', VStr (Row_Str c ''table'')), (''name'', VStr (Row_Str c ''name'')),
       (''type'', VStr (Row_Str c ''type'')), (''is_key'', VInt (if pk = 1 \<or> sk = 1 then 1 else 0)), (''pk'', VInt pk), (''sk'', VInt sk),
       (''pt'', VInt (Row_Int c ''is_in_partition_key'')), (''sm'', VInt (Row_Int c ''is_in_sampling_key'')),
       (''has_default'', VInt (if Row_Str c ''default_kind'' \<noteq> [] then 1 else 0))])"

definition column_before :: "vrow \<times> int \<Rightarrow> vrow \<times> int \<Rightarrow> bool" where
  "column_before x y =
     (if text_at ''database'' (fst x) \<noteq> text_at ''database'' (fst y) then text_at ''database'' (fst x) < text_at ''database'' (fst y)
      else if text_at ''table'' (fst x) \<noteq> text_at ''table'' (fst y) then text_at ''table'' (fst x) < text_at ''table'' (fst y)
      else snd x < snd y)"

definition schema_columns :: "Row list \<Rightarrow> vrow list" where
  "schema_columns cs = map fst (stable_sort column_before (map (\<lambda>c. (schema_column c, Row_Int c ''position'')) (filter user_db cs)))"

definition schema_indices :: "Row list \<Rightarrow> vrow list" where
  "schema_indices is = sortBy [''database'', ''table'', ''name''] (map (\<lambda>i.
     [(''database'', VStr (Row_Str i ''database'')), (''table'', VStr (Row_Str i ''table'')), (''name'', VStr (Row_Str i ''name'')),
      (''type'', VStr (Row_Str i ''type'')), (''expr'', VStr (Row_Str i ''expr'')), (''granularity'', VInt (Row_Int i ''granularity''))])
     (filter user_db is))"

section \<open>Dictionaries\<close>

definition status_rank :: "string \<Rightarrow> nat" where
  "status_rank s = (if has_prefix s ''FAILED'' then 3 else if s = ''LOADING'' \<or> s = ''NOT_LOADED'' then 2 else 1)"

definition dict_key :: "Row \<Rightarrow> string" where
  "dict_key d = Row_Str d ''database'' @ [NUL] @ Row_Str d ''name''"

text \<open>An entry: the first row of the dictionary, the rank of the worst status so far, and the row that has it.\<close>

definition worst_step :: "Row \<Rightarrow> Row \<times> nat \<times> Row \<Rightarrow> Row \<times> nat \<times> Row" where
  "worst_step d e = (case e of (d0, best, w) \<Rightarrow>
     if status_rank (Row_Str d ''status'') > best then (d0, status_rank (Row_Str d ''status''), d) else e)"

definition dict_record :: "Row \<times> nat \<times> Row \<Rightarrow> vrow" where
  "dict_record e = (case e of (d, best, w) \<Rightarrow>
     [(''database'', VStr (Row_Str d ''database'')), (''name'', VStr (Row_Str d ''name'')), (''source'', VStr (Row_Str d ''source'')),
      (''lifetime_min'', VInt (Row_Int d ''lifetime_min'')), (''lifetime_max'', VInt (Row_Int d ''lifetime_max''))] @
     (if best > 0 then [(''status'', VStr (Row_Str w ''status'')), (''last_exception'', VStr (leftRunes (Row_Str w ''last_exception'') 300))]
      else []))"

definition schema_dictionaries :: "Row list \<Rightarrow> vrow list" where
  "schema_dictionaries ds = sortBy [''database'', ''name'']
     (map dict_record (map snd (group_first dict_key (\<lambda>d. (d, 0, d)) worst_step (filter user_db ds))))"

section \<open>Refreshes\<close>

record refresh =
  rf_database :: string
  rf_view :: string
  rf_status :: string
  rf_success :: string
  rf_next :: string
  rf_exception :: string

definition new_refresh :: "Row \<Rightarrow> refresh" where
  "new_refresh r = \<lparr>rf_database = Row_Str r ''database'', rf_view = Row_Str r ''view'', rf_status = Row_Str r ''status'',
     rf_success = Row_Str r ''last_success_time'', rf_next = Row_Str r ''next_refresh_time'', rf_exception = Row_Str r ''exception''\<rparr>"

text \<open>A later row of the same view (the first one, which made the entry, changes nothing).\<close>

definition refresh_step :: "Row \<Rightarrow> refresh \<Rightarrow> refresh" where
  "refresh_step r e =
     e\<lparr>rf_status := (if rf_status e = ''RunningOnAnotherReplica'' \<and> Row_Str r ''status'' \<noteq> ''RunningOnAnotherReplica''
                     then Row_Str r ''status'' else rf_status e),
       rf_success := (if Row_Str r ''last_success_time'' > rf_success e then Row_Str r ''last_success_time'' else rf_success e),
       rf_next := (if Row_Str r ''next_refresh_time'' > rf_next e then Row_Str r ''next_refresh_time'' else rf_next e),
       rf_exception := (if rf_exception e = [] then Row_Str r ''exception'' else rf_exception e)\<rparr>"

definition refresh_record :: "refresh \<Rightarrow> vrow" where
  "refresh_record e =
     [(''database'', VStr (rf_database e)), (''view'', VStr (rf_view e)), (''status'', VStr (rf_status e)),
      (''last_success_time'', VStr (rf_success e)), (''next_refresh_time'', VStr (rf_next e)), (''exception'', VStr (rf_exception e))]"

definition refresh_key :: "Row \<Rightarrow> string" where
  "refresh_key r = Row_Str r ''database'' @ [NUL] @ Row_Str r ''view''"

definition schema_refreshes :: "Row list \<Rightarrow> vrow list" where
  "schema_refreshes rs = map refresh_record (map snd (group_first refresh_key new_refresh refresh_step rs))"

section \<open>The page\<close>

definition schemaGraphHasContent :: "vrow list \<Rightarrow> vrow list \<Rightarrow> bool" where
  "schemaGraphHasContent tables dicts \<longleftrightarrow> length tables > 0 \<or> length dicts > 0"

record schema_graph =
  sg_generated_at :: string
  sg_version :: string
  sg_mode :: string
  sg_tables :: "vrow list"
  sg_columns :: "vrow list"
  sg_dictionaries :: "vrow list"
  sg_refreshes :: "vrow list"
  sg_indices :: "vrow list"
  sg_ddl_formatted :: bool
  sg_has_target :: bool
  sg_has_refresh :: bool

definition hidden_line :: "nat \<Rightarrow> string list" where
  "hidden_line n =
     (if n > 0 then [''  [dashboard] schema graph: '' @ nat_str n @ '' credential(s) replaced with [HIDDEN]'' @ [NL]] else [])"

definition schema_page :: "panel_env \<Rightarrow> Generator \<Rightarrow> string \<Rightarrow> vrow list \<Rightarrow> bool \<Rightarrow> vrow list \<Rightarrow> vrow list \<Rightarrow> vrow list
    \<Rightarrow> (gen, schema_graph option) state" where
  "schema_page env g version tables has_target columns indices dicts = do {
     (rf, has_refresh) \<leftarrow> filesRows env ''schema graph refreshes'' ''system.view_refreshes'';
     let (tables, n) = redactSchemaRecords [''create_table_query'', ''engine_full''] tables;
     let (dicts, m) = redactSchemaRecords [''source'', ''last_exception''] dicts;
     State (\<lambda>s. (Some \<lparr>sg_generated_at = fmt_datetime (pe_now env) @ '' UTC'', sg_version = version, sg_mode = g_mode g, sg_tables = tables,
         sg_columns = columns, sg_dictionaries = dicts, sg_refreshes = schema_refreshes rf, sg_indices = indices,
         sg_ddl_formatted = False, sg_has_target = has_target, sg_has_refresh = has_refresh\<rparr>,
       s\<lparr>gen_out := gen_out s @ hidden_line (n + m)\<rparr>))
   }"

definition dictionary_rows :: "panel_env \<Rightarrow> (gen, Row list) state" where
  "dictionary_rows env = State (\<lambda>s. case Rows (pe_dir env (b_dir (gen_bundle s))) ''system.dictionaries'' (gen_bundle s) of
     (Inr ds, b) \<Rightarrow> (ds, s\<lparr>gen_bundle := b\<rparr>) | (Inl e, b) \<Rightarrow> ([], s\<lparr>gen_bundle := b\<rparr>))"

definition schemaGraphFromFiles :: "panel_env \<Rightarrow> Generator \<Rightarrow> string \<Rightarrow> (gen, schema_graph option) state" where
  "schemaGraphFromFiles env g version = do {
     (ts, ok) \<leftarrow> filesRows env ''schema graph'' ''system.tables'';
     if \<not> ok then State_Monad.return None
     else do {
       let (tables, has_target) = schema_tables ts;
       (cs, _) \<leftarrow> filesRows env ''schema graph'' ''system.columns'';
       (is, _) \<leftarrow> filesRows env ''schema graph indices'' ''system.data_skipping_indices'';
       ds \<leftarrow> dictionary_rows env;
       let dicts = schema_dictionaries ds;
       if \<not> schemaGraphHasContent tables dicts then State_Monad.return None
       else schema_page env g version tables has_target (schema_columns cs) (schema_indices is) dicts
     }
   }"

definition schemaGraphFile :: string where "schemaGraphFile = ''schema_graph.html''"

definition schemaGraphSummary :: "schema_graph \<Rightarrow> vrow" where
  "schemaGraphSummary sg =
     (let dbs = remdups (concat (map (\<lambda>t. case vget t ''database'' of Some (VStr db) \<Rightarrow> [db] | _ \<Rightarrow> []) (sg_tables sg)));
          mvs = filter (\<lambda>t. text_at ''engine'' t = ''MaterializedView'') (sg_tables sg);
          count = (\<lambda>rs :: vrow list. VInt (int (length rs)))
      in [(''file'', VStr schemaGraphFile), (''tables'', count (sg_tables sg)), (''columns'', count (sg_columns sg)),
          (''databases'', VInt (int (length dbs))), (''mvs'', count mvs), (''refreshable'', count (sg_refreshes sg)),
          (''dictionaries'', count (sg_dictionaries sg)), (''indices'', count (sg_indices sg))])"

section \<open>The worst status\<close>

abbreviation drank :: "Row \<Rightarrow> nat" where
  "drank d \<equiv> status_rank (Row_Str d ''status'')"

lemma drank_pos: "0 < drank d"
  by (simp add: status_rank_def)

lemma fold_worst:
  "case fold worst_step ds (initial, best, w) of (d, b, v) \<Rightarrow>
     d = initial \<and> b = Max (insert best (drank ` set ds)) \<and> (b = best \<and> v = w \<or> v \<in> set ds \<and> b = drank v)"
proof (induction ds arbitrary: best w)
  case (Cons a ds)
  have m: "Max (insert best (insert (drank a) (drank ` set ds))) = (if drank a > best then Max (insert (drank a) (drank ` set ds)) else Max (insert best (drank ` set ds)))"
  proof (cases "drank a > best")
    case True
    then have "Max (insert (drank a) (drank ` set ds)) \<ge> best" by (simp add: less_imp_le max.coboundedI1 Max_ge_iff)
    then show ?thesis using True by (simp add: max_def Max_insert)
  next
    case False
    then have "Max (insert best (drank ` set ds)) \<ge> drank a" by (simp add: Max_ge_iff)
    then show ?thesis using False by (simp add: insert_commute [of best] max_def)
  qed
  show ?case using Cons.IH [of "drank a" a] Cons.IH [of best w] m by (auto simp: worst_step_def split: prod.splits)
qed simp

lemma dictionaries_worst:
  assumes "r \<in> set (schema_dictionaries ds)"
  shows "\<exists>d w. d \<in> set ds \<and> w \<in> set ds \<and> user_db w \<and> dict_key w = dict_key d \<and>
    text_at ''database'' r = Row_Str d ''database'' \<and> text_at ''name'' r = Row_Str d ''name'' \<and> text_at ''status'' r = Row_Str w ''status'' \<and>
    text_at ''last_exception'' r = leftRunes (Row_Str w ''last_exception'') 300 \<and>
    list_all (\<lambda>x. user_db x \<and> dict_key x = dict_key d \<longrightarrow> drank x \<le> drank w) ds"
proof -
  let ?ds = "filter user_db ds"
  from assms obtain k a where ka: "(k, a) \<in> set (group_first dict_key (\<lambda>d. (d, 0, d)) worst_step ?ds)" and r: "r = dict_record a"
    by (auto simp: schema_dictionaries_def sortBy_def)
  let ?F = "filter (\<lambda>d. dict_key d = k) ?ds"
  have k: "k \<in> dict_key ` set ?ds" and a: "a = fold worst_step ?F (hd ?F, 0, hd ?F)" using ka by (simp_all only: group_first_entries)
  have ne: "?F \<noteq> []" using k by (auto simp: filter_empty_conv)
  obtain d b w where e: "a = (d, b, w)" by (cases a)
  have f: "d = hd ?F" "b = Max (insert 0 (drank ` set ?F))" "b = 0 \<and> w = hd ?F \<or> w \<in> set ?F \<and> b = drank w"
    using fold_worst [where ds = ?F and initial = "hd ?F" and best = 0 and w = "hd ?F"] a e by auto
  have hd: "hd ?F \<in> set ?F" using ne by (rule hd_in_set)
  have ge: "drank x \<le> b" if "x \<in> set ?F" for x using that f(2) by simp
  have pos: "0 < b" using ge [OF hd] drank_pos [of "hd ?F"] by linarith
  then have w: "w \<in> set ?F" "b = drank w" using f(3) by auto
  have "d \<in> set ds" "dict_key d = k" using hd f(1) by auto
  moreover have "w \<in> set ds" "user_db w" "dict_key w = k" using w(1) by auto
  moreover have "list_all (\<lambda>x. user_db x \<and> dict_key x = k \<longrightarrow> drank x \<le> drank w) ds"
    using ge w(2) by (auto simp: list_all_iff)
  ultimately show ?thesis using pos
    by (intro exI [of _ d] exI [of _ w]) (simp add: r e dict_record_def text_at_def vget_def)
qed

section \<open>What the page shows of a definition\<close>

lemma redact_record_get:
  "vget (redact_record cols r) k = map_option (\<lambda>v. case v of VStr s \<Rightarrow>
     if k \<in> set cols \<and> s \<noteq> [] \<and> snd (RedactSQLText s) > 0 then VStr (fst (RedactSQLText s)) else v | _ \<Rightarrow> v) (vget r k)"
proof -
  have "map_of (map (\<lambda>(k, v). (k, h k v)) xs) k = map_option (h k) (map_of xs k)" for h :: "string \<Rightarrow> val \<Rightarrow> val" and xs
    by (induction xs) auto
  then show ?thesis by (simp add: vget_def redact_record_def rev_map split_beta)
qed

lemma redacted_text:
  assumes "k \<in> set cols" "vget r k = Some (VStr s)"
  shows "same_but_blanks (text_at k (redact_record cols r)) (fst (RedactSQLText s))"
proof (cases "s = [] \<or> snd (RedactSQLText s) = 0")
  case True
  then have "snd (RedactSQLText s) = 0" by (auto simp: RedactSQLText_def)
  then have "squeeze (fst (RedactSQLText s)) = squeeze s" by (rule sql_zero_same)
  with True show ?thesis using assms by (auto simp: text_at_def redact_record_get same_but_blanks_def)
next
  case False
  then show ?thesis using assms by (simp add: text_at_def redact_record_get same_but_blanks_def)
qed

lemma redact_other: "k \<notin> set cols \<Longrightarrow> vget (redact_record cols r) k = vget r k"
  by (cases "vget r k") (simp_all add: redact_record_get split: val.splits)

lemma schema_table_get:
  "vget (schema_table t) ''create_table_query'' = Some (VStr (Row_Str t ''create_table_query''))"
  "vget (schema_table t) ''engine_full'' = Some (VStr (Row_Str t ''engine_full''))"
  "vget (schema_table t) ''database'' = Some (VStr (Row_Str t ''database''))"
  "vget (schema_table t) ''name'' = Some (VStr (Row_Str t ''name''))"
  by (simp_all add: schema_table_def vget_def)

lemma schema_page_tables:
  assumes "run_state (schemaGraphFromFiles env g version) s = (Some sg, s')"
  shows "sg_tables sg = map (redact_record [''create_table_query'', ''engine_full''])
    (fst (schema_tables (fst (fst (run_state (filesRows env ''schema graph'' ''system.tables'') s)))))"
  using assms unfolding schemaGraphFromFiles_def schema_page_def redactSchemaRecords_def
  by (auto simp: Let_def split: prod.splits if_splits)

lemma schema_page_made:
  assumes "run_state (filesRows env ''schema graph'' ''system.tables'') s = ((ts, True), s1)" "list_ex user_db ts"
  shows "\<exists>sg s'. run_state (schemaGraphFromFiles env g version) s = (Some sg, s')"
proof -
  have "set (fst (schema_tables ts)) = schema_table ` set (filter user_db ts)" by (simp add: schema_tables_def sortBy_def)
  then have ne: "fst (schema_tables ts) \<noteq> []" using assms(2) by (auto simp: list_ex_iff)
  obtain tables tgt where ts: "schema_tables ts = (tables, tgt)" by (cases "schema_tables ts")
  show ?thesis using ne unfolding schemaGraphFromFiles_def schema_page_def redactSchemaRecords_def
    by (simp add: assms(1) ts Let_def split_beta schemaGraphHasContent_def)
qed

lemma schema_page_redacted:
  assumes "run_state (schemaGraphFromFiles env g version) s = (Some sg, s')" and "t \<in> set (sg_tables sg)"
  shows "\<exists>row \<in> set (fst (fst (run_state (filesRows env ''schema graph'' ''system.tables'') s))).
    text_at ''database'' t = Row_Str row ''database'' \<and> text_at ''name'' t = Row_Str row ''name'' \<and>
    same_but_blanks (text_at ''create_table_query'' t) (fst (RedactSQLText (Row_Str row ''create_table_query''))) \<and>
    same_but_blanks (text_at ''engine_full'' t) (fst (RedactSQLText (Row_Str row ''engine_full'')))"
proof -
  let ?c = "[''create_table_query'', ''engine_full'']" and ?ts = "fst (fst (run_state (filesRows env ''schema graph'' ''system.tables'') s))"
  from assms(2) obtain row where row: "row \<in> set ?ts" and t: "t = redact_record ?c (schema_table row)"
    unfolding schema_page_tables [OF assms(1)] by (auto simp: schema_tables_def sortBy_def)
  have "text_at ''database'' t = Row_Str row ''database''" "text_at ''name'' t = Row_Str row ''name''"
    by (simp_all add: t text_at_def redact_other schema_table_get)
  moreover have "same_but_blanks (text_at k t) (fst (RedactSQLText (Row_Str row k)))" if "k \<in> set ?c" for k
    unfolding t using that schema_table_get(1,2) [of row] by (intro redacted_text) auto
  ultimately show ?thesis using row by auto
qed

section \<open>Properties\<close>

text \<open>A dictionary on the schema page shows the worst status of its replicas, with the exception that goes with it: some row of the
  dictionary has that status, and no row of it a worse one.\<close>

theorem dictionary_worst_status:
  assumes "r \<in> set (schema_dictionaries ds)"
  shows "\<exists>d w. d \<in> set ds \<and> w \<in> set ds \<and> user_db w \<and> dict_key w = dict_key d \<and>
    text_at ''database'' r = Row_Str d ''database'' \<and> text_at ''name'' r = Row_Str d ''name'' \<and> text_at ''status'' r = Row_Str w ''status'' \<and>
    text_at ''last_exception'' r = leftRunes (Row_Str w ''last_exception'') 300 \<and>
    list_all (\<lambda>x. user_db x \<and> dict_key x = dict_key d \<longrightarrow> drank x \<le> drank w) ds"
  using assms by (rule dictionaries_worst)

definition demo_dict :: "string \<Rightarrow> Row" where
  "demo_dict status = [(''database'', JStr ''db''), (''name'', JStr ''d''), (''status'', JStr status)]"

lemma dictionary_worst_status_witness:
  "let ds = [demo_dict ''LOADED'', demo_dict ''FAILED'']; r = hd (schema_dictionaries ds) in
   \<exists>w \<in> set ds. text_at ''status'' r = Row_Str w ''status'' \<and> drank (demo_dict ''FAILED'') \<le> drank w"
proof -
  let ?ds = "[demo_dict ''LOADED'', demo_dict ''FAILED'']"
  have "schema_dictionaries ?ds \<noteq> []"
    using group_first_card [of dict_key "\<lambda>d. (d, 0, d)" worst_step "filter user_db ?ds"]
    by (auto simp: schema_dictionaries_def sortBy_def demo_dict_def user_db_def notSystemDB_def Row_Str_def jmap_def
        simp flip: length_0_conv)
  then have r: "hd (schema_dictionaries ?ds) \<in> set (schema_dictionaries ?ds)" by (rule hd_in_set)
  have "dict_key (demo_dict x) = ''db'' @ [NUL] @ ''d''" "user_db (demo_dict x)" for x
    by (simp_all add: dict_key_def demo_dict_def Row_Str_def jmap_def user_db_def notSystemDB_def)
  with dictionary_worst_status [OF r] show ?thesis unfolding Let_def by fastforce
qed

text \<open>C38: The definitions on the schema page are redacted: for every table on it, the CREATE statement and the full engine are, but for
  blanks, what the redactor of SQL text leaves of the collected ones.\<close>

theorem schema_page_shows_redacted:
  assumes "run_state (schemaGraphFromFiles env g version) s = (Some sg, s')" and "t \<in> set (sg_tables sg)"
  shows "\<exists>row \<in> set (fst (fst (run_state (filesRows env ''schema graph'' ''system.tables'') s))).
    text_at ''database'' t = Row_Str row ''database'' \<and> text_at ''name'' t = Row_Str row ''name'' \<and>
    same_but_blanks (text_at ''create_table_query'' t) (fst (RedactSQLText (Row_Str row ''create_table_query''))) \<and>
    same_but_blanks (text_at ''engine_full'' t) (fst (RedactSQLText (Row_Str row ''engine_full'')))"
  using assms by (rule schema_page_redacted)

definition demo_table :: Row where
  "demo_table = [(''database'', JStr ''db''), (''name'', JStr ''t''), (''engine_full'', JStr ''MySQL(h, db, t, user, secret)'')]"

definition demo_state :: gen where
  "demo_state = \<lparr>gen_bundle = \<lparr>b_dir = ''run'', b_status = Map.empty, b_cache = [''system.tables'' \<mapsto> [demo_table]], b_end = zero_time\<rparr>,
     gen_skipped = [], gen_out = []\<rparr>"

lemma schema_page_shows_redacted_witness:
  "case fst (run_state (schemaGraphFromFiles demo_env (demo_panels ''onprem'') ''24.8'') demo_state) of
     Some sg \<Rightarrow> same_but_blanks (text_at ''engine_full'' (hd (sg_tables sg))) (fst (RedactSQLText ''MySQL(h, db, t, user, secret)''))
   | None \<Rightarrow> False"
proof -
  have read: "run_state (filesRows demo_env ''schema graph'' ''system.tables'') demo_state = (([demo_table], True), demo_state)"
    by (simp add: filesRows_def Rows_def demo_state_def)
  have u: "user_db demo_table" by (simp add: demo_table_def user_db_def notSystemDB_def Row_Str_def jmap_def)
  obtain sg s' where run: "run_state (schemaGraphFromFiles demo_env (demo_panels ''onprem'') ''24.8'') demo_state = (Some sg, s')"
    using schema_page_made [OF read] u by fastforce
  have "sg_tables sg \<noteq> []" by (simp add: schema_page_tables [OF run] read u schema_tables_def sortBy_def stable_sort_def)
  then have "hd (sg_tables sg) \<in> set (sg_tables sg)" by (rule hd_in_set)
  from schema_page_shows_redacted [OF run this] have
    "same_but_blanks (text_at ''engine_full'' (hd (sg_tables sg))) (fst (RedactSQLText (Row_Str demo_table ''engine_full'')))"
    by (auto simp: read)
  then show ?thesis by (simp add: run demo_table_def Row_Str_def jmap_def)
qed

end
