(* ===== verification/DashLive.thy ===== *)
theory DashLive
  imports SchemaPage Executor
begin

text \<open>
  The live queries of the dashboard (\<open>internal/dashboard/generator.go\<close>): how an answer is read (\<open>chResult\<close>, \<open>parseUInt64\<close>),
  the probes that ask what the server has (\<open>probe\<close>, \<open>hasColumn\<close>, \<open>hasTable\<close>) with their cache, \<open>safeQuery\<close> with its three
  reasons to skip a panel, and the query analysis (\<open>collectAnalysis\<close>). The generator always has a client.
\<close>

section \<open>The state of a live run\<close>

text \<open>The server and \<open>stop()\<close> may answer otherwise each time: \<open>lv_tick\<close> counts the calls. \<open>lv_panic\<close>: an index was out of range; nothing
  is sent any more.\<close>

record live =
  lv_client :: ClickHouseClient
  lv_cache :: "string \<rightharpoonup> bool"
  lv_skipped :: "string list"
  lv_net :: "http_request effect list"
  lv_out :: "string list"
  lv_tick :: nat
  lv_panic :: bool

record live_env =
  le_http :: "nat \<Rightarrow> transport"
  le_stop :: "nat \<Rightarrow> bool"
  le_jerr :: "string \<Rightarrow> string"
  le_order :: check_env
  le_read :: "string \<Rightarrow> string + string"
  le_tree :: fsnode

record live_conf =
  lc_gen :: Generator
  lc_keeperDown :: bool
  lc_detachedScope :: string
  lc_analysisDir :: string

section \<open>Answers\<close>

record chResult =
  ch_names :: "string list"
  ch_data :: "json list list"
  ch_rows :: int

definition meta_entry :: "json \<Rightarrow> string option" where
  "meta_entry j = (case j of
     JObj ms \<Rightarrow> (case jmap ms ''type'' of None \<Rightarrow> meta_name j | Some JNull \<Rightarrow> meta_name j | Some (JStr t) \<Rightarrow> meta_name j | _ \<Rightarrow> None)
   | _ \<Rightarrow> meta_name j)"

definition ch_doc :: "string \<Rightarrow> chResult option" where
  "ch_doc raw =
     (case json_unmarshal raw of
        Some JNull \<Rightarrow> Some \<lparr>ch_names = [], ch_data = [], ch_rows = 0\<rparr>
      | Some (JObj ms) \<Rightarrow>
          (case (Option.bind (arr_of (jmap ms ''meta'')) (\<lambda>vs. all_some (map meta_entry vs)),
                 Option.bind (arr_of (jmap ms ''data'')) (\<lambda>vs. all_some (map (\<lambda>v. arr_of (Some v)) vs))) of
             (Some names, Some rows) \<Rightarrow>
               if int_ok (jmap ms ''rows'')
               then Some \<lparr>ch_names = names, ch_data = rows, ch_rows = (case jmap ms ''rows'' of Some (JNum n) \<Rightarrow> fst (parse_int64 n) | _ \<Rightarrow> 0)\<rparr>
               else None
           | _ \<Rightarrow> None)
      | _ \<Rightarrow> None)"

definition records :: "chResult \<Rightarrow> vrow list" where
  "records r = (if ch_rows r = 0 then [] else map (\<lambda>row. zip (ch_names r) (map json_val row)) (ch_data r))"

text \<open>A cell read as a number: \<open>json.Unmarshal\<close> into a \<open>float64\<close> leaves 0 on an error.\<close>

definition float_cell :: "json \<Rightarrow> float64" where
  "float_cell c = (case c of JNum n \<Rightarrow> (case parse_float n of Fin r \<Rightarrow> Fin r | _ \<Rightarrow> Fin 0) | _ \<Rightarrow> Fin 0)"

definition parseUInt64 :: "json \<Rightarrow> int" where
  "parseUInt64 c = (case c of
     JStr s \<Rightarrow> (case parse_int64 s of (n, None) \<Rightarrow> n | _ \<Rightarrow> 0)
   | _ \<Rightarrow> f_to_int64 (float_cell c))"

definition scalar_of :: "chResult \<Rightarrow> int" where
  "scalar_of r = (if ch_rows r = 0 then 0 else case ch_data r of
     (c # _) # _ \<Rightarrow> (case c of JStr s \<Rightarrow> fst (parse_int64 s) | JNum n \<Rightarrow> f_to_int64 (float_cell c) | _ \<Rightarrow> 0)
   | _ \<Rightarrow> 0)"

section \<open>Queries\<close>

definition execJSON :: "live_env \<Rightarrow> string \<Rightarrow> (live, string + chResult) state" where
  "execJSON env sql = State (\<lambda>s. if lv_panic s then (Inl [], s) else
     case ExecuteQueryWithFormat (le_http env (lv_tick s)) (lv_client s) sql of (r, c, fx) \<Rightarrow>
       ((case r of
           Inl e \<Rightarrow> Inl e
         | Inr raw \<Rightarrow> (case ch_doc raw of
             None \<Rightarrow> Inl (''json parse: '' @ le_jerr env raw @ '' ('' @ first_runes 200 raw @ '')'')
           | Some d \<Rightarrow> Inr d)),
        s\<lparr>lv_client := c, lv_net := lv_net s @ fx, lv_tick := Suc (lv_tick s)\<rparr>))"

definition say :: "string \<Rightarrow> (live, unit) state" where
  "say t = State (\<lambda>s. ((), s\<lparr>lv_out := lv_out s @ [''  [dashboard] '' @ t @ [NL]]\<rparr>))"

definition skip_panel :: "string \<Rightarrow> (live, unit) state" where
  "skip_panel t = State (\<lambda>s. ((), s\<lparr>lv_skipped := lv_skipped s @ [t]\<rparr>))"

definition ask_stop :: "live_env \<Rightarrow> (live, bool) state" where
  "ask_stop env = State (\<lambda>s. (le_stop env (lv_tick s), s\<lparr>lv_tick := Suc (lv_tick s)\<rparr>))"

definition keeperPanels :: "string list" where "keeperPanels = [''keeper_connection'']"

definition heavyPanels :: "string list" where
  "heavyPanels = [''storage_by_db'', ''engines_dist'', ''tables_list'', ''top_tables'', ''detached'', ''high_part_count'']"

definition safeQuery :: "live_env \<Rightarrow> live_conf \<Rightarrow> string \<Rightarrow> string \<Rightarrow> (live, vrow list) state" where
  "safeQuery env cf label sql =
     (if essential (lc_gen cf) \<and> label \<in> set heavyPanels then do { skip_panel label; State_Monad.return [] }
      else if lc_keeperDown cf \<and> label \<in> set keeperPanels then do { skip_panel (label @ '' (no Keeper session)''); State_Monad.return [] }
      else do {
        stop \<leftarrow> ask_stop env;
        if stop then do { skip_panel (label @ '' (time budget)''); State_Monad.return [] }
        else do {
          res \<leftarrow> execJSON env sql;
          case res of
            Inl e \<Rightarrow> do { say (label @ '': '' @ e); State_Monad.return [] }
          | Inr r \<Rightarrow> State_Monad.return (records r)
        }
      })"

definition scalarCount :: "live_env \<Rightarrow> string \<Rightarrow> (live, string + int) state" where
  "scalarCount env sql = do {
     res \<leftarrow> execJSON env sql;
     State_Monad.return (case res of Inl e \<Rightarrow> Inl e | Inr r \<Rightarrow> Inr (scalar_of r))
   }"

section \<open>Probes\<close>

definition cached :: "string \<Rightarrow> (live, bool option) state" where
  "cached key = State (\<lambda>s. (lv_cache s key, s))"

definition remember :: "string \<Rightarrow> bool \<Rightarrow> (live, unit) state" where
  "remember key v = State (\<lambda>s. ((), s\<lparr>lv_cache := (lv_cache s)(key \<mapsto> v)\<rparr>))"

definition probe :: "live_env \<Rightarrow> string \<Rightarrow> string \<Rightarrow> (live, bool) state" where
  "probe env key sql = do {
     known \<leftarrow> cached key;
     case known of
       Some v \<Rightarrow> State_Monad.return v
     | None \<Rightarrow> do {
         n \<leftarrow> scalarCount env sql;
         case n of
           Inl e \<Rightarrow> do {
             say (''schema probe '' @ go_quote key @ '' failed: '' @ e @ '' (assuming present)'');
             remember key True; State_Monad.return True }
         | Inr n \<Rightarrow> do { remember key (n > 0); State_Monad.return (n > 0) }
       }
   }"

definition visible_sql :: "string \<Rightarrow> string" where
  "visible_sql table = ''SELECT count() FROM system.columns WHERE database='' @ quoted ''system'' @ '' AND table='' @ quoted table"

definition column_sql :: "string \<Rightarrow> string \<Rightarrow> string" where
  "column_sql table column = visible_sql table @ '' AND name='' @ quoted column"

definition probeCanSeeColumns :: "live_env \<Rightarrow> string \<Rightarrow> (live, bool) state" where
  "probeCanSeeColumns env table = do {
     known \<leftarrow> cached (''visible:'' @ table);
     case known of
       Some v \<Rightarrow> State_Monad.return v
     | None \<Rightarrow> do {
         visible \<leftarrow> probe env (''visible:'' @ table) (visible_sql table);
         if visible then State_Monad.return visible
         else do {
           say (''cannot inspect columns of system.'' @ table @ '' locally '' @ long_dash @ '' assuming modern columns are present'');
           State_Monad.return visible }
       }
   }"

definition hasColumn :: "live_env \<Rightarrow> string \<Rightarrow> string \<Rightarrow> (live, bool) state" where
  "hasColumn env table column = do {
     visible \<leftarrow> probeCanSeeColumns env table;
     if \<not> visible then State_Monad.return True else probe env (table @ ''.'' @ column) (column_sql table column)
   }"

definition tables_ref :: "string \<Rightarrow> string" where
  "tables_ref mode = (if mode = ''cloud'' then ''clusterAllReplicas(default, system.tables)'' else ''system.tables'')"

definition any_table_sql :: "string \<Rightarrow> string" where
  "any_table_sql mode = ''SELECT count() FROM '' @ tables_ref mode @ '' WHERE database='' @ quoted ''system''"

definition hasTable :: "live_env \<Rightarrow> live_conf \<Rightarrow> string \<Rightarrow> (live, bool) state" where
  "hasTable env cf table = do {
     let mode = g_mode (lc_gen cf);
     already \<leftarrow> cached ''visible:system-tables'';
     visible \<leftarrow> probe env ''visible:system-tables'' (any_table_sql mode);
     if \<not> visible then do {
       (if already = None
        then say (''cannot read '' @ tables_ref mode @ '' '' @ long_dash @
          '' assuming the system log tables exist (check SELECT grants if panels look empty)'')
        else State_Monad.return ());
       State_Monad.return True }
     else probe env (''table:'' @ table) (any_table_sql mode @ '' AND name='' @ quoted table)
   }"

section \<open>The query analysis\<close>

definition live_analysis_files :: "(string \<times> string) list" where
  "live_analysis_files =
     [(''qa_details'', ''query_details.sql''), (''qa_profile'', ''profile_events.sql''), (''qa_text_parts'', ''text_log_parts.sql''),
      (''qa_text_full'', ''text_log_full.sql''), (''qa_tables'', ''tables_for_query.sql''), (''qa_fast_slow'', ''fast_slow_query_ids.sql''),
      (''qa_pe_compare'', ''profile_events_compare.sql''), (''qa_by_host'', ''hash_by_host.sql''), (''qa_summary'', ''hash_summary.sql''),
      (''qa_failed_over_time'', ''failed_over_time.sql''), (''qa_failed'', ''failed_queries.sql''), (''qa_executions'', ''executions_timeline.sql'')]"

text \<open>Case folding of texts that are not ASCII, which can move the position of the word, is not modelled.\<close>

definition format_cut :: "char \<Rightarrow> bool" where
  "format_cut c \<longleftrightarrow> is_cut_ws c \<or> c = CHR '';''"

definition stripTrailingFormat :: "string \<Rightarrow> string" where
  "stripTrailingFormat sql =
     (let t = trim_right format_cut sql in
      case last_index (to_upper t) ''FORMAT'' of
        None \<Rightarrow> t
      | Some i \<Rightarrow> (case str_fields (trim_space (drop i t)) of
          [w, name] \<Rightarrow> if equal_fold w ''FORMAT'' then trim_right is_cut_ws (take i t) else t
        | _ \<Rightarrow> t))"

definition clear_sensitive :: "string \<Rightarrow> vrow \<Rightarrow> vrow" where
  "clear_sensitive mode r = map (\<lambda>(k, v). (k, if mode = ''gov'' \<and> k \<in> set gov_sensitive then VStr ''(redacted in gov mode)'' else v)) r"

definition live_vars :: "live_conf \<Rightarrow> Vars" where
  "live_vars cf = (let a = g_analysis (lc_gen cf) in
     \<lparr>v_Mode = g_mode (lc_gen cf), v_QueryID = a_QueryID a, v_NormalizedQueryHash = a_NormalizedQueryHash a,
      v_From = a_From a, v_To = a_To a, v_GovSalt = [], v_MaxLookback = 0, v_DetachedScope = [], v_DetachedScopeP = []\<rparr>)"

definition analysis_panel :: "live_env \<Rightarrow> live_conf \<Rightarrow> (string \<rightharpoonup> string) \<Rightarrow> string \<times> string \<Rightarrow> payload \<Rightarrow> (live, payload) state" where
  "analysis_panel env cf resolved kf p = (case kf of (key, fname) \<Rightarrow>
     let path = (case resolved fname of Some path \<Rightarrow> path | None \<Rightarrow> path_join [lc_analysisDir cf, fname]) in
     case le_read env path of
       Inl e \<Rightarrow>
         if resolved fname \<noteq> None then do { say (key @ '': read '' @ path @ '': '' @ e); State_Monad.return p } else State_Monad.return p
     | Inr raw \<Rightarrow>
         let sql = ApplyVars raw (live_vars cf) in
         if UnboundPlaceholders sql \<noteq> [] then State_Monad.return p
         else let sql = stripTrailingFormat sql in
           (case validate_query_content sql of
              Some e \<Rightarrow> do { say (key @ '': blocked analysis query in '' @ fname @ '': '' @ validation_text e); State_Monad.return p }
            | None \<Rightarrow> do {
                rs \<leftarrow> safeQuery env cf key sql;
                State_Monad.return (p(key \<mapsto> rows_val (map (clear_sensitive (g_mode (lc_gen cf))) rs))) }))"

fun live_panels :: "live_env \<Rightarrow> live_conf \<Rightarrow> (string \<rightharpoonup> string) \<Rightarrow> (string \<times> string) list \<Rightarrow> payload \<Rightarrow> (live, payload) state" where
  "live_panels env cf resolved [] p = State_Monad.return p"
| "live_panels env cf resolved (kf # kfs) p = do {
     p \<leftarrow> analysis_panel env cf resolved kf p;
     live_panels env cf resolved kfs p }"

definition collectAnalysis :: "live_env \<Rightarrow> live_conf \<Rightarrow> payload \<Rightarrow> (live, payload) state" where
  "collectAnalysis env cf p =
     (let a = g_analysis (lc_gen cf); v = g_serverVersion (lc_gen cf) in
      if \<not> analysis_enabled a \<or> lc_analysisDir cf = [] then State_Monad.return p
      else do {
        (if v = Version 0 0 0 0
         then say ''warning: server version unknown; query-analysis panels fall back to the oldest (root) query variants''
         else State_Monad.return ());
        let found = find_versioned_files (lc_analysisDir cf) (le_tree env) v ''.sql'';
        (case found of
           Inl e \<Rightarrow> say (''query-analysis file resolution failed: '' @ e @ '' (falling back to root files)'')
         | Inr _ \<Rightarrow> State_Monad.return ());
        let vf = (case found of Inl _ \<Rightarrow> [] | Inr fs \<Rightarrow> fs);
        p \<leftarrow> live_panels env cf (map_of (rev (map (\<lambda>f. (Name f, FullPath f)) vf))) (map_range (le_order env) live_analysis_files) p;
        State_Monad.return (p(''qa_enabled'' \<mapsto> VBool True, ''qa_query_id'' \<mapsto> VStr (a_QueryID a),
          ''qa_hash'' \<mapsto> VStr (a_NormalizedQueryHash a), ''qa_from'' \<mapsto> VStr (fmt_rfc3339 (a_From a)),
          ''qa_to'' \<mapsto> VStr (fmt_rfc3339 (a_To a)), ''qa_mode'' \<mapsto> VStr (g_mode (lc_gen cf))))
      })"

end
