(* ===== verification/LiveQueries.thy ===== *)
theory LiveQueries
  imports DashLive
begin

text \<open>
  The live queries of the dashboard, as the code writes them (\<open>collect\<close>, the functions that build SQL and \<open>poolSizes\<close> of
  \<open>internal/dashboard/generator.go\<close>, \<open>collectSchemaGraph\<close> of \<open>internal/dashboard/schema_graph.go\<close>), and the payload they fill. In the
  texts below a backtick stands for a quote and a tilde for a tab.
\<close>

definition sql_char :: "char \<Rightarrow> char" where
  "sql_char c = (if c = BTICK then QUOTE else if c = CHR ''~'' then TAB else c)"

definition sql_text :: "string list \<Rightarrow> string" where
  "sql_text ls = map sql_char (str_join [NL] ls)"

section \<open>Queries\<close>

definition not_system_dbs :: string where
  "not_system_dbs = sql_text [''database NOT IN (`system`,`information_schema`,`INFORMATION_SCHEMA`)'']"

definition sampleQueryCol :: "string \<Rightarrow> string" where
  "sampleQueryCol mode = (if mode = ''gov'' then sql_text [''`` AS sample_query''] else ''leftUTF8(any(query), 600) AS sample_query'')"

definition gov_blank :: "string \<Rightarrow> string \<Rightarrow> string" where
  "gov_blank mode col = (if mode = ''gov'' then sql_text [''`` AS ''] @ col else col)"

definition detached_filter :: "string \<Rightarrow> string" where
  "detached_filter scope = ApplyVars ''{detached_scope}''
     \<lparr>v_Mode = [], v_QueryID = [], v_NormalizedQueryHash = [], v_From = zero_time, v_To = zero_time, v_GovSalt = [], v_MaxLookback = 0,
      v_DetachedScope = scope, v_DetachedScopeP = []\<rparr>"

definition async_insert_table :: "string \<Rightarrow> string" where
  "async_insert_table mode =
     (if mode = ''cloud'' then sql_text [''clusterAllReplicas(default, merge(system, `^asynchronous_insert_log`))'']
      else ''system.asynchronous_insert_log'')"

definition tablesListSQL :: "string \<Rightarrow> string" where
  "tablesListSQL mode =
     sql_text
      [[],
       ''~~SELECT t.database, t.name AS table_name, t.engine,'',
       ''~~~coalesce(p.parts, 0) AS parts,'',
       ''~~~-- total_rows is a ROW COUNT, not a byte size: formatReadableSize would'',
       ''~~~-- render 1,992,000 rows as \"1.90 MiB\". formatReadableQuantity exists'',
       ''~~~-- well below the 22.8 floor.'',
       ''~~~formatReadableQuantity(coalesce(p.total_rows, 0)) AS total_rows,'',
       ''~~~formatReadableSize(coalesce(p.bytes_on_disk, 0)) AS size,'',
       ''~~~coalesce(p.bytes_on_disk, 0) AS bytes_on_disk,'',
       ''~~~t.partition_key, t.sorting_key, t.storage_policy'',
       ''~~FROM ''] @
     SysTable mode ''tables'' @
     sql_text
      ['' AS t'',
       ''~~LEFT JOIN ('',
       ''~~~SELECT database, table, count() AS parts,'',
       ''~~~~sum(rows) AS total_rows, sum(bytes_on_disk) AS bytes_on_disk'',
       ''~~~FROM ''] @
     SysTable mode ''parts'' @
     sql_text
      ['' WHERE active = 1'',
       ''~~~GROUP BY database, table'',
       ''~~) AS p ON t.database = p.database AND t.name = p.table'',
       ''~~WHERE t.''] @
     not_system_dbs @
     sql_text
      [[],
       ''~~ORDER BY bytes_on_disk DESC'',
       ''~~LIMIT 2000'']"

definition querySlowSQL :: "string \<Rightarrow> string" where
  "querySlowSQL mode =
     sql_text
      [''SELECT toString(normalized_query_hash) AS hash,'',
       ''~~~~query_kind, user,'',
       ''~~~~countIf(type = `QueryFinish`) AS executions,'',
       ''~~~~round(sumIf(query_duration_ms, type = `QueryFinish`)'',
       ''~~~~~  / greatest(countIf(type = `QueryFinish`), 1), 0) AS avg_duration_ms,'',
       ''~~~~maxIf(query_duration_ms, type = `QueryFinish`) AS max_duration_ms,'',
       ''~~~~round(sumIf(read_bytes, type = `QueryFinish`)'',
       ''~~~~~  / greatest(countIf(type = `QueryFinish`), 1) / 1048576, 2) AS avg_read_mb,'',
       ''~~~~round(sumIf(memory_usage, type = `QueryFinish`)'',
       ''~~~~~  / greatest(countIf(type = `QueryFinish`), 1) / 1048576, 2) AS avg_memory_mb,'',
       ''~~~~countIf(exception_code != 0) AS errors,'',
       ''~~~~''] @
     sampleQueryCol mode @
     sql_text
      [[],
       ''~~ FROM ''] @
     SysTable mode ''query_log'' @
     sql_text
      [[],
       ''~~ WHERE event_time > now() - INTERVAL 7 DAY'',
       ''~~   AND ((type = `QueryFinish` AND query_duration_ms > 0)'',
       ''~~~~OR type IN (`ExceptionWhileProcessing`, `ExceptionBeforeStart`))'',
       ''~~ GROUP BY hash, query_kind, user'',
       ''~~ ORDER BY avg_duration_ms DESC LIMIT 20'']"

definition queryHeavySQL :: "string \<Rightarrow> string" where
  "queryHeavySQL mode =
     sql_text
      [''SELECT toString(normalized_query_hash) AS hash,'',
       ''~~~~query_kind, user,'',
       ''~~~~count() AS executions,'',
       ''~~~~round(avg(read_bytes)/1048576, 2) AS avg_read_mb,'',
       ''~~~~formatReadableSize(sum(read_bytes)) AS total_read,'',
       ''~~~~round(avg(query_duration_ms), 0) AS avg_duration_ms,'',
       ''~~~~''] @
     sampleQueryCol mode @
     sql_text
      [[],
       ''~~ FROM ''] @
     SysTable mode ''query_log'' @
     sql_text
      [[],
       ''~~ WHERE event_time > now() - INTERVAL 7 DAY'',
       ''~~   AND type = `QueryFinish`'',
       ''~~ GROUP BY hash, query_kind, user'',
       ''~~ ORDER BY avg_read_mb DESC LIMIT 20'']"

definition textLogSQL :: "string \<Rightarrow> bool \<Rightarrow> string" where
  "textLogSQL mode has_host =
     sql_text
      [''SELECT toString(event_time) AS event_time,'',
       ''~~~~''] @
     (if has_host then ''hostname,'' else []) @
     sql_text
      ['' level, logger_name,'',
       ''~~~~leftUTF8(message, ''] @
     nat_str textLogMessageCap @
     sql_text
      ['') AS message'',
       ''~~ FROM ('',
       ''~~~SELECT event_time, ''] @
     (if has_host then ''hostname,'' else []) @
     sql_text
      ['' level, logger_name, message'',
       ''~~~FROM ''] @
     SysTable mode ''text_log'' @
     sql_text
      [[],
       ''~~~WHERE event_time > now() - INTERVAL 24 HOUR'',
       ''~~~  AND level IN (`Warning`, `Error`, `Critical`, `Fatal`)'',
       ''~~~ORDER BY event_time DESC'',
       ''~~~LIMIT ''] @
     nat_str textLogRowCap @
     sql_text
      [[],
       ''~~ )'',
       ''~~ ORDER BY event_time DESC'']"

definition topTablesSQL :: "string \<Rightarrow> string" where
  "topTablesSQL mode =
     sql_text
      [''SELECT database, table, count() AS parts,'',
       ''~~~formatReadableQuantity(sum(rows)) AS total_rows,'',
       ''~~~formatReadableSize(sum(bytes_on_disk)) AS compressed_size,'',
       ''~~~round(if(sum(data_compressed_bytes)>0,'',
       ''~~~~sum(data_uncompressed_bytes)/sum(data_compressed_bytes), 0), 2) AS compression_ratio'',
       ''~~ FROM ''] @
     SysTable mode ''parts'' @
     sql_text
      [[],
       ''~~ WHERE active = 1'',
       ''~~   AND database NOT IN (`system`,`information_schema`,`INFORMATION_SCHEMA`)'',
       ''~~ GROUP BY database, table'',
       ''~~ ORDER BY sum(bytes_on_disk) DESC LIMIT 20'']"

definition queryByUserSQL :: "string \<Rightarrow> string" where
  "queryByUserSQL mode =
     sql_text
      [''SELECT user,'',
       ''~~~~countIf(type = `QueryFinish`) AS executions,'',
       ''~~~~round(sumIf(query_duration_ms, type = `QueryFinish`)'',
       ''~~~~~  / greatest(countIf(type = `QueryFinish`), 1), 0) AS avg_duration_ms,'',
       ''~~~~round(sumIf(read_bytes, type = `QueryFinish`)/1073741824, 3) AS total_read_gb,'',
       ''~~~~round(sumIf(memory_usage, type = `QueryFinish`)/1073741824, 3) AS total_memory_gb,'',
       ''~~~~countIf(exception_code != 0) AS error_count'',
       ''~~ FROM ''] @
     SysTable mode ''query_log'' @
     sql_text
      [[],
       ''~~ WHERE event_time > now() - INTERVAL 7 DAY'',
       ''~~   AND type IN (`QueryFinish`, `ExceptionWhileProcessing`, `ExceptionBeforeStart`)'',
       ''~~ GROUP BY user ORDER BY executions DESC LIMIT 20'']"

definition dictionariesSQL :: "string \<Rightarrow> bool \<Rightarrow> string" where
  "dictionariesSQL mode has_count =
     sql_text
      [[],
       ''~~SELECT'',
       ''~~~hostname()                                          AS hostname,'',
       ''~~~database, name, status, type, toString(uuid)        AS uuid,'',
       ''~~~bytes_allocated,'',
       ''~~~formatReadableSize(bytes_allocated)                 AS bytes_allocated_human,'',
       ''~~~element_count, query_count, ''] @
     (if has_count then ''error_count'' else ''0 AS error_count'') @
     sql_text
      ['','',
       ''~~~round(hit_rate * 100, 2)                            AS hit_rate_pct,'',
       ''~~~round(found_rate * 100, 2)                          AS found_rate_pct,'',
       ''~~~round(load_factor, 4)                               AS load_factor,'',
       ''~~~arrayStringConcat(key.names, `, `)                  AS key_names,'',
       ''~~~arrayStringConcat(key.types, `, `)                  AS key_types,'',
       ''~~~arrayStringConcat(attribute.names, `, `)            AS attribute_names,'',
       ''~~~arrayStringConcat(attribute.types, `, `)            AS attribute_types,'',
       ''~~~lifetime_min, lifetime_max,'',
       ''~~~toString(loading_start_time)                        AS loading_start_time,'',
       ''~~~toString(last_successful_update_time)               AS last_update,'',
       ''~~~round(loading_duration, 2)                          AS loading_duration_s,'',
       ''~~~''] @
     gov_blank mode ''source'' @
     sql_text
      ['', ''] @
     gov_blank mode ''origin'' @
     sql_text
      ['', ''] @
     gov_blank mode ''comment'' @
     sql_text
      ['', ''] @
     gov_blank mode ''last_exception'' @
     sql_text
      [[],
       ''~~FROM ''] @
     SysTable mode ''dictionaries'' @
     sql_text
      [[],
       ''~~ORDER BY database, name, hostname'']"

definition keeperMetricSQL :: "string \<Rightarrow> bool \<Rightarrow> bool \<Rightarrow> string" where
  "keeperMetricSQL mode has_wait has_session =
     sql_text
      [''SELECT toString(toStartOfHour(event_time)) AS time,'',
       ''~~~~sum(ProfileEvent_ZooKeeperTransactions)       AS transactions,'',
       ''~~~~sum(ProfileEvent_ZooKeeperHardwareExceptions) AS hw_exceptions,'',
       ''~~~~sum(ProfileEvent_ZooKeeperUserExceptions)     AS user_exceptions,'',
       ''~~~~''] @
     (if has_wait then ''sum(ProfileEvent_ZooKeeperWaitMicroseconds) AS wait_us'' else ''0 AS wait_us'') @
     sql_text
      ['','',
       ''~~~~''] @
     (if has_session then ''min(CurrentMetric_ZooKeeperSession) AS sessions_min, max(CurrentMetric_ZooKeeperSession) AS sessions_max'' else ''0 AS sessions_min, 0 AS sessions_max'') @
     sql_text
      [[],
       ''~~ FROM ''] @
     SysTable mode ''metric_log'' @
     sql_text
      [[],
       ''~~ WHERE event_time > now() - INTERVAL 7 DAY'',
       ''~~ GROUP BY time ORDER BY time'']"

definition poolsMetricSQL :: "string \<Rightarrow> string" where
  "poolsMetricSQL mode =
     sql_text
      [''SELECT time,'',
       ''~~~~max(fetch)    AS fetch_tasks,'',
       ''~~~~max(schedule) AS schedule_tasks,'',
       ''~~~~max(merge)    AS merge_tasks'',
       ''~~ FROM ('',
       ''~~~SELECT toString(toStartOfHour(event_time)) AS time, hostName() AS h,'',
       ''~~~~   avg(CurrentMetric_BackgroundFetchesPoolTask)   AS fetch,'',
       ''~~~~   avg(CurrentMetric_BackgroundSchedulePoolTask)  AS schedule,'',
       ''~~~~   avg(CurrentMetric_BackgroundMergesAndMutationsPoolTask) AS merge'',
       ''~~~FROM ''] @
     SysTable mode ''metric_log'' @
     sql_text
      [[],
       ''~~~WHERE event_time > now() - INTERVAL 7 DAY'',
       ''~~~GROUP BY time, h)'',
       ''~~ GROUP BY time ORDER BY time'']"

definition error_log_sql :: "string \<Rightarrow> string" where
  "error_log_sql mode =
     sql_text
      [''SELECT toString(toStartOfHour(event_time)) AS time,'',
       ''~~~~~error AS code_name, sum(value) AS count'',
       ''~~~ FROM ''] @
     SysTable mode ''error_log'' @
     sql_text
      [[],
       ''~~~ WHERE event_time > now() - INTERVAL 7 DAY'',
       ''~~~   AND code IN (999, 242, 319, 571, 252)'',
       ''~~~ GROUP BY time, code_name ORDER BY time'']"

definition error_codes_sql :: "string \<Rightarrow> string" where
  "error_codes_sql mode =
     sql_text
      [''SELECT toString(toStartOfHour(event_time)) AS time,'',
       ''~~~~errorCodeToName(exception_code) AS code_name, count() AS count'',
       ''~~ FROM ''] @
     SysTable mode ''query_log'' @
     sql_text
      [[],
       ''~~ WHERE event_time > now() - INTERVAL 7 DAY'',
       ''~~   AND type = `ExceptionWhileProcessing`'',
       ''~~   AND exception_code IN (999, 242, 319, 571, 252)'',
       ''~~ GROUP BY time, code_name ORDER BY time'']"

definition keeperConnectionSQL :: "string \<Rightarrow> bool \<Rightarrow> string" where
  "keeperConnectionSQL mode has_xid =
     sql_text
      [''SELECT ''] @
     (if mode = ''cloud'' then ''hostName() AS replica, '' else []) @
     sql_text
      [''name, host, toString(port) AS port, toString(index) AS index,'',
       ''~~~~toString(connected_time) AS connected_time,'',
       ''~~~~toString(session_uptime_elapsed_seconds) AS session_uptime_s,'',
       ''~~~~toString(is_expired) AS is_expired,'',
       ''~~~~toString(keeper_api_version) AS api_version''] @
     (if has_xid then '', toString(xid) AS xid'' else []) @
     sql_text
      [[],
       ''~~ FROM ''] @
     SysTable mode ''zookeeper_connection'' @
     sql_text
      [[],
       ''~~ ORDER BY name'']"

definition table_counts_sql :: "string \<Rightarrow> string" where
  "table_counts_sql mode =
     sql_text
      [''SELECT uniq(database) AS dbs, count() AS tbls'',
       ''~~ FROM ''] @
     SysTable mode ''tables'' @
     sql_text
      [[],
       ''~~ WHERE database NOT IN (`system`,`information_schema`,`INFORMATION_SCHEMA`)'']"

definition part_counts_sql :: "string \<Rightarrow> string" where
  "part_counts_sql mode =
     sql_text
      [''SELECT count() AS parts, formatReadableSize(sum(bytes_on_disk)) AS sz'',
       ''~~ FROM ''] @
     SysTable mode ''parts'' @
     sql_text
      [[],
       ''~~ WHERE active = 1'',
       ''~~   AND database NOT IN (`system`,`information_schema`,`INFORMATION_SCHEMA`)'']"

definition storage_by_db_sql :: "string \<Rightarrow> string" where
  "storage_by_db_sql mode =
     sql_text
      [''SELECT database, count() AS parts, sum(rows) AS rows,'',
       ''~~~sum(bytes_on_disk) AS bytes_total,'',
       ''~~~formatReadableSize(bytes_total) AS size_human,'',
       ''~~~round(if(sum(data_compressed_bytes)>0,'',
       ''~~~~sum(data_uncompressed_bytes)/sum(data_compressed_bytes), 0), 2) AS compression_ratio'',
       ''~~ FROM ''] @
     SysTable mode ''parts'' @
     sql_text
      [[],
       ''~~ WHERE active = 1'',
       ''~~   AND database NOT IN (`system`,`information_schema`,`INFORMATION_SCHEMA`)'',
       ''~~ GROUP BY database ORDER BY bytes_total DESC LIMIT 20'']"

definition engines_dist_sql :: "string \<Rightarrow> string" where
  "engines_dist_sql mode =
     sql_text
      [''SELECT engine, count() AS count'',
       ''~~ FROM ''] @
     SysTable mode ''tables'' @
     sql_text
      [[],
       ''~~ WHERE database NOT IN (`system`,`information_schema`,`INFORMATION_SCHEMA`)'',
       ''~~ GROUP BY engine ORDER BY count DESC LIMIT 15'']"

definition query_by_time_sql :: "string \<Rightarrow> string" where
  "query_by_time_sql mode =
     sql_text
      [''SELECT toString(toStartOfHour(event_time)) AS time,'',
       ''~~~~query_kind, count() AS count'',
       ''~~ FROM ''] @
     SysTable mode ''query_log'' @
     sql_text
      [[],
       ''~~ WHERE event_time > now() - INTERVAL 7 DAY AND type = `QueryFinish`'',
       ''~~ GROUP BY time, query_kind ORDER BY time'']"

definition query_by_kind_sql :: "string \<Rightarrow> string" where
  "query_by_kind_sql mode =
     sql_text
      [''SELECT query_kind, count() AS count,'',
       ''~~~~round(avg(query_duration_ms), 0) AS avg_duration_ms,'',
       ''~~~~round(avg(memory_usage)/1048576, 2) AS avg_memory_mb'',
       ''~~ FROM ''] @
     SysTable mode ''query_log'' @
     sql_text
      [[],
       ''~~ WHERE event_time > now() - INTERVAL 7 DAY AND type = `QueryFinish`'',
       ''~~ GROUP BY query_kind ORDER BY count DESC'']"

definition exceptions_sql :: "string \<Rightarrow> string" where
  "exceptions_sql mode =
     sql_text
      [''SELECT exception_code,'',
       ''~~~~any(exception) AS msg, count() AS count'',
       ''~~ FROM ''] @
     SysTable mode ''query_log'' @
     sql_text
      [[],
       ''~~ WHERE event_time > now() - INTERVAL 7 DAY AND exception_code != 0'',
       ''~~ GROUP BY exception_code ORDER BY count DESC LIMIT 15'']"

definition part_log_by_time_sql :: "string \<Rightarrow> string" where
  "part_log_by_time_sql mode =
     sql_text
      [''SELECT toString(toStartOfDay(event_time)) AS time,'',
       ''~~~~event_type, count() AS count'',
       ''~~ FROM ''] @
     SysTable mode ''part_log'' @
     sql_text
      [[],
       ''~~ WHERE event_time > now() - INTERVAL 7 DAY'',
       ''~~ GROUP BY time, event_type ORDER BY time'']"

definition part_log_by_type_sql :: "string \<Rightarrow> string" where
  "part_log_by_type_sql mode =
     sql_text
      [''SELECT event_type, count() AS count,'',
       ''~~~~formatReadableSize(sum(size_in_bytes)) AS total_size'',
       ''~~ FROM ''] @
     SysTable mode ''part_log'' @
     sql_text
      [[],
       ''~~ WHERE event_time > now() - INTERVAL 7 DAY'',
       ''~~ GROUP BY event_type ORDER BY count DESC'']"

definition crash_log_sql :: "string \<Rightarrow> string" where
  "crash_log_sql mode =
     sql_text
      [''SELECT toString(event_time) AS event_time,'',
       ''~~~~~signal, toString(thread_id) AS thread_id,'',
       ''~~~~~query_id, version'',
       ''~~~ FROM ''] @
     SysTable mode ''crash_log'' @
     sql_text
      ['' ORDER BY event_time DESC LIMIT 100'']"

definition mutations_sql :: "string \<Rightarrow> bool \<Rightarrow> string" where
  "mutations_sql mode has_killed =
     sql_text
      [''SELECT database, table, mutation_id, command,'',
       ''~~~~toString(create_time) AS create_time, parts_to_do'',
       ''~~ FROM ''] @
     SysTable mode ''mutations'' @
     sql_text
      [[],
       ''~~ WHERE parts_to_do > 0 ''] @
     (if has_killed then ''AND is_killed = 0'' else []) @
     sql_text
      [[],
       ''~~ ORDER BY parts_to_do DESC LIMIT 20'']"

definition detached_sql :: "string \<Rightarrow> bool \<Rightarrow> string \<Rightarrow> string" where
  "detached_sql mode has_bytes scope =
     sql_text
      [''SELECT database, table, count() AS count,'',
       ''~~~~''] @
     (if has_bytes then ''formatReadableSize(sum(bytes_on_disk)) AS size'' else quoted ''n/a'' @ '' AS size'') @
     sql_text
      ['','',
       ''~~~~arrayStringConcat(groupUniqArray(reason), `, `) AS reasons'',
       ''~~ FROM ''] @
     SysTable mode ''detached_parts'' @
     sql_text
      [[],
       ''~~ WHERE database NOT IN (`system`, `information_schema`, `INFORMATION_SCHEMA`)'',
       ''~~   AND ''] @
     detached_filter scope @
     sql_text
      [[],
       ''~~ GROUP BY database, table'',
       ''~~ ORDER BY ''] @
     (if has_bytes then ''sum(bytes_on_disk)'' else ''count()'') @
     sql_text
      ['' DESC LIMIT 20'']"

definition clusters_sql :: "string" where
  "clusters_sql =
     sql_text
      [''SELECT cluster, host_name,'',
       ''~~~~~toString(shard_num) AS shard, toString(replica_num) AS replica,'',
       ''~~~~~toString(errors_count) AS errors_count'',
       ''~~~ FROM system.clusters'',
       ''~~~ ORDER BY cluster, shard_num, replica_num'']"

definition replication_queue_sql :: "string \<Rightarrow> string" where
  "replication_queue_sql mode =
     sql_text
      [''SELECT table, type, toString(is_currently_executing) AS executing, last_exception'',
       ''~~ FROM ''] @
     SysTable mode ''replication_queue'' @
     sql_text
      ['' ORDER BY table LIMIT 50'']"

definition replicas_sql :: "string \<Rightarrow> string" where
  "replicas_sql mode =
     sql_text
      [''SELECT r.database AS database, r.table AS table, is_leader, is_readonly, is_session_expired,'',
       ''~~~ future_parts, parts_to_check, queue_size,'',
       ''~~~ inserts_in_queue, merges_in_queue, queue_oldest_time,'',
       ''~~~ absolute_delay, z.total_replicas AS total_replicas, z.active_replicas AS active_replicas'',
       ''~~ FROM (SELECT database, table, is_leader, is_readonly, is_session_expired,'',
       ''~~~~~  future_parts, parts_to_check, queue_size, inserts_in_queue, merges_in_queue,'',
       ''~~~~~  toString(queue_oldest_time) AS queue_oldest_time, absolute_delay'',
       ''~~~   FROM ''] @
     SysTable mode ''replicas'' @
     sql_text
      ['') AS r'',
       ''~~ LEFT JOIN (SELECT database, table, toString(total_replicas) AS total_replicas,'',
       ''~~~~~~   toString(active_replicas) AS active_replicas'',
       ''~~~~~FROM ''] @
     SysTable mode ''replicas'' @
     sql_text
      [[],
       ''~~~~~WHERE (database, table) IN ('',
       ''~~~~~~SELECT database, table FROM ''] @
     SysTable mode ''replicas'' @
     sql_text
      [[],
       ''~~~~~~ORDER BY (is_readonly OR is_session_expired OR queue_size > 0 OR absolute_delay > 0'',
       ''~~~~~~~~  OR future_parts > 0 OR parts_to_check > 0) DESC,'',
       ''~~~~~~~~ absolute_delay DESC, database, table'',
       ''~~~~~~LIMIT 200)) AS z'',
       ''~~   ON r.database = z.database AND r.table = z.table'',
       ''~~ ORDER BY absolute_delay DESC, is_readonly DESC'']"

definition disks_sql :: "string \<Rightarrow> string" where
  "disks_sql mode =
     sql_text
      [''SELECT hostName() AS hostname,'',
       ''~~~ name, path, type,'',
       ''~~~ free_space, total_space,'',
       ''~~~ formatReadableSize(free_space)       AS free_space_human,'',
       ''~~~ formatReadableSize(total_space)      AS total_space_human,'',
       ''~~~ if(total_space > 0,'',
       ''~~~    round(free_space / total_space * 100, 1),'',
       ''~~~    0) AS free_pct'',
       ''~~ FROM ''] @
     SysTable mode ''disks'' @
     sql_text
      [[],
       ''~~ ORDER BY hostname, total_space DESC'']"

definition server_errors_sql :: "string \<Rightarrow> string" where
  "server_errors_sql mode =
     sql_text
      [''SELECT name, code, total AS value, last_error_time, last_error_message'',
       ''~~ FROM ('',
       ''~~~ SELECT name, code,'',
       ''~~~~ sum(value)                                   AS total,'',
       ''~~~~ toString(max(last_error_time))               AS last_error_time,'',
       ''~~~~ leftUTF8(argMax(last_error_message, value), 300) AS last_error_message'',
       ''~~~ FROM ''] @
     SysTable mode ''errors'' @
     sql_text
      [[],
       ''~~~ GROUP BY name, code'',
       ''~~~ HAVING total > 0'',
       ''~~ )'',
       ''~~ ORDER BY value DESC LIMIT 30'']"

definition high_part_count_sql :: "string \<Rightarrow> string" where
  "high_part_count_sql mode =
     sql_text
      [''SELECT database, table, partition_id, count() AS parts_count'',
       ''~~ FROM ''] @
     SysTable mode ''parts'' @
     sql_text
      [[],
       ''~~ WHERE active = 1'',
       ''~~   AND database NOT IN (`system`,`information_schema`,`INFORMATION_SCHEMA`)'',
       ''~~ GROUP BY database, table, partition_id'',
       ''~~ HAVING parts_count > 100'',
       ''~~ ORDER BY parts_count DESC LIMIT 30'']"

definition ttl_activity_sql :: "string \<Rightarrow> string" where
  "ttl_activity_sql mode =
     sql_text
      [''SELECT toString(toStartOfDay(event_time)) AS day,'',
       ''~~~ event_type, merge_reason,'',
       ''~~~ count()                              AS events,'',
       ''~~~ formatReadableSize(sum(size_in_bytes)) AS total_size'',
       ''~~ FROM ''] @
     SysTable mode ''part_log'' @
     sql_text
      [[],
       ''~~ WHERE event_time > now() - INTERVAL 7 DAY'',
       ''~~   AND (merge_reason IN (`TTLDeleteMerge`,`TTLRecompressMerge`)'',
       ''~~        OR event_type = `RemovePart`)'',
       ''~~ GROUP BY day, event_type, merge_reason'',
       ''~~ ORDER BY day'']"

definition async_inserts_sql :: "string \<Rightarrow> bool \<Rightarrow> string" where
  "async_inserts_sql mode has_rows =
     sql_text
      [''SELECT toString(toStartOfHour(event_time)) AS hour,'',
       ''~~~~ status, count() AS flushes,'',
       ''~~~~ ''] @
     (if has_rows then ''toString(sum(rows)) AS total_rows'' else quoted ''n/a'' @ '' AS total_rows'') @
     sql_text
      ['','',
       ''~~~~ formatReadableSize(sum(bytes)) AS total_bytes,'',
       ''~~~~ round(avg((toFloat64(flush_time_microseconds) - toFloat64(event_time_microseconds)) * 1000), 0) AS avg_flush_ms'',
       ''~~~ FROM ''] @
     async_insert_table mode @
     sql_text
      [[],
       ''~~~ WHERE event_time > now() - INTERVAL 24 HOUR'',
       ''~~~ GROUP BY hour, status ORDER BY hour'']"


definition keeperErrorsSQL :: "string \<Rightarrow> bool \<Rightarrow> string" where
  "keeperErrorsSQL mode use_error_log = (if use_error_log then error_log_sql mode else error_codes_sql mode)"

section \<open>Answers of one row\<close>

definition panic :: "(live, unit) state" where
  "panic = State (\<lambda>s. ((), s\<lparr>lv_panic := True\<rparr>))"

text \<open>The first \<open>n\<close> cells of an answer that says it has rows; an answer that has fewer is an index out of range.\<close>

definition ask_row :: "live_env \<Rightarrow> string \<Rightarrow> nat \<Rightarrow> (live, json list option) state" where
  "ask_row env sql n = do {
     res \<leftarrow> execJSON env sql;
     case res of
       Inl e \<Rightarrow> State_Monad.return None
     | Inr r \<Rightarrow>
         if \<not> ch_rows r > 0 then State_Monad.return None
         else (case ch_data r of
             row # _ \<Rightarrow> if n \<le> length row then State_Monad.return (Some (take n row)) else do { panic; State_Monad.return None }
           | [] \<Rightarrow> do { panic; State_Monad.return None })
   }"

definition str_cell :: "json \<Rightarrow> string" where
  "str_cell c = (case c of JStr s \<Rightarrow> s | _ \<Rightarrow> [])"

definition text_answer :: "string \<Rightarrow> json list option \<Rightarrow> payload" where
  "text_answer key r = (case r of Some (c # _) \<Rightarrow> [key \<mapsto> VStr (str_cell c)] | _ \<Rightarrow> Map.empty)"

section \<open>Pool sizes\<close>

definition pool_settings :: "(string \<times> string) list" where
  "pool_settings = [(''fetch'', ''background_fetches_pool_size''), (''schedule'', ''background_schedule_pool_size''),
     (''merge'', ''background_pool_size'')]"

fun ask_pools :: "live_env \<Rightarrow> string \<Rightarrow> string \<Rightarrow> (string \<times> string) list \<Rightarrow> (string \<rightharpoonup> int) \<Rightarrow> (live, string \<rightharpoonup> int) state" where
  "ask_pools env mode table [] m = State_Monad.return m"
| "ask_pools env mode table ((key, setting) # ks) m = do {
     n \<leftarrow> scalarCount env (''SELECT min(toUInt64OrZero(value)) FROM '' @ SysTable mode table @ '' WHERE name = '' @ quoted setting);
     ask_pools env mode table ks (case n of Inr i \<Rightarrow> m(key \<mapsto> i) | Inl _ \<Rightarrow> m) }"

definition pools_val :: "(string \<rightharpoonup> int) \<Rightarrow> val" where
  "pools_val m = VMap (map (\<lambda>(k, s). (k, VInt (case m k of Some i \<Rightarrow> i | None \<Rightarrow> 0))) pool_settings)"

definition poolSizes :: "live_env \<Rightarrow> live_conf \<Rightarrow> (live, val) state" where
  "poolSizes env cf =
     (let v = g_serverVersion (lc_gen cf); mode = g_mode (lc_gen cf);
          ask = (\<lambda>table. do { m \<leftarrow> ask_pools env mode table (map_range (le_order env) pool_settings) Map.empty; State_Monad.return (pools_val m) })
      in if v \<noteq> Version 0 0 0 0 \<and> (Major v > 23 \<or> Major v = 23 \<and> Minor v \<ge> 3) then do {
           have_table \<leftarrow> hasTable env cf ''server_settings'';
           if have_table then ask ''server_settings'' else State_Monad.return (pools_val Map.empty) }
         else if v \<noteq> Version 0 0 0 0 then ask ''settings''
         else do {
           have_table \<leftarrow> hasTable env cf ''server_settings'';
           ask (if have_table then ''server_settings'' else ''settings'') })"

section \<open>The payload\<close>

text \<open>\<open>panel\<close>: the rows of one panel under its key; \<open>if_table\<close>: the panel of a table the server may not have.\<close>

definition panel :: "live_env \<Rightarrow> live_conf \<Rightarrow> string \<Rightarrow> string \<Rightarrow> payload \<Rightarrow> (live, payload) state" where
  "panel env cf label sql p = do { rs \<leftarrow> safeQuery env cf label sql; State_Monad.return (p(label \<mapsto> rows_val rs)) }"

definition if_table :: "live_env \<Rightarrow> live_conf \<Rightarrow> string \<Rightarrow> string \<Rightarrow> (live, string) state \<Rightarrow> payload \<Rightarrow> (live, payload) state" where
  "if_table env cf table label sql p = do {
     have_table \<leftarrow> hasTable env cf table;
     if have_table then do { q \<leftarrow> sql; panel env cf label q p } else State_Monad.return (p(label \<mapsto> rows_val [])) }"

definition live_header :: "live_env \<Rightarrow> live_conf \<Rightarrow> time \<Rightarrow> (live, payload) state" where
  "live_header env cf now = do {
     let g = lc_gen cf;
     let mode = g_mode g;
     let p = [''generated_at'' \<mapsto> VStr (fmt_datetime now @ '' UTC''), ''mode'' \<mapsto> VStr mode, ''version'' \<mapsto> VStr [],
       ''uptime'' \<mapsto> VStr (g_nodeUptime g), ''node'' \<mapsto> VStr (g_node g), ''collection'' \<mapsto> VStr (g_collection g),
       ''total_databases'' \<mapsto> VInt 0, ''total_tables'' \<mapsto> VInt 0, ''active_parts'' \<mapsto> VInt 0, ''total_size'' \<mapsto> VStr ''N/A''];
     v \<leftarrow> ask_row env ''SELECT version() AS version'' 1;
     u \<leftarrow> (if g_nodeUptime g = [] then ask_row env ''SELECT formatReadableTimeDelta(uptime()) AS uptime'' 1 else State_Monad.return None);
     t \<leftarrow> (if essential g then do { skip_panel ''table and part counts''; State_Monad.return None }
          else ask_row env (table_counts_sql mode) 2);
     q \<leftarrow> (if essential g then State_Monad.return None else ask_row env (part_counts_sql mode) 2);
     State_Monad.return (p ++ text_answer ''version'' v ++ text_answer ''uptime'' u ++
       (case t of Some [a, b] \<Rightarrow> [''total_databases'' \<mapsto> VInt (parseUInt64 a), ''total_tables'' \<mapsto> VInt (parseUInt64 b)] | _ \<Rightarrow> Map.empty) ++
       (case q of Some [a, b] \<Rightarrow> [''active_parts'' \<mapsto> VInt (parseUInt64 a), ''total_size'' \<mapsto> VStr (str_cell b)] | _ \<Rightarrow> Map.empty))
   }"

definition live_storage :: "live_env \<Rightarrow> live_conf \<Rightarrow> payload \<Rightarrow> (live, payload) state" where
  "live_storage env cf p = do {
     let mode = g_mode (lc_gen cf);
     p \<leftarrow> panel env cf ''storage_by_db'' (storage_by_db_sql mode) p;
     p \<leftarrow> panel env cf ''engines_dist'' (engines_dist_sql mode) p;
     panel env cf ''tables_list'' (tablesListSQL mode) p
   }"

definition live_queries :: "live_env \<Rightarrow> live_conf \<Rightarrow> payload \<Rightarrow> (live, payload) state" where
  "live_queries env cf p = do {
     let mode = g_mode (lc_gen cf);
     p \<leftarrow> panel env cf ''query_by_time'' (query_by_time_sql mode) p;
     p \<leftarrow> panel env cf ''query_by_kind'' (query_by_kind_sql mode) p;
     let p = (case g_hostInfo (lc_gen cf) of Some hi \<Rightarrow> addHostInfo hi p | None \<Rightarrow> p);
     logs \<leftarrow> hasTable env cf ''text_log'';
     p \<leftarrow> (if logs then do {
            host \<leftarrow> hasColumn env ''text_log'' ''hostname'';
            p \<leftarrow> panel env cf ''text_log'' (textLogSQL mode host) p;
            State_Monad.return (p(''text_log_row_cap'' \<mapsto> VInt (int textLogRowCap))) }
          else State_Monad.return p);
     p \<leftarrow> panel env cf ''query_slow'' (querySlowSQL mode) p;
     p \<leftarrow> panel env cf ''query_heavy'' (queryHeavySQL mode) p;
     p \<leftarrow> panel env cf ''query_by_user'' (queryByUserSQL mode) p;
     p \<leftarrow> panel env cf ''exceptions'' (exceptions_sql mode) p;
     p \<leftarrow> panel env cf ''part_log_by_time'' (part_log_by_time_sql mode) p;
     panel env cf ''part_log_by_type'' (part_log_by_type_sql mode) p
   }"

definition live_dictionaries :: "live_env \<Rightarrow> live_conf \<Rightarrow> payload \<Rightarrow> (live, payload) state" where
  "live_dictionaries env cf p = do {
     has_count \<leftarrow> hasColumn env ''dictionaries'' ''error_count'';
     ds \<leftarrow> safeQuery env cf ''dictionaries'' (dictionariesSQL (g_mode (lc_gen cf)) has_count);
     State_Monad.return (p(''dictionaries'' \<mapsto> rows_val (fst (redactDictionaryPanel ds))))
   }"

definition live_pending :: "live_env \<Rightarrow> live_conf \<Rightarrow> payload \<Rightarrow> (live, payload) state" where
  "live_pending env cf p = do {
     let mode = g_mode (lc_gen cf);
     p \<leftarrow> if_table env cf ''crash_log'' ''crash_log'' (State_Monad.return (crash_log_sql mode)) p;
     p \<leftarrow> panel env cf ''top_tables'' (topTablesSQL mode) p;
     killed \<leftarrow> hasColumn env ''mutations'' ''is_killed'';
     p \<leftarrow> panel env cf ''mutations'' (mutations_sql mode killed) p;
     bytes \<leftarrow> hasColumn env ''detached_parts'' ''bytes_on_disk'';
     p \<leftarrow> panel env cf ''detached'' (detached_sql mode bytes (lc_detachedScope cf)) p;
     p \<leftarrow> (if mode = ''cloud'' then panel env cf ''clusters'' clusters_sql p else State_Monad.return (p(''clusters'' \<mapsto> rows_val [])));
     p \<leftarrow> panel env cf ''replication_queue'' (replication_queue_sql mode) p;
     panel env cf ''replicas'' (replicas_sql mode) p
   }"

definition live_keeper :: "live_env \<Rightarrow> live_conf \<Rightarrow> payload \<Rightarrow> (live, payload) state" where
  "live_keeper env cf p = do {
     let mode = g_mode (lc_gen cf);
     metrics \<leftarrow> hasTable env cf ''metric_log'';
     p \<leftarrow> (if metrics then do {
            wait \<leftarrow> hasColumn env ''metric_log'' ''ProfileEvent_ZooKeeperWaitMicroseconds'';
            session \<leftarrow> hasColumn env ''metric_log'' ''CurrentMetric_ZooKeeperSession'';
            p \<leftarrow> panel env cf ''keeper_metric_hourly'' (keeperMetricSQL mode wait session) p;
            State_Monad.return (p(''keeper_wait_available'' \<mapsto> VBool wait, ''keeper_session_available'' \<mapsto> VBool session)) }
          else State_Monad.return (p(''keeper_metric_hourly'' \<mapsto> rows_val [], ''keeper_wait_available'' \<mapsto> VBool False,
            ''keeper_session_available'' \<mapsto> VBool False)));
     p \<leftarrow> if_table env cf ''metric_log'' ''pools_hourly'' (State_Monad.return (poolsMetricSQL mode)) p;
     pools \<leftarrow> poolSizes env cf;
     now \<leftarrow> ask_row env ''SELECT toString(now()) AS now'' 1;
     let p = p(''pool_sizes'' \<mapsto> pools, ''pools_now'' \<mapsto> VStr []) ++ text_answer ''pools_now'' now;
     errors \<leftarrow> hasTable env cf ''error_log'';
     p \<leftarrow> panel env cf ''keeper_errors_hourly'' (keeperErrorsSQL mode errors) p;
     let p = p(''keeper_errors_source'' \<mapsto> VStr (if errors
         then ''system.error_log '' @ long_dash @ '' every thread, background merges and fetches included''
         else ''system.query_log '' @ long_dash @ '' queries only; background merges, fetches and DDL workers are not counted (system.error_log needs 24.8+)''));
     if_table env cf ''zookeeper_connection'' ''keeper_connection''
       (do { xid \<leftarrow> hasColumn env ''zookeeper_connection'' ''xid''; State_Monad.return (keeperConnectionSQL mode xid) }) p
   }"

definition live_server :: "live_env \<Rightarrow> live_conf \<Rightarrow> payload \<Rightarrow> (live, payload) state" where
  "live_server env cf p = do {
     let mode = g_mode (lc_gen cf);
     p \<leftarrow> panel env cf ''disks'' (disks_sql mode) p;
     p \<leftarrow> panel env cf ''server_errors'' (server_errors_sql mode) p;
     p \<leftarrow> panel env cf ''high_part_count'' (high_part_count_sql mode) p;
     p \<leftarrow> panel env cf ''ttl_activity'' (ttl_activity_sql mode) p;
     if mode = ''gov'' then State_Monad.return (p(''async_inserts'' \<mapsto> rows_val []))
     else if_table env cf ''asynchronous_insert_log'' ''async_inserts''
       (do { has_rows \<leftarrow> hasColumn env ''asynchronous_insert_log'' ''rows''; State_Monad.return (async_inserts_sql mode has_rows) }) p
   }"

definition collect_live :: "live_env \<Rightarrow> live_conf \<Rightarrow> time \<Rightarrow> (live, payload) state" where
  "collect_live env cf now = do {
     p \<leftarrow> live_header env cf now;
     p \<leftarrow> live_storage env cf p;
     p \<leftarrow> live_queries env cf p;
     p \<leftarrow> live_dictionaries env cf p;
     p \<leftarrow> live_pending env cf p;
     p \<leftarrow> live_keeper env cf p;
     p \<leftarrow> live_server env cf p;
     collectAnalysis env cf p
   }"

section \<open>The schema page\<close>

definition schemaSysFilter :: string where
  "schemaSysFilter = sql_text [''database NOT IN (`system`, `INFORMATION_SCHEMA`, `information_schema`)'']"

definition schema_tables_sql :: "string \<Rightarrow> string \<Rightarrow> string" where
  "schema_tables_sql ddl targets =
     sql_text
      [[],
       ''~~SELECT database, name, engine, engine_full, ''] @
     ddl @
     sql_text
      ['','',
       ''~~       sorting_key, primary_key, partition_key, sampling_key,'',
       ''~~       total_rows, total_bytes, comment,'',
       ''~~       ''] @
     targets @
     sql_text
      ['','',
       ''~~       dependencies_database, dependencies_table,'',
       ''~~       loading_dependencies_database, loading_dependencies_table'',
       ''~~FROM system.tables'',
       ''~~WHERE ''] @
     schemaSysFilter @
     sql_text
      [[],
       ''~~ORDER BY database, name'']"

definition schema_columns_sql :: "string" where
  "schema_columns_sql =
     sql_text
      [[],
       ''~~SELECT database, table, name, type,'',
       ''~~       (is_in_primary_key OR is_in_sorting_key) AS is_key,'',
       ''~~       is_in_primary_key   AS pk,'',
       ''~~       is_in_sorting_key   AS sk,'',
       ''~~       is_in_partition_key AS pt,'',
       ''~~       is_in_sampling_key  AS sm,'',
       ''~~       default_kind != `` AS has_default'',
       ''~~FROM system.columns'',
       ''~~WHERE ''] @
     schemaSysFilter @
     sql_text
      [[],
       ''~~ORDER BY database, table, position'']"

definition schemaDictionariesSQL :: "string \<Rightarrow> string" where
  "schemaDictionariesSQL ref =
     sql_text
      [[],
       ''~~SELECT database, name,'',
       ''~~       any(source) AS source,'',
       ''~~       argMax(status, _rank) AS status,'',
       ''~~       any(lifetime_min) AS lifetime_min,'',
       ''~~       any(lifetime_max) AS lifetime_max,'',
       ''~~       argMax(leftUTF8(last_exception, 300), _rank) AS last_exception'',
       ''~~FROM ('',
       ''~~    SELECT database, name, source, status, lifetime_min, lifetime_max, last_exception,'',
       ''~~           multiIf(startsWith(toString(status), `FAILED`), 3,'',
       ''~~                   toString(status) IN (`LOADING`, `NOT_LOADED`), 2,'',
       ''~~                   1) AS _rank'',
       ''~~    FROM ''] @
     ref @
     sql_text
      [[],
       ''~~    WHERE ''] @
     schemaSysFilter @
     sql_text
      [[],
       ''~~)'',
       ''~~GROUP BY database, name'',
       ''~~ORDER BY database, name'']"

definition schemaIndicesSQL :: "string" where
  "schemaIndicesSQL =
     sql_text
      [[],
       ''~~SELECT database, table, name, type, expr, granularity'',
       ''~~FROM system.data_skipping_indices'',
       ''~~WHERE ''] @
     schemaSysFilter @
     sql_text
      [[],
       ''~~ORDER BY database, table, name'']"

definition schemaRefreshesSQL :: "string \<Rightarrow> string" where
  "schemaRefreshesSQL ref =
     sql_text
      [[],
       ''~~SELECT database, view,'',
       ''~~       argMax(status, status != `RunningOnAnotherReplica`) AS status,'',
       ''~~       toString(max(last_success_time))                    AS last_success_time,'',
       ''~~       toString(max(next_refresh_time))                    AS next_refresh_time,'',
       ''~~       argMax(exception, exception != ``)                  AS exception'',
       ''~~FROM ''] @
     ref @
     sql_text
      [[],
       ''~~GROUP BY database, view'']"

definition function_sql :: string where
  "function_sql = sql_text [''SELECT count() FROM system.functions WHERE name = `formatQueryOrNull`'']"

definition collectSchemaGraph :: "live_env \<Rightarrow> live_conf \<Rightarrow> time \<Rightarrow> string \<Rightarrow> (live, schema_graph option) state" where
  "collectSchemaGraph env cf now version = do {
     let mode = g_mode (lc_gen cf);
     tgt \<leftarrow> hasColumn env ''tables'' ''target_table'';
     let targets = (if tgt then ''target_database, target_table'' else sql_text [''`` AS target_database, `` AS target_table'']);
     formatted \<leftarrow> probe env ''fn:formatQueryOrNull'' function_sql;
     let ddl = (if formatted then ''coalesce(formatQueryOrNull(create_table_query), create_table_query) AS create_table_query''
                else ''create_table_query'');
     tables \<leftarrow> safeQuery env cf ''schema_tables'' (schema_tables_sql ddl targets);
     columns \<leftarrow> safeQuery env cf ''schema_columns'' schema_columns_sql;
     has_indices \<leftarrow> hasTable env cf ''data_skipping_indices'';
     indices \<leftarrow> (if has_indices then safeQuery env cf ''schema_indices'' schemaIndicesSQL else State_Monad.return []);
     dicts \<leftarrow> safeQuery env cf ''schema_dictionaries'' (schemaDictionariesSQL (SysTable mode ''dictionaries''));
     if \<not> schemaGraphHasContent tables dicts then State_Monad.return None
     else do {
       has_refreshes \<leftarrow> hasTable env cf ''view_refreshes'';
       refreshes \<leftarrow> (if has_refreshes then safeQuery env cf ''schema_refreshes'' (schemaRefreshesSQL (SysTable mode ''view_refreshes''))
                     else State_Monad.return []);
       let (tables, n) = redactSchemaRecords [''create_table_query'', ''engine_full''] tables;
       let (dicts, m) = redactSchemaRecords [''source'', ''last_exception''] dicts;
       State (\<lambda>s. ((), s\<lparr>lv_out := lv_out s @ hidden_line (n + m)\<rparr>));
       has_refresh \<leftarrow> hasTable env cf ''view_refreshes'';
       State_Monad.return (Some \<lparr>sg_generated_at = fmt_datetime now @ '' UTC'', sg_version = version, sg_mode = mode, sg_tables = tables,
         sg_columns = columns, sg_dictionaries = dicts, sg_refreshes = refreshes, sg_indices = indices, sg_ddl_formatted = formatted,
         sg_has_target = has_prefix targets ''target_'', sg_has_refresh = has_refresh\<rparr>)
     }
   }"

end
