(* ===== verification/LiveProps.thy ===== *)
theory LiveProps
  imports LiveQueries
begin

text \<open>
  What the live dashboard sends: the probes, the queries of its own panels (the heavy ones only outside an essential run, the Keeper one
  only with a Keeper session) and the analysis queries that passed the read-only check. And how the probes decide: a column is taken to
  be absent only on the word of the server.
\<close>

section \<open>What is sent\<close>

definition probe_sql :: "string \<Rightarrow> string \<Rightarrow> bool" where
  "probe_sql mode q \<longleftrightarrow> (\<exists>t. q = visible_sql t) \<or> (\<exists>t c. q = column_sql t c) \<or> q = any_table_sql mode \<or>
     (\<exists>t. q = any_table_sql mode @ '' AND name='' @ quoted t) \<or> q = function_sql"

definition scalar_sql :: "string \<Rightarrow> string \<Rightarrow> bool" where
  "scalar_sql mode q \<longleftrightarrow> q \<in> {''SELECT version() AS version'', ''SELECT formatReadableTimeDelta(uptime()) AS uptime'', ''SELECT toString(now()) AS now''} \<or>
     (\<exists>table setting. q = ''SELECT min(toUInt64OrZero(value)) FROM '' @ SysTable mode table @ '' WHERE name = '' @ quoted setting)"

text \<open>The panels that read every table.\<close>

definition heavy_sql :: "live_conf \<Rightarrow> string \<Rightarrow> bool" where
  "heavy_sql cf q \<longleftrightarrow> (let mode = g_mode (lc_gen cf) in
     q \<in> {table_counts_sql mode, part_counts_sql mode, storage_by_db_sql mode, engines_dist_sql mode, tablesListSQL mode, topTablesSQL mode,
        high_part_count_sql mode} \<or> (\<exists>b. q = detached_sql mode b (lc_detachedScope cf)))"

definition light_sql :: "string \<Rightarrow> string \<Rightarrow> bool" where
  "light_sql mode q \<longleftrightarrow>
     q \<in> {query_by_time_sql mode, query_by_kind_sql mode, querySlowSQL mode, queryHeavySQL mode, queryByUserSQL mode, exceptions_sql mode,
        part_log_by_time_sql mode, part_log_by_type_sql mode, crash_log_sql mode, clusters_sql, replication_queue_sql mode, replicas_sql mode,
        poolsMetricSQL mode, disks_sql mode, server_errors_sql mode, ttl_activity_sql mode} \<or>
     (\<exists>b. q = textLogSQL mode b) \<or> (\<exists>b. q = dictionariesSQL mode b) \<or> (\<exists>b. q = mutations_sql mode b) \<or>
     (\<exists>a b. q = keeperMetricSQL mode a b) \<or> (\<exists>b. q = keeperErrorsSQL mode b) \<or> (\<exists>b. q = async_inserts_sql mode b)"

definition keeper_sql :: "string \<Rightarrow> string \<Rightarrow> bool" where
  "keeper_sql mode q \<longleftrightarrow> (\<exists>b. q = keeperConnectionSQL mode b)"

definition schema_sql :: "string \<Rightarrow> string \<Rightarrow> bool" where
  "schema_sql mode q \<longleftrightarrow> (\<exists>ddl targets. q = schema_tables_sql ddl targets) \<or>
     q \<in> {schema_columns_sql, schemaIndicesSQL, schemaDictionariesSQL (SysTable mode ''dictionaries''), schemaRefreshesSQL (SysTable mode ''view_refreshes'')}"

definition live_sql :: "live_conf \<Rightarrow> string \<Rightarrow> bool" where
  "live_sql cf q \<longleftrightarrow> (let mode = g_mode (lc_gen cf) in
     probe_sql mode q \<or> scalar_sql mode q \<or> light_sql mode q \<or> (\<not> essential (lc_gen cf) \<and> (heavy_sql cf q \<or> schema_sql mode q)) \<or>
     (\<not> lc_keeperDown cf \<and> keeper_sql mode q) \<or> validate_query_content q = None)"

text \<open>The body of a request: the query with its format clause, or in a dry run the estimate of one.\<close>

definition sent_body :: "string \<Rightarrow> string \<Rightarrow> bool" where
  "sent_body q body \<longleftrightarrow> (let sql = q @ NL # ''FORMAT JSONCompact'' in
     body = sql \<or> body = ''EXPLAIN ESTIMATE '' @ stripTrailingFormatClause sql @ '' FORMAT PrettyCompactMonoBlock'')"

definition sent_ok :: "(string \<Rightarrow> bool) \<Rightarrow> http_request effect \<Rightarrow> bool" where
  "sent_ok P e \<longleftrightarrow> (case e of Sent r \<Rightarrow> \<exists>q. P q \<and> sent_body q (q_body r) | Printed _ \<Rightarrow> True)"

definition sends :: "(string \<Rightarrow> bool) \<Rightarrow> (live, 'a) state \<Rightarrow> bool" where
  "sends P m \<longleftrightarrow> state_io_rel (\<lambda>s s'. \<exists>fx. lv_net s' = lv_net s @ fx \<and> list_all (sent_ok P) fx) m"

named_theorems sending

lemma sends_bind [sending]: "sends P m \<Longrightarrow> (\<And>a. sends P (f a)) \<Longrightarrow> sends P (m \<bind> f)"
  unfolding sends_def state_io_rel_def by (auto split: prod.split) (metis append_assoc list_all_append snd_conv)

lemma sends_quiet: "(\<And>s. lv_net (snd (run_state m s)) = lv_net s) \<Longrightarrow> sends P m"
  unfolding sends_def state_io_rel_def by auto

lemma sends_return [sending]: "sends P (State_Monad.return x)"
  by (rule sends_quiet) simp

lemma sends_small [sending]: "sends P (say t)" "sends P (skip_panel t)" "sends P (ask_stop env)" "sends P (cached key)"
    "sends P (remember key v)" "sends P panic" "sends P (State (\<lambda>s. ((), s\<lparr>lv_out := h s\<rparr>)))"
  by (rule sends_quiet; simp add: say_def skip_panel_def ask_stop_def cached_def remember_def panic_def)+

lemma sends_if [sending]: "(c \<Longrightarrow> sends P m) \<Longrightarrow> (\<not> c \<Longrightarrow> sends P n) \<Longrightarrow> sends P (if c then m else n)"
  by simp

lemma sends_cases [sending]:
  "(\<And>a b. sends P (f a b)) \<Longrightarrow> sends P (case p of (a, b) \<Rightarrow> f a b)"
  "sends P m \<Longrightarrow> (\<And>a. sends P (h a)) \<Longrightarrow> sends P (case x of None \<Rightarrow> m | Some a \<Rightarrow> h a)"
  "(\<And>a. sends P (k a)) \<Longrightarrow> (\<And>a. sends P (l a)) \<Longrightarrow> sends P (case y of Inl a \<Rightarrow> k a | Inr a \<Rightarrow> l a)"
  "sends P m' \<Longrightarrow> (\<And>a as. sends P (j a as)) \<Longrightarrow> sends P (case z of [] \<Rightarrow> m' | a # as \<Rightarrow> j a as)"
  by (auto split: prod.split option.split sum.split list.split)

lemma sends_exec: "P q \<Longrightarrow> sends P (execJSON env q)"
  unfolding sends_def
proof (rule state_io_relI)
  fix a s s'
  assume P: "P q" and run: "run_state (execJSON env q) s = (a, s')"
  show "\<exists>fx. lv_net s' = lv_net s @ fx \<and> list_all (sent_ok P) fx"
  proof (cases "lv_panic s")
    case False
    obtain r c fx where x: "ExecuteQueryWithFormat (le_http env (lv_tick s)) (lv_client s) q = (r, c, fx)" by (metis prod.exhaust)
    have "list_all (sent_ok P) fx"
      unfolding list_all_iff
    proof
      fix e assume e: "e \<in> set fx"
      show "sent_ok P e"
      proof (cases e)
        case (Sent rq)
        with e have "rq \<in> set (requests fx)" by (simp add: in_requests)
        with ExecuteQuery_sends [OF x [unfolded ExecuteQueryWithFormat_def]] P show ?thesis
          by (auto simp: sent_ok_def Sent sent_body_def Let_def)
      qed (simp add: sent_ok_def)
    qed
    moreover have "lv_net s' = lv_net s @ fx" using run False by (auto simp: execJSON_def x)
    ultimately show ?thesis by blast
  qed (use run in \<open>auto simp: execJSON_def\<close>)
qed

lemma sends_scalar: "P q \<Longrightarrow> sends P (scalarCount env q)"
  unfolding scalarCount_def by (intro sending sends_exec)

lemma sends_probe: "P q \<Longrightarrow> sends P (probe env key q)"
  unfolding probe_def by (intro sending sends_scalar)

lemma sends_safe:
  "(\<not> (essential (lc_gen cf) \<and> label \<in> set heavyPanels) \<Longrightarrow> \<not> (lc_keeperDown cf \<and> label \<in> set keeperPanels) \<Longrightarrow> P q) \<Longrightarrow>
   sends P (safeQuery env cf label q)"
  unfolding safeQuery_def by (intro sending sends_exec) blast+

lemma live_probe: "probe_sql (g_mode (lc_gen cf)) q \<Longrightarrow> live_sql cf q" by (simp add: live_sql_def)

lemma live_scalar: "scalar_sql (g_mode (lc_gen cf)) q \<Longrightarrow> live_sql cf q" by (simp add: live_sql_def)

lemma live_light: "light_sql (g_mode (lc_gen cf)) q \<Longrightarrow> live_sql cf q" by (simp add: live_sql_def)

lemma sends_column [sending]: "sends (live_sql cf) (hasColumn env table column)"
  unfolding hasColumn_def probeCanSeeColumns_def
  by (intro sending sends_probe live_probe) (auto simp: probe_sql_def)

lemma sends_table [sending]: "sends (live_sql cf) (hasTable env cf table)"
  unfolding hasTable_def Let_def
  by (intro sending sends_probe live_probe) (auto simp: probe_sql_def)

lemma sends_row: "live_sql cf q \<Longrightarrow> sends (live_sql cf) (ask_row env q n)"
  unfolding ask_row_def by (intro sending sends_exec)

lemma sends_panel:
  "(\<not> (essential (lc_gen cf) \<and> label \<in> set heavyPanels) \<Longrightarrow> \<not> (lc_keeperDown cf \<and> label \<in> set keeperPanels) \<Longrightarrow> live_sql cf q) \<Longrightarrow>
   sends (live_sql cf) (panel env cf label q p)"
  unfolding panel_def by (intro sending sends_safe) blast

lemma sends_light: "light_sql (g_mode (lc_gen cf)) q \<Longrightarrow> sends (live_sql cf) (panel env cf label q p)"
  by (rule sends_panel) (simp add: live_sql_def)

lemma sends_heavy: "heavy_sql cf q \<Longrightarrow> label \<in> set heavyPanels \<Longrightarrow> sends (live_sql cf) (panel env cf label q p)"
  by (rule sends_panel) (simp add: live_sql_def)

lemma light_facts:
  "light_sql m (query_by_time_sql m)"
  "light_sql m (query_by_kind_sql m)"
  "light_sql m (querySlowSQL m)"
  "light_sql m (queryHeavySQL m)"
  "light_sql m (queryByUserSQL m)"
  "light_sql m (exceptions_sql m)"
  "light_sql m (part_log_by_time_sql m)"
  "light_sql m (part_log_by_type_sql m)"
  "light_sql m (crash_log_sql m)"
  "light_sql m (clusters_sql)"
  "light_sql m (replication_queue_sql m)"
  "light_sql m (replicas_sql m)"
  "light_sql m (poolsMetricSQL m)"
  "light_sql m (disks_sql m)"
  "light_sql m (server_errors_sql m)"
  "light_sql m (ttl_activity_sql m)"
  "light_sql m (textLogSQL m b)"
  "light_sql m (dictionariesSQL m b)"
  "light_sql m (mutations_sql m b)"
  "light_sql m (keeperMetricSQL m a b)"
  "light_sql m (keeperErrorsSQL m b)"
  "light_sql m (async_inserts_sql m b)"
  by (auto simp: light_sql_def)

lemmas sends_lights = light_facts [THEN sends_light]

lemma sends_heavies:
  "sends (live_sql cf) (panel env cf ''storage_by_db'' (storage_by_db_sql (g_mode (lc_gen cf))) p)"
  "sends (live_sql cf) (panel env cf ''engines_dist'' (engines_dist_sql (g_mode (lc_gen cf))) p)"
  "sends (live_sql cf) (panel env cf ''tables_list'' (tablesListSQL (g_mode (lc_gen cf))) p)"
  "sends (live_sql cf) (panel env cf ''top_tables'' (topTablesSQL (g_mode (lc_gen cf))) p)"
  "sends (live_sql cf) (panel env cf ''high_part_count'' (high_part_count_sql (g_mode (lc_gen cf))) p)"
  "sends (live_sql cf) (panel env cf ''detached'' (detached_sql (g_mode (lc_gen cf)) b (lc_detachedScope cf)) p)"
  by (rule sends_heavy; auto simp: heavy_sql_def heavyPanels_def Let_def)+

lemma sends_keeper_panel:
  "sends (live_sql cf) (panel env cf ''keeper_connection'' (keeperConnectionSQL (g_mode (lc_gen cf)) b) p)"
proof (rule sends_panel)
  assume "\<not> (lc_keeperDown cf \<and> ''keeper_connection'' \<in> set keeperPanels)"
  then have "\<not> lc_keeperDown cf" by (simp add: keeperPanels_def)
  then show "live_sql cf (keeperConnectionSQL (g_mode (lc_gen cf)) b)" by (auto simp: live_sql_def keeper_sql_def Let_def)
qed

lemma sends_header: "sends (live_sql cf) (live_header env cf now)"
  unfolding live_header_def Let_def
  by (intro sending sends_row) (auto simp: live_sql_def scalar_sql_def heavy_sql_def)

lemma sends_storage: "sends (live_sql cf) (live_storage env cf p)"
  unfolding live_storage_def Let_def by (intro sending sends_heavies)

lemma sends_queries: "sends (live_sql cf) (live_queries env cf p)"
  unfolding live_queries_def Let_def by (intro sending sends_lights)

lemma sends_dictionaries: "sends (live_sql cf) (live_dictionaries env cf p)"
  unfolding live_dictionaries_def
  by (intro sending sends_safe live_light) (auto simp: light_sql_def)

lemma sends_server: "sends (live_sql cf) (live_server env cf p)"
  unfolding live_server_def if_table_def Let_def bind_assoc bind_left_identity by (intro sending sends_lights sends_heavies)

lemma sends_pending: "sends (live_sql cf) (live_pending env cf p)"
  unfolding live_pending_def if_table_def Let_def bind_assoc bind_left_identity by (intro sending sends_lights sends_heavies)

lemma sends_pools: "sends (live_sql cf) (ask_pools env (g_mode (lc_gen cf)) table ks m)"
proof (induction ks arbitrary: m)
  case (Cons k ks)
  have "live_sql cf (''SELECT min(toUInt64OrZero(value)) FROM '' @ SysTable (g_mode (lc_gen cf)) table @ '' WHERE name = '' @ quoted (snd k))"
    by (rule live_scalar) (unfold scalar_sql_def, blast)
  then show ?case by (cases k) (auto intro!: sending sends_scalar Cons)
qed (simp add: sending)

lemma sends_sizes: "sends (live_sql cf) (poolSizes env cf)"
  unfolding poolSizes_def Let_def by (intro sending sends_pools)

lemma sends_keeper: "sends (live_sql cf) (live_keeper env cf p)"
proof -
  have now: "live_sql cf ''SELECT toString(now()) AS now''" by (simp add: live_sql_def scalar_sql_def)
  show ?thesis unfolding live_keeper_def if_table_def Let_def bind_assoc bind_left_identity
    by (intro sending sends_sizes sends_row [OF now] sends_lights sends_keeper_panel)
qed

lemma sends_analysis_panel: "sends (live_sql cf) (analysis_panel env cf resolved kf p)"
proof (cases kf)
  case (Pair key fname)
  have ok: "validate_query_content sql = None \<Longrightarrow> live_sql cf sql" for sql by (simp add: live_sql_def)
  show ?thesis unfolding Pair analysis_panel_def prod.case Let_def
  proof (split sum.split, intro conjI allI impI)
    fix raw
    let ?sql = "stripTrailingFormat (ApplyVars raw (live_vars cf))"
    show "sends (live_sql cf) (if UnboundPlaceholders (ApplyVars raw (live_vars cf)) \<noteq> [] then State_Monad.return p
      else case validate_query_content ?sql of
        Some e \<Rightarrow> do { say (key @ '': blocked analysis query in '' @ fname @ '': '' @ validation_text e); State_Monad.return p }
      | None \<Rightarrow> do { rs \<leftarrow> safeQuery env cf key ?sql;
          State_Monad.return (p(key \<mapsto> rows_val (map (clear_sensitive (g_mode (lc_gen cf))) rs))) })"
    proof (cases "validate_query_content ?sql")
      case None
      then show ?thesis by (auto intro!: sending sends_safe ok)
    next
      case (Some e)
      then show ?thesis by (auto intro!: sending)
    qed
  qed (intro sending)
qed

lemma sends_live_panels: "sends (live_sql cf) (live_panels env cf resolved kfs p)"
  by (induction kfs arbitrary: p) (auto intro!: sending sends_analysis_panel)

lemma sends_analysis: "sends (live_sql cf) (collectAnalysis env cf p)"
  unfolding collectAnalysis_def Let_def by (intro sending sends_live_panels)

lemma sends_collect: "sends (live_sql cf) (collect_live env cf now)"
  unfolding collect_live_def
  by (intro sending sends_header sends_storage sends_queries sends_dictionaries sends_pending sends_keeper sends_server sends_analysis)

lemma sends_schema:
  assumes "\<not> essential (lc_gen cf)"
  shows "sends (live_sql cf) (collectSchemaGraph env cf now version)"
proof -
  have schema: "schema_sql (g_mode (lc_gen cf)) q \<Longrightarrow> live_sql cf q" for q using assms by (simp add: live_sql_def)
  have fn: "live_sql cf function_sql" by (simp add: live_sql_def probe_sql_def)
  show ?thesis unfolding collectSchemaGraph_def Let_def redactSchemaRecords_def prod.case
    by (intro sending sends_probe [where P = "live_sql cf" and q = function_sql, OF fn] sends_safe schema) (auto simp: schema_sql_def)
qed

section \<open>Probes\<close>

text \<open>A schema question is answered once: the answer is kept in the cache, and the cache only grows.\<close>

lemma probe_remembers:
  assumes "run_state (probe env key sql) s = (v, s')"
  shows "lv_cache s' key = Some v"
  using assms
  by (auto simp: probe_def cached_def remember_def say_def scalarCount_def split: option.splits sum.splits prod.splits)

lemma probe_known: "lv_cache s key = Some v \<Longrightarrow> run_state (probe env key sql) s = (v, s)"
  by (simp add: probe_def cached_def)

lemma probe_false:
  assumes "run_state (probe env key sql) s = (False, s')" "lv_cache s key = None"
  shows "\<exists>d s1. run_state (execJSON env sql) s = (Inr d, s1) \<and> scalar_of d \<le> 0"
proof -
  obtain r s1 where x: "run_state (execJSON env sql) s = (r, s1)" by fastforce
  then show ?thesis using assms
    by (cases r) (auto simp: probe_def cached_def remember_def say_def scalarCount_def split: if_splits)
qed

lemma probe_true:
  assumes "run_state (probe env key sql) s = (True, s')" "lv_cache s key = None"
  shows "lv_cache s' = (lv_cache s)(key \<mapsto> True) \<and>
    (\<exists>r s1. run_state (execJSON env sql) s = (r, s1) \<and> lv_net s' = lv_net s1 \<and> lv_tick s' = lv_tick s1 \<and>
      (case r of Inl _ \<Rightarrow> True | Inr d \<Rightarrow> scalar_of d > 0))"
proof -
  obtain r s1 where x: "run_state (execJSON env sql) s = (r, s1)" by fastforce
  have "lv_cache s1 = lv_cache s" using x by (auto simp: execJSON_def split: if_splits prod.splits)
  then show ?thesis using assms x
    by (cases r) (auto simp: probe_def cached_def remember_def say_def scalarCount_def split: if_splits)
qed

lemma column_absent:
  assumes "run_state (hasColumn env table column) s = (False, s')" "lv_cache s = Map.empty"
  shows "\<exists>r s1 d s2 s3. run_state (execJSON env (visible_sql table)) s = (r, s1) \<and> (case r of Inl _ \<Rightarrow> True | Inr d \<Rightarrow> scalar_of d > 0) \<and>
    lv_net s2 = lv_net s1 \<and> lv_tick s2 = lv_tick s1 \<and> run_state (execJSON env (column_sql table column)) s2 = (Inr d, s3) \<and> scalar_of d \<le> 0"
proof -
  obtain v s2 where vis: "run_state (probe env (''visible:'' @ table) (visible_sql table)) s = (v, s2)" by fastforce
  have v: "v = True" and col: "run_state (probe env (table @ ''.'' @ column) (column_sql table column)) s2 = (False, s')"
    using assms vis by (auto simp: hasColumn_def probeCanSeeColumns_def cached_def say_def split: if_splits)
  note t = probe_true [OF vis [unfolded v]]
  then have cache: "lv_cache s2 = [''visible:'' @ table \<mapsto> True]" using assms(2) by simp
  then have "lv_cache s2 (table @ ''.'' @ column) = None"
    using col probe_known [of s2 "table @ ''.'' @ column" True env "column_sql table column"] by (auto split: if_splits)
  from probe_false [OF col this] t assms(2) show ?thesis by fastforce
qed

section \<open>Properties\<close>


text \<open>C40: A column is taken to be absent only on the word of the server: with nothing in the cache, \<open>hasColumn\<close> says no only when the
  server, asked whether it shows any column of the table, did not say no, and next, asked for the column, counted none. An error never
  makes a column absent.\<close>

theorem column_absent_on_word:
  assumes "run_state (hasColumn env table column) s = (False, s')" "lv_cache s = Map.empty"
  shows "\<exists>r s1 d s2 s3. run_state (execJSON env (visible_sql table)) s = (r, s1) \<and> (case r of Inl _ \<Rightarrow> True | Inr d \<Rightarrow> scalar_of d > 0) \<and>
    lv_net s2 = lv_net s1 \<and> lv_tick s2 = lv_tick s1 \<and> run_state (execJSON env (column_sql table column)) s2 = (Inr d, s3) \<and> scalar_of d \<le> 0"
  using assms by (rule column_absent)

definition count_answer :: "string \<Rightarrow> string" where
  "count_answer n = ''{'' @ [DQUOTE] @ ''data'' @ [DQUOTE] @ '':[['' @ n @ '']],'' @ [DQUOTE] @ ''rows'' @ [DQUOTE] @ '':1}''"

text \<open>A server that shows a table's columns, but not the one asked for.\<close>

definition demo_live :: live_env where
  "demo_live = \<lparr>le_http = (\<lambda>n q. HAnswer 200 (count_answer (if n = 0 then ''5'' else ''0''))), le_stop = (\<lambda>_. True),
     le_jerr = (\<lambda>_. []), le_order = demo_ce (\<lambda>n. [0..<n]), le_read = (\<lambda>_. Inl []), le_tree = FDir [] []\<rparr>"

definition demo_start :: live where
  "demo_start = \<lparr>lv_client = NewClickHouseClient ''http'' ''h'' ''8123'' [] [], lv_cache = Map.empty, lv_skipped = [], lv_net = [],
     lv_out = [], lv_tick = 0, lv_panic = False\<rparr>"

lemma demo_answers: "ch_doc (count_answer ''5'') = Some \<lparr>ch_names = [], ch_data = [[JNum ''5'']], ch_rows = 1\<rparr>"
    "ch_doc (count_answer ''0'') = Some \<lparr>ch_names = [], ch_data = [[JNum ''0'']], ch_rows = 1\<rparr>"
  by code_simp+

lemma demo_exec:
  "\<not> lv_panic s \<Longrightarrow> \<not> c_dryRun (lv_client s) \<Longrightarrow> \<exists>fx.
     run_state (execJSON demo_live q) s =
       (Inr \<lparr>ch_names = [], ch_data = [[JNum (if lv_tick s = 0 then ''5'' else ''0'')]], ch_rows = 1\<rparr>,
        s\<lparr>lv_net := lv_net s @ fx, lv_tick := Suc (lv_tick s)\<rparr>)"
  by (auto simp: execJSON_def ExecuteQueryWithFormat_def ExecuteQuery_def executeReal_def executeWith_def interpret_result_def demo_live_def
      demo_answers Let_def)

lemma demo_scalar: "scalar_of \<lparr>ch_names = [], ch_data = [[JNum ''5'']], ch_rows = 1\<rparr> = 5"
    "scalar_of \<lparr>ch_names = [], ch_data = [[JNum ''0'']], ch_rows = 1\<rparr> = 0"
  by code_simp+

lemma column_absent_on_word_witness:
  "\<exists>s'. run_state (hasColumn demo_live ''mutations'' ''is_killed'') demo_start = (False, s') \<and>
    (\<exists>d s2 s3. run_state (execJSON demo_live (column_sql ''mutations'' ''is_killed'')) s2 = (Inr d, s3) \<and> scalar_of d \<le> 0)"
proof -
  have start: "\<not> lv_panic demo_start" "\<not> c_dryRun (lv_client demo_start)" "lv_tick demo_start = 0" "lv_cache demo_start = Map.empty"
    by (simp_all add: demo_start_def NewClickHouseClient_def)
  obtain fx where one: "run_state (execJSON demo_live (visible_sql ''mutations'')) demo_start =
      (Inr \<lparr>ch_names = [], ch_data = [[JNum ''5'']], ch_rows = 1\<rparr>, demo_start\<lparr>lv_net := lv_net demo_start @ fx, lv_tick := Suc 0\<rparr>)"
    using demo_exec [OF start(1,2), of "visible_sql ''mutations''"] start(3) by auto
  let ?s = "demo_start\<lparr>lv_net := lv_net demo_start @ fx, lv_tick := Suc 0, lv_cache := [''visible:mutations'' \<mapsto> True]\<rparr>"
  obtain gx where two: "run_state (execJSON demo_live (column_sql ''mutations'' ''is_killed'')) ?s =
      (Inr \<lparr>ch_names = [], ch_data = [[JNum ''0'']], ch_rows = 1\<rparr>, ?s\<lparr>lv_net := lv_net ?s @ gx, lv_tick := Suc (Suc 0)\<rparr>)"
    using demo_exec [of ?s "column_sql ''mutations'' ''is_killed''"] start by auto
  have "fst (run_state (hasColumn demo_live ''mutations'' ''is_killed'') demo_start) = False"
    by (simp add: hasColumn_def probeCanSeeColumns_def probe_def cached_def remember_def scalarCount_def start one two demo_scalar)
  then obtain s' where run: "run_state (hasColumn demo_live ''mutations'' ''is_killed'') demo_start = (False, s')"
    by (cases "run_state (hasColumn demo_live ''mutations'' ''is_killed'') demo_start") simp
  with column_absent_on_word [OF run start(4)] show ?thesis by blast
qed

section \<open>Where the code and its comments differ\<close>

text \<open>\<open>WithStop\<close> says the remaining live queries are skipped once the time budget is spent; the ones that are not a panel's rows - here the
  first, for the version - are sent all the same.\<close>

lemma exec_sends_first:
  assumes "\<not> lv_panic s" "\<not> c_dryRun (lv_client s)"
  shows "\<exists>r. lv_net (snd (run_state (execJSON env q) s)) = lv_net s @ [Sent r] \<and> q_body r = q @ NL # ''FORMAT JSONCompact''"
  using assms by (auto simp: execJSON_def ExecuteQueryWithFormat_def ExecuteQuery_def executeReal_def executeWith_def Let_def split: prod.split)

lemma first_then:
  assumes "\<And>x. sends P (f x)" "\<not> lv_panic s" "\<not> c_dryRun (lv_client s)"
  shows "\<exists>r fx. lv_net (snd (run_state (execJSON env q \<bind> f) s)) = lv_net s @ Sent r # fx \<and> q_body r = q @ NL # ''FORMAT JSONCompact''"
proof -
  obtain res s1 where one: "run_state (execJSON env q) s = (res, s1)" by fastforce
  obtain fx where fx: "lv_net (snd (run_state (f res) s1)) = lv_net s1 @ fx"
    using assms(1) [of res] by (auto simp: sends_def state_io_rel_def)
  with exec_sends_first [OF assms(2,3), of env q] one show ?thesis by auto
qed

lemma stop_still_asks:
  assumes "\<not> lv_panic s" "\<not> c_dryRun (lv_client s)" "le_stop env = (\<lambda>_. True)"
  shows "\<exists>r fx. lv_net (snd (run_state (collect_live env cf now) s)) = lv_net s @ Sent r # fx \<and>
    q_body r = ''SELECT version() AS version'' @ NL # ''FORMAT JSONCompact''"
  unfolding collect_live_def live_header_def ask_row_def Let_def bind_assoc
proof (rule first_then [where P = "live_sql cf", OF _ assms(1,2)], goal_cases)
  case (1 x)
  have sql: "live_sql cf ''SELECT formatReadableTimeDelta(uptime()) AS uptime''" by (simp add: live_sql_def scalar_sql_def)
  have heavy: "\<not> essential (lc_gen cf) \<Longrightarrow> live_sql cf (table_counts_sql (g_mode (lc_gen cf)))"
    "\<not> essential (lc_gen cf) \<Longrightarrow> live_sql cf (part_counts_sql (g_mode (lc_gen cf)))"
    by (simp_all add: live_sql_def heavy_sql_def)
  show ?case
    by (intro sending sends_storage sends_queries sends_dictionaries sends_pending sends_keeper sends_server sends_analysis
        sends_exec sql heavy)
qed

text \<open>An answer that says it has rows and carries none is an index out of range.\<close>

lemma rows_without_data_panic:
  "ch_doc (''{'' @ [DQUOTE] @ ''rows'' @ [DQUOTE] @ '':1}'') = Some \<lparr>ch_names = [], ch_data = [], ch_rows = 1\<rparr>"
  by code_simp

lemma rows_without_data:
  assumes "run_state (execJSON env q) s = (Inr \<lparr>ch_names = ns, ch_data = [], ch_rows = 1\<rparr>, s1)"
  shows "lv_panic (snd (run_state (ask_row env q n) s))"
  by (simp add: ask_row_def assms panic_def)

text \<open>Without a Keeper session the panel of the Keeper connection is left out; that of the replicas, whose query reads the numbers of
  replicas that the code says come from Keeper, is asked for all the same.\<close>

lemma replicas_asked_without_keeper: "''replicas'' \<notin> set keeperPanels" "lc_keeperDown cf \<Longrightarrow> live_sql cf (replicas_sql (g_mode (lc_gen cf)))"
  by (simp add: keeperPanels_def) (rule live_light [OF light_facts(12)])

end
