(* ===== verification/Spec2Isabelle.thy ===== *)
theory Spec2Isabelle
  imports Executor QueryInputs QueryScope Sanitizer LogFiles Archive CheckContracts KeeperMembers ClusterCollect HostInfo ModeSelection AnalysisRun LiveProps
begin

text \<open>
  A verification development for \<open>clickhouse-diagnostic\<close>.
\<close>

end
